(* ===== verification/Prelude.thy ===== *)
theory Prelude
  imports Main "HOL-Library.Word" "HOL-Library.Signed_Division"
begin

text \<open>
  Shared vocabulary of the development: the machine-integer types of the Rust code, its
  casts and shifts, the arithmetic with an overflow flag, and the word and list lemmas that
  every component uses. Rust's \<^verbatim>\<open>as\<close> between unsigned types is \<open>ucast\<close>; a cast through a
  signed type is \<open>scast\<close>. A shift by an amount that the code masks first is written with the
  mask, as the code has it.

  The last section declares the interface locales that several components implement. Each is
  interpreted in the theory of the component that provides the operations.
\<close>

unbundle bit_operations_syntax

section \<open>Types\<close>

type_synonym u8 = "8 word"
type_synonym u16 = "16 word"
type_synonym u32 = "32 word"
type_synonym u64 = "64 word"
type_synonym u128 = "128 word"

abbreviation to_u8 :: "'a::len word \<Rightarrow> u8" where "to_u8 \<equiv> ucast"
abbreviation to_u16 :: "'a::len word \<Rightarrow> u16" where "to_u16 \<equiv> ucast"
abbreviation to_u32 :: "'a::len word \<Rightarrow> u32" where "to_u32 \<equiv> ucast"
abbreviation to_u64 :: "'a::len word \<Rightarrow> u64" where "to_u64 \<equiv> ucast"
abbreviation to_u128 :: "'a::len word \<Rightarrow> u128" where "to_u128 \<equiv> ucast"

text \<open>\<open>shl v n\<close>, \<open>shr v n\<close> and \<open>sar v n\<close> are Rust's \<open><<\<close> and \<open>>>\<close> by a number below the
  width: logical on unsigned types, arithmetic on signed ones.\<close>

abbreviation shl :: "'a::len word \<Rightarrow> nat \<Rightarrow> 'a word" where "shl v n \<equiv> push_bit n v"
abbreviation shr :: "'a::len word \<Rightarrow> nat \<Rightarrow> 'a word" where "shr v n \<equiv> drop_bit n v"
abbreviation sar :: "'a::len word \<Rightarrow> nat \<Rightarrow> 'a word" where "sar v n \<equiv> signed_drop_bit n v"

abbreviation b2w :: "bool \<Rightarrow> 'a::len word" where "b2w \<equiv> of_bool"

definition overflowing_add :: "'a::len word \<Rightarrow> 'a word \<Rightarrow> 'a word \<times> bool" where
  "overflowing_add a b = (a + b, sint a + sint b \<noteq> sint (a + b))"

definition overflowing_sub :: "'a::len word \<Rightarrow> 'a word \<Rightarrow> 'a word \<times> bool" where
  "overflowing_sub a b = (a - b, sint a - sint b \<noteq> sint (a - b))"

text \<open>Signed division truncates towards zero; the wrapped result of \<open>MIN / -1\<close> is \<open>MIN\<close>.\<close>

definition wrapping_div_s :: "'a::len word \<Rightarrow> 'a word \<Rightarrow> 'a word" where
  "wrapping_div_s a b = word_of_int (sint a sdiv sint b)"

definition wrapping_rem_s :: "'a::len word \<Rightarrow> 'a word \<Rightarrow> 'a word" where
  "wrapping_rem_s a b = word_of_int (sint a smod sint b)"

section \<open>Collections of facts\<close>

named_theorems wordlib \<open>bitwise rewrites for machine words\<close>
named_theorems invlib \<open>every operation keeps its component's invariant\<close>

section \<open>Word lemmas\<close>

lemmas bit_word_simps =
  bit_simps bit_word_ucast_iff bit_word_scast_iff bit_mask_iff word_size

lemma take_bit_of_lt [wordlib]:
  fixes a :: "'a::len word"
  assumes "unat a < 2 ^ n"
  shows "take_bit n a = a"
proof -
  have "unat (take_bit n a) = unat a"
    using assms by (simp only: unsigned_take_bit_eq take_bit_nat_eq_self)
  then show ?thesis by (rule unsigned_word_eqI)
qed

lemma and_mask_of_lt [wordlib]:
  fixes a :: "'a::len word"
  assumes "unat a < 2 ^ n"
  shows "a AND mask n = a"
  using assms by (simp flip: take_bit_eq_mask add: take_bit_of_lt)

lemma not_bit_of_lt:
  fixes a :: "'a::len word"
  assumes "unat a < 2 ^ k" "k \<le> n"
  shows "\<not> bit a n"
  using take_bit_of_lt [OF assms(1)] assms(2) by (metis bit_take_bit_iff not_le)

lemma unat_and_mask [wordlib]:
  fixes a :: "'a::len word"
  shows "unat (a AND mask n) = unat a mod 2 ^ n"
  by (simp only: flip: take_bit_eq_mask take_bit_eq_mod unsigned_take_bit_eq)

lemma unat_and_mask_lt:
  fixes a :: "'a::len word"
  shows "unat (a AND mask n) < 2 ^ n"
  by (simp add: unat_and_mask)

lemma unat_and_le1: "unat ((a :: 'a::len word) AND b) \<le> unat b"
  using word_and_le1 [of a b] by (simp add: word_le_nat_alt)

lemma unat_and_le2: "unat ((a :: 'a::len word) AND b) \<le> unat a"
  using word_and_le2 [of a b] by (simp add: word_le_nat_alt)

lemma unat_ucast_up [simp]:
  "LENGTH('a::len) \<le> LENGTH('b::len) \<Longrightarrow> unat (ucast (a :: 'a word) :: 'b word) = unat a"
  by (simp add: unsigned_ucast_eq take_bit_nat_eq_self_iff)
     (meson le_trans unsigned_less order_less_le_trans one_le_numeral power_increasing)

lemma unat_ucast_mod:
  "unat (ucast (a :: 'a::len word) :: 'b::len word) = unat a mod 2 ^ LENGTH('b)"
  by (simp add: unsigned_ucast_eq take_bit_eq_mod)

lemma ucast_inj_up:
  "LENGTH('a::len) \<le> LENGTH('b::len) \<Longrightarrow>
   ((ucast (a :: 'a word) :: 'b word) = ucast c) \<longleftrightarrow> a = c"
  by (metis unat_ucast_up unsigned_word_eqI)

text \<open>The masks of the code are written as numerals; these name them.\<close>

lemma mask_numerals:
  "(7 :: 'a::len word) = mask 3" "(15 :: 'a::len word) = mask 4" "(31 :: 'a::len word) = mask 5"
  "(63 :: 'a::len word) = mask 6" "(127 :: 'a::len word) = mask 7" "(255 :: 'a::len word) = mask 8"
  "(4095 :: 'a::len word) = mask 12" "(65535 :: 'a::len word) = mask 16"
  by (simp_all add: mask_eq_exp_minus_1)

lemma unat_and_31: "unat ((a :: 'a::len word) AND 31) = unat a mod 32"
  using unat_and_mask [of a 5] by (simp add: mask_eq_exp_minus_1)

lemma unat_and_7: "unat ((a :: 'a::len word) AND 7) = unat a mod 8"
  using unat_and_mask [of a 3] by (simp add: mask_eq_exp_minus_1)

lemma unat_and_3: "unat ((a :: 'a::len word) AND 3) = unat a mod 4"
  using unat_and_mask [of a 2] by (simp add: mask_eq_exp_minus_1)

lemma unat_and_63: "unat ((a :: 'a::len word) AND 63) = unat a mod 64"
  using unat_and_mask [of a 6] by (simp add: mask_eq_exp_minus_1)

lemma uint_and_mask: "uint ((a :: 'a::len word) AND mask n) = uint a mod 2 ^ n"
  by (simp only: flip: take_bit_eq_mask take_bit_eq_mod unsigned_take_bit_eq)

lemma uint_and_63: "uint ((a :: 'a::len word) AND 63) = uint a mod 64"
  using uint_and_mask [of a 6] by (simp add: mask_eq_exp_minus_1)

lemma uint_ucast_mod: "uint (ucast (a :: 'a::len word) :: 'b::len word) = uint a mod 2 ^ LENGTH('b)"
  by (simp add: unsigned_ucast_eq take_bit_eq_mod)

lemma mod_sub_cancel: "(k :: int) dvd m \<Longrightarrow> (a - b mod m) mod k = (a - b) mod k"
  by (metis mod_diff_right_eq mod_mod_cancel)

lemma and_not_mask: "(v AND m) AND NOT m = (0 :: 'a::len word)"
  by (rule bit_word_eqI) (auto simp: bit_word_simps)

lemma and_not_merge:
  "a AND NOT m = 0 \<Longrightarrow> w AND NOT m = 0 \<Longrightarrow> ((a AND NOT w) OR (v AND w)) AND NOT m = (0 :: 'a::len word)"
proof -
  assume a: "a AND NOT m = 0" and w: "w AND NOT m = 0"
  have "((a AND NOT w) OR (v AND w)) AND NOT m = ((a AND NOT m) AND NOT w) OR (v AND (w AND NOT m))"
    by (rule bit_word_eqI) (auto simp: bit_word_simps)
  then show ?thesis by (simp add: a w)
qed

lemma and_eq_of_and_not: "a AND NOT m = 0 \<Longrightarrow> a AND m = (a :: 'a::len word)"
  by (metis and.right_neutral bit.conj_cancel_right bit.conj_disj_distrib or.right_neutral
      bit.disj_cancel_right)

lemma and_not_of_lt:
  fixes v :: "'a::len word"
  assumes "unat v < 2 ^ k"
  shows "v AND NOT (mask k) = 0"
  by (rule bit_word_eqI) (auto simp: bit_word_simps not_bit_of_lt[OF assms] intro: ccontr)

lemma and_shl_1: "w AND shl 1 n \<noteq> 0 \<longleftrightarrow> bit (w :: 'a::len word) n"
proof -
  have "w AND shl 1 n = (if bit w n then shl 1 n else 0)"
    by (rule bit_word_eqI) (auto simp: bit_word_simps bit_1_iff)
  moreover have "bit w n \<Longrightarrow> shl 1 n \<noteq> (0 :: 'a word)"
    using bit_imp_le_length[of w n] by (auto dest!: arg_cong[where f="\<lambda>v. bit v n"] simp: bit_word_simps bit_1_iff)
  ultimately show ?thesis by auto
qed

lemma bit_shl_1: "bit (shl 1 k :: 'a::len word) n \<longleftrightarrow> n < LENGTH('a) \<and> n = k"
  by (auto simp: bit_word_simps bit_1_iff)

lemma mask_word: "shl 1 n - (1 :: 'a::len word) = mask n"
  by (simp add: mask_eq_exp_minus_1)

lemma and_low_bits: "((w :: 'a::len word) AND (shl 1 n - 1) \<noteq> 0) = (unat w mod 2 ^ n \<noteq> 0)"
  unfolding mask_word by (metis unat_and_mask unat_0 unsigned_word_eqI)

lemma unat_shr: "unat (shr (w :: 'a::len word) n) = unat w div 2 ^ n"
  unfolding unat_drop_bit_eq by (rule drop_bit_eq_div)

lemma and_1_odd: "((w :: 'a::len word) AND 1 \<noteq> 0) = odd (unat w)"
  using and_low_bits[of w 1] by (simp add: odd_iff_mod_2_eq_one)

lemma unat_shl:
  "unat (w :: 'a::len word) * 2 ^ n < 2 ^ LENGTH('a) \<Longrightarrow> unat (shl w n) = unat w * 2 ^ n"
  unfolding unsigned_push_bit_eq push_bit_eq_mult[of n "unat w"] by (rule take_bit_nat_eq_self)

lemma unat_u32: "unat (w :: u32) < 4294967296"
proof -
  have "unat w < 2 ^ LENGTH(32)" by (rule unsigned_less)
  then show ?thesis by simp
qed

lemma unat_u128: "unat (w :: u128) < 2 ^ 128"
proof -
  have "unat w < 2 ^ LENGTH(128)" by (rule unsigned_less)
  then show ?thesis by simp
qed

lemma shr_and_1: "shr (b :: 'a::len word) n AND 1 = of_bool (bit b n)"
  by (rule bit_word_eqI) (auto simp: bit_and_iff bit_1_iff bit_drop_bit_eq intro!: gr0I)

lemma unat_of_nat_lt: "n < 2 ^ LENGTH('a) \<Longrightarrow> unat (of_nat n :: 'a::len word) = n"
  by (simp add: unsigned_of_nat take_bit_nat_eq_self)

lemma unat_or_disjoint: "unat (a :: 'a::len word) < 2 ^ k \<Longrightarrow> k < LENGTH('a) \<Longrightarrow> unat (a OR shl 1 k) = unat a + 2 ^ k"
proof -
  assume a: "unat a < 2 ^ k" and k: "k < LENGTH('a)"
  have "a AND shl 1 k = 0"
    by (rule bit_word_eqI) (auto simp: bit_and_iff bit_shl_1 not_bit_of_lt[OF a] simp del: push_bit_of_1)
  then have s: "a OR shl 1 k = a + shl 1 k"
    using disjunctive_add_eq_or by metis
  have u: "unat (shl 1 k :: 'a word) = 2 ^ k"
    using unat_shl[of "1 :: 'a word" k] k by simp
  have "unat a + 2 ^ k < 2 ^ Suc k" using a by simp
  also have "\<dots> \<le> 2 ^ LENGTH('a)" using k by (intro power_increasing) auto
  finally show ?thesis unfolding s unat_word_ariths(1) u by (rule mod_less)
qed

section \<open>Signed values\<close>

lemma sint_in_range:
  "- (2 ^ (LENGTH('a) - 1)) \<le> sint (a :: 'a::len word)" "sint a < 2 ^ (LENGTH('a) - 1)"
  using sint_greater_eq [of a] sint_less [of a] by simp_all

lemma sint_of_int_in_range:
  assumes "- (2 ^ (LENGTH('a) - 1)) \<le> k" "k < 2 ^ (LENGTH('a) - 1)"
  shows "sint (word_of_int k :: 'a::len word) = k"
  using assms by (simp add: signed_of_int signed_take_bit_int_eq_self_iff)

lemma sint_eq_imp_eq: "sint (a :: 'a::len word) = sint b \<Longrightarrow> a = b"
  by (rule signed_word_eqI)

lemma sint_scast_up:
  "LENGTH('a::len) \<le> LENGTH('b::len) \<Longrightarrow> sint (scast (a :: 'a word) :: 'b word) = sint a"
  by (simp add: sint_up_scast is_up_def target_size_def source_size_def word_size)

section \<open>Overflow, products, quotients and halves\<close>

lemma sint_add_overflow:
  fixes a b :: "'a::len word"
  shows "snd (overflowing_add a b) \<longleftrightarrow>
    \<not> (- (2 ^ (LENGTH('a) - 1)) \<le> sint a + sint b \<and> sint a + sint b < 2 ^ (LENGTH('a) - 1))"
proof -
  have "a + b = word_of_int (sint a + sint b)" by simp
  then show ?thesis
    unfolding overflowing_add_def snd_conv
    by (metis sint_in_range sint_of_int_in_range)
qed

lemma sint_sub_overflow:
  fixes a b :: "'a::len word"
  shows "snd (overflowing_sub a b) \<longleftrightarrow>
    \<not> (- (2 ^ (LENGTH('a) - 1)) \<le> sint a - sint b \<and> sint a - sint b < 2 ^ (LENGTH('a) - 1))"
proof -
  have "a - b = word_of_int (sint a - sint b)" by simp
  then show ?thesis
    unfolding overflowing_sub_def snd_conv
    by (metis sint_in_range sint_of_int_in_range)
qed

lemma word_of_int_mult_sint: "(a :: 'a::len word) * b = word_of_int (sint a * sint b)"
  by simp

lemma halves64: "word_cat (to_u32 (shr p 32)) (to_u32 p) = (p :: u64)"
  by (rule bit_word_eqI) (auto simp: bit_word_simps bit_word_cat_iff)

lemma sint_mult_bound:
  fixes a :: "'a::len word" and b :: "'b::len word"
  shows "- (2 ^ (LENGTH('a) - 1) * 2 ^ (LENGTH('b) - 1)) \<le> sint a * sint b"
    "sint a * sint b \<le> 2 ^ (LENGTH('a) - 1) * 2 ^ (LENGTH('b) - 1)"
proof -
  have "\<bar>sint a * sint b\<bar> \<le> 2 ^ (LENGTH('a) - 1) * 2 ^ (LENGTH('b) - 1)"
    unfolding abs_mult using sint_in_range[of a] sint_in_range[of b]
    by (intro mult_mono) auto
  then show "- (2 ^ (LENGTH('a) - 1) * 2 ^ (LENGTH('b) - 1)) \<le> sint a * sint b"
    "sint a * sint b \<le> 2 ^ (LENGTH('a) - 1) * 2 ^ (LENGTH('b) - 1)" by linarith+
qed

lemma unat_mult_bound:
  fixes a :: "'a::len word" and b :: "'b::len word"
  shows "unat a * unat b < 2 ^ (LENGTH('a) + LENGTH('b))"
  using mult_strict_mono[OF unsigned_less[of a] unsigned_less[of b]] by (simp add: power_add)

lemma sdiv_in_range:
  fixes a b M :: int
  assumes "- M \<le> a" "a < M" "\<not> (a = - M \<and> b = - 1)"
  shows "- M \<le> a sdiv b" "a sdiv b < M"
proof -
  have r: "- \<bar>a\<bar> \<le> a sdiv b" "a sdiv b \<le> \<bar>a\<bar>" using sdiv_int_range[of a b] by auto
  then show "- M \<le> a sdiv b" using assms by linarith
  show "a sdiv b < M"
  proof (rule ccontr)
    assume "\<not> a sdiv b < M"
    then have "a = - M" "a sdiv b = - a" "a \<noteq> 0" using r assms by linarith+
    then show False using assms int_sdiv_negated_is_minus1 by blast
  qed
qed

lemma smod_in_range:
  fixes a b M :: int
  assumes "- M \<le> a" "a < M"
  shows "- M \<le> a smod b" "a smod b < M"
proof -
  have "0 \<le> \<bar>a\<bar> mod \<bar>b\<bar>" "\<bar>a\<bar> mod \<bar>b\<bar> \<le> \<bar>a\<bar>"
    by (cases "b = 0"; simp add: zmod_le_nonneg_dividend)+
  then show "- M \<le> a smod b" "a smod b < M"
    using assms by (auto simp: smod_int_alt_def sgn_if)
qed

lemma sint_wrapping_div_s:
  assumes "\<not> (sint a = - (2 ^ (LENGTH('a) - 1)) \<and> sint b = - 1)"
  shows "sint (wrapping_div_s a (b :: 'a::len word)) = sint a sdiv sint b"
  unfolding wrapping_div_s_def
  using sdiv_in_range[OF sint_in_range[of a] assms] by (rule sint_of_int_in_range)

lemma sint_wrapping_rem_s:
  "sint (wrapping_rem_s a (b :: 'a::len word)) = sint a smod sint b"
  unfolding wrapping_rem_s_def
  using smod_in_range[OF sint_in_range[of a]] by (rule sint_of_int_in_range)

lemma sint_to_u32:
  assumes "- (2 ^ 31) \<le> sint (x :: u64)" "sint x < 2 ^ 31"
  shows "sint (to_u32 x) = sint x"
proof -
  have "to_u32 x = word_of_int (sint x)"
    by (rule bit_word_eqI) (auto simp: bit_word_simps bit_sint_iff bit_word_of_int_iff)
  moreover have "sint (word_of_int (sint x) :: u32) = sint x"
    by (rule sint_of_int_in_range) (use assms in simp_all)
  ultimately show ?thesis by (simp only:)
qed

section \<open>Bit length and integer square root\<close>

text \<open>The standard library's \<^verbatim>\<open>leading_zeros\<close> and \<^verbatim>\<open>isqrt\<close> on unsigned integers.\<close>

fun bit_len :: "nat \<Rightarrow> nat" where
  "bit_len n = (if n = 0 then 0 else Suc (bit_len (n div 2)))"

declare bit_len.simps [simp del]

definition leading_zeros :: "'a::len word \<Rightarrow> nat" where
  "leading_zeros w = LENGTH('a) - bit_len (unat w)"

fun isqrt :: "nat \<Rightarrow> nat" where
  "isqrt n = (if n = 0 then 0
     else let r = 2 * isqrt (n div 4) in if (r + 1) * (r + 1) \<le> n then r + 1 else r)"

declare isqrt.simps [simp del]

lemma bit_len_0 [simp]: "bit_len 0 = 0"
  by (simp add: bit_len.simps)

lemma bit_len_bounds: "n \<noteq> 0 \<Longrightarrow> 2 ^ (bit_len n - 1) \<le> n \<and> n < 2 ^ bit_len n"
proof (induction n rule: bit_len.induct)
  case (1 n)
  show ?case
  proof (cases "n div 2 = 0")
    case True
    then have "n = 1" using 1 by (simp add: div_eq_0_iff)
    then show ?thesis by (simp add: bit_len.simps)
  next
    case False
    then have "2 ^ (bit_len (n div 2) - 1) \<le> n div 2" "n div 2 < 2 ^ bit_len (n div 2)"
      using 1 by blast+
    moreover have "bit_len (n div 2) \<noteq> 0" using False by (subst bit_len.simps) simp
    then obtain k where "bit_len (n div 2) = Suc k" by (cases "bit_len (n div 2)") auto
    ultimately have "2 ^ k \<le> n div 2" "n div 2 < 2 * 2 ^ k" "bit_len n = Suc (Suc k)"
      using 1(2) by (simp_all add: bit_len.simps[of n])
    then have "2 * 2 ^ k \<le> n" "n < 2 * (2 * 2 ^ k)" by linarith+
    then show ?thesis using \<open>bit_len n = Suc (Suc k)\<close> by simp
  qed
qed

lemma bit_len_pos: "n \<noteq> 0 \<Longrightarrow> 1 \<le> bit_len n"
  by (subst bit_len.simps) simp

lemma bit_len_le: "n < 2 ^ k \<Longrightarrow> bit_len n \<le> k"
proof (rule ccontr)
  assume "n < 2 ^ k" "\<not> bit_len n \<le> k"
  then have "n \<noteq> 0" "k \<le> bit_len n - 1" by (auto intro: ccontr)
  then show False
    using bit_len_bounds[of n] power_increasing[of k "bit_len n - 1" "2 :: nat"] \<open>n < 2 ^ k\<close>
    by linarith
qed

lemma bit_len_ge: "2 ^ k \<le> n \<Longrightarrow> k < bit_len n"
  using bit_len_bounds[of n] by (metis less_le_trans not_less power_increasing one_le_numeral
      order_less_le_trans le_less_trans power_eq_0_iff zero_neq_numeral le_zero_eq)

lemma isqrt_bounds: "isqrt n * isqrt n \<le> n \<and> n < (isqrt n + 1) * (isqrt n + 1)"
proof (induction n rule: isqrt.induct)
  case (1 n)
  show ?case
  proof (cases "n = 0")
    case True
    then show ?thesis by (simp add: isqrt.simps)
  next
    case False
    define r where "r = isqrt (n div 4)"
    have r: "r * r \<le> n div 4" "n div 4 < (r + 1) * (r + 1)" using 1[OF False] by (auto simp: r_def)
    then have "4 * (r * r) \<le> n" "n < 4 * ((r + 1) * (r + 1))" by linarith+
    then show ?thesis
      by (subst (1 2 3 4) isqrt.simps) (auto simp: False Let_def algebra_simps r_def[symmetric])
  qed
qed

section \<open>Lists\<close>

lemma div_eq_range: "0 < d \<Longrightarrow> j div d = k \<longleftrightarrow> k * d \<le> j \<and> j < k * d + (d :: nat)"
  using div_times_less_eq_dividend[of j d] dividend_less_div_times[of d j]
  by (auto intro: div_nat_eqI simp: mult.commute)

lemma nth_update_cases:
  "i < length xs \<Longrightarrow> xs[i := v] ! j = (if i = j then v else xs ! j)"
  by simp

section \<open>The contract of a register file with a hardwired zero\<close>

text \<open>
  Both processors keep their general registers behind a read and a write operation so that
  register 0 reads as zero whatever was written to it. \<open>slot i\<close> is the cell an index selects
  after the code's masking, \<open>inv\<close> the well-formedness of the file.
\<close>

locale zero_regfile =
  fixes rd :: "'s \<Rightarrow> 'i \<Rightarrow> 'v"
    and wr :: "'s \<Rightarrow> 'i \<Rightarrow> 'v \<Rightarrow> 's"
    and inv :: "'s \<Rightarrow> bool"
    and slot :: "'i \<Rightarrow> nat"
    and z :: "'v"
  assumes wr_inv: "inv s \<Longrightarrow> inv (wr s i v)"
    and rd_wr: "inv s \<Longrightarrow> rd (wr s i v) j = (if slot i = slot j \<and> slot i \<noteq> 0 then v else rd s j)"
    and rd_zero: "slot i = 0 \<Longrightarrow> rd s i = z"
begin

definition writes :: "'s \<Rightarrow> ('i \<times> 'v) list \<Rightarrow> 's" where
  "writes s ws = foldl (\<lambda>t (i, v). wr t i v) s ws"

lemma writes_Nil: "writes s [] = s"
  by (simp add: writes_def)

lemma writes_snoc: "writes s (ws @ [(i, v)]) = wr (writes s ws) i v"
  by (simp add: writes_def)

lemma writes_inv: "inv s \<Longrightarrow> inv (writes s ws)"
  by (induction ws rule: rev_induct) (auto simp: writes_Nil writes_snoc wr_inv)

text \<open>After any sequence of writes the zero register still reads as zero, and every other
  register reads as the last value written to its cell, or as before if there was none.\<close>

lemma zero_after_writes: "slot j = 0 \<Longrightarrow> rd (writes s ws) j = z"
  by (rule rd_zero)

lemma last_write_wins:
  assumes "inv s" "slot j \<noteq> 0"
  shows "rd (writes s ws) j =
    (case filter (\<lambda>(i, v). slot i = slot j) (rev ws) of [] \<Rightarrow> rd s j | (i, v) # _ \<Rightarrow> v)"
proof (induction ws rule: rev_induct)
  case Nil
  then show ?case by (simp add: writes_Nil)
next
  case (snoc x ws)
  obtain i v where "x = (i, v)" by (cases x)
  then show ?case
    using snoc assms by (auto simp: writes_snoc rd_wr writes_inv)
qed

lemma wr_commute:
  assumes "inv s" "slot i \<noteq> slot j"
  shows "rd (wr (wr s i v) j w) k = rd (wr (wr s j w) i v) k"
  using assms by (auto simp: rd_wr wr_inv)

lemma wr_overwrite:
  assumes "inv s" "slot i = slot j"
  shows "rd (wr (wr s i v) j w) k = rd (wr s j w) k"
  using assms by (auto simp: rd_wr wr_inv)

end

end
