(* ===== verification/Regs.thy ===== *)
theory Regs
  imports Prelude
begin

text \<open>
  The VR4300 general register file (\<^verbatim>\<open>regs.rs\<close>): 32 registers of 64 bits with \<open>HI\<close> and
  \<open>LO\<close>. \<open>reg_read\<close> and \<open>reg_write\<close> mask the index to five bits before the \<^verbatim>\<open>$zero\<close> rule, as the code
  does. The file implements the contract \<open>zero_regfile\<close>.
\<close>

section \<open>The register file\<close>

record regs =
  gpr :: "u64 list"
  reg_hi :: u64
  reg_lo :: u64

definition regs_new :: regs where
  "regs_new = \<lparr>gpr = replicate 32 0, reg_hi = 0, reg_lo = 0\<rparr>"

definition reg_read :: "regs \<Rightarrow> u8 \<Rightarrow> u64" where
  "reg_read r i = (let i = i AND 31 in if i = 0 then 0 else gpr r ! unat i)"

definition reg_write :: "regs \<Rightarrow> u8 \<Rightarrow> u64 \<Rightarrow> regs" where
  "reg_write r i v = (let i = i AND 31 in
     if i \<noteq> 0 then r\<lparr>gpr := (gpr r)[unat i := v]\<rparr> else r)"

text \<open>The ABI register numbers the boot code and the disassembler share.\<close>

definition gpr_AT :: u8 where "gpr_AT = 1"
definition gpr_A2 :: u8 where "gpr_A2 = 6"
definition gpr_A3 :: u8 where "gpr_A3 = 7"
definition gpr_T0 :: u8 where "gpr_T0 = 8"
definition gpr_T2 :: u8 where "gpr_T2 = 10"
definition gpr_T3 :: u8 where "gpr_T3 = 11"
definition gpr_S3 :: u8 where "gpr_S3 = 19"
definition gpr_S4 :: u8 where "gpr_S4 = 20"
definition gpr_S5 :: u8 where "gpr_S5 = 21"
definition gpr_S6 :: u8 where "gpr_S6 = 22"
definition gpr_S7 :: u8 where "gpr_S7 = 23"
definition gpr_SP :: u8 where "gpr_SP = 29"
definition gpr_RA :: u8 where "gpr_RA = 31"

section \<open>Well-formedness and the register contract\<close>

definition regs_wf :: "regs \<Rightarrow> bool" where
  "regs_wf r = (length (gpr r) = 32)"

definition reg_slot :: "u8 \<Rightarrow> nat" where
  "reg_slot i = unat i mod 32"

lemma unat_reg_index: "unat (i AND 31 :: u8) = reg_slot i"
  by (simp add: reg_slot_def unat_and_31)

lemma reg_slot_lt [simp]: "reg_slot i < 32"
  by (simp add: reg_slot_def)

lemma reg_index_eq_0: "(i AND 31 :: u8) = 0 \<longleftrightarrow> reg_slot i = 0"
  by (metis unat_reg_index unsigned_0 unsigned_word_eqI)

lemma reg_read_slot: "reg_read r i = (if reg_slot i = 0 then 0 else gpr r ! reg_slot i)"
  by (simp add: reg_read_def Let_def reg_index_eq_0 unat_reg_index)

lemma reg_write_slot:
  "reg_write r i v = (if reg_slot i = 0 then r else r\<lparr>gpr := (gpr r)[reg_slot i := v]\<rparr>)"
  by (simp add: reg_write_def Let_def reg_index_eq_0 unat_reg_index)

lemma regs_new_wf [invlib]: "regs_wf regs_new"
  by (simp add: regs_wf_def regs_new_def)

lemma reg_write_wf [invlib]: "regs_wf r \<Longrightarrow> regs_wf (reg_write r i v)"
  by (simp add: regs_wf_def reg_write_slot)

lemma reg_read_write:
  "regs_wf r \<Longrightarrow>
   reg_read (reg_write r i v) j = (if reg_slot i = reg_slot j \<and> reg_slot i \<noteq> 0 then v else reg_read r j)"
  by (simp add: reg_read_slot reg_write_slot regs_wf_def)

lemma reg_read_zero: "reg_slot i = 0 \<Longrightarrow> reg_read r i = 0"
  by (simp add: reg_read_slot)

lemma read_regs_new: "reg_read regs_new i = 0"
  by (simp add: reg_read_slot regs_new_def)

lemma write_hi_lo [simp]: "reg_hi (reg_write r i v) = reg_hi r" "reg_lo (reg_write r i v) = reg_lo r"
  by (simp_all add: reg_write_slot)

interpretation cpu_gpr: zero_regfile reg_read reg_write regs_wf reg_slot 0
  by unfold_locales (auto simp: reg_write_wf reg_read_write reg_read_zero)

end
