(* ===== verification/Stages.thy ===== *)
theory Stages
  imports Prelude
begin

text \<open>
  The vocabulary of the pipeline (\<^verbatim>\<open>pipeline.rs\<close>): its five stages, the exceptions an
  instruction can raise, with their payloads, and the interlocks that stall it. The ALU, the
  executor and the exception unit all return or take these.
\<close>

section \<open>Stages, exceptions, interlocks\<close>

datatype stage = Ic | Rf | Ex | Dc | Wb

datatype exn =
    Interrupt
  | AddressError (ae_store: bool)
  | Overflow
  | Syscall
  | Breakpoint
  | Trap
  | ReservedInstruction
  | CoprocessorReserved (cr_unit: u8)
  | CoprocessorUnusable (cu_unit: u8)
  | Nmi
  | TlbRefill (tr_store: bool) (tr_wide: bool)
  | TlbInvalid (ti_store: bool)
  | TlbModified
  | FloatingPoint

datatype interlock = Ldi | Dcb | Dcm | Icb | Itm | Mci | Cop | Cp0i | ExceptionIl

record stall =
  st_cycles :: u32
  st_cause :: interlock

section \<open>Results\<close>

text \<open>A fallible operation returns \<open>exn + 'a\<close>: \<open>Inl\<close> is Rust's \<^verbatim>\<open>Err\<close>, \<open>Inr\<close> its \<^verbatim>\<open>Ok\<close>.\<close>

type_synonym 'a exn_result = "exn + 'a"

definition is_err :: "'e + 'a \<Rightarrow> bool" where
  "is_err r = (case r of Inl _ \<Rightarrow> True | Inr _ \<Rightarrow> False)"

lemma is_err_simps [simp]: "is_err (Inl e)" "\<not> is_err (Inr a)"
  by (simp_all add: is_err_def)

end
