(* ===== verification/Decode.thy ===== *)
theory Decode
  imports Stages
begin

text \<open>
  Instruction decode (\<^verbatim>\<open>decode.rs\<close>). The enumeration \<^verbatim>\<open>Op\<close> has 143 constructors in the
  sections its comments name (register arithmetic, logic, immediates, shifts, ...); each
  section is a datatype of its own here and \<open>op\<close> is their sum, so that a proof by cases on
  an instruction meets one section at a time. The match arms of \<^verbatim>\<open>decode\<close> that only choose a
  constructor and a destination field (its local macros \<^verbatim>\<open>r!\<close>, \<^verbatim>\<open>r32!\<close>, \<^verbatim>\<open>i!\<close>, \<^verbatim>\<open>hilo!\<close>) are
  tables from the encoding to the constructor.
\<close>

section \<open>Operations\<close>

datatype reg_arith =
  Add | Addu | Sub | Subu | Dadd | Daddu | Dsub | Dsubu | Slt | Sltu

datatype reg_logic =
  And | Or | Xor | Nor

datatype imm_op =
  Addi | Addiu | Daddi | Daddiu | Slti | Sltiu | Andi | Ori | Xori | Lui

datatype shift_op =
  Sll | Srl | Sra | Dsll | Dsrl | Dsra | Dsll32 | Dsrl32 | Dsra32

datatype shiftv_op =
  Sllv | Srlv | Srav | Dsllv | Dsrlv | Dsrav

datatype hilo_op =
  Mult | Multu | Div | Divu | Dmult | Dmultu | Ddiv | Ddivu | Mfhi | Mthi | Mflo | Mtlo

datatype load_op =
  Lb | Lbu | Lh | Lhu | Lw | Lwu | Ld

datatype store_op =
  Sb | Sh | Sw | Sd

datatype link_op =
  Ll | Lld | Sc | Scd

datatype unaligned_op =
  Lwl | Lwr | Ldl | Ldr | Swl | Swr | Sdl | Sdr

datatype jump_op =
  J | Jal | Jr | Jalr

datatype branch_op =
  Beq | Bne | Blez | Bgtz | Bltz | Bgez | Bltzal | Bgezal | Beql | Bnel | Blezl | Bgtzl | Bltzl
   | Bgezl | Bltzall | Bgezall | Bc1f | Bc1t | Bc1fl | Bc1tl

datatype trap_op =
  Tge | Tgeu | Tlt | Tltu | Teq | Tne | Tgei | Tgeiu | Tlti | Tltiu | Teqi | Tnei

datatype cop0_op =
  Cop0Extension | Tlbr | Tlbwi | Tlbwr | Tlbp | Eret | Mfc0 | Dmfc0 | Mtc0 | Dmtc0

datatype cop1_op =
  Cfc1 | Ctc1 | Mfc1 | Dmfc1 | Mtc1 | Dmtc1 | Lwc1 | Ldc1 | Swc1 | Sdc1 | Cop1Unimplemented
   | Cop1ReservedControl | FpArith

datatype cop2_op =
  Cop2ReservedControl | Mfc2 | Dmfc2 | Mtc2 | Cop2

datatype op =
  Reserved | RegArith reg_arith | RegLogic reg_logic | ImmOp imm_op | ShiftOp shift_op
   | ShiftVOp shiftv_op | HiLoOp hilo_op | LoadOp load_op | StoreOp store_op | LinkOp link_op
   | UnalignedOp unaligned_op | JumpOp jump_op | BranchOp branch_op | TrapOp trap_op
   | Cop0Op cop0_op | Cop1Op cop1_op | Cop2Op cop2_op | Cache | Sync | Syscall | Break

section \<open>Classification\<close>

definition is_64_bit :: "op \<Rightarrow> bool" where
  "is_64_bit p \<longleftrightarrow> p \<in> {
    RegArith Dadd, ImmOp Daddi, ImmOp Daddiu, RegArith Daddu, HiLoOp Ddiv, HiLoOp Ddivu,
    HiLoOp Dmult, HiLoOp Dmultu, ShiftOp Dsll, ShiftOp Dsll32, ShiftVOp Dsllv, ShiftOp Dsra,
    ShiftOp Dsra32, ShiftVOp Dsrav, ShiftOp Dsrl, ShiftOp Dsrl32, ShiftVOp Dsrlv,
    RegArith Dsub, RegArith Dsubu, LoadOp Ld, LoadOp Lwu, UnalignedOp Ldl, UnalignedOp Ldr,
    LinkOp Lld, LinkOp Scd, StoreOp Sd, UnalignedOp Sdl, UnalignedOp Sdr}"

definition has_delay_slot :: "op \<Rightarrow> bool" where
  "has_delay_slot p \<longleftrightarrow> p \<in> {
    JumpOp J, JumpOp Jal, JumpOp Jr, JumpOp Jalr, BranchOp Beq, BranchOp Bne, BranchOp Blez,
    BranchOp Bgtz, BranchOp Bltz, BranchOp Bgez, BranchOp Bltzal, BranchOp Bgezal,
    BranchOp Beql, BranchOp Bnel, BranchOp Blezl, BranchOp Bgtzl, BranchOp Bltzl,
    BranchOp Bgezl, BranchOp Bltzall, BranchOp Bgezall, BranchOp Bc1f, BranchOp Bc1t,
    BranchOp Bc1fl, BranchOp Bc1tl}"

definition reads_fp_condition :: "op \<Rightarrow> bool" where
  "reads_fp_condition p \<longleftrightarrow> p \<in> {
    BranchOp Bc1f, BranchOp Bc1t, BranchOp Bc1fl, BranchOp Bc1tl}"

definition is_likely :: "op \<Rightarrow> bool" where
  "is_likely p \<longleftrightarrow> p \<in> {
    BranchOp Beql, BranchOp Bnel, BranchOp Blezl, BranchOp Bgtzl, BranchOp Bltzl,
    BranchOp Bgezl, BranchOp Bltzall, BranchOp Bgezall, BranchOp Bc1fl, BranchOp Bc1tl}"

definition writes_hi_lo :: "op \<Rightarrow> bool" where
  "writes_hi_lo p \<longleftrightarrow> p \<in> {
    HiLoOp Mult, HiLoOp Multu, HiLoOp Div, HiLoOp Divu, HiLoOp Dmult, HiLoOp Dmultu,
    HiLoOp Ddiv, HiLoOp Ddivu, HiLoOp Mthi, HiLoOp Mtlo}"

section \<open>The decoded instruction\<close>

record decoded =
  d_op :: op
  d_rs :: u8
  d_rt :: u8
  d_rd :: u8
  d_sa :: u32
  d_imm :: u16
  d_dest :: u8
  d_target :: u32

definition is_load :: "decoded \<Rightarrow> bool" where
  "is_load d \<longleftrightarrow> d_op d \<in> {
    LoadOp Lb, LoadOp Lbu, LoadOp Lh, LoadOp Lhu, LoadOp Lw, LoadOp Lwu, LoadOp Ld,
    UnalignedOp Lwl, UnalignedOp Lwr, UnalignedOp Ldl, UnalignedOp Ldr, LinkOp Ll, LinkOp Lld}"

definition is_store_conditional :: "decoded \<Rightarrow> bool" where
  "is_store_conditional d \<longleftrightarrow> d_op d \<in> {
    LinkOp Sc, LinkOp Scd}"

definition targets_fpr :: "decoded \<Rightarrow> bool" where
  "targets_fpr d = False"

section \<open>Encodings\<close>

text \<open>How an arm of the match fills in the destination: the local macros of \<^verbatim>\<open>decode\<close>, and the
  plain struct update that leaves it 0.\<close>

datatype fmt = RFmt | R32Fmt | IFmt | HiLoFmt

fun apply_fmt :: "fmt \<Rightarrow> op \<Rightarrow> decoded \<Rightarrow> decoded" where
  "apply_fmt RFmt p base = base\<lparr>d_op := p, d_dest := d_rd base\<rparr>"
| "apply_fmt R32Fmt p base = base\<lparr>d_op := p, d_dest := d_rd base, d_sa := d_sa base + 32\<rparr>"
| "apply_fmt IFmt p base = base\<lparr>d_op := p, d_dest := d_rt base\<rparr>"
| "apply_fmt HiLoFmt p base = base\<lparr>d_op := p\<rparr>"

definition special_table :: "(u32 \<times> fmt \<times> op) list" where
  "special_table = [
    (0x00, RFmt, ShiftOp Sll), (0x02, RFmt, ShiftOp Srl), (0x03, RFmt, ShiftOp Sra),
    (0x04, RFmt, ShiftVOp Sllv), (0x06, RFmt, ShiftVOp Srlv), (0x07, RFmt, ShiftVOp Srav),
    (0x10, RFmt, HiLoOp Mfhi), (0x11, HiLoFmt, HiLoOp Mthi), (0x12, RFmt, HiLoOp Mflo),
    (0x13, HiLoFmt, HiLoOp Mtlo), (0x14, RFmt, ShiftVOp Dsllv), (0x16, RFmt, ShiftVOp Dsrlv),
    (0x17, RFmt, ShiftVOp Dsrav), (0x18, HiLoFmt, HiLoOp Mult), (0x19, HiLoFmt, HiLoOp Multu),
    (0x1A, HiLoFmt, HiLoOp Div), (0x1B, HiLoFmt, HiLoOp Divu), (0x1C, HiLoFmt, HiLoOp Dmult),
    (0x1D, HiLoFmt, HiLoOp Dmultu), (0x1E, HiLoFmt, HiLoOp Ddiv),
    (0x1F, HiLoFmt, HiLoOp Ddivu), (0x20, RFmt, RegArith Add), (0x21, RFmt, RegArith Addu),
    (0x22, RFmt, RegArith Sub), (0x23, RFmt, RegArith Subu), (0x24, RFmt, RegLogic And),
    (0x25, RFmt, RegLogic Or), (0x26, RFmt, RegLogic Xor), (0x27, RFmt, RegLogic Nor),
    (0x2A, RFmt, RegArith Slt), (0x2B, RFmt, RegArith Sltu), (0x2C, RFmt, RegArith Dadd),
    (0x2D, RFmt, RegArith Daddu), (0x2E, RFmt, RegArith Dsub), (0x2F, RFmt, RegArith Dsubu),
    (0x08, HiLoFmt, JumpOp Jr), (0x09, RFmt, JumpOp Jalr), (0x0C, HiLoFmt, Syscall),
    (0x0D, HiLoFmt, Break), (0x0F, HiLoFmt, Sync), (0x30, HiLoFmt, TrapOp Tge),
    (0x31, HiLoFmt, TrapOp Tgeu), (0x32, HiLoFmt, TrapOp Tlt), (0x33, HiLoFmt, TrapOp Tltu),
    (0x34, HiLoFmt, TrapOp Teq), (0x36, HiLoFmt, TrapOp Tne), (0x38, RFmt, ShiftOp Dsll),
    (0x3A, RFmt, ShiftOp Dsrl), (0x3B, RFmt, ShiftOp Dsra), (0x3C, R32Fmt, ShiftOp Dsll32),
    (0x3E, R32Fmt, ShiftOp Dsrl32), (0x3F, R32Fmt, ShiftOp Dsra32)]"

definition decode_table :: "(u32 \<times> fmt \<times> op) list \<Rightarrow> u32 \<Rightarrow> decoded \<Rightarrow> decoded" where
  "decode_table t code base = (case map_of t code of
     Some (f, p) \<Rightarrow> apply_fmt f p base | None \<Rightarrow> base)"

text \<open>The primary opcodes that have an arm of their own (\<open>OP_JAL\<close>, whose destination is register
  31, is in \<open>decode\<close>).\<close>

definition primary_table :: "(u32 \<times> fmt \<times> op) list" where
  "primary_table = [
    (0x08, IFmt, ImmOp Addi), (0x09, IFmt, ImmOp Addiu), (0x0A, IFmt, ImmOp Slti),
    (0x0B, IFmt, ImmOp Sltiu), (0x0C, IFmt, ImmOp Andi), (0x0D, IFmt, ImmOp Ori),
    (0x0E, IFmt, ImmOp Xori), (0x0F, IFmt, ImmOp Lui), (0x18, IFmt, ImmOp Daddi),
    (0x19, IFmt, ImmOp Daddiu), (0x20, IFmt, LoadOp Lb), (0x24, IFmt, LoadOp Lbu),
    (0x21, IFmt, LoadOp Lh), (0x25, IFmt, LoadOp Lhu), (0x23, IFmt, LoadOp Lw),
    (0x27, IFmt, LoadOp Lwu), (0x37, IFmt, LoadOp Ld), (0x22, IFmt, UnalignedOp Lwl),
    (0x26, IFmt, UnalignedOp Lwr), (0x1A, IFmt, UnalignedOp Ldl),
    (0x1B, IFmt, UnalignedOp Ldr), (0x2F, HiLoFmt, Cache), (0x31, HiLoFmt, Cop1Op Lwc1),
    (0x35, HiLoFmt, Cop1Op Ldc1), (0x39, HiLoFmt, Cop1Op Swc1), (0x3D, HiLoFmt, Cop1Op Sdc1),
    (0x30, IFmt, LinkOp Ll), (0x34, IFmt, LinkOp Lld), (0x38, IFmt, LinkOp Sc),
    (0x3C, IFmt, LinkOp Scd), (0x28, HiLoFmt, StoreOp Sb), (0x29, HiLoFmt, StoreOp Sh),
    (0x2B, HiLoFmt, StoreOp Sw), (0x3F, HiLoFmt, StoreOp Sd), (0x2A, HiLoFmt, UnalignedOp Swl),
    (0x2E, HiLoFmt, UnalignedOp Swr), (0x2C, HiLoFmt, UnalignedOp Sdl),
    (0x2D, HiLoFmt, UnalignedOp Sdr), (0x02, HiLoFmt, JumpOp J), (0x04, HiLoFmt, BranchOp Beq),
    (0x05, HiLoFmt, BranchOp Bne), (0x06, HiLoFmt, BranchOp Blez),
    (0x07, HiLoFmt, BranchOp Bgtz), (0x14, HiLoFmt, BranchOp Beql),
    (0x15, HiLoFmt, BranchOp Bnel), (0x16, HiLoFmt, BranchOp Blezl),
    (0x17, HiLoFmt, BranchOp Bgtzl)]"

definition regimm_table :: "(u8 \<times> op) list" where
  "regimm_table = [
    (0x00, BranchOp Bltz), (0x01, BranchOp Bgez), (0x02, BranchOp Bltzl),
    (0x03, BranchOp Bgezl), (0x08, TrapOp Tgei), (0x09, TrapOp Tgeiu), (0x0A, TrapOp Tlti),
    (0x0B, TrapOp Tltiu), (0x0C, TrapOp Teqi), (0x0E, TrapOp Tnei), (0x10, BranchOp Bltzal),
    (0x11, BranchOp Bgezal), (0x12, BranchOp Bltzall), (0x13, BranchOp Bgezall)]"

definition decode_regimm :: "decoded \<Rightarrow> decoded" where
  "decode_regimm base =
     (let rt = d_rt base;
          linking = rt \<in> {0x10, 0x11, 0x12, 0x13};
          p = (case map_of regimm_table rt of Some p \<Rightarrow> p | None \<Rightarrow> Reserved)
      in base\<lparr>d_op := p, d_dest := (if linking then 31 else 0)\<rparr>)"

definition decode_cop0 :: "u32 \<Rightarrow> decoded \<Rightarrow> decoded" where
  "decode_cop0 word base =
     (let rs = to_u8 (shr word 21 AND 31);
          gp = to_u8 (shr word 16 AND 31);
          f = word AND 0x3F
      in if rs = 0 then base\<lparr>d_op := Cop0Op Mfc0, d_dest := gp\<rparr>
         else if rs = 1 then base\<lparr>d_op := Cop0Op Dmfc0, d_dest := gp\<rparr>
         else if rs = 4 then base\<lparr>d_op := Cop0Op Mtc0\<rparr>
         else if rs = 5 then base\<lparr>d_op := Cop0Op Dmtc0\<rparr>
         else if rs AND 0x10 \<noteq> 0 then
           (if f = 0x01 then base\<lparr>d_op := Cop0Op Tlbr\<rparr>
            else if f = 0x02 then base\<lparr>d_op := Cop0Op Tlbwi\<rparr>
            else if f = 0x06 then base\<lparr>d_op := Cop0Op Tlbwr\<rparr>
            else if f = 0x08 then base\<lparr>d_op := Cop0Op Tlbp\<rparr>
            else if f = 0x18 then base\<lparr>d_op := Cop0Op Eret\<rparr>
            else if 0x20 \<le> f \<and> f \<le> 0x3F then
              base\<lparr>d_op := Cop0Op Cop0Extension,
                   d_rs := to_u8 (shr word 20 AND 0x1F),
                   d_rt := to_u8 (shr word 15 AND 0x1F),
                   d_dest := to_u8 (shr word 20 AND 0x1F),
                   d_imm := to_u16 (shr word 6 AND 0x1FF),
                   d_sa := f\<rparr>
            else base)
         else base)"

definition decode_cop2 :: "u32 \<Rightarrow> decoded \<Rightarrow> decoded" where
  "decode_cop2 word base =
     (let rs = shr word 21 AND 31;
          gp = to_u8 (shr word 16 AND 31)
      in if rs = 3 \<or> rs = 7 then base\<lparr>d_op := Cop2Op Cop2ReservedControl\<rparr>
         else if rs = 0 then base\<lparr>d_op := Cop2Op Mfc2, d_dest := gp\<rparr>
         else if rs = 1 then base\<lparr>d_op := Cop2Op Dmfc2, d_dest := gp\<rparr>
         else if rs = 4 \<or> rs = 5 then base\<lparr>d_op := Cop2Op Mtc2\<rparr>
         else base\<lparr>d_op := Cop2Op Cop2\<rparr>)"

definition fp_float_funct :: "u32 \<Rightarrow> bool" where
  "fp_float_funct f \<longleftrightarrow> f \<le> 7 \<or> 0x08 \<le> f \<and> f \<le> 0x0F \<or>
     f = 0x20 \<or> f = 0x21 \<or> f = 0x24 \<or> f = 0x25 \<or> 0x30 \<le> f \<and> f \<le> 0x3F"

definition fp_fixed_funct :: "u32 \<Rightarrow> bool" where
  "fp_fixed_funct f \<longleftrightarrow> 0x08 \<le> f \<and> f \<le> 0x0F \<or> f = 0x20 \<or> f = 0x21 \<or> f = 0x24 \<or> f = 0x25"

definition bc1_op :: "u32 \<Rightarrow> branch_op" where
  "bc1_op nd = (if nd = 0 then Bc1f else if nd = 1 then Bc1t else if nd = 2 then Bc1fl else Bc1tl)"

definition decode_cop1 :: "u32 \<Rightarrow> decoded \<Rightarrow> decoded" where
  "decode_cop1 word base =
     (let rs = to_u8 (shr word 21 AND 31);
          gp = to_u8 (shr word 16 AND 31);
          f = word AND 0x3F
      in if rs = 0 then base\<lparr>d_op := Cop1Op Mfc1, d_dest := gp\<rparr>
         else if rs = 1 then base\<lparr>d_op := Cop1Op Dmfc1, d_dest := gp\<rparr>
         else if rs = 2 then base\<lparr>d_op := Cop1Op Cfc1, d_dest := gp\<rparr>
         else if (rs = 0x10 \<or> rs = 0x11) \<and> fp_float_funct f then base\<lparr>d_op := Cop1Op FpArith\<rparr>
         else if (rs = 0x14 \<or> rs = 0x15) \<and> fp_fixed_funct f then base\<lparr>d_op := Cop1Op FpArith\<rparr>
         else if rs = 8 then base\<lparr>d_op := BranchOp (bc1_op (shr word 16 AND 3))\<rparr>
         else if rs = 4 then base\<lparr>d_op := Cop1Op Mtc1\<rparr>
         else if rs = 5 then base\<lparr>d_op := Cop1Op Dmtc1\<rparr>
         else if rs = 6 then base\<lparr>d_op := Cop1Op Ctc1\<rparr>
         else if rs = 3 \<or> rs = 7 then base\<lparr>d_op := Cop1Op Cop1ReservedControl\<rparr>
         else base\<lparr>d_op := Cop1Op Cop1Unimplemented\<rparr>)"

definition decode_base :: "u32 \<Rightarrow> decoded" where
  "decode_base word = \<lparr>
     d_op = Reserved,
     d_rs = to_u8 (shr word 21 AND 0x1F),
     d_rt = to_u8 (shr word 16 AND 0x1F),
     d_rd = to_u8 (shr word 11 AND 0x1F),
     d_sa = shr word 6 AND 0x1F,
     d_imm = to_u16 (word AND 0xFFFF),
     d_dest = 0,
     d_target = word AND 0x03FFFFFF\<rparr>"

definition decode :: "u32 \<Rightarrow> decoded" where
  "decode word =
     (let opcode = shr word 26;
          funct = word AND 0x3F;
          base = decode_base word
      in if opcode = 0x00 then decode_table special_table funct base
         else if opcode = 0x10 then decode_cop0 word base
         else if opcode = 0x12 then decode_cop2 word base
         else if opcode = 0x11 then decode_cop1 word base
         else if opcode = 0x03 then base\<lparr>d_op := JumpOp Jal, d_dest := 31\<rparr>
         else if opcode = 0x01 then decode_regimm base
         else decode_table primary_table opcode base)"

section \<open>Fields and destinations of a decoded word\<close>

lemma unat_and_1F: "unat ((a :: 'a::len word) AND 31) < 32"
  by (simp add: unat_and_31)

lemma apply_fmt_fields:
  "d_op (apply_fmt f p base) = p"
  "d_rs (apply_fmt f p base) = d_rs base" "d_rt (apply_fmt f p base) = d_rt base"
  "d_rd (apply_fmt f p base) = d_rd base" "d_imm (apply_fmt f p base) = d_imm base"
  "d_target (apply_fmt f p base) = d_target base"
  "d_sa (apply_fmt f p base) = (if f = R32Fmt then d_sa base + 32 else d_sa base)"
  "d_dest (apply_fmt f p base) = (case f of RFmt \<Rightarrow> d_rd base | R32Fmt \<Rightarrow> d_rd base
     | IFmt \<Rightarrow> d_rt base | HiLoFmt \<Rightarrow> d_dest base)"
  by (cases f; simp)+

lemma decode_table_cases:
  assumes "P base" "\<And>c f p. (c, f, p) \<in> set t \<Longrightarrow> P (apply_fmt f p base)"
  shows "P (decode_table t code base)"
  using assms by (auto simp: decode_table_def split: option.splits dest!: map_of_SomeD)

text \<open>Which field of the word an operation writes its result to, stated on the operation alone.\<close>

primrec dest_field :: "op \<Rightarrow> decoded \<Rightarrow> u8" where
  "dest_field Reserved d = 0"
| "dest_field (RegArith p) d = d_rd d"
| "dest_field (RegLogic p) d = d_rd d"
| "dest_field (ImmOp p) d = d_rt d"
| "dest_field (ShiftOp p) d = d_rd d"
| "dest_field (ShiftVOp p) d = d_rd d"
| "dest_field (HiLoOp p) d = (if p = Mfhi \<or> p = Mflo then d_rd d else 0)"
| "dest_field (LoadOp p) d = d_rt d"
| "dest_field (StoreOp p) d = 0"
| "dest_field (LinkOp p) d = d_rt d"
| "dest_field (UnalignedOp p) d = (if p \<in> {Lwl, Lwr, Ldl, Ldr} then d_rt d else 0)"
| "dest_field (JumpOp p) d = (if p = Jal then 31 else if p = Jalr then d_rd d else 0)"
| "dest_field (BranchOp p) d = (if p \<in> {Bltzal, Bgezal, Bltzall, Bgezall} then 31 else 0)"
| "dest_field (TrapOp p) d = 0"
| "dest_field (Cop0Op p) d = (if p = Mfc0 \<or> p = Dmfc0 then d_rt d
     else if p = Cop0Extension then d_rs d else 0)"
| "dest_field (Cop1Op p) d = (if p \<in> {Mfc1, Dmfc1, Cfc1} then d_rt d else 0)"
| "dest_field (Cop2Op p) d = (if p \<in> {Mfc2, Dmfc2} then d_rt d else 0)"
| "dest_field Cache d = 0"
| "dest_field Sync d = 0"
| "dest_field Syscall d = 0"
| "dest_field Break d = 0"

definition dest_ok :: "decoded \<Rightarrow> bool" where
  "dest_ok d \<longleftrightarrow> d_dest d = dest_field (d_op d) d"

lemma dest_ok_special:
  assumes "(c, f, p) \<in> set special_table" "d_dest base = 0"
  shows "dest_ok (apply_fmt f p base)"
  using assms unfolding special_table_def dest_ok_def
  by (simp only: list.set, elim insertE emptyE) (simp_all)

lemma dest_ok_primary:
  assumes "(c, f, p) \<in> set primary_table" "d_dest base = 0"
  shows "dest_ok (apply_fmt f p base)"
  using assms unfolding primary_table_def dest_ok_def
  by (simp only: list.set, elim insertE emptyE) (simp_all)

lemma dest_ok_regimm: "dest_ok (decode_regimm base)"
  unfolding dest_ok_def decode_regimm_def Let_def regimm_table_def
  by (simp)

lemma decode_base_simps [simp]:
  "d_op (decode_base w) = Reserved" "d_dest (decode_base w) = 0"
  "d_rs (decode_base w) = to_u8 (shr w 21 AND 0x1F)" "d_rt (decode_base w) = to_u8 (shr w 16 AND 0x1F)"
  "d_rd (decode_base w) = to_u8 (shr w 11 AND 0x1F)" "d_sa (decode_base w) = shr w 6 AND 0x1F"
  "d_imm (decode_base w) = to_u16 (w AND 0xFFFF)" "d_target (decode_base w) = w AND 0x03FFFFFF"
  by (simp_all add: decode_base_def)

lemma dest_ok_base: "dest_ok (decode_base w)"
  by (simp add: dest_ok_def)

lemma dest_ok_if: "dest_ok x \<Longrightarrow> dest_ok y \<Longrightarrow> dest_ok (if b then x else y)"
  by simp

lemma dest_field_bc1: "dest_field (BranchOp (bc1_op x)) d = 0"
  by (simp add: bc1_op_def)

lemma dest_ok_cop0: "dest_ok (decode_cop0 w (decode_base w))"
  unfolding decode_cop0_def Let_def
  by (intro dest_ok_if) (simp_all add: dest_ok_def)

lemma dest_ok_cop1: "dest_ok (decode_cop1 w (decode_base w))"
  unfolding decode_cop1_def Let_def
  by (intro dest_ok_if) (simp_all add: dest_ok_def dest_field_bc1 del: dest_field.simps(13))

lemma dest_ok_cop2: "dest_ok (decode_cop2 w (decode_base w))"
  unfolding decode_cop2_def Let_def
  by (intro dest_ok_if) (simp_all add: dest_ok_def)

lemma dest_ok_table:
  assumes "d_dest base = 0" "dest_ok base"
  shows "dest_ok (decode_table special_table c base)" "dest_ok (decode_table primary_table c base)"
  by (rule decode_table_cases [where P = dest_ok];
      use assms dest_ok_special dest_ok_primary in blast)+

lemma dest_ok_jal: "dest_ok (decode_base w\<lparr>d_op := JumpOp Jal, d_dest := 31\<rparr>)"
  by (simp add: dest_ok_def)

lemma decode_dest: "d_dest (decode w) = dest_field (d_op (decode w)) (decode w)"
  unfolding decode_def Let_def dest_ok_def [symmetric]
  by (intro dest_ok_if dest_ok_table dest_ok_cop0 dest_ok_cop1 dest_ok_cop2 dest_ok_regimm
      dest_ok_jal dest_ok_base decode_base_simps)

text \<open>The other fields are slices of the word, except for the COP0 extension's own layout.\<close>

definition fields_ok :: "u32 \<Rightarrow> decoded \<Rightarrow> bool" where
  "fields_ok w d \<longleftrightarrow> d_target d = w AND 0x03FFFFFF \<and>
     (if d_op d = Cop0Op Cop0Extension
      then d_rs d = to_u8 (shr w 20 AND 0x1F) \<and> d_rt d = to_u8 (shr w 15 AND 0x1F) \<and>
           d_imm d = to_u16 (shr w 6 AND 0x1FF) \<and> d_sa d = w AND 0x3F
      else d_rs d = to_u8 (shr w 21 AND 0x1F) \<and> d_rt d = to_u8 (shr w 16 AND 0x1F) \<and>
           d_imm d = to_u16 (w AND 0xFFFF) \<and>
           d_sa d = (shr w 6 AND 0x1F) +
             (if d_op d \<in> {ShiftOp Dsll32, ShiftOp Dsrl32, ShiftOp Dsra32} then 32 else 0)) \<and>
     d_rd d = to_u8 (shr w 11 AND 0x1F)"

lemma fields_ok_if: "fields_ok w x \<Longrightarrow> fields_ok w y \<Longrightarrow> fields_ok w (if b then x else y)"
  by simp

lemma fields_ok_special:
  assumes "(c, f, p) \<in> set special_table"
  shows "fields_ok w (apply_fmt f p (decode_base w))"
  using assms unfolding special_table_def
  by (simp only: list.set, elim insertE emptyE) (simp_all add: fields_ok_def)

lemma fields_ok_primary:
  assumes "(c, f, p) \<in> set primary_table"
  shows "fields_ok w (apply_fmt f p (decode_base w))"
  using assms unfolding primary_table_def
  by (simp only: list.set, elim insertE emptyE) (simp_all add: fields_ok_def)

lemma fields_ok_base: "fields_ok w (decode_base w)"
  by (simp add: fields_ok_def)

lemma fields_ok_table:
  "fields_ok w (decode_table special_table c (decode_base w))"
  "fields_ok w (decode_table primary_table c (decode_base w))"
  by (rule decode_table_cases [where P = "fields_ok w"];
      use fields_ok_base fields_ok_special fields_ok_primary in blast)+

lemma fields_ok_regimm: "fields_ok w (decode_regimm (decode_base w))"
proof -
  have "(case map_of regimm_table rt of Some p \<Rightarrow> p | None \<Rightarrow> Reserved) \<notin>
      {Cop0Op Cop0Extension, ShiftOp Dsll32, ShiftOp Dsrl32, ShiftOp Dsra32}" for rt
    by (simp add: regimm_table_def)
  then show ?thesis
    by (simp add: decode_regimm_def Let_def fields_ok_def)
qed

lemma fields_ok_cop0: "fields_ok w (decode_cop0 w (decode_base w))"
  unfolding decode_cop0_def Let_def
  by (intro fields_ok_if) (simp_all add: fields_ok_def)

lemma fields_ok_cop1: "fields_ok w (decode_cop1 w (decode_base w))"
  unfolding decode_cop1_def Let_def
  by (intro fields_ok_if) (simp_all add: fields_ok_def)

lemma fields_ok_cop2: "fields_ok w (decode_cop2 w (decode_base w))"
  unfolding decode_cop2_def Let_def
  by (intro fields_ok_if) (simp_all add: fields_ok_def)

lemma fields_ok_jal: "fields_ok w (decode_base w\<lparr>d_op := JumpOp Jal, d_dest := 31\<rparr>)"
  by (simp add: fields_ok_def)

lemma decode_fields: "fields_ok w (decode w)"
  unfolding decode_def Let_def
  by (intro fields_ok_if fields_ok_table fields_ok_cop0 fields_ok_cop1 fields_ok_cop2
      fields_ok_regimm fields_ok_jal fields_ok_base)

lemma field_lt_32: "unat (to_u8 ((w :: u32) AND 0x1F)) < 32"
  by (simp add: unat_ucast_mod unat_and_31)

lemma decode_regs_lt_32:
  "unat (d_rs (decode w)) < 32" "unat (d_rt (decode w)) < 32" "unat (d_rd (decode w)) < 32"
  using decode_fields [of w] field_lt_32 by (auto simp: fields_ok_def split: if_splits)

lemma dest_field_lt_32:
  assumes "unat (d_rs d) < 32" "unat (d_rt d) < 32" "unat (d_rd d) < 32"
  shows "unat (dest_field p d) < 32"
  using assms by (cases p) auto

lemma decode_dest_lt_32: "unat (d_dest (decode w)) < 32"
  unfolding decode_dest by (intro dest_field_lt_32 decode_regs_lt_32)

lemma decode_sa_lt_64: "unat (d_sa (decode w)) < 64"
proof -
  have "unat ((shr w 6 AND 0x1F) + 32 :: u32) < 64" "unat (w AND 0x3F) < 64"
    using unat_and_31 [of "shr w 6"] unat_and_63 [of w] by (simp_all add: unat_word_ariths)
  moreover have "unat (shr w 6 AND 0x1F :: u32) < 64"
    by (simp add: unat_and_31)
  ultimately show ?thesis
    using decode_fields [of w] by (auto simp: fields_ok_def split: if_splits)
qed

section \<open>Properties\<close>

text \<open>C17. Every 32-bit word decodes, its register fields are register numbers, the shift amount is
  below 64, and the destination register is the one the operation determines: \<open>rd\<close>, \<open>rt\<close>, 31 for
  the linking branches, or none for the operations that write no general register.\<close>

theorem decode_well_formed:
  "unat (d_rs (decode w)) < 32 \<and> unat (d_rt (decode w)) < 32 \<and> unat (d_rd (decode w)) < 32 \<and>
   unat (d_dest (decode w)) < 32 \<and> unat (d_sa (decode w)) < 64 \<and>
   d_dest (decode w) = dest_field (d_op (decode w)) (decode w) \<and> fields_ok w (decode w)"
  using decode_regs_lt_32 [of w] decode_dest_lt_32 [of w] decode_sa_lt_64 [of w]
  by (simp add: decode_dest decode_fields)

end
