(* ===== verification/Alu.thy ===== *)
theory Alu
  imports Stages
begin

text \<open>
  The integer ALU of the VR4300 (\<^verbatim>\<open>alu.rs\<close>), as the pure functions the code has. The code
  reproduces two hardware errata: \<open>sra\<close> shifts the whole 64-bit register before it truncates,
  and \<open>mult\<close> and \<open>div_op\<close> sign-extend one operand from bit 34. The lemmas say what each
  function computes for every input, and that on properly sign-extended inputs the errata
  cannot be observed.
\<close>

section \<open>The operations\<close>

definition sext32 :: "u32 \<Rightarrow> u64" where
  "sext32 v = scast v"

definition add :: "u64 \<Rightarrow> u64 \<Rightarrow> u64 exn_result" where
  "add a b = (let (r, ovf) = overflowing_add (to_u32 a) (to_u32 b) in
     if ovf then Inl Overflow else Inr (sext32 r))"

definition addu :: "u64 \<Rightarrow> u64 \<Rightarrow> u64" where
  "addu a b = sext32 (to_u32 a + to_u32 b)"

definition sub :: "u64 \<Rightarrow> u64 \<Rightarrow> u64 exn_result" where
  "sub a b = (let (r, ovf) = overflowing_sub (to_u32 a) (to_u32 b) in
     if ovf then Inl Overflow else Inr (sext32 r))"

definition subu :: "u64 \<Rightarrow> u64 \<Rightarrow> u64" where
  "subu a b = sext32 (to_u32 a - to_u32 b)"

definition dadd :: "u64 \<Rightarrow> u64 \<Rightarrow> u64 exn_result" where
  "dadd a b = (let (r, ovf) = overflowing_add a b in if ovf then Inl Overflow else Inr r)"

definition daddu :: "u64 \<Rightarrow> u64 \<Rightarrow> u64" where
  "daddu a b = a + b"

definition dsub :: "u64 \<Rightarrow> u64 \<Rightarrow> u64 exn_result" where
  "dsub a b = (let (r, ovf) = overflowing_sub a b in if ovf then Inl Overflow else Inr r)"

definition dsubu :: "u64 \<Rightarrow> u64 \<Rightarrow> u64" where
  "dsubu a b = a - b"

definition slt :: "u64 \<Rightarrow> u64 \<Rightarrow> u64" where
  "slt a b = b2w (sint a < sint b)"

definition sltu :: "u64 \<Rightarrow> u64 \<Rightarrow> u64" where
  "sltu a b = b2w (a < b)"

definition and_op :: "u64 \<Rightarrow> u64 \<Rightarrow> u64" where "and_op a b = a AND b"
definition or_op :: "u64 \<Rightarrow> u64 \<Rightarrow> u64" where "or_op a b = a OR b"
definition xor_op :: "u64 \<Rightarrow> u64 \<Rightarrow> u64" where "xor_op a b = a XOR b"
definition nor :: "u64 \<Rightarrow> u64 \<Rightarrow> u64" where "nor a b = NOT (a OR b)"

definition lui :: "u16 \<Rightarrow> u64" where
  "lui imm = sext32 (shl (to_u32 imm) 16)"

definition sll :: "u64 \<Rightarrow> u32 \<Rightarrow> u64" where
  "sll v sa = sext32 (shl (to_u32 v) (unat (sa AND 31)))"

definition srl :: "u64 \<Rightarrow> u32 \<Rightarrow> u64" where
  "srl v sa = sext32 (shr (to_u32 v) (unat (sa AND 31)))"

definition sra :: "u64 \<Rightarrow> u32 \<Rightarrow> u64" where
  "sra v sa = sext32 (to_u32 (sar v (unat (sa AND 31))))"

definition dsll :: "u64 \<Rightarrow> u32 \<Rightarrow> u64" where
  "dsll v sa = shl v (unat (sa AND 63))"

definition dsrl :: "u64 \<Rightarrow> u32 \<Rightarrow> u64" where
  "dsrl v sa = shr v (unat (sa AND 63))"

definition dsra :: "u64 \<Rightarrow> u32 \<Rightarrow> u64" where
  "dsra v sa = sar v (unat (sa AND 63))"

record hilo =
  hl_hi :: u64
  hl_lo :: u64

definition mult :: "u64 \<Rightarrow> u64 \<Rightarrow> hilo" where
  "mult a b =
     (let b35 = sar (shl b 29) 29;
          product = a * b35
      in \<lparr>hl_hi = sext32 (to_u32 (sar product 32)), hl_lo = sext32 (to_u32 product)\<rparr>)"

definition multu :: "u64 \<Rightarrow> u64 \<Rightarrow> hilo" where
  "multu a b =
     (let product = to_u64 (to_u32 a) * to_u64 (to_u32 b)
      in \<lparr>hl_hi = sext32 (to_u32 (shr product 32)), hl_lo = sext32 (to_u32 product)\<rparr>)"

definition dmult :: "u64 \<Rightarrow> u64 \<Rightarrow> hilo" where
  "dmult a b =
     (let product = (scast a :: u128) * scast b
      in \<lparr>hl_hi = to_u64 (sar product 64), hl_lo = to_u64 product\<rparr>)"

definition dmultu :: "u64 \<Rightarrow> u64 \<Rightarrow> hilo" where
  "dmultu a b =
     (let product = to_u128 a * to_u128 b
      in \<lparr>hl_hi = to_u64 (shr product 64), hl_lo = to_u64 product\<rparr>)"

definition div_op :: "u64 \<Rightarrow> u64 \<Rightarrow> hilo" where
  "div_op dividend divisor =
     (let n = scast (to_u32 dividend) :: u64;
          d = sar (shl divisor 29) 29
      in if d = 0 then \<lparr>hl_hi = sext32 (to_u32 n), hl_lo = (if sint n < 0 then 1 else - 1)\<rparr>
         else if sint n = - (2 ^ 31) \<and> sint d = - 1
         then \<lparr>hl_hi = 0, hl_lo = sext32 (to_u32 n)\<rparr>
         else \<lparr>hl_hi = sext32 (to_u32 (wrapping_rem_s n d)),
               hl_lo = sext32 (to_u32 (wrapping_div_s n d))\<rparr>)"

definition divu :: "u64 \<Rightarrow> u64 \<Rightarrow> hilo" where
  "divu dividend divisor =
     (let n = to_u32 dividend; d = to_u32 divisor
      in if d = 0 then \<lparr>hl_hi = sext32 n, hl_lo = sext32 (- 1)\<rparr>
         else \<lparr>hl_hi = sext32 (n mod d), hl_lo = sext32 (n div d)\<rparr>)"

definition ddiv :: "u64 \<Rightarrow> u64 \<Rightarrow> hilo" where
  "ddiv dividend divisor =
     (let n = dividend; d = divisor
      in if d = 0 then \<lparr>hl_hi = n, hl_lo = (if sint n < 0 then 1 else - 1)\<rparr>
         else if sint n = - (2 ^ 63) \<and> sint d = - 1 then \<lparr>hl_hi = 0, hl_lo = n\<rparr>
         else \<lparr>hl_hi = wrapping_rem_s n d, hl_lo = wrapping_div_s n d\<rparr>)"

definition ddivu :: "u64 \<Rightarrow> u64 \<Rightarrow> hilo" where
  "ddivu dividend divisor =
     (if divisor = 0 then \<lparr>hl_hi = dividend, hl_lo = - 1\<rparr>
      else \<lparr>hl_hi = dividend mod divisor, hl_lo = dividend div divisor\<rparr>)"

datatype muldiv = MdMult | MdMultu | MdDiv | MdDivu | MdDmult | MdDmultu | MdDdiv | MdDdivu

fun muldiv_stall_cycles :: "muldiv \<Rightarrow> u32" where
  "muldiv_stall_cycles MdMult = 5"
| "muldiv_stall_cycles MdMultu = 5"
| "muldiv_stall_cycles MdDiv = 37"
| "muldiv_stall_cycles MdDivu = 37"
| "muldiv_stall_cycles MdDmult = 8"
| "muldiv_stall_cycles MdDmultu = 8"
| "muldiv_stall_cycles MdDdiv = 69"
| "muldiv_stall_cycles MdDdivu = 69"

section \<open>What each operation computes\<close>

lemma sint_sext32 [simp]: "sint (sext32 v) = sint v"
  by (simp add: sext32_def sint_scast_up)

lemma to_u32_sext32 [simp]: "to_u32 (sext32 v) = v"
  unfolding sext32_def by (rule bit_word_eqI) (auto simp: bit_word_simps)

lemma sar_to_u32_sext32:
  assumes "k < 32"
  shows "to_u32 (sar (sext32 v) k) = sar v k"
proof (rule bit_word_eqI)
  fix n assume "n < LENGTH(32)"
  then show "bit (to_u32 (sar (sext32 v) k)) n = bit (sar v k) n"
    using assms by (cases "k + n = 31") (auto simp: bit_word_simps min_def sext32_def)
qed

lemma b35_sint: "sint (sar (shl b 29) 29 :: u64) = signed_take_bit 34 (uint b)"
proof (rule bit_eqI)
  fix n
  show "bit (sint (sar (shl b 29) 29 :: u64)) n = bit (signed_take_bit 34 (uint b)) n"
    by (cases "n = 34") (auto simp: bit_sint_iff bit_signed_take_bit_iff bit_word_simps bit_uint_iff min_def)
qed

lemma b35_sext32: "sar (shl (sext32 v) 29) 29 = sext32 v"
  unfolding sext32_def by (rule bit_word_eqI) (auto simp: bit_word_simps min_def)

lemma sext32_word_of_int: "sext32 (to_u32 (word_of_int k :: u64)) = word_of_int (signed_take_bit 31 k)"
  by (rule bit_word_eqI) (auto simp: sext32_def bit_simps bit_word_scast_iff min_def)

lemma to_u64_word_of_int: "to_u64 (word_of_int k :: u128) = word_of_int k"
  by (rule bit_word_eqI) (auto simp: bit_simps bit_word_ucast_iff)

lemma sar_of_int:
  assumes "- (2 ^ (LENGTH('a) - 1)) \<le> p" "p < 2 ^ (LENGTH('a) - 1)"
  shows "sar (word_of_int p :: 'a::len word) n = word_of_int (p div 2 ^ n)"
proof -
  have "sint (sar (word_of_int p :: 'a word) n) = p div 2 ^ n"
    using assms by (simp only: sint_signed_drop_bit_eq drop_bit_eq_div sint_of_int_in_range)
  then have "word_of_int (sint (sar (word_of_int p :: 'a word) n)) = (word_of_int (p div 2 ^ n) :: 'a word)" by (simp only:)
  then show ?thesis by simp
qed

lemma shr_of_int:
  assumes "uint w = p"
  shows "shr (w :: 'a::len word) n = word_of_int (p div 2 ^ n)" "w = word_of_int p"
proof -
  have "int (unat (shr w n)) = int (unat w) div 2 ^ n" by (simp only: unat_shr zdiv_int of_nat_power of_nat_numeral)
  then have "uint (shr w n) = p div 2 ^ n" using assms by simp
  then have "word_of_int (uint (shr w n)) = (word_of_int (p div 2 ^ n) :: 'a word)" by (simp only:)
  then show "shr w n = word_of_int (p div 2 ^ n)" by simp
  show "w = word_of_int p" using assms by auto
qed

lemma mult_fields:
  assumes "p = sint x * sint y"
  shows "mult (sext32 x) (sext32 y) = \<lparr>hl_hi = word_of_int (p div 2 ^ 32), hl_lo = word_of_int (signed_take_bit 31 p)\<rparr>"
proof -
  have w: "sext32 x * sext32 y = word_of_int p"
    unfolding word_of_int_mult_sint[of "sext32 x"] sint_sext32 assms ..
  have r: "- (2 ^ 62) \<le> p" "p \<le> 2 ^ 62" using sint_mult_bound[of x y] by (simp_all add: assms)
  then have "sar (word_of_int p :: u64) 32 = word_of_int (p div 2 ^ 32)" by (intro sar_of_int) simp_all
  moreover have "signed_take_bit 31 (p div 2 ^ 32) = p div 2 ^ 32"
    using r by (intro signed_take_bit_int_eq_self) simp_all
  ultimately show ?thesis
    by (simp only: mult_def Let_def b35_sext32 w sext32_word_of_int)
qed

lemma uint_product:
  fixes a :: "'a::len word" and b :: "'b::len word"
  assumes "LENGTH('a) + LENGTH('b) = LENGTH('c::len)"
  shows "uint (ucast a * ucast b :: 'c word) = uint a * uint b"
proof -
  have "unat a * unat b < 2 ^ LENGTH('c)" using unat_mult_bound[of a b] by (simp add: assms)
  moreover have "unat (ucast a :: 'c word) = unat a" "unat (ucast b :: 'c word) = unat b"
    using assms by (simp_all add: unat_ucast_up)
  ultimately have "unat (ucast a * ucast b :: 'c word) = unat a * unat b" by (simp add: unat_word_ariths)
  then have "int (unat (ucast a * ucast b :: 'c word)) = int (unat a) * int (unat b)" by (simp only: of_nat_mult)
  then show ?thesis by simp
qed

lemma multu_fields:
  assumes "p = uint (to_u32 a) * uint (to_u32 b)"
  shows "multu a b = \<lparr>hl_hi = word_of_int (signed_take_bit 31 (p div 2 ^ 32)), hl_lo = word_of_int (signed_take_bit 31 p)\<rparr>"
proof -
  have u: "uint (to_u64 (to_u32 a) * to_u64 (to_u32 b)) = p" unfolding assms by (rule uint_product) simp
  show ?thesis
    by (simp only: multu_def Let_def shr_of_int(1)[OF u]) (simp only: shr_of_int(2)[OF u] sext32_word_of_int)
qed

lemma dmult_fields:
  assumes "p = sint a * sint b"
  shows "dmult a b = \<lparr>hl_hi = word_of_int (p div 2 ^ 64), hl_lo = word_of_int p\<rparr>"
proof -
  have w: "(scast a :: u128) * scast b = word_of_int p"
    unfolding word_of_int_mult_sint assms by (simp add: sint_scast_up)
  have r: "- (2 ^ 126) \<le> p" "p \<le> 2 ^ 126" using sint_mult_bound[of a b] by (simp_all add: assms)
  then have "sar (word_of_int p :: u128) 64 = word_of_int (p div 2 ^ 64)" by (intro sar_of_int) simp_all
  then show ?thesis by (simp only: dmult_def Let_def w to_u64_word_of_int)
qed

lemma dmultu_fields:
  assumes "p = uint a * uint b"
  shows "dmultu a b = \<lparr>hl_hi = word_of_int (p div 2 ^ 64), hl_lo = word_of_int p\<rparr>"
proof -
  have u: "uint (to_u128 a * to_u128 b) = p" unfolding assms by (rule uint_product) simp
  show ?thesis
    by (simp only: dmultu_def Let_def shr_of_int(1)[OF u]) (simp only: shr_of_int(2)[OF u] to_u64_word_of_int)
qed

lemma div_op_exact:
  assumes "d = signed_take_bit 34 (uint divisor)" "d \<noteq> 0" "\<not> (n = - (2 ^ 31) \<and> d = - 1)"
    "n = sint (to_u32 dividend)"
  shows "sint (hl_lo (div_op dividend divisor)) = n sdiv d"
    "sint (hl_hi (div_op dividend divisor)) = n smod d"
proof -
  let ?n = "scast (to_u32 dividend) :: u64" and ?d = "sar (shl divisor 29) 29"
  have n: "sint ?n = n" using assms by (simp add: sint_scast_up)
  have d: "sint ?d = d" using assms by (simp add: b35_sint)
  have nr: "- (2 ^ 31) \<le> n" "n < 2 ^ 31" using sint_in_range[of "to_u32 dividend"] assms by auto
  have "?d \<noteq> 0" using d assms by auto
  then have *: "div_op dividend divisor = \<lparr>hl_hi = sext32 (to_u32 (wrapping_rem_s ?n ?d)),
      hl_lo = sext32 (to_u32 (wrapping_div_s ?n ?d))\<rparr>"
    using assms d n by (auto simp: div_op_def Let_def)
  have q: "sint (wrapping_div_s ?n ?d) = n sdiv d"
    using sint_wrapping_div_s[of ?n ?d] nr by (simp add: n d)
  have r: "sint (wrapping_rem_s ?n ?d) = n smod d"
    by (simp add: sint_wrapping_rem_s n d)
  show "sint (hl_lo (div_op dividend divisor)) = n sdiv d"
    using sint_to_u32 q sdiv_in_range[OF nr assms(3)] * by simp
  show "sint (hl_hi (div_op dividend divisor)) = n smod d"
    using sint_to_u32 r smod_in_range[OF nr] * by simp
qed

lemma b35_eq_iff: "sar (shl b 29) 29 = (c :: u64) \<longleftrightarrow> signed_take_bit 34 (uint b) = sint c"
  by (metis b35_sint sint_eq_imp_eq)

lemma div_op_zero:
  assumes "signed_take_bit 34 (uint divisor) = 0"
  shows "div_op dividend divisor =
   \<lparr>hl_hi = sext32 (to_u32 dividend), hl_lo = (if sint (to_u32 dividend) < 0 then 1 else - 1)\<rparr>"
  using assms b35_eq_iff[of divisor 0]
  by (simp add: div_op_def Let_def sint_scast_up flip: sext32_def)

lemma div_op_overflow:
  assumes "signed_take_bit 34 (uint divisor) = - 1" "to_u32 dividend = 0x80000000"
  shows "div_op dividend divisor = \<lparr>hl_hi = 0, hl_lo = sext32 0x80000000\<rparr>"
proof -
  have "sar (shl divisor 29) 29 = - 1" using assms b35_eq_iff[of divisor "- 1"] by simp
  then show ?thesis
    using assms(2) by (simp add: div_op_def Let_def sint_scast_up flip: sext32_def)
qed

lemma ddiv_exact:
  assumes "d = sint divisor" "d \<noteq> 0" "\<not> (n = - (2 ^ 63) \<and> d = - 1)" "n = sint dividend"
  shows "sint (hl_lo (ddiv dividend divisor)) = n sdiv d"
    "sint (hl_hi (ddiv dividend divisor)) = n smod d"
  using assms sint_wrapping_div_s[of dividend divisor] sint_wrapping_rem_s[of dividend divisor]
  by (auto simp: ddiv_def Let_def)

lemma sext32_sint: "sext32 v = word_of_int (sint v)"
  by (simp add: sext32_def)

lemma add_exact:
  "add a b = (let s = sint (to_u32 a) + sint (to_u32 b)
     in if - (2 ^ 31) \<le> s \<and> s < 2 ^ 31 then Inr (word_of_int s) else Inl Overflow)"
proof -
  let ?s = "sint (to_u32 a) + sint (to_u32 b)"
  have o: "snd (overflowing_add (to_u32 a) (to_u32 b)) \<longleftrightarrow> \<not> (- (2 ^ 31) \<le> ?s \<and> ?s < 2 ^ 31)"
    using sint_add_overflow[of "to_u32 a" "to_u32 b"] by simp
  have "add a b = (if snd (overflowing_add (to_u32 a) (to_u32 b)) then Inl Overflow
      else Inr (word_of_int (sint (to_u32 a + to_u32 b))))"
    by (simp only: add_def overflowing_add_def Let_def prod.case snd_conv sext32_sint)
  also have "\<dots> = (if snd (overflowing_add (to_u32 a) (to_u32 b)) then Inl Overflow
      else Inr (word_of_int ?s))"
    by (simp only: overflowing_add_def snd_conv split: if_split) argo
  finally show ?thesis by (simp only: o Let_def if_not_P split: if_split) blast
qed

lemma sub_exact:
  "sub a b = (let s = sint (to_u32 a) - sint (to_u32 b)
     in if - (2 ^ 31) \<le> s \<and> s < 2 ^ 31 then Inr (word_of_int s) else Inl Overflow)"
proof -
  let ?s = "sint (to_u32 a) - sint (to_u32 b)"
  have o: "snd (overflowing_sub (to_u32 a) (to_u32 b)) \<longleftrightarrow> \<not> (- (2 ^ 31) \<le> ?s \<and> ?s < 2 ^ 31)"
    using sint_sub_overflow[of "to_u32 a" "to_u32 b"] by simp
  have "sub a b = (if snd (overflowing_sub (to_u32 a) (to_u32 b)) then Inl Overflow
      else Inr (word_of_int (sint (to_u32 a - to_u32 b))))"
    by (simp only: sub_def overflowing_sub_def Let_def prod.case snd_conv sext32_sint)
  also have "\<dots> = (if snd (overflowing_sub (to_u32 a) (to_u32 b)) then Inl Overflow
      else Inr (word_of_int ?s))"
    by (simp only: overflowing_sub_def snd_conv split: if_split) argo
  finally show ?thesis by (simp only: o Let_def if_not_P split: if_split) blast
qed

lemma dadd_exact:
  "dadd a b = (let s = sint a + sint b
     in if - (2 ^ 63) \<le> s \<and> s < 2 ^ 63 then Inr (word_of_int s) else Inl Overflow)"
  using sint_add_overflow[of a b] by (auto simp: dadd_def Let_def overflowing_add_def)

lemma dsub_exact:
  "dsub a b = (let s = sint a - sint b
     in if - (2 ^ 63) \<le> s \<and> s < 2 ^ 63 then Inr (word_of_int s) else Inl Overflow)"
  using sint_sub_overflow[of a b] by (auto simp: dsub_def Let_def overflowing_sub_def)

section \<open>Properties\<close>

lemma word_of_sint_eq: "sint (x :: u64) = k \<Longrightarrow> x = word_of_int k"
  by auto

lemma hilo_eqI:
  "sint (hl_hi r) = h \<Longrightarrow> sint (hl_lo r) = l \<Longrightarrow> r = \<lparr>hl_hi = word_of_int h, hl_lo = word_of_int l\<rparr>"
  by (cases r) (auto intro: word_of_sint_eq)

text \<open>C19. The four multiplies, both registers in all 64 bits. \<open>MULT\<close> and \<open>MULTU\<close> put the high and the low word
  of the 64-bit product, each sign-extended, in \<open>HI\<close> and \<open>LO\<close>: of the signed product of two sign-extended
  words (the 35-bit erratum cannot be observed there), and of the unsigned product of the low words of any
  two operands. \<open>DMULT\<close> and \<open>DMULTU\<close> leave the halves of the exact 128-bit product.\<close>

theorem multiply_exact:
  "mult (sext32 x) (sext32 y) =
     (let p = sint x * sint y in \<lparr>hl_hi = word_of_int (p div 2 ^ 32), hl_lo = word_of_int (signed_take_bit 31 p)\<rparr>) \<and>
   multu a b =
     (let p = uint (to_u32 a) * uint (to_u32 b)
      in \<lparr>hl_hi = word_of_int (signed_take_bit 31 (p div 2 ^ 32)), hl_lo = word_of_int (signed_take_bit 31 p)\<rparr>) \<and>
   dmult a b = (let p = sint a * sint b in \<lparr>hl_hi = word_of_int (p div 2 ^ 64), hl_lo = word_of_int p\<rparr>) \<and>
   dmultu a b = (let p = uint a * uint b in \<lparr>hl_hi = word_of_int (p div 2 ^ 64), hl_lo = word_of_int p\<rparr>)"
  unfolding Let_def by (intro conjI mult_fields multu_fields dmult_fields dmultu_fields refl)

text \<open>C18. The signed divides on every input: the quotient truncates towards zero and the remainder has
  the sign of the dividend, both exact; \<open>DIV\<close> reads its divisor as a 35-bit signed number (the
  erratum). Division by zero and \<open>MIN / -1\<close> give the documented values and never panic.\<close>

theorem divide_exact:
  "div_op n d = (let a = sint (to_u32 n); b = signed_take_bit 34 (uint d)
     in if b = 0 then \<lparr>hl_hi = word_of_int a, hl_lo = (if a < 0 then 1 else - 1)\<rparr>
        else if a = - (2 ^ 31) \<and> b = - 1 then \<lparr>hl_hi = 0, hl_lo = word_of_int a\<rparr>
        else \<lparr>hl_hi = word_of_int (a smod b), hl_lo = word_of_int (a sdiv b)\<rparr>) \<and>
   ddiv n d = (let a = sint n; b = sint d
     in if b = 0 then \<lparr>hl_hi = n, hl_lo = (if a < 0 then 1 else - 1)\<rparr>
        else if a = - (2 ^ 63) \<and> b = - 1 then \<lparr>hl_hi = 0, hl_lo = n\<rparr>
        else \<lparr>hl_hi = word_of_int (a smod b), hl_lo = word_of_int (a sdiv b)\<rparr>)"
proof (rule conjI)
  let ?a = "sint (to_u32 n)" and ?b = "signed_take_bit 34 (uint d)"
  consider "?b = 0" | "?b \<noteq> 0" "?a = - (2 ^ 31) \<and> ?b = - 1"
    | "?b \<noteq> 0" "\<not> (?a = - (2 ^ 31) \<and> ?b = - 1)" by argo
  then show "div_op n d = (let a = ?a; b = ?b
     in if b = 0 then \<lparr>hl_hi = word_of_int a, hl_lo = (if a < 0 then 1 else - 1)\<rparr>
        else if a = - (2 ^ 31) \<and> b = - 1 then \<lparr>hl_hi = 0, hl_lo = word_of_int a\<rparr>
        else \<lparr>hl_hi = word_of_int (a smod b), hl_lo = word_of_int (a sdiv b)\<rparr>)"
  proof cases
    case 1
    then show ?thesis by (simp only: div_op_zero Let_def refl if_True sext32_sint)
  next
    case 2
    then have "to_u32 n = 0x80000000" by (intro sint_eq_imp_eq) simp
    then show ?thesis
      using 2 div_op_overflow[of d n] by (simp only: Let_def sext32_sint if_False if_True refl conj_absorb)
  next
    case 3
    show ?thesis
      unfolding Let_def if_not_P[OF 3(1)] if_not_P[OF 3(2)]
      by (rule hilo_eqI) (rule div_op_exact[OF refl 3 refl])+
  qed
next
  show "ddiv n d = (let a = sint n; b = sint d
     in if b = 0 then \<lparr>hl_hi = n, hl_lo = (if a < 0 then 1 else - 1)\<rparr>
        else if a = - (2 ^ 63) \<and> b = - 1 then \<lparr>hl_hi = 0, hl_lo = n\<rparr>
        else \<lparr>hl_hi = word_of_int (a smod b), hl_lo = word_of_int (a sdiv b)\<rparr>)"
  proof (cases "d = 0 \<or> (sint n = - (2 ^ 63) \<and> sint d = - 1)")
    case True
    then show ?thesis by (auto simp: ddiv_def Let_def)
  next
    case False
    then have f: "sint d \<noteq> 0" "\<not> (sint n = - (2 ^ 63) \<and> sint d = - 1)"
      using sint_eq_imp_eq[of d 0] by auto
    show ?thesis
      unfolding Let_def if_not_P[OF f(1)] if_not_P[OF f(2)]
      by (rule hilo_eqI) (rule ddiv_exact[OF refl f refl])+
  qed
qed

text \<open>C20. The trapping additions and subtractions return the exact signed result, sign-extended, when it
  fits the operand width, and the overflow exception exactly when it does not.\<close>

theorem add_sub_exact:
  "add a b = (let s = sint (to_u32 a) + sint (to_u32 b)
     in if - (2 ^ 31) \<le> s \<and> s < 2 ^ 31 then Inr (word_of_int s) else Inl Overflow) \<and>
   sub a b = (let s = sint (to_u32 a) - sint (to_u32 b)
     in if - (2 ^ 31) \<le> s \<and> s < 2 ^ 31 then Inr (word_of_int s) else Inl Overflow) \<and>
   dadd a b = (let s = sint a + sint b
     in if - (2 ^ 63) \<le> s \<and> s < 2 ^ 63 then Inr (word_of_int s) else Inl Overflow) \<and>
   dsub a b = (let s = sint a - sint b
     in if - (2 ^ 63) \<le> s \<and> s < 2 ^ 63 then Inr (word_of_int s) else Inl Overflow)"
  by (intro conjI add_exact sub_exact dadd_exact dsub_exact)

text \<open>On a sign-extended register the \<open>SRA\<close> erratum is not visible.\<close>

lemma sra_sign_extended: "sra (sext32 v) sa = sext32 (sar v (unat sa mod 32))"
  by (simp add: sra_def unat_and_31 sar_to_u32_sext32)

end
