(* ===== verification/Mem.thy ===== *)
theory Mem
  imports Alu
begin

text \<open>
  Load and store widths and the merges of the unaligned loads and stores (\<^verbatim>\<open>mem.rs\<close>). The
  \<open>byte\<close> argument of a merge is the byte offset inside the aligned word or doubleword; the
  pipeline passes the low two or three bits of the address, and the shifts below are by less
  than the width for exactly those offsets.
\<close>

section \<open>Widths and shapes\<close>

datatype load_kind =
  SignedByte | UnsignedByte | SignedHalf | UnsignedHalf | SignedWord | UnsignedWord | DoubleLoad

fun load_width :: "load_kind \<Rightarrow> u64" where
  "load_width SignedByte = 1"
| "load_width UnsignedByte = 1"
| "load_width SignedHalf = 2"
| "load_width UnsignedHalf = 2"
| "load_width SignedWord = 4"
| "load_width UnsignedWord = 4"
| "load_width DoubleLoad = 8"

definition load_is_aligned :: "load_kind \<Rightarrow> u64 \<Rightarrow> bool" where
  "load_is_aligned k addr = (addr mod load_width k = 0)"

fun shape :: "load_kind \<Rightarrow> u64 \<Rightarrow> u64" where
  "shape SignedByte raw = scast (to_u8 raw)"
| "shape UnsignedByte raw = to_u64 (to_u8 raw)"
| "shape SignedHalf raw = scast (to_u16 raw)"
| "shape UnsignedHalf raw = to_u64 (to_u16 raw)"
| "shape SignedWord raw = sext32 (to_u32 raw)"
| "shape UnsignedWord raw = to_u64 (to_u32 raw)"
| "shape DoubleLoad raw = raw"

datatype store_kind = ByteStore | HalfStore | WordStore | DoubleStore

fun store_width :: "store_kind \<Rightarrow> u64" where
  "store_width ByteStore = 1"
| "store_width HalfStore = 2"
| "store_width WordStore = 4"
| "store_width DoubleStore = 8"

definition store_is_aligned :: "store_kind \<Rightarrow> u64 \<Rightarrow> bool" where
  "store_is_aligned k addr = (addr mod store_width k = 0)"

section \<open>Unaligned merges\<close>

definition lwl :: "u64 \<Rightarrow> u32 \<Rightarrow> u64 \<Rightarrow> u64" where
  "lwl rt word byte =
     (let shift = unat (to_u32 byte * 8);
          keep = if shift = 0 then 0 else shl 1 shift - 1
      in sext32 (shl word shift OR (to_u32 rt AND keep)))"

definition lwr :: "u64 \<Rightarrow> u32 \<Rightarrow> u64 \<Rightarrow> u64" where
  "lwr rt word byte =
     (let shift = unat ((3 - to_u32 byte) * 8);
          keep = if shift = 0 then 0 else NOT (shr (- 1) shift);
          low = shr word shift OR (to_u32 rt AND keep)
      in if byte = 3 then sext32 low else (rt AND 0xFFFFFFFF00000000) OR to_u64 low)"

definition ldl :: "u64 \<Rightarrow> u64 \<Rightarrow> u64 \<Rightarrow> u64" where
  "ldl rt dword byte =
     (let shift = unat (to_u32 byte * 8);
          keep = if shift = 0 then 0 else shl 1 shift - 1
      in shl dword shift OR (rt AND keep))"

definition ldr :: "u64 \<Rightarrow> u64 \<Rightarrow> u64 \<Rightarrow> u64" where
  "ldr rt dword byte =
     (let shift = unat ((7 - to_u32 byte) * 8);
          keep = if shift = 0 then 0 else NOT (shr (- 1) shift)
      in shr dword shift OR (rt AND keep))"

definition swl :: "u64 \<Rightarrow> u32 \<Rightarrow> u64 \<Rightarrow> u32" where
  "swl rt word byte =
     (let shift = unat (to_u32 byte * 8);
          keep = if shift = 0 then 0 else NOT (shr (- 1) shift)
      in (word AND keep) OR shr (to_u32 rt) shift)"

definition swr :: "u64 \<Rightarrow> u32 \<Rightarrow> u64 \<Rightarrow> u32" where
  "swr rt word byte =
     (let shift = unat ((3 - to_u32 byte) * 8);
          keep = if shift = 0 then 0 else shl 1 shift - 1
      in (word AND keep) OR shl (to_u32 rt) shift)"

definition sdl :: "u64 \<Rightarrow> u64 \<Rightarrow> u64 \<Rightarrow> u64" where
  "sdl rt dword byte =
     (let shift = unat (to_u32 byte * 8);
          keep = if shift = 0 then 0 else NOT (shr (- 1) shift)
      in (dword AND keep) OR shr rt shift)"

definition sdr :: "u64 \<Rightarrow> u64 \<Rightarrow> u64 \<Rightarrow> u64" where
  "sdr rt dword byte =
     (let shift = unat ((7 - to_u32 byte) * 8);
          keep = if shift = 0 then 0 else shl 1 shift - 1
      in (dword AND keep) OR shl rt shift)"

section \<open>The pairs assemble and scatter the unaligned value\<close>

definition unaligned_word :: "u32 \<Rightarrow> u32 \<Rightarrow> nat \<Rightarrow> u32" where
  "unaligned_word w0 w1 b = to_u32 (shr (word_cat w0 w1 :: u64) (32 - 8 * b))"

definition unaligned_dword :: "u64 \<Rightarrow> u64 \<Rightarrow> nat \<Rightarrow> u64" where
  "unaligned_dword d0 d1 b = to_u64 (shr (word_cat d0 d1 :: u128) (64 - 8 * b))"

lemma add_diff_diff_cancel: "a + n - k - a = n - (k :: nat)"
  by simp

lemma mask_le: "shl 1 n - 1 = (mask n :: 'a::len word)"
  by (simp add: mask_eq_exp_minus_1 push_bit_eq_mult)

lemma keep_low: "(if n = 0 then 0 else shl 1 n - 1) = (mask n :: 'a::len word)"
  by (simp add: mask_eq_exp_minus_1 push_bit_eq_mult)

lemma keep_high: "(if n = 0 then 0 else NOT (shr (- 1) n)) = (NOT (shr (- 1) n) :: 'a::len word)"
  by simp

lemma hi_mask: "(0xFFFFFFFF00000000 :: u64) = shl (mask 32) 32"
  by (simp add: mask_eq_exp_minus_1 push_bit_eq_mult)

lemma byte_shift_left:
  "(b :: u64) < 8 \<Longrightarrow> unat (to_u32 b * 8) = 8 * unat b"
  by (simp add: unat_word_ariths word_less_nat_alt unat_ucast_mod)

lemma byte_shift_right4:
  assumes "(b :: u64) < 4" "b \<noteq> 0"
  shows "unat ((3 - to_u32 (b - 1)) * 8) = 32 - 8 * unat b"
proof -
  have "b = 1 \<or> b = 2 \<or> b = 3" using assms by unat_arith
  then show ?thesis by auto
qed

lemma byte_shift_right8:
  assumes "(b :: u64) < 8" "b \<noteq> 0"
  shows "unat ((7 - to_u32 (b - 1)) * 8) = 64 - 8 * unat b"
proof -
  have "b = 1 \<or> b = 2 \<or> b = 3 \<or> b = 4 \<or> b = 5 \<or> b = 6 \<or> b = 7" using assms by unat_arith
  then show ?thesis by auto
qed

lemma byte_offset_4:
  assumes "(b :: u64) < 4" "b \<noteq> 0"
  shows "0 < 8 * unat b" "8 * unat b < 32" "b - 1 \<noteq> 3"
  using assms by (unat_arith, unat_arith, unat_arith)

lemma byte_offset_8:
  assumes "(b :: u64) < 8" "b \<noteq> 0"
  shows "0 < 8 * unat b" "8 * unat b < 64"
  using assms by (unat_arith, unat_arith)

lemmas merge_defs = lwl_def lwr_def ldl_def ldr_def swl_def swr_def sdl_def sdr_def
  Let_def keep_low keep_high byte_shift_left if_False

lemma sext32_upper:
  "bit x 31 = bit y 31 \<Longrightarrow> (sext32 x AND shl (mask 32) 32) OR to_u64 y = sext32 y"
proof (rule bit_word_eqI)
  fix n assume "bit x 31 = bit y 31" "n < LENGTH(64)"
  then show "bit ((sext32 x AND shl (mask 32) 32) OR to_u64 y) n = bit (sext32 y) n"
    by (cases "n = 31")
      (auto simp: sext32_def bit_word_simps min_def dest: bit_imp_le_length le_neq_implies_less)
qed

lemma lwl_lwr:
  assumes "b < 4" "b \<noteq> 0"
  shows "lwr (lwl rt w0 b) w1 (b - 1) = sext32 (unaligned_word w0 w1 (unat b))"
proof -
  define k where "k = 8 * unat b"
  have k: "0 < k" "k < 32" "b - 1 \<noteq> 3" using byte_offset_4[OF assms] by (simp_all add: k_def)
  have b8: "b < 8" using assms by unat_arith
  have "lwr (lwl rt w0 b) w1 (b - 1) =
      (sext32 (shl w0 k OR (to_u32 rt AND mask k)) AND shl (mask 32) 32) OR
      to_u64 (shr w1 (32 - k) OR ((shl w0 k OR (to_u32 rt AND mask k)) AND NOT (shr (- 1) (32 - k))))"
    by (simp only: merge_defs b8 byte_shift_right4[OF assms] k(3) hi_mask to_u32_sext32 flip: k_def)
  also have "\<dots> = sext32 (shr w1 (32 - k) OR ((shl w0 k OR (to_u32 rt AND mask k)) AND NOT (shr (- 1) (32 - k))))"
    using k by (intro sext32_upper) (auto simp: bit_word_simps dest: bit_imp_le_length)
  also have "shr w1 (32 - k) OR ((shl w0 k OR (to_u32 rt AND mask k)) AND NOT (shr (- 1) (32 - k))) =
      to_u32 (shr (word_cat w0 w1 :: u64) (32 - k))"
    using k by (intro bit_word_eqI)
      (auto simp: bit_word_simps bit_word_cat_iff add_diff_diff_cancel dest: bit_imp_le_length)
  finally show ?thesis by (simp add: unaligned_word_def k_def)
qed

lemma lwl_lwr_aligned: "lwr (lwl rt w0 0) w0 3 = sext32 w0"
  by (simp add: merge_defs)

lemma ldl_ldr:
  assumes "b < 8" "b \<noteq> 0"
  shows "ldr (ldl rt d0 b) d1 (b - 1) = unaligned_dword d0 d1 (unat b)"
proof -
  define k where "k = 8 * unat b"
  have k: "0 < k" "k < 64" using byte_offset_8[OF assms] by (simp_all add: k_def)
  have "ldr (ldl rt d0 b) d1 (b - 1) =
      shr d1 (64 - k) OR ((shl d0 k OR (rt AND mask k)) AND NOT (shr (- 1) (64 - k)))"
    by (simp only: merge_defs assms byte_shift_right8[OF assms] flip: k_def)
  also have "\<dots> = to_u64 (shr (word_cat d0 d1 :: u128) (64 - k))"
    using k by (intro bit_word_eqI) (auto simp: bit_word_simps bit_word_cat_iff add_diff_diff_cancel dest: bit_imp_le_length)
  finally show ?thesis by (simp add: unaligned_dword_def k_def)
qed

lemma ldl_ldr_aligned: "ldr (ldl rt d0 0) d0 7 = d0"
  by (simp add: merge_defs)

lemma swl_swr:
  assumes "b < 4" "b \<noteq> 0"
  shows "(word_cat (swl rt w0 b) (swr rt w1 (b - 1)) :: u64) =
    (word_cat w0 w1 AND NOT (shl (mask 32) (32 - 8 * unat b))) OR shl (to_u64 (to_u32 rt)) (32 - 8 * unat b)"
proof -
  define k where "k = 8 * unat b"
  have k: "0 < k" "k < 32" using byte_offset_4[OF assms] by (simp_all add: k_def)
  have b8: "b < 8" using assms by unat_arith
  have "swl rt w0 b = (w0 AND NOT (shr (- 1) k)) OR shr (to_u32 rt) k"
    "swr rt w1 (b - 1) = (w1 AND mask (32 - k)) OR shl (to_u32 rt) (32 - k)"
    by (simp_all only: merge_defs b8 byte_shift_right4[OF assms] flip: k_def)
  then show ?thesis
    using k by (intro bit_word_eqI) (auto simp: bit_word_simps bit_word_cat_iff add.commute [of _ k] dest: bit_imp_le_length simp flip: k_def)
qed

lemma sdl_sdr:
  assumes "b < 8" "b \<noteq> 0"
  shows "(word_cat (sdl rt d0 b) (sdr rt d1 (b - 1)) :: u128) =
    (word_cat d0 d1 AND NOT (shl (mask 64) (64 - 8 * unat b))) OR shl (to_u128 rt) (64 - 8 * unat b)"
proof -
  define k where "k = 8 * unat b"
  have k: "0 < k" "k < 64" using byte_offset_8[OF assms] by (simp_all add: k_def)
  have "sdl rt d0 b = (d0 AND NOT (shr (- 1) k)) OR shr rt k"
    "sdr rt d1 (b - 1) = (d1 AND mask (64 - k)) OR shl rt (64 - k)"
    by (simp_all only: merge_defs assms byte_shift_right8[OF assms] flip: k_def)
  then show ?thesis
    using k by (intro bit_word_eqI) (auto simp: bit_word_simps bit_word_cat_iff add.commute [of _ k] dest: bit_imp_le_length simp flip: k_def)
qed

lemma swl_swr_aligned: "swr rt (swl rt w 0) 3 = to_u32 rt"
  by (simp add: merge_defs)

lemma sdl_sdr_aligned: "sdr rt (sdl rt d 0) 7 = rt"
  by (simp add: merge_defs)

lemma store_load_word:
  assumes "b < 4" "b \<noteq> 0"
  shows "unaligned_word (swl v w0 b) (swr v w1 (b - 1)) (unat b) = to_u32 v"
  unfolding unaligned_word_def swl_swr[OF assms]
  using byte_offset_4[OF assms]
  by (intro bit_word_eqI) (auto simp: bit_word_simps)

lemma store_load_dword:
  assumes "b < 8" "b \<noteq> 0"
  shows "unaligned_dword (sdl v w0 b) (sdr v w1 (b - 1)) (unat b) = v"
  unfolding unaligned_dword_def sdl_sdr[OF assms]
  using byte_offset_8[OF assms]
  by (intro bit_word_eqI) (auto simp: bit_word_simps)

section \<open>Properties\<close>

lemma word_offset_cases:
  fixes addr b e :: u64
  defines "b \<equiv> addr AND 3" and "e \<equiv> (addr + 3) AND 3"
  shows "b < 4" "b = 0 \<Longrightarrow> e = 3" "b \<noteq> 0 \<Longrightarrow> e = b - 1"
proof -
  have b: "unat b = unat addr mod 4" and e: "unat e = (unat addr + 3) mod 4"
    by (simp_all add: b_def e_def unat_and_3 unat_word_ariths mod_mod_cancel)
  show "b < 4" using b by (simp add: word_less_nat_alt)
  show "e = 3" if "b = 0"
  proof (rule unsigned_word_eqI)
    have "unat addr mod 4 = 0" using that b by simp
    then show "unat e = unat (3 :: u64)" unfolding e by simp presburger
  qed
  show "e = b - 1" if "b \<noteq> 0"
  proof (rule unsigned_word_eqI)
    have "unat b \<noteq> 0" using that by (simp add: unat_eq_zero)
    moreover have "unat (b - 1) = unat b - 1"
      using that by (simp add: unat_minus_one)
    ultimately show "unat e = unat (b - 1)" using b e by presburger
  qed
qed

lemma dword_offset_cases:
  fixes addr b e :: u64
  defines "b \<equiv> addr AND 7" and "e \<equiv> (addr + 7) AND 7"
  shows "b < 8" "b = 0 \<Longrightarrow> e = 7" "b \<noteq> 0 \<Longrightarrow> e = b - 1"
proof -
  have b: "unat b = unat addr mod 8" and e: "unat e = (unat addr + 7) mod 8"
    by (simp_all add: b_def e_def unat_and_7 unat_word_ariths mod_mod_cancel)
  show "b < 8" using b by (simp add: word_less_nat_alt)
  show "e = 7" if "b = 0"
  proof (rule unsigned_word_eqI)
    have "unat addr mod 8 = 0" using that b by simp
    then show "unat e = unat (7 :: u64)" unfolding e by simp presburger
  qed
  show "e = b - 1" if "b \<noteq> 0"
  proof (rule unsigned_word_eqI)
    have "unat b \<noteq> 0" using that by (simp add: unat_eq_zero)
    moreover have "unat (b - 1) = unat b - 1"
      using that by (simp add: unat_minus_one)
    ultimately show "unat e = unat (b - 1)" using b e by presburger
  qed
qed

lemma unaligned_0: "unaligned_word w0 w1 0 = w0" "unaligned_dword d0 d1 0 = d0"
  subgoal by (rule bit_word_eqI) (auto simp: unaligned_word_def bit_word_simps bit_word_cat_iff)
  subgoal by (rule bit_word_eqI) (auto simp: unaligned_dword_def bit_word_simps bit_word_cat_iff)
  done

text \<open>C21. At every address, the pair \<open>LWL\<close> at the address and \<open>LWR\<close> three bytes further (\<open>LDL\<close> and \<open>LDR\<close>
  seven bytes further) loads the unaligned big-endian word that straddles the two aligned
  ones, whatever the register held before.\<close>

theorem unaligned_load_pairs:
  "(let b = addr AND 3; e = (addr + 3) AND 3
    in lwr (lwl rt w0 b) (if b = 0 then w0 else w1) e = sext32 (unaligned_word w0 w1 (unat b))) \<and>
   (let b = addr AND 7; e = (addr + 7) AND 7
    in ldr (ldl rt d0 b) (if b = 0 then d0 else d1) e = unaligned_dword d0 d1 (unat b))"
  using word_offset_cases [of addr] dword_offset_cases [of addr]
  by (auto simp: Let_def lwl_lwr_aligned ldl_ldr_aligned unaligned_0 lwl_lwr ldl_ldr)

text \<open>What the pair \<open>SWL\<close>/\<open>SWR\<close> (\<open>SDL\<close>/\<open>SDR\<close>) stores at any address, the pair \<open>LWL\<close>/\<open>LWR\<close>
  (\<open>LDL\<close>/\<open>LDR\<close>) loads back from the same address.\<close>

lemma unaligned_store_load:
  "(let b = addr AND 3; e = (addr + 3) AND 3; s0 = swl v w0 b; s1 = swr v (if b = 0 then s0 else w1) e
    in lwr (lwl rt (if b = 0 then s1 else s0) b) s1 e = sext32 (to_u32 v)) \<and>
   (let b = addr AND 7; e = (addr + 7) AND 7; s0 = sdl v d0 b; s1 = sdr v (if b = 0 then s0 else d1) e
    in ldr (ldl rt (if b = 0 then s1 else s0) b) s1 e = v)"
  using word_offset_cases [of addr] dword_offset_cases [of addr]
  by (auto simp: Let_def lwl_lwr_aligned ldl_ldr_aligned swl_swr_aligned sdl_sdr_aligned
      lwl_lwr ldl_ldr store_load_word store_load_dword)

end
