(* ===== verification/Exec.thy ===== *)
theory Exec
  imports Decode Mem
begin

text \<open>
  The EX stage's pure core (\<^verbatim>\<open>exec.rs\<close>): what one decoded instruction does with its two
  register operands, \<open>HI\<close>/\<open>LO\<close>, its address and the FPU condition. The result names the
  register write, the memory operation, the coprocessor access and the redirect that the
  later stages carry out, or the exception the instruction raises.
\<close>

section \<open>Results of EX\<close>

datatype write_back =
    NoWrite
  | WbGpr (wb_dest: u8) (wb_value: u64)
  | WbHiLo hilo
  | WbHi u64
  | WbLo u64

datatype mem_op =
    MLoad load_kind (m_addr: u64) u8
  | MStore store_kind (m_addr: u64) u64
  | MLinkedLoad load_kind (m_addr: u64) u8
  | MConditionalStore store_kind (m_addr: u64) u64 u8
  | MEmux u8 u16 u64 u64 u8
  | MCache (m_addr: u64) u8
  | MFp cop1_op (m_addr: u64) u8
  | MUnaligned unaligned_op (m_addr: u64) u64 u8

record redirect =
  rd_target :: u64
  nullify_delay_slot :: bool

datatype cop1_access =
    ReadFpr u8 u8 bool
  | WriteFpr u8 u64 bool
  | Arith u8 u8 u8 u8 u8
  | ReadControl u8 u8
  | WriteControl u8 u32

datatype tlb_op = TlbRead | TlbWriteIndexed | TlbWriteRandom | TlbProbe

datatype cop0_access =
    C0Read u8 u8 bool
  | C0Cop1 cop1_access
  | C0Tlb tlb_op
  | C0Eret
  | C0Write u8 u64 bool

record executed =
  write_back :: write_back
  stall_cycles :: u32
  mem :: "mem_op option"
  redirect :: "redirect option"
  cop0 :: "cop0_access option"
  link :: "u8 option"

definition nothing :: executed where
  "nothing = \<lparr>write_back = NoWrite, stall_cycles = 0, mem = None, redirect = None,
     cop0 = None, link = None\<rparr>"

section \<open>Helpers\<close>

definition sext_imm :: "u16 \<Rightarrow> u64" where
  "sext_imm imm = scast imm"

definition zext_imm :: "u16 \<Rightarrow> u64" where
  "zext_imm imm = ucast imm"

definition link_of :: "decoded \<Rightarrow> u8 option" where
  "link_of d = (if d_dest d = 0 then None else Some (d_dest d))"

definition control :: "decoded \<Rightarrow> u64 \<Rightarrow> bool \<Rightarrow> executed" where
  "control d target nullify = \<lparr>write_back = NoWrite, stall_cycles = 0, mem = None,
     redirect = Some \<lparr>rd_target = target, nullify_delay_slot = nullify\<rparr>,
     cop0 = None, link = link_of d\<rparr>"

definition branch :: "decoded \<Rightarrow> bool \<Rightarrow> u64 \<Rightarrow> executed" where
  "branch d taken pc =
     (if taken then control d (pc + 4 + shl (sext_imm (d_imm d)) 2) False
      else \<lparr>write_back = NoWrite, stall_cycles = 0, mem = None,
        redirect = (if is_likely (d_op d)
          then Some \<lparr>rd_target = pc + 8, nullify_delay_slot = True\<rparr> else None),
        cop0 = None, link = link_of d\<rparr>)"

definition trap_if :: "bool \<Rightarrow> executed exn_result" where
  "trap_if cond = (if cond then Inl Trap else Inr nothing)"

text \<open>The local macros \<^verbatim>\<open>gpr!\<close>, \<^verbatim>\<open>mem_load!\<close>, \<^verbatim>\<open>mem_store!\<close> and \<^verbatim>\<open>muldiv!\<close> of \<^verbatim>\<open>execute\<close>.\<close>

definition gpr_result :: "decoded \<Rightarrow> u64 \<Rightarrow> executed exn_result" where
  "gpr_result d v = Inr (nothing\<lparr>write_back := WbGpr (d_dest d) v\<rparr>)"

definition gpr_fallible :: "decoded \<Rightarrow> u64 exn_result \<Rightarrow> executed exn_result" where
  "gpr_fallible d r = (case r of Inr v \<Rightarrow> gpr_result d v | Inl e \<Rightarrow> Inl e)"

definition eff_addr :: "decoded \<Rightarrow> u64 \<Rightarrow> u64" where
  "eff_addr d rs_val = rs_val + sext_imm (d_imm d)"

definition mem_load :: "decoded \<Rightarrow> u64 \<Rightarrow> load_kind \<Rightarrow> executed exn_result" where
  "mem_load d rs_val k = Inr (nothing\<lparr>mem := Some (MLoad k (eff_addr d rs_val) (d_dest d))\<rparr>)"

definition mem_store :: "decoded \<Rightarrow> u64 \<Rightarrow> u64 \<Rightarrow> store_kind \<Rightarrow> executed exn_result" where
  "mem_store d rs_val rt_val k = Inr (nothing\<lparr>mem := Some (MStore k (eff_addr d rs_val) rt_val)\<rparr>)"

definition muldiv_result :: "hilo \<Rightarrow> muldiv \<Rightarrow> executed exn_result" where
  "muldiv_result res kind =
     Inr (nothing\<lparr>write_back := WbHiLo res, stall_cycles := muldiv_stall_cycles kind\<rparr>)"

section \<open>One function per section of the match\<close>

primrec exec_reg_arith :: "reg_arith \<Rightarrow> decoded \<Rightarrow> u64 \<Rightarrow> u64 \<Rightarrow> executed exn_result" where
  "exec_reg_arith Add d a b = gpr_fallible d (add a b)"
| "exec_reg_arith Addu d a b = gpr_result d (addu a b)"
| "exec_reg_arith Sub d a b = gpr_fallible d (sub a b)"
| "exec_reg_arith Subu d a b = gpr_result d (subu a b)"
| "exec_reg_arith Dadd d a b = gpr_fallible d (dadd a b)"
| "exec_reg_arith Daddu d a b = gpr_result d (daddu a b)"
| "exec_reg_arith Dsub d a b = gpr_fallible d (dsub a b)"
| "exec_reg_arith Dsubu d a b = gpr_result d (dsubu a b)"
| "exec_reg_arith Slt d a b = gpr_result d (slt a b)"
| "exec_reg_arith Sltu d a b = gpr_result d (sltu a b)"

primrec exec_reg_logic :: "reg_logic \<Rightarrow> decoded \<Rightarrow> u64 \<Rightarrow> u64 \<Rightarrow> executed exn_result" where
  "exec_reg_logic And d a b = gpr_result d (and_op a b)"
| "exec_reg_logic Or d a b = gpr_result d (or_op a b)"
| "exec_reg_logic Xor d a b = gpr_result d (xor_op a b)"
| "exec_reg_logic Nor d a b = gpr_result d (nor a b)"

primrec exec_imm :: "imm_op \<Rightarrow> decoded \<Rightarrow> u64 \<Rightarrow> executed exn_result" where
  "exec_imm Addi d a = gpr_fallible d (add a (sext_imm (d_imm d)))"
| "exec_imm Addiu d a = gpr_result d (addu a (sext_imm (d_imm d)))"
| "exec_imm Daddi d a = gpr_fallible d (dadd a (sext_imm (d_imm d)))"
| "exec_imm Daddiu d a = gpr_result d (daddu a (sext_imm (d_imm d)))"
| "exec_imm Slti d a = gpr_result d (slt a (sext_imm (d_imm d)))"
| "exec_imm Sltiu d a = gpr_result d (sltu a (sext_imm (d_imm d)))"
| "exec_imm Andi d a = gpr_result d (and_op a (zext_imm (d_imm d)))"
| "exec_imm Ori d a = gpr_result d (or_op a (zext_imm (d_imm d)))"
| "exec_imm Xori d a = gpr_result d (xor_op a (zext_imm (d_imm d)))"
| "exec_imm Lui d a = gpr_result d (lui (d_imm d))"

primrec exec_shift :: "shift_op \<Rightarrow> decoded \<Rightarrow> u64 \<Rightarrow> executed exn_result" where
  "exec_shift Sll d b = gpr_result d (sll b (d_sa d))"
| "exec_shift Srl d b = gpr_result d (srl b (d_sa d))"
| "exec_shift Sra d b = gpr_result d (sra b (d_sa d))"
| "exec_shift Dsll d b = gpr_result d (dsll b (d_sa d))"
| "exec_shift Dsll32 d b = gpr_result d (dsll b (d_sa d))"
| "exec_shift Dsrl d b = gpr_result d (dsrl b (d_sa d))"
| "exec_shift Dsrl32 d b = gpr_result d (dsrl b (d_sa d))"
| "exec_shift Dsra d b = gpr_result d (dsra b (d_sa d))"
| "exec_shift Dsra32 d b = gpr_result d (dsra b (d_sa d))"

primrec exec_shiftv :: "shiftv_op \<Rightarrow> decoded \<Rightarrow> u64 \<Rightarrow> u64 \<Rightarrow> executed exn_result" where
  "exec_shiftv Sllv d a b = gpr_result d (sll b (to_u32 a))"
| "exec_shiftv Srlv d a b = gpr_result d (srl b (to_u32 a))"
| "exec_shiftv Srav d a b = gpr_result d (sra b (to_u32 a))"
| "exec_shiftv Dsllv d a b = gpr_result d (dsll b (to_u32 a))"
| "exec_shiftv Dsrlv d a b = gpr_result d (dsrl b (to_u32 a))"
| "exec_shiftv Dsrav d a b = gpr_result d (dsra b (to_u32 a))"

primrec exec_hilo :: "hilo_op \<Rightarrow> decoded \<Rightarrow> u64 \<Rightarrow> u64 \<Rightarrow> hilo \<Rightarrow> executed exn_result" where
  "exec_hilo Mult d a b h = muldiv_result (mult a b) MdMult"
| "exec_hilo Multu d a b h = muldiv_result (multu a b) MdMultu"
| "exec_hilo Div d a b h = muldiv_result (div_op a b) MdDiv"
| "exec_hilo Divu d a b h = muldiv_result (divu a b) MdDivu"
| "exec_hilo Dmult d a b h = muldiv_result (dmult a b) MdDmult"
| "exec_hilo Dmultu d a b h = muldiv_result (dmultu a b) MdDmultu"
| "exec_hilo Ddiv d a b h = muldiv_result (ddiv a b) MdDdiv"
| "exec_hilo Ddivu d a b h = muldiv_result (ddivu a b) MdDdivu"
| "exec_hilo Mfhi d a b h = gpr_result d (hl_hi h)"
| "exec_hilo Mflo d a b h = gpr_result d (hl_lo h)"
| "exec_hilo Mthi d a b h = Inr (nothing\<lparr>write_back := WbHi a\<rparr>)"
| "exec_hilo Mtlo d a b h = Inr (nothing\<lparr>write_back := WbLo a\<rparr>)"

primrec exec_load :: "load_op \<Rightarrow> decoded \<Rightarrow> u64 \<Rightarrow> executed exn_result" where
  "exec_load Lb d a = mem_load d a SignedByte"
| "exec_load Lbu d a = mem_load d a UnsignedByte"
| "exec_load Lh d a = mem_load d a SignedHalf"
| "exec_load Lhu d a = mem_load d a UnsignedHalf"
| "exec_load Lw d a = mem_load d a SignedWord"
| "exec_load Lwu d a = mem_load d a UnsignedWord"
| "exec_load Ld d a = mem_load d a DoubleLoad"

primrec exec_store :: "store_op \<Rightarrow> decoded \<Rightarrow> u64 \<Rightarrow> u64 \<Rightarrow> executed exn_result" where
  "exec_store Sb d a b = mem_store d a b ByteStore"
| "exec_store Sh d a b = mem_store d a b HalfStore"
| "exec_store Sw d a b = mem_store d a b WordStore"
| "exec_store Sd d a b = mem_store d a b DoubleStore"

primrec exec_link :: "link_op \<Rightarrow> decoded \<Rightarrow> u64 \<Rightarrow> u64 \<Rightarrow> executed exn_result" where
  "exec_link Ll d a b =
     Inr (nothing\<lparr>mem := Some (MLinkedLoad SignedWord (eff_addr d a) (d_dest d))\<rparr>)"
| "exec_link Lld d a b =
     Inr (nothing\<lparr>mem := Some (MLinkedLoad DoubleLoad (eff_addr d a) (d_dest d))\<rparr>)"
| "exec_link Sc d a b =
     Inr (nothing\<lparr>mem := Some (MConditionalStore WordStore (eff_addr d a) b (d_dest d))\<rparr>)"
| "exec_link Scd d a b =
     Inr (nothing\<lparr>mem := Some (MConditionalStore DoubleStore (eff_addr d a) b (d_dest d))\<rparr>)"

definition jump_target :: "decoded \<Rightarrow> u64 \<Rightarrow> u64" where
  "jump_target d pc =
     (let region = (pc + 4) AND 0xFFFFFFFFF0000000
      in region OR shl (to_u64 (d_target d)) 2)"

primrec exec_jump :: "jump_op \<Rightarrow> decoded \<Rightarrow> u64 \<Rightarrow> u64 \<Rightarrow> executed" where
  "exec_jump J d a pc = control d (jump_target d pc) False"
| "exec_jump Jal d a pc = control d (jump_target d pc) False"
| "exec_jump Jr d a pc = control d a False"
| "exec_jump Jalr d a pc = control d a False"

primrec branch_taken :: "branch_op \<Rightarrow> u64 \<Rightarrow> u64 \<Rightarrow> bool \<Rightarrow> bool" where
  "branch_taken Bc1t a b fp = fp"
| "branch_taken Bc1tl a b fp = fp"
| "branch_taken Bc1f a b fp = (\<not> fp)"
| "branch_taken Bc1fl a b fp = (\<not> fp)"
| "branch_taken Beq a b fp = (a = b)"
| "branch_taken Beql a b fp = (a = b)"
| "branch_taken Bne a b fp = (a \<noteq> b)"
| "branch_taken Bnel a b fp = (a \<noteq> b)"
| "branch_taken Blez a b fp = (sint a \<le> 0)"
| "branch_taken Blezl a b fp = (sint a \<le> 0)"
| "branch_taken Bgtz a b fp = (sint a > 0)"
| "branch_taken Bgtzl a b fp = (sint a > 0)"
| "branch_taken Bltz a b fp = (sint a < 0)"
| "branch_taken Bltzl a b fp = (sint a < 0)"
| "branch_taken Bltzal a b fp = (sint a < 0)"
| "branch_taken Bltzall a b fp = (sint a < 0)"
| "branch_taken Bgez a b fp = (sint a \<ge> 0)"
| "branch_taken Bgezl a b fp = (sint a \<ge> 0)"
| "branch_taken Bgezal a b fp = (sint a \<ge> 0)"
| "branch_taken Bgezall a b fp = (sint a \<ge> 0)"

primrec exec_trap :: "trap_op \<Rightarrow> decoded \<Rightarrow> u64 \<Rightarrow> u64 \<Rightarrow> executed exn_result" where
  "exec_trap Tge d a b = trap_if (sint a \<ge> sint b)"
| "exec_trap Tgeu d a b = trap_if (a \<ge> b)"
| "exec_trap Tlt d a b = trap_if (sint a < sint b)"
| "exec_trap Tltu d a b = trap_if (a < b)"
| "exec_trap Teq d a b = trap_if (a = b)"
| "exec_trap Tne d a b = trap_if (a \<noteq> b)"
| "exec_trap Tgei d a b = trap_if (sint a \<ge> sint (sext_imm (d_imm d)))"
| "exec_trap Tgeiu d a b = trap_if (a \<ge> sext_imm (d_imm d))"
| "exec_trap Tlti d a b = trap_if (sint a < sint (sext_imm (d_imm d)))"
| "exec_trap Tltiu d a b = trap_if (a < sext_imm (d_imm d))"
| "exec_trap Teqi d a b = trap_if (a = sext_imm (d_imm d))"
| "exec_trap Tnei d a b = trap_if (a \<noteq> sext_imm (d_imm d))"

primrec exec_cop0 :: "cop0_op \<Rightarrow> decoded \<Rightarrow> u64 \<Rightarrow> u64 \<Rightarrow> executed" where
  "exec_cop0 Mfc0 d a b = nothing\<lparr>cop0 := Some (C0Read (d_rd d) (d_dest d) False)\<rparr>"
| "exec_cop0 Dmfc0 d a b = nothing\<lparr>cop0 := Some (C0Read (d_rd d) (d_dest d) True)\<rparr>"
| "exec_cop0 Mtc0 d a b = nothing\<lparr>cop0 := Some (C0Write (d_rd d) b False)\<rparr>"
| "exec_cop0 Dmtc0 d a b = nothing\<lparr>cop0 := Some (C0Write (d_rd d) b True)\<rparr>"
| "exec_cop0 Tlbr d a b = nothing\<lparr>cop0 := Some (C0Tlb TlbRead)\<rparr>"
| "exec_cop0 Tlbwi d a b = nothing\<lparr>cop0 := Some (C0Tlb TlbWriteIndexed)\<rparr>"
| "exec_cop0 Tlbwr d a b = nothing\<lparr>cop0 := Some (C0Tlb TlbWriteRandom)\<rparr>"
| "exec_cop0 Tlbp d a b = nothing\<lparr>cop0 := Some (C0Tlb TlbProbe)\<rparr>"
| "exec_cop0 Eret d a b = nothing\<lparr>cop0 := Some C0Eret\<rparr>"
| "exec_cop0 Cop0Extension d a b =
     nothing\<lparr>mem := Some (MEmux (to_u8 (d_sa d)) (d_imm d) a b (d_dest d))\<rparr>"

primrec exec_cop1 :: "cop1_op \<Rightarrow> decoded \<Rightarrow> u64 \<Rightarrow> u64 \<Rightarrow> executed" where
  "exec_cop1 Mfc1 d a b = nothing\<lparr>cop0 := Some (C0Cop1 (ReadFpr (d_rd d) (d_dest d) False))\<rparr>"
| "exec_cop1 Dmfc1 d a b = nothing\<lparr>cop0 := Some (C0Cop1 (ReadFpr (d_rd d) (d_dest d) True))\<rparr>"
| "exec_cop1 Mtc1 d a b = nothing\<lparr>cop0 := Some (C0Cop1 (WriteFpr (d_rd d) b False))\<rparr>"
| "exec_cop1 Dmtc1 d a b = nothing\<lparr>cop0 := Some (C0Cop1 (WriteFpr (d_rd d) b True))\<rparr>"
| "exec_cop1 Lwc1 d a b = nothing\<lparr>mem := Some (MFp Lwc1 (eff_addr d a) (d_rt d))\<rparr>"
| "exec_cop1 Ldc1 d a b = nothing\<lparr>mem := Some (MFp Ldc1 (eff_addr d a) (d_rt d))\<rparr>"
| "exec_cop1 Swc1 d a b = nothing\<lparr>mem := Some (MFp Swc1 (eff_addr d a) (d_rt d))\<rparr>"
| "exec_cop1 Sdc1 d a b = nothing\<lparr>mem := Some (MFp Sdc1 (eff_addr d a) (d_rt d))\<rparr>"
| "exec_cop1 Cfc1 d a b = nothing\<lparr>cop0 := Some (C0Cop1 (ReadControl (d_rd d) (d_dest d)))\<rparr>"
| "exec_cop1 Ctc1 d a b = nothing\<lparr>cop0 := Some (C0Cop1 (WriteControl (d_rd d) (to_u32 b)))\<rparr>"
| "exec_cop1 FpArith d a b = nothing\<lparr>cop0 := Some (C0Cop1 (Arith (d_rs d)
     (to_u8 (d_imm d AND 0x3F)) (d_rt d) (d_rd d) (to_u8 (d_sa d))))\<rparr>"
| "exec_cop1 Cop1Unimplemented d a b = nothing"
| "exec_cop1 Cop1ReservedControl d a b = nothing"

section \<open>The whole of EX\<close>

primrec exec_op :: "op \<Rightarrow> decoded \<Rightarrow> u64 \<Rightarrow> u64 \<Rightarrow> hilo \<Rightarrow> u64 \<Rightarrow> bool \<Rightarrow> executed exn_result" where
  "exec_op Reserved d a b h pc fp = Inl ReservedInstruction"
| "exec_op (RegArith p) d a b h pc fp = exec_reg_arith p d a b"
| "exec_op (RegLogic p) d a b h pc fp = exec_reg_logic p d a b"
| "exec_op (ImmOp p) d a b h pc fp = exec_imm p d a"
| "exec_op (ShiftOp p) d a b h pc fp = exec_shift p d b"
| "exec_op (ShiftVOp p) d a b h pc fp = exec_shiftv p d a b"
| "exec_op (HiLoOp p) d a b h pc fp = exec_hilo p d a b h"
| "exec_op (LoadOp p) d a b h pc fp = exec_load p d a"
| "exec_op (StoreOp p) d a b h pc fp = exec_store p d a b"
| "exec_op (LinkOp p) d a b h pc fp = exec_link p d a b"
| "exec_op (UnalignedOp p) d a b h pc fp =
     Inr (nothing\<lparr>mem := Some (MUnaligned p (eff_addr d a) b (d_dest d))\<rparr>)"
| "exec_op (JumpOp p) d a b h pc fp = Inr (exec_jump p d a pc)"
| "exec_op (BranchOp p) d a b h pc fp = Inr (branch d (branch_taken p a b fp) pc)"
| "exec_op (TrapOp p) d a b h pc fp = exec_trap p d a b"
| "exec_op (Cop0Op p) d a b h pc fp = Inr (exec_cop0 p d a b)"
| "exec_op (Cop1Op p) d a b h pc fp = Inr (exec_cop1 p d a b)"
| "exec_op (Cop2Op p) d a b h pc fp = Inr nothing"
| "exec_op Cache d a b h pc fp = Inr (nothing\<lparr>mem := Some (MCache (eff_addr d a) (d_rt d))\<rparr>)"
| "exec_op Sync d a b h pc fp = Inr nothing"
| "exec_op Syscall d a b h pc fp = Inl exn.Syscall"
| "exec_op Break d a b h pc fp = Inl Breakpoint"

definition execute :: "decoded \<Rightarrow> u64 \<Rightarrow> u64 \<Rightarrow> hilo \<Rightarrow> u64 \<Rightarrow> bool \<Rightarrow> executed exn_result" where
  "execute d rs_val rt_val h pc fp_condition =
     exec_op (d_op d) d rs_val rt_val h pc fp_condition"

section \<open>The shape of a result\<close>

lemma gpr_fallible_Inr:
  "gpr_fallible d r = Inr e \<longleftrightarrow> (\<exists>v. r = Inr v \<and> e = nothing\<lparr>write_back := WbGpr (d_dest d) v\<rparr>)"
  by (cases r) (auto simp: gpr_fallible_def gpr_result_def)

lemma gpr_fallible_Inl: "gpr_fallible d r = Inl x \<longleftrightarrow> r = Inl x"
  by (cases r) (auto simp: gpr_fallible_def gpr_result_def)

lemma gpr_result_iff:
  "gpr_result d v = Inr e \<longleftrightarrow> e = nothing\<lparr>write_back := WbGpr (d_dest d) v\<rparr>" "gpr_result d v \<noteq> Inl x"
  by (auto simp: gpr_result_def)

lemma trap_if_iff: "trap_if c = Inr e \<longleftrightarrow> \<not> c \<and> e = nothing" "trap_if c = Inl x \<longleftrightarrow> c \<and> x = Trap"
  by (auto simp: trap_if_def)

lemmas section_iffs = gpr_fallible_Inr gpr_fallible_Inl gpr_result_iff trap_if_iff
  muldiv_result_def mem_load_def mem_store_def

datatype effect = EffNone | EffGpr | EffHiLo | EffMem | EffCop0 | EffJump

text \<open>The one component of the machine an operation that succeeds can touch.\<close>

primrec effect_of :: "op \<Rightarrow> effect" where
  "effect_of Reserved = EffNone"
| "effect_of (RegArith p) = EffGpr"
| "effect_of (RegLogic p) = EffGpr"
| "effect_of (ImmOp p) = EffGpr"
| "effect_of (ShiftOp p) = EffGpr"
| "effect_of (ShiftVOp p) = EffGpr"
| "effect_of (HiLoOp p) = (if p = Mfhi \<or> p = Mflo then EffGpr else EffHiLo)"
| "effect_of (LoadOp p) = EffMem"
| "effect_of (StoreOp p) = EffMem"
| "effect_of (LinkOp p) = EffMem"
| "effect_of (UnalignedOp p) = EffMem"
| "effect_of (JumpOp p) = EffJump"
| "effect_of (BranchOp p) = EffJump"
| "effect_of (TrapOp p) = EffNone"
| "effect_of (Cop0Op p) = (if p = Cop0Extension then EffMem else EffCop0)"
| "effect_of (Cop1Op p) = (if p \<in> {Lwc1, Ldc1, Swc1, Sdc1} then EffMem
     else if p \<in> {Cop1Unimplemented, Cop1ReservedControl} then EffNone else EffCop0)"
| "effect_of (Cop2Op p) = EffNone"
| "effect_of Cache = EffMem"
| "effect_of Sync = EffNone"
| "effect_of Syscall = EffNone"
| "effect_of Break = EffNone"

fun has_effect :: "effect \<Rightarrow> decoded \<Rightarrow> executed \<Rightarrow> bool" where
  "has_effect EffNone d e \<longleftrightarrow> e = nothing"
| "has_effect EffGpr d e \<longleftrightarrow> (\<exists>v. e = nothing\<lparr>write_back := WbGpr (d_dest d) v\<rparr>)"
| "has_effect EffHiLo d e \<longleftrightarrow> (\<exists>w n. (\<forall>r v. w \<noteq> WbGpr r v) \<and> w \<noteq> NoWrite \<and>
     e = nothing\<lparr>write_back := w, stall_cycles := n\<rparr>)"
| "has_effect EffMem d e \<longleftrightarrow> (\<exists>m. e = nothing\<lparr>mem := Some m\<rparr>)"
| "has_effect EffCop0 d e \<longleftrightarrow> (\<exists>c. e = nothing\<lparr>cop0 := Some c\<rparr>)"
| "has_effect EffJump d e \<longleftrightarrow> (\<exists>r. e = nothing\<lparr>redirect := r, link := link_of d\<rparr>)"

lemma exec_sections_effect:
  "exec_reg_arith p1 d a b = Inr e \<Longrightarrow> has_effect EffGpr d e"
  "exec_reg_logic p2 d a b = Inr e \<Longrightarrow> has_effect EffGpr d e"
  "exec_imm p3 d a = Inr e \<Longrightarrow> has_effect EffGpr d e"
  "exec_shift p4 d b = Inr e \<Longrightarrow> has_effect EffGpr d e"
  "exec_shiftv p5 d a b = Inr e \<Longrightarrow> has_effect EffGpr d e"
  "exec_load p6 d a = Inr e \<Longrightarrow> has_effect EffMem d e"
  "exec_store p7 d a b = Inr e \<Longrightarrow> has_effect EffMem d e"
  "exec_link p8 d a b = Inr e \<Longrightarrow> has_effect EffMem d e"
  "exec_trap p9 d a b = Inr e \<Longrightarrow> has_effect EffNone d e"
  subgoal by (cases p1) (auto simp: section_iffs)
  subgoal by (cases p2) (auto simp: section_iffs)
  subgoal by (cases p3) (auto simp: section_iffs)
  subgoal by (cases p4) (auto simp: section_iffs)
  subgoal by (cases p5) (auto simp: section_iffs)
  subgoal by (cases p6) (auto simp: section_iffs)
  subgoal by (cases p7) (auto simp: section_iffs)
  subgoal by (cases p8) (auto simp: section_iffs)
  subgoal by (cases p9) (auto simp: section_iffs)
  done

lemma exec_hilo_effect:
  "exec_hilo p d a b h = Inr e \<Longrightarrow> has_effect (effect_of (HiLoOp p)) d e"
  by (cases p) (fastforce simp: section_iffs nothing_def)+

lemma exec_cop_effect:
  "has_effect (effect_of (Cop0Op p)) d (exec_cop0 p d a b)"
  "has_effect (effect_of (Cop1Op q)) d (exec_cop1 q d a b)"
  subgoal by (cases p) auto
  subgoal by (cases q) auto
  done

lemma control_effect: "has_effect EffJump d (control d t n)" "has_effect EffJump d (branch d c pc)"
  "has_effect EffMem d (nothing\<lparr>mem := Some m\<rparr>)"
  by (auto simp: control_def branch_def nothing_def)

lemma exec_effect:
  assumes "execute d a b h pc fp = Inr e"
  shows "has_effect (effect_of (d_op d)) d e"
proof (cases "d_op d")
  case (JumpOp p)
  have "has_effect EffJump d (exec_jump p d a pc)" by (cases p) (simp_all only: exec_jump.simps control_effect)
  then show ?thesis using assms JumpOp by (auto simp: execute_def)
qed (use assms control_effect exec_sections_effect exec_hilo_effect exec_cop_effect in
    \<open>auto simp: execute_def simp del: has_effect.simps(2-) effect_of.simps(7,15,16)\<close>)

lemma has_delay_slot_effect: "has_delay_slot p \<longleftrightarrow> effect_of p = EffJump"
proof (cases p)
  case (JumpOp q)
  then show ?thesis by (cases q) (simp_all add: has_delay_slot_def)
next
  case (BranchOp q)
  then show ?thesis by (cases q) (simp_all add: has_delay_slot_def)
qed (auto simp: has_delay_slot_def)

lemma writes_hi_lo_effect: "writes_hi_lo p \<longleftrightarrow> effect_of p = EffHiLo"
proof (cases p)
  case (HiLoOp q)
  then show ?thesis by (cases q) (simp_all add: writes_hi_lo_def)
qed (auto simp: writes_hi_lo_def)

lemma jump_redirect:
  "redirect (exec_jump p d a pc) =
     Some \<lparr>rd_target = (if p = J \<or> p = Jal then jump_target d pc else a), nullify_delay_slot = False\<rparr>"
  by (cases p) (simp_all add: control_def)

definition is_load_to :: "u8 \<Rightarrow> mem_op \<Rightarrow> bool" where
  "is_load_to r m = (case m of MLoad k x q \<Rightarrow> q = r | MLinkedLoad k x q \<Rightarrow> q = r
     | MUnaligned p x v q \<Rightarrow> q = r \<and> p \<in> {Lwl, Lwr, Ldl, Ldr} | _ \<Rightarrow> False)"

lemma is_load_section:
  "is_load d \<longleftrightarrow> (case d_op d of LoadOp p \<Rightarrow> True | LinkOp p \<Rightarrow> p = Ll \<or> p = Lld
     | UnalignedOp p \<Rightarrow> p \<in> {Lwl, Lwr, Ldl, Ldr} | _ \<Rightarrow> False)"
proof (cases "d_op d")
  case (LoadOp p)
  then show ?thesis by (cases p) (simp_all add: is_load_def)
next
  case (LinkOp p)
  then show ?thesis by (cases p) (simp_all add: is_load_def)
next
  case (UnalignedOp p)
  then show ?thesis by (cases p) (simp_all add: is_load_def)
qed (auto simp: is_load_def)

lemma load_sections:
  "exec_load p d a = Inr e \<Longrightarrow> \<exists>m. mem e = Some m \<and> is_load_to (d_dest d) m"
  "exec_store q d a b = Inr e \<Longrightarrow> mem e = Some m \<Longrightarrow> \<not> is_load_to r m"
  "exec_link l d a b = Inr e \<Longrightarrow>
     \<exists>m. mem e = Some m \<and> (is_load_to (d_dest d) m \<longleftrightarrow> l = Ll \<or> l = Lld)"
  subgoal by (cases p) (auto simp: mem_load_def is_load_to_def)
  subgoal by (cases q) (auto simp: mem_store_def is_load_to_def)
  subgoal by (cases l) (auto simp: is_load_to_def)
  done

lemma not_load_cop:
  "mem (exec_cop0 p d a b) = Some m \<Longrightarrow> \<not> is_load_to r m"
  "mem (exec_cop1 q d a b) = Some m \<Longrightarrow> \<not> is_load_to r m"
  subgoal by (cases p) (auto simp: is_load_to_def nothing_def)
  subgoal by (cases q) (auto simp: is_load_to_def nothing_def)
  done

lemma exec_is_load:
  assumes "execute d a b h pc fp = Inr e"
  shows "is_load d \<longleftrightarrow> (\<exists>m. mem e = Some m \<and> is_load_to (d_dest d) m)"
proof (cases "effect_of (d_op d) = EffMem")
  case False
  then have "mem e = None"
    using exec_effect[OF assms] by (cases "effect_of (d_op d)") (auto simp: nothing_def)
  moreover have "\<not> is_load d"
    using False by (auto simp: is_load_section split: op.splits)
  ultimately show ?thesis by simp
next
  case True
  show ?thesis
  proof (cases "d_op d")
    case (LoadOp p)
    then show ?thesis using assms load_sections(1)[of p d a e] by (auto simp: execute_def is_load_section)
  next
    case (StoreOp p)
    then show ?thesis using assms load_sections(2)[of p d a b e] by (auto simp: execute_def is_load_section)
  next
    case (LinkOp p)
    then show ?thesis using assms load_sections(3)[of p d a b e] by (auto simp: execute_def is_load_section)
  next
    case (UnalignedOp p)
    then show ?thesis using assms by (auto simp: execute_def is_load_section is_load_to_def)
  next
    case (Cop0Op p)
    then show ?thesis using assms not_load_cop(1)[of p d a b] by (auto simp: execute_def is_load_section)
  next
    case (Cop1Op p)
    then show ?thesis using assms not_load_cop(2)[of p d a b] by (auto simp: execute_def is_load_section)
  next
    case Cache
    then show ?thesis using assms by (auto simp: execute_def is_load_section is_load_to_def)
  qed (use True in \<open>auto split: if_splits\<close>)
qed

section \<open>Exceptions\<close>

definition fits :: "nat \<Rightarrow> int \<Rightarrow> bool" where
  "fits n s \<longleftrightarrow> - (2 ^ n) \<le> s \<and> s < 2 ^ n"

primrec trap_cond :: "trap_op \<Rightarrow> u64 \<Rightarrow> u64 \<Rightarrow> u64 \<Rightarrow> bool" where
  "trap_cond Tge a b i \<longleftrightarrow> sint b \<le> sint a"
| "trap_cond Tgeu a b i \<longleftrightarrow> uint b \<le> uint a"
| "trap_cond Tlt a b i \<longleftrightarrow> sint a < sint b"
| "trap_cond Tltu a b i \<longleftrightarrow> uint a < uint b"
| "trap_cond Teq a b i \<longleftrightarrow> a = b"
| "trap_cond Tne a b i \<longleftrightarrow> a \<noteq> b"
| "trap_cond Tgei a b i \<longleftrightarrow> sint i \<le> sint a"
| "trap_cond Tgeiu a b i \<longleftrightarrow> uint i \<le> uint a"
| "trap_cond Tlti a b i \<longleftrightarrow> sint a < sint i"
| "trap_cond Tltiu a b i \<longleftrightarrow> uint a < uint i"
| "trap_cond Teqi a b i \<longleftrightarrow> a = i"
| "trap_cond Tnei a b i \<longleftrightarrow> a \<noteq> i"

text \<open>Which exception an instruction raises, from exact arithmetic on its operands.\<close>

definition exec_exception :: "decoded \<Rightarrow> u64 \<Rightarrow> u64 \<Rightarrow> exn option" where
  "exec_exception d a b =
     (let i = sext_imm (d_imm d); ov = (\<lambda>ok. if ok then None else Some Overflow);
          s32 = (\<lambda>x. sint (to_u32 x))
      in case d_op d of
        Reserved \<Rightarrow> Some ReservedInstruction
      | RegArith Add \<Rightarrow> ov (fits 31 (s32 a + s32 b))
      | RegArith Sub \<Rightarrow> ov (fits 31 (s32 a - s32 b))
      | RegArith Dadd \<Rightarrow> ov (fits 63 (sint a + sint b))
      | RegArith Dsub \<Rightarrow> ov (fits 63 (sint a - sint b))
      | ImmOp Addi \<Rightarrow> ov (fits 31 (s32 a + s32 i))
      | ImmOp Daddi \<Rightarrow> ov (fits 63 (sint a + sint i))
      | TrapOp p \<Rightarrow> (if trap_cond p a b i then Some Trap else None)
      | Syscall \<Rightarrow> Some exn.Syscall
      | Break \<Rightarrow> Some Breakpoint
      | _ \<Rightarrow> None)"

lemma add_Inl: "add a b = Inl x \<longleftrightarrow> x = Overflow \<and> \<not> fits 31 (sint (to_u32 a) + sint (to_u32 b))"
  "sub a b = Inl x \<longleftrightarrow> x = Overflow \<and> \<not> fits 31 (sint (to_u32 a) - sint (to_u32 b))"
  "dadd a b = Inl x \<longleftrightarrow> x = Overflow \<and> \<not> fits 63 (sint a + sint b)"
  "dsub a b = Inl x \<longleftrightarrow> x = Overflow \<and> \<not> fits 63 (sint a - sint b)"
  by (auto simp: add_exact sub_exact dadd_exact dsub_exact Let_def fits_def simp del: of_int_add of_int_diff)

lemma no_error_sections:
  "exec_reg_logic p1 d a b \<noteq> Inl x" "exec_shift p2 d b \<noteq> Inl x" "exec_shiftv p3 d a b \<noteq> Inl x"
  "exec_hilo p4 d a b h \<noteq> Inl x" "exec_load p5 d a \<noteq> Inl x" "exec_store p6 d a b \<noteq> Inl x"
  "exec_link p7 d a b \<noteq> Inl x"
  subgoal by (cases p1) (auto simp: section_iffs)
  subgoal by (cases p2) (auto simp: section_iffs)
  subgoal by (cases p3) (auto simp: section_iffs)
  subgoal by (cases p4) (auto simp: section_iffs)
  subgoal by (cases p5) (auto simp: section_iffs)
  subgoal by (cases p6) (auto simp: section_iffs)
  subgoal by (cases p7) (auto simp: section_iffs)
  done

lemma exec_error_iff:
  "execute d a b h pc fp = Inl x \<longleftrightarrow> exec_exception d a b = Some x"
proof (cases "d_op d")
  case (RegArith p)
  then show ?thesis
    by (cases p) (auto simp: execute_def exec_exception_def section_iffs add_Inl)
next
  case (ImmOp p)
  then show ?thesis
    by (cases p) (auto simp: execute_def exec_exception_def section_iffs add_Inl)
next
  case (TrapOp p)
  then show ?thesis
    by (cases p) (auto simp: execute_def exec_exception_def section_iffs word_le_def word_less_def)
qed (auto simp: execute_def exec_exception_def no_error_sections)

section \<open>Properties\<close>

text \<open>C15. \<open>execute\<close> raises an exception exactly when exact arithmetic says so: overflow when the signed
  result does not fit, a trap when its condition holds, reserved instruction, system call and
  breakpoint for those operations, and nothing else for any operation.\<close>

theorem execute_exceptions:
  "execute d a b h pc fp = Inl x \<longleftrightarrow> exec_exception d a b = Some x"
  by (rule exec_error_iff)

text \<open>C16. A successful \<open>execute\<close> touches exactly the one component its operation class names, and the
  predicates the pipeline schedules with (\<open>has_delay_slot\<close>, \<open>writes_hi_lo\<close>, \<open>is_load\<close>) are true
  of exactly the operations that redirect, write \<open>HI\<close>/\<open>LO\<close>, or load into their destination.\<close>

theorem execute_effects:
  assumes "execute d a b h pc fp = Inr e"
  shows "has_effect (effect_of (d_op d)) d e \<and>
    has_delay_slot (d_op d) = (effect_of (d_op d) = EffJump) \<and>
    writes_hi_lo (d_op d) = (effect_of (d_op d) = EffHiLo) \<and>
    is_load d = (\<exists>m. mem e = Some m \<and> is_load_to (d_dest d) m)"
  using exec_effect [OF assms] exec_is_load [OF assms]
  by (simp add: has_delay_slot_effect writes_hi_lo_effect)

theorem execute_effects_witness:
  "\<exists>e. execute (decode 0x8FA80010) 0x80001000 0 \<lparr>hl_hi = 0, hl_lo = 0\<rparr> 0 False = Inr e \<and>
     is_load_to 8 (the (mem e))"
proof -
  have d: "decode 0x8FA80010 = \<lparr>d_op = LoadOp Lw, d_rs = 29, d_rt = 8, d_rd = 0, d_sa = 0,
      d_imm = 16, d_dest = 8, d_target = 0x3A80010\<rparr>"
    by code_simp
  have e: "execute (decode 0x8FA80010) 0x80001000 0 \<lparr>hl_hi = 0, hl_lo = 0\<rparr> 0 False =
      Inr (nothing\<lparr>mem := Some (MLoad SignedWord (eff_addr (decode 0x8FA80010) 0x80001000) 8)\<rparr>)"
    by (simp add: d execute_def mem_load_def)
  show ?thesis
    by (intro exI conjI, rule e) (use execute_effects [OF e] in \<open>auto simp: is_load_section d\<close>)
qed

end
