(* ===== verification/Cop0.thy ===== *)
theory Cop0
  imports Decode Alu
begin

text \<open>
  The system control coprocessor's register file (\<^verbatim>\<open>cop0.rs\<close>): per-register write and
  read masks, the \<open>Count\<close>/\<open>Compare\<close> timer derived from the master clock, the \<open>Random\<close>
  countdown with its constant-time batch form, interrupt pending, and the moves to and from
  the general registers. The Rust array of 32 registers is a list of length 32, indexed by
  the masked register number.
\<close>

section \<open>Register numbers\<close>

definition INDEX :: nat where [simp]: "INDEX = 0"
definition RANDOM :: nat where [simp]: "RANDOM = 1"
definition ENTRY_LO0 :: nat where [simp]: "ENTRY_LO0 = 2"
definition ENTRY_LO1 :: nat where [simp]: "ENTRY_LO1 = 3"
definition CONTEXT :: nat where [simp]: "CONTEXT = 4"
definition PAGE_MASK :: nat where [simp]: "PAGE_MASK = 5"
definition WIRED :: nat where [simp]: "WIRED = 6"
definition BAD_VADDR :: nat where [simp]: "BAD_VADDR = 8"
definition COUNT :: nat where [simp]: "COUNT = 9"
definition ENTRY_HI :: nat where [simp]: "ENTRY_HI = 10"
definition COMPARE :: nat where [simp]: "COMPARE = 11"
definition STATUS :: nat where [simp]: "STATUS = 12"
definition CAUSE :: nat where [simp]: "CAUSE = 13"
definition EPC :: nat where [simp]: "EPC = 14"
definition PRID :: nat where [simp]: "PRID = 15"
definition CONFIG :: nat where [simp]: "CONFIG = 16"
definition LL_ADDR :: nat where [simp]: "LL_ADDR = 17"
definition WATCH_LO :: nat where [simp]: "WATCH_LO = 18"
definition WATCH_HI :: nat where [simp]: "WATCH_HI = 19"
definition XCONTEXT :: nat where [simp]: "XCONTEXT = 20"
definition PERR :: nat where [simp]: "PERR = 26"
definition CACHE_ERR :: nat where [simp]: "CACHE_ERR = 27"
definition TAG_LO :: nat where [simp]: "TAG_LO = 28"
definition TAG_HI :: nat where [simp]: "TAG_HI = 29"
definition ERROR_EPC :: nat where [simp]: "ERROR_EPC = 30"

section \<open>Masks\<close>

definition is_wide :: "nat \<Rightarrow> bool" where
  "is_wide n \<longleftrightarrow> n mod 32 \<in> {ENTRY_LO0, ENTRY_LO1, CONTEXT, BAD_VADDR, ENTRY_HI, EPC, XCONTEXT, ERROR_EPC}"

definition CONFIG_HARDWIRED_HI :: u64 where "CONFIG_HARDWIRED_HI = shl 0x06 16"
definition CONFIG_HARDWIRED_LO :: u64 where "CONFIG_HARDWIRED_LO = shl 0x646 4"

definition WRITE_MASK :: "u64 list" where
  "WRITE_MASK = (replicate 32 0)[
     INDEX := 0x8000003F,
     RANDOM := 0,
     ENTRY_LO0 := 0x3FFFFFFF,
     ENTRY_LO1 := 0x3FFFFFFF,
     CONTEXT := 0xFFFFFFFFFF800000,
     PAGE_MASK := 0x01FFE000,
     WIRED := 0x3F,
     BAD_VADDR := 0,
     COUNT := 0xFFFFFFFF,
     ENTRY_HI := 0xC00000FFFFFFE0FF,
     COMPARE := 0xFFFFFFFF,
     STATUS := 0xFFFFFFFF AND NOT (shl 1 21) AND NOT (shl 1 23) AND NOT (shl 1 19),
     CAUSE := 0x00000300,
     EPC := - 1,
     PRID := 0,
     CONFIG := 0x0F000000 OR shl 1 15 OR shl 1 3 OR 7,
     LL_ADDR := 0xFFFFFFFF,
     WATCH_LO := 0xFFFFFFFB,
     WATCH_HI := 0xF,
     XCONTEXT := 0xFFFFFFFE00000000,
     PERR := 0xFF,
     CACHE_ERR := 0,
     TAG_LO := 0x0FFFFFC0,
     TAG_HI := 0,
     ERROR_EPC := - 1]"

definition ARCH_MASK :: "u64 list" where
  "ARCH_MASK = (replicate 32 0)[
     INDEX := 0x8000003F,
     RANDOM := 0x3F,
     ENTRY_LO0 := 0x3FFFFFFF,
     ENTRY_LO1 := 0x3FFFFFFF,
     CONTEXT := 0xFFFFFFFFFFFFFFF0,
     PAGE_MASK := 0x01FFE000,
     WIRED := 0x3F,
     BAD_VADDR := - 1,
     COUNT := 0xFFFFFFFF,
     ENTRY_HI := 0xC00000FFFFFFE0FF,
     COMPARE := 0xFFFFFFFF,
     STATUS := 0xFFFFFFFF AND NOT (shl 1 23) AND NOT (shl 1 19),
     CAUSE := 0xB000FF7C,
     EPC := - 1,
     PRID := 0xFFFF,
     LL_ADDR := 0xFFFFFFFF,
     WATCH_LO := 0xFFFFFFFB,
     WATCH_HI := 0xF,
     XCONTEXT := 0xFFFFFFFFFFFFFFF0,
     CONFIG := 0x0F00800F,
     PERR := 0xFF,
     TAG_LO := 0x0FFFFFC0,
     ERROR_EPC := - 1]"

section \<open>State\<close>

record cop0 =
  c0_regs :: "u64 list"
  now :: u64
  count_epoch_value :: u32
  count_epoch_tick :: u64
  last_count :: u32
  ec :: u8
  write_latch :: u64

definition cop0_new :: cop0 where
  "cop0_new = \<lparr>
     c0_regs = (replicate 32 0)[STATUS := shl 1 2 OR shl 1 22, RANDOM := 31,
       CONFIG := shl 1 15, PRID := 0x0B22],
     now = 0, count_epoch_value = 0, count_epoch_tick = 0, last_count = 0,
     ec = 7, write_latch = 0\<rparr>"

definition set_reg :: "nat \<Rightarrow> u64 \<Rightarrow> cop0 \<Rightarrow> cop0" where
  "set_reg n v c = c\<lparr>c0_regs := (c0_regs c)[n := v]\<rparr>"

definition set_now :: "u64 \<Rightarrow> cop0 \<Rightarrow> cop0" where
  "set_now t c = c\<lparr>now := t\<rparr>"

section \<open>The timer\<close>

definition cop0_count :: "cop0 \<Rightarrow> u32" where
  "cop0_count c = count_epoch_value c + to_u32 (now c - count_epoch_tick c)"

definition timer_matches :: "cop0 \<Rightarrow> bool" where
  "timer_matches c \<longleftrightarrow> cop0_count c = to_u32 (c0_regs c ! COMPARE)"

definition timer_edge :: "cop0 \<Rightarrow> bool \<times> cop0" where
  "timer_edge c =
     (let n = cop0_count c;
          compare = to_u32 (c0_regs c ! COMPARE);
          traveled = n - last_count c;
          to_compare = compare - last_count c;
          edge = (traveled \<noteq> 0 \<and> to_compare \<noteq> 0 \<and> to_compare \<le> traveled)
      in (edge, c\<lparr>last_count := n\<rparr>))"

definition count_ticks_until_timer_match :: "cop0 \<Rightarrow> u64" where
  "count_ticks_until_timer_match c =
     (let compare = to_u32 (c0_regs c ! COMPARE);
          to_compare = compare - last_count c
      in if to_compare = 0 then 0xFFFFFFFF else to_u64 to_compare)"

section \<open>Random\<close>

definition tick_random :: "cop0 \<Rightarrow> cop0" where
  "tick_random c =
     (let wired = to_u32 (c0_regs c ! WIRED AND 0x3F);
          cur = to_u32 (c0_regs c ! RANDOM AND 0x3F)
      in set_reg RANDOM (if cur = wired then 31 else to_u64 (cur - 1) AND 0x3F) c)"

definition tick_random_by :: "u64 \<Rightarrow> cop0 \<Rightarrow> cop0" where
  "tick_random_by n c =
     (let wired = to_u32 (c0_regs c ! WIRED AND 0x3F);
          cur = to_u32 (c0_regs c ! RANDOM AND 0x3F);
          d = (cur - wired) AND 0x3F;
          value = (if n \<le> to_u64 d then (cur - to_u32 n) AND 0x3F
                   else let cycle = ((31 - wired) AND 0x3F) + 1;
                            into = (n - to_u64 d - 1) mod to_u64 cycle
                        in (31 - to_u32 into) AND 0x3F)
      in set_reg RANDOM (to_u64 value) c)"

section \<open>Interrupts\<close>

definition set_ip :: "u8 \<Rightarrow> bool \<Rightarrow> cop0 \<Rightarrow> cop0" where
  "set_ip b on c =
     (let m = shl 1 (8 + unat (b AND 7));
          cause = c0_regs c ! CAUSE
      in set_reg CAUSE (if on then cause OR m else cause AND NOT m) c)"

definition interrupt_pending :: "cop0 \<Rightarrow> bool" where
  "interrupt_pending c =
     (let status = c0_regs c ! STATUS
      in if status AND 1 = 0 then False
         else if status AND shl 1 1 \<noteq> 0 \<or> status AND shl 1 2 \<noteq> 0 then False
         else let ip = shr (c0_regs c ! CAUSE) 8 AND 0xFF;
                  im = shr status 8 AND 0xFF
              in ip AND im \<noteq> 0)"

section \<open>Reads and writes\<close>

definition is_unused :: "nat \<Rightarrow> bool" where
  "is_unused n \<longleftrightarrow> n mod 32 \<in> {7, 21, 22, 23, 24, 25, 31}"

definition c0_index :: "u8 \<Rightarrow> nat" where
  "c0_index n = unat (n AND 31)"

definition cop0_read :: "cop0 \<Rightarrow> u8 \<Rightarrow> u64" where
  "cop0_read c r =
     (let n = c0_index r
      in if is_unused n then write_latch c
         else let raw = c0_regs c ! n
         in if n = COUNT then to_u64 (cop0_count c)
         else if n = CONFIG then
           (raw AND ARCH_MASK ! CONFIG) OR shl (to_u64 (ec c)) 28
             OR CONFIG_HARDWIRED_HI OR CONFIG_HARDWIRED_LO
         else raw AND ARCH_MASK ! n)"

definition cop0_write :: "u8 \<Rightarrow> u64 \<Rightarrow> cop0 \<Rightarrow> cop0" where
  "cop0_write r value c =
     (let n = c0_index r;
          mask = WRITE_MASK ! n;
          c = set_reg n ((c0_regs c ! n AND NOT mask) OR (value AND mask)) c;
          c = (if n = COMPARE then set_ip 7 False c else c);
          c = (if n = COUNT
               then c\<lparr>count_epoch_value := to_u32 value, count_epoch_tick := now c\<rparr> else c);
          c = (if n = COUNT \<or> n = COMPARE then c\<lparr>last_count := cop0_count c\<rparr> else c)
      in if n = WIRED then set_reg RANDOM 31 c else c)"

definition set_hardware :: "u8 \<Rightarrow> u64 \<Rightarrow> cop0 \<Rightarrow> cop0" where
  "set_hardware r value c = (let n = c0_index r in set_reg n (value AND ARCH_MASK ! n) c)"

definition mfc0 :: "cop0 \<Rightarrow> u8 \<Rightarrow> u64" where
  "mfc0 c n = sext32 (to_u32 (cop0_read c n))"

definition dmfc0 :: "cop0 \<Rightarrow> u8 \<Rightarrow> u64" where
  "dmfc0 c n = cop0_read c n"

definition mtc0 :: "u8 \<Rightarrow> u64 \<Rightarrow> cop0 \<Rightarrow> cop0" where
  "mtc0 n value c =
     (let v = (if is_wide (unat n) then sext32 (to_u32 value) else value AND 0xFFFFFFFF)
      in cop0_write n v (c\<lparr>write_latch := v\<rparr>))"

definition dmtc0 :: "u8 \<Rightarrow> u64 \<Rightarrow> cop0 \<Rightarrow> cop0" where
  "dmtc0 n value c = cop0_write n value (c\<lparr>write_latch := value\<rparr>)"

definition cop0_move_from_rs :: "u8 \<Rightarrow> cop0_op option" where
  "cop0_move_from_rs rs = (if rs = 0 then Some Mfc0 else if rs = 1 then Some Dmfc0
     else if rs = 4 then Some Mtc0 else if rs = 5 then Some Dmtc0 else None)"

definition cop0_reg :: "decoded \<Rightarrow> u8" where
  "cop0_reg d = d_rd d"

section \<open>The closed form of the Random countdown\<close>

definition random_step :: "int \<Rightarrow> int \<Rightarrow> int" where
  "random_step w x = (if x = w then 31 else (x - 1) mod 64)"

lemma random_walk:
  assumes "0 \<le> x" "x < 64" "0 \<le> w" "w < 64" "int k \<le> (x - w) mod 64"
  shows "(random_step w ^^ k) x = (x - int k) mod 64"
  using assms(5)
proof (induction k)
  case 0
  then show ?case using assms by simp
next
  case (Suc k)
  have k: "int k < (x - w) mod 64" using Suc.prems by simp
  have ne: "(x - int k) mod 64 \<noteq> w"
  proof
    assume "(x - int k) mod 64 = w"
    then have "(x - w) mod 64 = (x - (x - int k) mod 64) mod 64" by simp
    also have "\<dots> = int k mod 64" by (simp add: mod_diff_right_eq)
    finally have "(x - w) mod 64 = int k mod 64" .
    moreover have "(x - w) mod 64 < 64" by simp
    ultimately show False using k by simp
  qed
  have "(random_step w ^^ Suc k) x = ((x - int k) mod 64 - 1) mod 64"
  proof -
    have "(random_step w ^^ k) x = (x - int k) mod 64" using Suc.IH k by simp
    then show ?thesis using ne by (simp add: random_step_def del: funpow.simps add: funpow.simps(2)[of k "random_step w"])
  qed
  also have "\<dots> = (x - int (Suc k)) mod 64" by (simp add: mod_diff_left_eq algebra_simps)
  finally show ?case .
qed

lemma random_to_wired:
  assumes "0 \<le> x" "x < 64" "0 \<le> w" "w < 64"
  shows "(random_step w ^^ Suc (nat ((x - w) mod 64))) x = 31"
proof -
  have "(random_step w ^^ nat ((x - w) mod 64)) x = (x - (x - w) mod 64) mod 64"
    using random_walk[OF assms, of "nat ((x - w) mod 64)"] by simp
  also have "\<dots> = w" using assms by (simp add: mod_diff_right_eq)
  finally show ?thesis by (simp add: random_step_def)
qed

lemma random_closed_form:
  assumes "0 \<le> x" "x < 64" "0 \<le> w" "w < 64"
  defines "d \<equiv> (x - w) mod 64" and "c \<equiv> (31 - w) mod 64 + 1"
  shows "(random_step w ^^ n) x =
    (if int n \<le> d then (x - int n) mod 64 else (31 - (int n - d - 1) mod c) mod 64)"
proof (cases "int n \<le> d")
  case True
  then show ?thesis using random_walk[OF assms(1-4)] by (simp add: d_def)
next
  case False
  define j where "j = n - Suc (nat d)"
  have d0: "0 \<le> d" by (simp add: d_def)
  have "nat d < n" using False d0 by linarith
  then have n: "n = j + Suc (nat d)" by (simp add: j_def)
  have c0: "0 < c" by (simp add: c_def add_pos_nonneg) 
  have cyc: "(random_step w ^^ nat c) 31 = 31"
  proof -
    have "nat c = Suc (nat ((31 - w) mod 64))" by (simp add: c_def nat_add_distrib)
    then show ?thesis using random_to_wired[of 31 w] assms(3,4) by simp
  qed
  have "(random_step w ^^ n) x = (random_step w ^^ j) 31"
    unfolding n funpow_add comp_def d_def random_to_wired[OF assms(1-4)] ..
  also have "\<dots> = (random_step w ^^ (j mod nat c)) 31"
    using funpow_mod_eq[OF cyc, of j] by simp
  also have "\<dots> = (31 - int (j mod nat c)) mod 64"
  proof (rule random_walk)
    have "j mod nat c < nat c" using c0 by (intro mod_less_divisor) simp
    then show "int (j mod nat c) \<le> (31 - w) mod 64" using c0 unfolding c_def by linarith
  qed (use assms in auto)
  also have "int (j mod nat c) = (int n - d - 1) mod c"
  proof -
    have "int j = int n - d - 1" using n d0 by simp
    then show ?thesis using c0 by (simp add: zmod_int)
  qed
  finally show ?thesis using False by simp
qed

lemma set_reg_regs: "c0_regs (set_reg n v c) = (c0_regs c)[n := v]"
  "now (set_reg n v c) = now c" "count_epoch_value (set_reg n v c) = count_epoch_value c"
  "count_epoch_tick (set_reg n v c) = count_epoch_tick c" "last_count (set_reg n v c) = last_count c"
  "ec (set_reg n v c) = ec c" "write_latch (set_reg n v c) = write_latch c"
  by (simp_all add: set_reg_def)

lemma set_reg_twice: "set_reg n v (set_reg n w c) = set_reg n v c"
  by (simp add: set_reg_def)

definition random_of :: "cop0 \<Rightarrow> int" where
  "random_of c = uint (c0_regs c ! RANDOM) mod 64"
definition wired_of :: "cop0 \<Rightarrow> int" where
  "wired_of c = uint (c0_regs c ! WIRED) mod 64"

lemma uint_word_of_int_64: "0 \<le> x \<Longrightarrow> x < 64 \<Longrightarrow> uint (word_of_int x :: u64) = x"
  by (simp add: unsigned_of_int take_bit_int_eq_self)

lemma uint_field: "uint (to_u32 ((a :: u64) AND 63)) = uint a mod 64"
  by (simp add: uint_ucast_mod uint_and_63 mod_mod_trivial mod_pos_pos_trivial pos_mod_bound
      order_less_trans[OF pos_mod_bound])

lemma tick_random_eq:
  "tick_random c = set_reg RANDOM (word_of_int (random_step (wired_of c) (random_of c))) c"
proof -
  let ?w = "to_u32 (c0_regs c ! WIRED AND 63)" and ?x = "to_u32 (c0_regs c ! RANDOM AND 63)"
  have u: "uint ?w = wired_of c" "uint ?x = random_of c"
    by (simp_all only: uint_field wired_of_def random_of_def)
  have "uint (to_u64 (?x - 1) AND 63) = (uint ?x - 1) mod 64"
    by (simp add: uint_and_63 uint_ucast_mod uint_word_ariths mod_mod_cancel)
  then have "uint (to_u64 (?x - 1) AND 63) = (random_of c - 1) mod 64" by (simp only: u)
  then have "to_u64 (?x - 1) AND 63 = word_of_int ((random_of c - 1) mod 64)"
    by (intro word_uint_eqI) (simp add: uint_word_of_int_64)
  moreover have "?x = ?w \<longleftrightarrow> random_of c = wired_of c"
    using u by (simp add: word_uint_eq_iff)
  ultimately show ?thesis
    by (simp add: tick_random_def Let_def random_step_def)
qed

lemma random_of_range: "0 \<le> random_of c" "random_of c < 64" "0 \<le> wired_of c" "wired_of c < 64"
  by (simp_all add: random_of_def wired_of_def)

lemma uint_sub_and_63: "uint (((a :: u32) - b) AND 63) = (uint a - uint b) mod 64"
  by (simp add: uint_and_63 uint_word_ariths mod_mod_cancel)

lemma tick_random_by_eq:
  "tick_random_by n c =
     set_reg RANDOM (word_of_int ((random_step (wired_of c) ^^ unat n) (random_of c))) c"
proof -
  let ?w = "to_u32 (c0_regs c ! WIRED AND 63)" and ?x = "to_u32 (c0_regs c ! RANDOM AND 63)"
  have u: "uint ?w = wired_of c" "uint ?x = random_of c"
    by (simp_all only: uint_field wired_of_def random_of_def)
  define d where "d = (random_of c - wired_of c) mod 64"
  define cy where "cy = (31 - wired_of c) mod 64 + 1"
  let ?d = "(?x - ?w) AND 63" and ?c = "((31 - ?w) AND 63) + 1"
  have d: "uint ?d = d" by (simp only: uint_sub_and_63 u d_def)
  have cy: "uint ?c = cy" 
    using u by (simp add: uint_word_ariths uint_sub_and_63 cy_def)
  have dr: "0 \<le> d" "d < 64" and cr: "0 < cy" "cy \<le> 64"
    by (simp_all add: d_def cy_def add_pos_nonneg)
  let ?v = "if n \<le> to_u64 ?d then (?x - to_u32 n) AND 63
    else (31 - to_u32 ((n - to_u64 ?d - 1) mod to_u64 ?c)) AND 63"
  have le: "n \<le> to_u64 ?d \<longleftrightarrow> uint n \<le> d"
    using d dr by (simp add: word_le_def uint_ucast_mod)
  have "uint ?v = (if uint n \<le> d then (random_of c - uint n) mod 64
      else (31 - (uint n - d - 1) mod cy) mod 64)"
  proof (cases "uint n \<le> d")
    case True
    have "uint ((?x - to_u32 n) AND 63) = (uint ?x - uint n) mod 64"
      by (simp add: uint_sub_and_63 uint_ucast_mod mod_sub_cancel)
    then show ?thesis using True le u by simp
  next
    case False
    have nd: "uint (n - to_u64 ?d - 1) = uint n - d - 1"
    proof -
      have "uint (to_u64 ?d) = d" using d dr by (simp add: uint_ucast_mod)
      then have "uint (n - to_u64 ?d - 1) = (uint n - d - 1) mod 2 ^ 64"
        by (simp add: uint_word_ariths mod_diff_left_eq)
      also have "\<dots> = uint n - d - 1"
        using False dr uint_lt2p[of n] by (intro mod_pos_pos_trivial) auto
      finally show ?thesis .
    qed
    have "uint ((31 - to_u32 ((n - to_u64 ?d - 1) mod to_u64 ?c)) AND 63) =
        (31 - uint (n - to_u64 ?d - 1) mod cy) mod 64"
    proof -
      have "uint (to_u64 ?c) = cy" using cy cr by (simp add: uint_ucast_mod)
      then show ?thesis by (simp add: uint_sub_and_63 uint_ucast_mod uint_mod mod_sub_cancel)
    qed
    then show ?thesis using False le nd by simp
  qed
  also have "\<dots> = (random_step (wired_of c) ^^ unat n) (random_of c)"
    using random_closed_form[OF random_of_range, of "unat n" c] by (simp add: d_def cy_def)
  finally have v: "uint ?v = (random_step (wired_of c) ^^ unat n) (random_of c)" .
  have "tick_random_by n c = set_reg RANDOM (to_u64 ?v) c"
    unfolding tick_random_by_def Let_def by (rule refl)
  moreover have "to_u64 ?v = word_of_int (uint ?v)" by (rule ucast_eq)
  ultimately show ?thesis by (simp only: v)
qed

definition cop0_wf :: "cop0 \<Rightarrow> bool" where
  "cop0_wf c \<longleftrightarrow> length (c0_regs c) = 32 \<and>
     (\<forall>n < 32. c0_regs c ! n AND NOT (ARCH_MASK ! n) = 0)"

lemma random_after_tick:
  assumes "length (c0_regs c) = 32" "0 \<le> x" "x < 64"
  shows "random_of (set_reg RANDOM (word_of_int x) c) = x" "wired_of (set_reg RANDOM v c) = wired_of c"
  using assms uint_word_of_int_64[of x] by (simp_all add: random_of_def wired_of_def set_reg_regs)

lemma random_step_range: "0 \<le> x \<Longrightarrow> x < 64 \<Longrightarrow> 0 \<le> random_step w x \<and> random_step w x < 64"
  by (simp add: random_step_def)

lemma random_funpow_range:
  "0 \<le> x \<Longrightarrow> x < 64 \<Longrightarrow> 0 \<le> (random_step w ^^ k) x \<and> (random_step w ^^ k) x < 64"
  by (induction k) (simp_all add: random_step_range)

lemma tick_random_funpow:
  assumes "length (c0_regs c) = 32" "uint (c0_regs c ! RANDOM) < 64"
  shows "(tick_random ^^ k) c =
    set_reg RANDOM (word_of_int ((random_step (wired_of c) ^^ k) (random_of c))) c"
proof (induction k)
  case 0
  have "word_of_int (random_of c) = c0_regs c ! RANDOM"
    using assms(2) by (simp add: random_of_def)
  then have "set_reg RANDOM (word_of_int (random_of c)) c = c"
    unfolding set_reg_def by (simp add: list_update_id del: RANDOM_def)
  then show ?case by simp
next
  case (Suc k)
  let ?x = "(random_step (wired_of c) ^^ k) (random_of c)"
  have r: "0 \<le> ?x" "?x < 64" using random_funpow_range random_of_range by auto
  have "(tick_random ^^ Suc k) c = tick_random (set_reg RANDOM (word_of_int ?x) c)"
    using Suc by simp
  also have "\<dots> = set_reg RANDOM (word_of_int (random_step (wired_of c) ?x)) c"
    unfolding tick_random_eq random_after_tick[OF assms(1) r] set_reg_twice ..
  finally show ?case by simp
qed

lemma masks_length: "length WRITE_MASK = 32" "length ARCH_MASK = 32"
  by (simp_all add: WRITE_MASK_def ARCH_MASK_def)

lemma write_mask_architectural: "n < 32 \<Longrightarrow> WRITE_MASK ! n AND NOT (ARCH_MASK ! n) = 0"
proof -
  have "\<forall>n \<in> set [0..<32]. WRITE_MASK ! n AND NOT (ARCH_MASK ! n) = 0"
    by code_simp
  then show "n < 32 \<Longrightarrow> ?thesis" by simp
qed

lemma cop0_new_wf: "cop0_wf cop0_new"
proof -
  have "\<forall>n \<in> set [0..<32]. c0_regs cop0_new ! n AND NOT (ARCH_MASK ! n) = 0"
    by code_simp
  then show ?thesis by (simp add: cop0_wf_def cop0_new_def)
qed

section \<open>Invariant\<close>

lemma c0_index_lt [simp]: "c0_index n < 32"
  by (simp add: c0_index_def unat_and_31)

lemma set_reg_wf:
  assumes "cop0_wf c" "v AND NOT (ARCH_MASK ! n) = 0"
  shows "cop0_wf (set_reg n v c)"
  using assms by (cases "n < 32") (auto simp: cop0_wf_def set_reg_regs nth_list_update list_update_beyond)

lemma cop0_wf_cong: "c0_regs c = c0_regs c' \<Longrightarrow> cop0_wf c = cop0_wf c'"
  by (simp add: cop0_wf_def)

lemma arch_masks:
  "ARCH_MASK ! RANDOM = 63" "ARCH_MASK ! CAUSE = 0xB000FF7C"
  by (simp_all add: ARCH_MASK_def)

lemma ip_mask_architectural: "shl 1 (8 + unat (b AND 7 :: u8)) AND NOT (ARCH_MASK ! CAUSE) = 0"
proof -
  have "unat (b AND 7) < 8" by (simp add: unat_and_7)
  then have "unat (b AND 7) \<in> set [0..<8]" by simp
  moreover have "\<forall>k \<in> set [0..<8]. shl 1 (8 + k) AND NOT (ARCH_MASK ! CAUSE) = 0"
    unfolding arch_masks by code_simp
  ultimately show ?thesis by blast
qed

lemma set_ip_wf: "cop0_wf c \<Longrightarrow> cop0_wf (set_ip b on c)"
proof -
  assume wf: "cop0_wf c"
  let ?m = "shl 1 (8 + unat (b AND 7)) :: u64"
  have c: "c0_regs c ! CAUSE AND NOT (ARCH_MASK ! CAUSE) = 0" using wf by (simp add: cop0_wf_def)
  have m: "?m AND NOT (ARCH_MASK ! CAUSE) = 0" by (rule ip_mask_architectural)
  have "(c0_regs c ! CAUSE OR ?m) AND NOT (ARCH_MASK ! CAUSE) =
      (c0_regs c ! CAUSE AND NOT (ARCH_MASK ! CAUSE)) OR (?m AND NOT (ARCH_MASK ! CAUSE))"
    by (simp add: word_bw_comms bit.conj_disj_distrib)
  moreover have "(c0_regs c ! CAUSE AND NOT ?m) AND NOT (ARCH_MASK ! CAUSE) =
      (c0_regs c ! CAUSE AND NOT (ARCH_MASK ! CAUSE)) AND NOT ?m"
    by (simp add: ac_simps)
  ultimately show ?thesis
    unfolding set_ip_def Let_def using wf c m by (intro set_reg_wf) (auto simp del: CAUSE_def)
qed

lemma small_architectural:
  assumes "0 \<le> x \<and> x < 64"
  shows "(word_of_int x :: u64) AND NOT (ARCH_MASK ! RANDOM) = 0"
proof -
  have "uint (word_of_int x :: u64) = x" using assms uint_word_of_int_64 by blast
  then have "unat (word_of_int x :: u64) < 2 ^ 6" using assms unfolding unat_eq_nat_uint by (simp add: nat_less_iff)
  then show ?thesis unfolding arch_masks mask_numerals by (rule and_not_of_lt)
qed

lemma tick_random_by_wf: "cop0_wf c \<Longrightarrow> cop0_wf (tick_random_by n c)"
  unfolding tick_random_by_eq
  by (intro set_reg_wf small_architectural random_funpow_range random_of_range)

lemma tick_random_wf: "cop0_wf c \<Longrightarrow> cop0_wf (tick_random c)"
  unfolding tick_random_eq
  by (intro set_reg_wf small_architectural random_step_range random_of_range)

lemma set_hardware_wf: "cop0_wf c \<Longrightarrow> cop0_wf (set_hardware r v c)"
  unfolding set_hardware_def Let_def by (intro set_reg_wf and_not_mask)

lemma thirty_one_architectural: "(31 :: u64) AND NOT (ARCH_MASK ! RANDOM) = 0"
  unfolding arch_masks by simp

lemma cop0_write_wf: "cop0_wf c \<Longrightarrow> cop0_wf (cop0_write r v c)"
proof -
  assume wf: "cop0_wf c"
  define n where "n = c0_index r"
  define c1 where "c1 = set_reg n ((c0_regs c ! n AND NOT (WRITE_MASK ! n)) OR (v AND WRITE_MASK ! n)) c"
  define c2 where "c2 = (if n = COMPARE then set_ip 7 False c1 else c1)"
  define c3 where "c3 = (if n = COUNT
      then c2\<lparr>count_epoch_value := to_u32 v, count_epoch_tick := now c2\<rparr> else c2)"
  define c4 where "c4 = (if n = COUNT \<or> n = COMPARE then c3\<lparr>last_count := cop0_count c3\<rparr> else c3)"
  have "n < 32" by (simp add: n_def)
  then have "cop0_wf c1" unfolding c1_def using wf
    by (intro set_reg_wf and_not_merge write_mask_architectural) (simp_all add: cop0_wf_def)
  then have "cop0_wf c2" by (simp add: c2_def set_ip_wf)
  then have "cop0_wf c3" using cop0_wf_cong[of c3 c2] by (simp add: c3_def)
  then have "cop0_wf c4" using cop0_wf_cong[of c4 c3] by (simp add: c4_def)
  moreover have "cop0_write r v c = (if n = WIRED then set_reg RANDOM 31 c4 else c4)"
    unfolding cop0_write_def Let_def c4_def c3_def c2_def c1_def n_def by (rule refl)
  ultimately show ?thesis using set_reg_wf[OF _ thirty_one_architectural] by simp
qed

lemma mtc0_wf: "cop0_wf c \<Longrightarrow> cop0_wf (mtc0 n v c)" "cop0_wf c \<Longrightarrow> cop0_wf (dmtc0 n v c)"
  unfolding mtc0_def dmtc0_def Let_def
  by (intro cop0_write_wf, simp add: cop0_wf_def)+

lemma clock_wf: "cop0_wf (set_now t c) = cop0_wf c" "cop0_wf (snd (timer_edge c)) = cop0_wf c"
  by (simp_all add: set_now_def timer_edge_def Let_def cop0_wf_def)

lemma wf_random_lt: "cop0_wf c \<Longrightarrow> uint (c0_regs c ! RANDOM) < 64"
proof -
  assume "cop0_wf c"
  then have "c0_regs c ! RANDOM AND NOT (ARCH_MASK ! RANDOM) = 0" by (simp add: cop0_wf_def)
  then have z: "c0_regs c ! RANDOM AND NOT 63 = 0" by (simp only: arch_masks)
  have "c0_regs c ! RANDOM = (c0_regs c ! RANDOM AND 63) OR (c0_regs c ! RANDOM AND NOT 63)"
    by (rule bit_word_eqI) (auto simp only: bit_and_iff bit_or_iff bit_not_iff possible_bit_word)
  then have "c0_regs c ! RANDOM = c0_regs c ! RANDOM AND 63" unfolding z by simp
  then have "uint (c0_regs c ! RANDOM) = uint (c0_regs c ! RANDOM) mod 64"
    by (metis uint_and_63)
  then show ?thesis by (metis pos_mod_bound zero_less_numeral)
qed

section \<open>The timer across polls\<close>

definition poll :: "u64 \<Rightarrow> cop0 \<Rightarrow> bool \<times> cop0" where
  "poll t c = timer_edge (set_now t c)"

definition ticks_to :: "u64 \<Rightarrow> cop0 \<Rightarrow> u32" where
  "ticks_to t c = cop0_count (set_now t c) - last_count c"

lemma crossing_compose:
  fixes p q tc :: "'a::len word"
  assumes "p \<le> q"
  shows "(p \<noteq> 0 \<and> tc \<noteq> 0 \<and> tc \<le> p) \<or> (q - p \<noteq> 0 \<and> tc - p \<noteq> 0 \<and> tc - p \<le> q - p)
    \<longleftrightarrow> q \<noteq> 0 \<and> tc \<noteq> 0 \<and> tc \<le> q"
  using assms by unat_arith 

lemma poll_eq:
  "poll t c = (let q = ticks_to t c; tc = to_u32 (c0_regs c ! COMPARE) - last_count c
     in (q \<noteq> 0 \<and> tc \<noteq> 0 \<and> tc \<le> q, c\<lparr>now := t, last_count := cop0_count (set_now t c)\<rparr>))"
  by (simp add: poll_def timer_edge_def Let_def ticks_to_def set_now_def cop0_count_def)

lemma poll_compose:
  assumes "ticks_to t1 c \<le> ticks_to t2 c"
  shows "(let (e1, c1) = poll t1 c; (e2, c2) = poll t2 c1 in (e1 \<or> e2, c2)) = poll t2 c"
proof -
  let ?c1 = "c\<lparr>now := t1, last_count := cop0_count (set_now t1 c)\<rparr>"
  let ?tc = "to_u32 (c0_regs c ! COMPARE) - last_count c"
  have t: "ticks_to t2 ?c1 = ticks_to t2 c - ticks_to t1 c"
    by (simp add: ticks_to_def set_now_def cop0_count_def)
  have d: "to_u32 (c0_regs c ! COMPARE) - cop0_count (set_now t1 c) = ?tc - ticks_to t1 c"
    by (simp add: ticks_to_def)
  have e: "to_u32 (c0_regs c ! COMPARE) = cop0_count (set_now t1 c) \<longleftrightarrow> ?tc = ticks_to t1 c"
    by (simp add: ticks_to_def)
  have n: "cop0_count (set_now t2 ?c1) = cop0_count (set_now t2 c)"
    by (simp add: set_now_def cop0_count_def)
  show ?thesis
    using crossing_compose[OF assms, of ?tc]
    by (simp add: poll_eq Let_def t d n e del: COMPARE_def)
qed

lemma no_edge_before_match:
  assumes "to_u64 (ticks_to t c) < count_ticks_until_timer_match c"
  shows "\<not> fst (poll t c)"
proof -
  let ?tc = "to_u32 (c0_regs c ! COMPARE) - last_count c"
  have "?tc \<noteq> 0 \<Longrightarrow> ticks_to t c < ?tc"
    using assms by (simp add: count_ticks_until_timer_match_def Let_def word_less_nat_alt)
  then show ?thesis by (auto simp: poll_eq Let_def simp del: COMPARE_def)
qed

lemma edge_at_match:
  assumes "to_u64 (ticks_to t c) = count_ticks_until_timer_match c"
    "last_count c \<noteq> to_u32 (c0_regs c ! COMPARE)"
  shows "fst (poll t c)"
proof -
  let ?tc = "to_u32 (c0_regs c ! COMPARE) - last_count c"
  have "?tc \<noteq> 0" using assms(2) by simp
  moreover from this have "ticks_to t c = ?tc"
    using assms(1) by (simp add: count_ticks_until_timer_match_def Let_def ucast_inj_up del: COMPARE_def)
  ultimately show ?thesis by (simp add: poll_eq Let_def del: COMPARE_def)
qed

section \<open>Reads after writes\<close>

lemma arch_read:
  assumes "cop0_wf c" "n < 32"
  shows "c0_regs c ! n AND ARCH_MASK ! n = c0_regs c ! n"
  using assms by (intro and_eq_of_and_not) (simp add: cop0_wf_def)

lemma plain_read:
  assumes "cop0_wf c" "c0_index q \<notin> {COUNT, CONFIG}" "\<not> is_unused (c0_index q)"
  shows "cop0_read c q = c0_regs c ! c0_index q"
  using assms arch_read[OF assms(1), of "c0_index q"]
  by (simp add: cop0_read_def Let_def del: COUNT_def CONFIG_def)

lemma write_regs:
  "c0_regs (cop0_write r v c) =
     (let n = c0_index r;
          rs = (c0_regs c)[n := (c0_regs c ! n AND NOT (WRITE_MASK ! n)) OR (v AND WRITE_MASK ! n)]
      in if n = COMPARE then rs[CAUSE := rs ! CAUSE AND NOT (shl 1 15)]
         else if n = WIRED then rs[RANDOM := 31] else rs)"
  by (simp add: cop0_write_def Let_def set_ip_def set_reg_def)

lemma write_read:
  assumes "cop0_wf c" "c0_index q \<notin> {COUNT, CONFIG}" "\<not> is_unused (c0_index q)"
  shows "cop0_read (cop0_write r v c) q =
    (let n = c0_index r; m = c0_index q; old = cop0_read c q; w = WRITE_MASK ! m
     in if m = n then (old AND NOT w) OR (v AND w)
        else if n = COMPARE \<and> m = CAUSE then old AND NOT (shl 1 15)
        else if n = WIRED \<and> m = RANDOM then 31
        else old)"
proof -
  have len: "length (c0_regs c) = 32" using assms(1) by (simp add: cop0_wf_def)
  show ?thesis
    unfolding plain_read[OF cop0_write_wf[OF assms(1)] assms(2,3)] plain_read[OF assms] write_regs Let_def
    using len by (auto simp: nth_list_update)
qed

lemma count_write_read:
  "c0_index r = COUNT \<Longrightarrow> cop0_read (cop0_write r v c) r = v AND 0xFFFFFFFF"
proof -
  have m: "to_u64 (to_u32 v) = v AND 0xFFFFFFFF"
  proof -
    have "v AND mask 32 = to_u64 (to_u32 v)" by (rule bit_word_eqI) (auto simp: bit_word_simps)
    then show ?thesis by (simp add: mask_eq_exp_minus_1)
  qed
  assume "c0_index r = COUNT"
  then show ?thesis
    by (simp add: cop0_read_def cop0_write_def Let_def is_unused_def cop0_count_def set_reg_def m)
qed

section \<open>Every reachable register file\<close>

inductive cop0_step :: "cop0 \<Rightarrow> cop0 \<Rightarrow> bool" where
  step_mtc0: "cop0_step c (mtc0 n v c)"
| step_dmtc0: "cop0_step c (dmtc0 n v c)"
| step_hardware: "cop0_step c (set_hardware n v c)"
| step_ip: "cop0_step c (set_ip b on c)"
| step_now: "cop0_step c (set_now t c)"
| step_timer: "timer_edge c = (e, c') \<Longrightarrow> cop0_step c c'"
| step_random: "cop0_step c (tick_random c)"
| step_random_by: "cop0_step c (tick_random_by n c)"

inductive_cases cop0_stepE: "cop0_step c c'"

lemma cop0_step_wf: "cop0_step c c' \<Longrightarrow> cop0_wf c \<Longrightarrow> cop0_wf c'"
  by (induction rule: cop0_step.induct)
     (simp_all add: mtc0_wf set_hardware_wf set_ip_wf clock_wf tick_random_wf tick_random_by_wf,
      metis clock_wf(2) snd_conv)

lemma cop0_reachable_wf:
  assumes "cop0_step\<^sup>*\<^sup>* cop0_new c"
  shows "cop0_wf c"
  using assms by (induction rule: rtranclp_induct) (auto simp: cop0_new_wf cop0_step_wf)

section \<open>Properties\<close>

text \<open>C24. In every register file reachable from power-on through the moves, the hardware writes, the
  timer and the countdown, each register holds only architectural bits, and \<open>Random\<close> stays
  below 64.\<close>

theorem cop0_reachable_architectural:
  assumes "cop0_step\<^sup>*\<^sup>* cop0_new c"
  shows "cop0_wf c \<and> uint (c0_regs c ! RANDOM) < 64"
  using cop0_reachable_wf [OF assms] wf_random_lt by blast

theorem cop0_reachable_architectural_witness:
  "cop0_wf (tick_random_by 5 (mtc0 6 0x55 cop0_new))"
proof -
  have "cop0_step\<^sup>*\<^sup>* cop0_new (tick_random_by 5 (mtc0 6 0x55 cop0_new))"
    using step_mtc0 [of cop0_new 6 "0x55"] step_random_by [of "mtc0 6 0x55 cop0_new" 5]
    by (rule converse_rtranclp_into_rtranclp [OF _ r_into_rtranclp])
  then show ?thesis using cop0_reachable_architectural by blast
qed

text \<open>C22. The constant-time batch form of the \<open>Random\<close> countdown is the countdown iterated, for every
  number of ticks and every value of \<open>Random\<close> and \<open>Wired\<close> software can reach (\<open>Wired\<close> above 31 and
  \<open>Random\<close> below \<open>Wired\<close> included).\<close>

theorem random_batch_is_loop:
  assumes "cop0_wf c"
  shows "tick_random_by n c = (tick_random ^^ unat n) c"
  using assms tick_random_funpow wf_random_lt by (simp add: tick_random_by_eq cop0_wf_def)

theorem random_batch_is_loop_witness:
  "tick_random_by 3 cop0_new = tick_random (tick_random (tick_random cop0_new))"
proof -
  have "unat (3 :: u64) = Suc (Suc (Suc 0))" by simp
  then show ?thesis
    using random_batch_is_loop [OF cop0_new_wf, of 3] by (simp only: funpow.simps comp_def id_apply)
qed

text \<open>C23. Polling the timer less often loses no interrupt: two polls in order see a crossing of
  \<open>Compare\<close> exactly when the second alone would have, and leave the same state; and no poll
  earlier than the bound that \<open>count_ticks_until_timer_match\<close> reports sees one.\<close>

theorem timer_polls_compose:
  assumes "ticks_to t1 c \<le> ticks_to t2 c"
    and "to_u64 (ticks_to t c) < count_ticks_until_timer_match c"
  shows "(let (e1, c1) = poll t1 c; (e2, c2) = poll t2 c1 in (e1 \<or> e2, c2)) = poll t2 c \<and>
    \<not> fst (poll t c)"
  using poll_compose [OF assms(1)] no_edge_before_match [OF assms(2)] by simp

theorem timer_polls_compose_witness:
  "\<not> fst (poll 99 (mtc0 11 100 cop0_new))"
proof -
  have "ticks_to 99 (mtc0 11 100 cop0_new) = 99"
    "count_ticks_until_timer_match (mtc0 11 100 cop0_new) = 100"
    by code_simp+
  then show ?thesis using timer_polls_compose [of 99 "mtc0 11 100 cop0_new" 99 99] by simp
qed

text \<open>Of the registers other than \<open>Count\<close>, \<open>Config\<close> and the unused ones, a write changes, in what software
  reads back, the writable bits of the register it names and nothing else, except that a write of \<open>Compare\<close> clears the timer's pending bit and a write
  of \<open>Wired\<close> resets \<open>Random\<close> to 31.\<close>

lemma cop0_write_then_read:
  assumes "cop0_wf c" and "c0_index q \<notin> {COUNT, CONFIG}" and "\<not> is_unused (c0_index q)"
  shows "cop0_read (cop0_write r v c) q =
    (let n = c0_index r; m = c0_index q; old = cop0_read c q; w = WRITE_MASK ! m
     in if m = n then (old AND NOT w) OR (v AND w)
        else if n = COMPARE \<and> m = CAUSE then old AND NOT (shl 1 15)
        else if n = WIRED \<and> m = RANDOM then 31
        else old)"
  using assms by (rule write_read)

lemma cop0_write_then_read_witness: "cop0_read (cop0_write 6 5 cop0_new) 1 = 31"
proof -
  have "c0_index 1 = 1" "c0_index 6 = 6" "\<not> is_unused 1" by code_simp+
  then show ?thesis using cop0_write_then_read [OF cop0_new_wf, of 1 6 5] by (simp add: Let_def)
qed

end
