(* ===== verification/Tlb.thy ===== *)
theory Tlb
  imports Cop0
begin

text \<open>
  The translation lookaside buffer (\<^verbatim>\<open>tlb.rs\<close>): 32 fully associative entries, each mapping an
  even/odd pair of pages, the two-entry instruction micro-TLB over them, the four TLB
  instructions, and the shutdown that a lookup with two matches causes.
\<close>

section \<open>State\<close>

definition VA_MASK :: u64 where "VA_MASK = 0x000000FFFFFFFFFF"
definition VPN2_MASK :: u64 where "VPN2_MASK = 0x000000FFFFFFE000"
definition ASID_MASK :: u64 where "ASID_MASK = 0xFF"
definition JTLB_ENTRIES :: nat where [simp]: "JTLB_ENTRIES = 32"
definition ITLB_ENTRIES :: nat where [simp]: "ITLB_ENTRIES = 2"
definition ITLB_MISS_PCYCLES :: u32 where "ITLB_MISS_PCYCLES = 3"

record page_entry =
  pfn :: u32
  pc_attr :: u8
  dirty :: bool
  valid :: bool

record entry =
  page_mask :: u32
  vpn2 :: u64
  asid :: u8
  global :: bool
  region :: u8
  lo0 :: page_entry
  lo1 :: page_entry

definition uncached :: "page_entry \<Rightarrow> bool" where
  "uncached p \<longleftrightarrow> pc_attr p = 2"

datatype tlb_fault = Refill | Invalid | Modified

record translated =
  t_addr :: u32
  t_uncached :: bool

record tlb =
  entries :: "entry list"
  itlb :: "nat option list"
  itlb_lru :: nat
  shutdown :: bool

definition blank_page :: page_entry where
  "blank_page = \<lparr>pfn = 0, pc_attr = 0, dirty = False, valid = False\<rparr>"

definition blank_entry :: entry where
  "blank_entry = \<lparr>page_mask = 0, vpn2 = 0, asid = 0, global = False, region = 0,
     lo0 = blank_page, lo1 = blank_page\<rparr>"

definition tlb_new :: tlb where
  "tlb_new = \<lparr>
     entries = map (\<lambda>i. blank_entry\<lparr>vpn2 := shl (0x7FFFFFF - of_nat i) 13\<rparr>) [0..<JTLB_ENTRIES],
     itlb = replicate ITLB_ENTRIES None, itlb_lru = 0, shutdown = False\<rparr>"

definition tlb_index :: "nat \<Rightarrow> nat" where
  "tlb_index i = i mod JTLB_ENTRIES"

definition tlb_entry :: "tlb \<Rightarrow> nat \<Rightarrow> entry" where
  "tlb_entry t i = entries t ! tlb_index i"

section \<open>Matching\<close>

definition offset_mask :: "u32 \<Rightarrow> u64" where
  "offset_mask m = to_u64 m OR 0x1FFF"

definition pair_size :: "u32 \<Rightarrow> u64" where
  "pair_size m = (to_u64 m OR 0x1FFF) + 1"

definition page_size :: "u32 \<Rightarrow> u64" where
  "page_size m = shr (pair_size m) 1"

definition region_of :: "u64 \<Rightarrow> u8" where
  "region_of vaddr = to_u8 (shr vaddr 62 AND 3)"

definition vpn2_of :: "u64 \<Rightarrow> u32 \<Rightarrow> u64" where
  "vpn2_of vaddr m = (vaddr AND VA_MASK) AND NOT (offset_mask m)"

definition matches :: "entry \<Rightarrow> u64 \<Rightarrow> u8 \<Rightarrow> bool" where
  "matches e vaddr a =
     (if region_of vaddr \<noteq> region e then False
      else if vpn2_of vaddr (page_mask e) \<noteq> vpn2 e then False
      else global e \<or> asid e = a)"

section \<open>Lookup\<close>

text \<open>The loop of \<^verbatim>\<open>lookup\<close>: \<open>Inl\<close> when a second entry matches, else the match found, if any.\<close>

fun lookup_scan :: "entry list \<Rightarrow> nat \<Rightarrow> u64 \<Rightarrow> u8 \<Rightarrow> nat option \<Rightarrow> unit + nat option" where
  "lookup_scan [] i vaddr a found = Inr found"
| "lookup_scan (e # es) i vaddr a found =
     (if \<not> matches e vaddr a then lookup_scan es (Suc i) vaddr a found
      else if found \<noteq> None then Inl ()
      else lookup_scan es (Suc i) vaddr a (Some i))"

definition translate_entry :: "entry \<Rightarrow> u64 \<Rightarrow> bool \<Rightarrow> tlb_fault + translated" where
  "translate_entry e vaddr store =
     (let size = page_size (page_mask e);
          page = (if vaddr AND size = 0 then lo0 e else lo1 e)
      in if \<not> valid page then Inl Invalid
         else if store \<and> \<not> dirty page then Inl Modified
         else let offset = vaddr AND (size - 1);
                  base = shl (to_u64 (pfn page)) 12 AND NOT (size - 1)
              in Inr \<lparr>t_addr = to_u32 (base OR offset), t_uncached = uncached page\<rparr>)"

definition lookup :: "tlb \<Rightarrow> u64 \<Rightarrow> u8 \<Rightarrow> bool \<Rightarrow> (tlb_fault + translated) \<times> tlb" where
  "lookup t vaddr a store =
     (if shutdown t then (Inl Refill, t)
      else case lookup_scan (entries t) 0 vaddr a None of
        Inl _ \<Rightarrow> (Inl Refill, t\<lparr>shutdown := True\<rparr>)
      | Inr None \<Rightarrow> (Inl Refill, t)
      | Inr (Some i) \<Rightarrow> (translate_entry (entries t ! i) vaddr store, t))"

section \<open>The TLB instructions\<close>

definition canonical_page_mask :: "u32 \<Rightarrow> u32" where
  "canonical_page_mask m =
     foldl (\<lambda>out pair. let high = 13 + 2 * pair + 1
        in if shr m high AND 1 \<noteq> 0 then out OR shl 3 (13 + 2 * pair) else out) 0 [0..<6]"

definition page_from :: "u64 \<Rightarrow> page_entry" where
  "page_from l = \<lparr>
     pfn = to_u32 (shr l 6 AND 0x000FFFFF),
     pc_attr = to_u8 (shr l 3 AND 7),
     dirty = (shr l 2 AND 1 \<noteq> 0),
     valid = (shr l 1 AND 1 \<noteq> 0)\<rparr>"

definition lo_from :: "page_entry \<Rightarrow> bool \<Rightarrow> u64" where
  "lo_from p g = shl (to_u64 (pfn p)) 6 OR shl (to_u64 (pc_attr p)) 3 OR
     shl (b2w (dirty p)) 2 OR shl (b2w (valid p)) 1 OR b2w g"

definition entry_from :: "cop0 \<Rightarrow> entry" where
  "entry_from c =
     (let h = cop0_read c 10;
          l0 = cop0_read c 2;
          l1 = cop0_read c 3;
          mask = canonical_page_mask (to_u32 (cop0_read c 5))
      in \<lparr>page_mask = mask,
          vpn2 = (h AND VPN2_MASK) AND NOT (offset_mask mask),
          asid = to_u8 (h AND ASID_MASK),
          global = (l0 AND 1 \<noteq> 0 \<and> l1 AND 1 \<noteq> 0),
          region = to_u8 (shr h 62 AND 3),
          lo0 = page_from l0,
          lo1 = page_from l1\<rparr>)"

definition write_entry :: "nat \<Rightarrow> cop0 \<Rightarrow> tlb \<Rightarrow> tlb" where
  "write_entry index c t =
     t\<lparr>entries := (entries t)[tlb_index index := entry_from c], itlb := replicate ITLB_ENTRIES None\<rparr>"

definition read_entry :: "nat \<Rightarrow> tlb \<Rightarrow> cop0 \<Rightarrow> cop0" where
  "read_entry index t c =
     (let e = entries t ! tlb_index index;
          c = set_hardware 5 (to_u64 (page_mask e)) c;
          c = set_hardware 10 (shl (to_u64 (region e)) 62 OR vpn2 e OR to_u64 (asid e)) c;
          c = set_hardware 2 (lo_from (lo0 e) (global e)) c
      in set_hardware 3 (lo_from (lo1 e) (global e)) c)"

fun probe_scan :: "entry list \<Rightarrow> nat \<Rightarrow> u64 \<Rightarrow> u8 \<Rightarrow> nat option" where
  "probe_scan [] i vaddr a = None"
| "probe_scan (e # es) i vaddr a =
     (if matches e vaddr a then Some i else probe_scan es (Suc i) vaddr a)"

definition probe :: "tlb \<Rightarrow> cop0 \<Rightarrow> cop0" where
  "probe t c =
     (let h = cop0_read c 10;
          a = to_u8 (h AND ASID_MASK)
      in case probe_scan (entries t) 0 h a of
           Some i \<Rightarrow> set_hardware 0 (of_nat i) c
         | None \<Rightarrow> set_hardware 0 (shl 1 31) c)"

section \<open>The micro-TLB\<close>

definition jtlb_has_match :: "tlb \<Rightarrow> u64 \<Rightarrow> u8 \<Rightarrow> bool" where
  "jtlb_has_match t vaddr a \<longleftrightarrow> \<not> shutdown t \<and> (\<exists>e \<in> set (entries t). matches e vaddr a)"

definition itlb_slot_hits :: "tlb \<Rightarrow> u64 \<Rightarrow> u8 \<Rightarrow> nat \<Rightarrow> bool" where
  "itlb_slot_hits t vaddr a slot =
     (case itlb t ! slot of Some i \<Rightarrow> matches (entries t ! i) vaddr a | None \<Rightarrow> False)"

definition itlb_probe :: "u64 \<Rightarrow> u8 \<Rightarrow> tlb \<Rightarrow> bool \<times> tlb" where
  "itlb_probe vaddr a t =
     (if itlb_slot_hits t vaddr a 0 then (True, t\<lparr>itlb_lru := 1\<rparr>)
      else if itlb_slot_hits t vaddr a 1 then (True, t\<lparr>itlb_lru := 0\<rparr>)
      else (False, t))"

definition itlb_fill :: "u64 \<Rightarrow> u8 \<Rightarrow> tlb \<Rightarrow> tlb" where
  "itlb_fill vaddr a t =
     (case probe_scan (entries t) 0 vaddr a of
        Some i \<Rightarrow> t\<lparr>itlb := (itlb t)[itlb_lru t := Some i], itlb_lru := 1 - itlb_lru t\<rparr>
      | None \<Rightarrow> t)"

section \<open>The loops as index lists\<close>

fun hits :: "entry list \<Rightarrow> nat \<Rightarrow> u64 \<Rightarrow> u8 \<Rightarrow> nat list" where
  "hits [] i vaddr a = []"
| "hits (e # es) i vaddr a =
     (if matches e vaddr a then i # hits es (Suc i) vaddr a else hits es (Suc i) vaddr a)"

lemma hits_filter:
  "hits es k vaddr a = map (\<lambda>i. i + k) (filter (\<lambda>i. matches (es ! i) vaddr a) [0..<length es])"
proof (induction es arbitrary: k)
  case (Cons e es)
  have "[0..<length (e # es)] = 0 # map Suc [0..<length es]" by (simp add: upt_conv_Cons map_Suc_upt del: upt_Suc)
  then show ?case using Cons by (simp add: filter_map comp_def)
qed simp

definition matching :: "tlb \<Rightarrow> u64 \<Rightarrow> u8 \<Rightarrow> nat list" where
  "matching t vaddr a = filter (\<lambda>i. matches (entries t ! i) vaddr a) [0..<length (entries t)]"

lemma hits_matching: "hits (entries t) 0 vaddr a = matching t vaddr a"
  by (simp add: hits_filter matching_def)

lemma lookup_scan_hits:
  "lookup_scan es i vaddr a found =
     (case found of
        None \<Rightarrow> (case hits es i vaddr a of [] \<Rightarrow> Inr None | k # ks \<Rightarrow>
                  if ks = [] then Inr (Some k) else Inl ())
      | Some k \<Rightarrow> if hits es i vaddr a = [] then Inr (Some k) else Inl ())"
  by (induction es arbitrary: i found) (auto split: option.splits list.splits)

lemma probe_scan_hits:
  "probe_scan es i vaddr a = (case hits es i vaddr a of [] \<Rightarrow> None | k # ks \<Rightarrow> Some k)"
  by (induction es arbitrary: i) auto

lemma lookup_outcome:
  "lookup t vaddr a store =
     (if shutdown t then (Inl Refill, t)
      else case matching t vaddr a of
        [] \<Rightarrow> (Inl Refill, t)
      | i # ks \<Rightarrow> if ks = [] then (translate_entry (entries t ! i) vaddr store, t)
                  else (Inl Refill, t\<lparr>shutdown := True\<rparr>))"
  by (auto simp: lookup_def lookup_scan_hits hits_matching split: list.splits)

lemma matching_in: "i \<in> set (matching t vaddr a) \<longleftrightarrow>
    i < length (entries t) \<and> matches (entries t ! i) vaddr a"
  by (auto simp: matching_def)

lemma distinct_matching: "distinct (matching t vaddr a)"
  by (simp add: matching_def)

section \<open>Reset\<close>

lemma reset_vpn2_inj:
  assumes "i < 32" "j < 32"
    "(shl (0x7FFFFFF - of_nat i) 13 :: u64) = shl (0x7FFFFFF - of_nat j) 13"
  shows "i = j"
proof -
  have u: "unat (shl (0x7FFFFFF - of_nat k) 13 :: u64) = (0x7FFFFFF - k) * 2 ^ 13" if "k < 32" for k
  proof -
    have "unat (of_nat k :: u64) = k" using that by (simp add: unsigned_of_nat take_bit_nat_eq_self)
    then have "unat (0x7FFFFFF - of_nat k :: u64) = 0x7FFFFFF - k"
      using that by (subst unat_sub) (simp_all add: word_le_nat_alt)
    then show ?thesis
      by (simp only: push_bit_eq_mult unat_word_ariths) simp
  qed
  have "(0x7FFFFFF - i) * 2 ^ 13 = (0x7FFFFFF - j) * (2 ^ 13 :: nat)"
    using u[OF assms(1)] u[OF assms(2)] assms(3) by simp
  then show ?thesis using assms(1,2) by simp
qed

lemma reset_entry: "i < 32 \<Longrightarrow> entries tlb_new ! i = blank_entry\<lparr>vpn2 := shl (0x7FFFFFF - of_nat i) 13\<rparr>"
  by (simp add: tlb_new_def)

lemma reset_matching_unique:
  assumes "i \<in> set (matching tlb_new vaddr a)" "j \<in> set (matching tlb_new vaddr a)"
  shows "i = j"
proof -
  have l: "length (entries tlb_new) = 32" by (simp add: tlb_new_def)
  have "i < 32" "j < 32" and m: "matches (entries tlb_new ! i) vaddr a" "matches (entries tlb_new ! j) vaddr a"
    using assms l by (auto simp: matching_in)
  then show ?thesis
    using reset_vpn2_inj[of i j] by (auto simp: matches_def reset_entry blank_entry_def split: if_splits)
qed

lemma reset_lookup:
  "lookup tlb_new vaddr a store = (Inl (if matching tlb_new vaddr a = [] then Refill else Invalid), tlb_new)"
proof (cases "matching tlb_new vaddr a")
  case Nil
  then show ?thesis by (simp add: lookup_outcome tlb_new_def)
next
  case (Cons i ks)
  have "ks = []"
  proof (rule ccontr)
    assume "ks \<noteq> []"
    then obtain j js where "ks = j # js" by (cases ks) auto
    then have "i = j" "i \<noteq> j"
      using Cons reset_matching_unique[of i vaddr a j] distinct_matching[of tlb_new vaddr a] by auto
    then show False by simp
  qed
  moreover have "i < 32" using Cons matching_in[of i tlb_new vaddr a] by (simp add: tlb_new_def)
  ultimately show ?thesis
    using Cons by (simp add: lookup_outcome reset_entry translate_entry_def Let_def blank_entry_def blank_page_def)
      (simp add: tlb_new_def)
qed

section \<open>PageMask\<close>

lemma bit_shl_3: "bit (shl 3 k :: 'a::len word) n \<longleftrightarrow> n < LENGTH('a) \<and> (n = k \<or> n = Suc k)"
proof -
  have "(3 :: 'a word) = mask 2" by (simp add: mask_eq_exp_minus_1)
  then have "bit (shl 3 k :: 'a word) n = bit (shl (mask 2) k :: 'a word) n" by (simp only:)
  then show ?thesis by (auto simp: bit_word_simps simp del: push_bit_mask_eq)
qed

lemma bit_via_shr: "shr a n AND 1 \<noteq> (0 :: 'a::len word) \<longleftrightarrow> bit a n"
  by (simp add: bit_iff_odd_drop_bit and_one_eq odd_iff_mod_2_eq_one)

lemma bit_foldl_or:
  "bit (foldl (\<lambda>out p. if P p then out OR f p else out) x ps) n \<longleftrightarrow>
     bit (x :: 'a::len word) n \<or> (\<exists>p \<in> set ps. P p \<and> bit (f p) n)"
  by (induction ps arbitrary: x) (auto simp: bit_or_iff)

lemma bit_canonical_page_mask:
  "bit (canonical_page_mask m) n \<longleftrightarrow> (\<exists>p < 6. bit m (14 + 2 * p) \<and> (n = 13 + 2 * p \<or> n = 14 + 2 * p))"
  unfolding canonical_page_mask_def Let_def bit_via_shr bit_foldl_or
  by (auto simp: bit_shl_3)

lemma canonical_page_mask_idem: "canonical_page_mask (canonical_page_mask m) = canonical_page_mask m"
  by (rule bit_word_eqI) (auto simp: bit_canonical_page_mask)

lemma page_mask_field: "(0x01FFE000 :: 'a::len word) = shl (mask 12) 13"
  by (simp add: mask_eq_exp_minus_1 push_bit_eq_mult)

lemma canonical_page_mask_field: "canonical_page_mask m AND 0x01FFE000 = canonical_page_mask m"
  unfolding page_mask_field by (rule bit_word_eqI) (auto simp: bit_canonical_page_mask bit_word_simps)

section \<open>Round trip through the COP0 registers\<close>

lemma page_fields:
  "pfn (page_from l) = to_u32 (shr l 6 AND 0x000FFFFF)" "unat (pfn (page_from l)) < 2 ^ 20"
  "unat (pc_attr (page_from l)) < 8"
proof -
  have m: "(0x000FFFFF :: u64) = mask 20" by (simp add: mask_eq_exp_minus_1)
  show "unat (pfn (page_from l)) < 2 ^ 20"
    using unat_and_mask_lt[of "shr l 6" 20] by (simp add: page_from_def m unat_ucast_mod)
  show "unat (pc_attr (page_from l)) < 8"
    by (simp add: page_from_def unat_ucast_mod unat_and_7)
qed (simp add: page_from_def)

definition page_wf :: "page_entry \<Rightarrow> bool" where
  "page_wf p \<longleftrightarrow> unat (pfn p) < 2 ^ 20 \<and> unat (pc_attr p) < 8"

lemma lo_from_bits:
  assumes "page_wf p"
  shows "lo_from p g AND 0x3FFFFFFF = lo_from p g"
    "page_from (lo_from p g) = p" "lo_from p g AND 1 \<noteq> 0 \<longleftrightarrow> g"
proof -
  have b: "n \<ge> 20 \<Longrightarrow> \<not> bit (pfn p) n" "n \<ge> 3 \<Longrightarrow> \<not> bit (pc_attr p) n" for n
    using assms not_bit_of_lt[of "pfn p" 20] not_bit_of_lt[of "pc_attr p" 3] by (simp_all add: page_wf_def)
  have m: "(0x3FFFFFFF :: u64) = mask 30" "(0x000FFFFF :: u64) = mask 20"
    by (simp_all add: mask_eq_exp_minus_1)
  show "lo_from p g AND 0x3FFFFFFF = lo_from p g"
    unfolding m by (rule bit_word_eqI) (auto simp: lo_from_def bit_word_simps b intro: ccontr)
  have "to_u32 (shr (lo_from p g) 6 AND 0x000FFFFF) = pfn p"
    unfolding m by (rule bit_word_eqI) (auto simp: lo_from_def bit_word_simps b intro: ccontr)
  moreover have "to_u8 (shr (lo_from p g) 3 AND 7) = pc_attr p"
    unfolding mask_numerals by (rule bit_word_eqI) (auto simp: lo_from_def bit_word_simps b intro: ccontr)
  moreover have "bit (lo_from p g) 2 = dirty p" "bit (lo_from p g) 1 = valid p"
    by (auto simp: lo_from_def bit_word_simps b)
  ultimately show "page_from (lo_from p g) = p"
    unfolding page_from_def bit_via_shr by (cases p) simp
  show "lo_from p g AND 1 \<noteq> 0 \<longleftrightarrow> g"
    using bit_via_shr[of 0 "lo_from p g"] by (simp add: lo_from_def bit_word_simps b)
qed

definition entry_wf :: "entry \<Rightarrow> bool" where
  "entry_wf e \<longleftrightarrow> page_wf (lo0 e) \<and> page_wf (lo1 e) \<and> unat (region e) < 4 \<and>
     canonical_page_mask (page_mask e) = page_mask e \<and>
     vpn2 e = (vpn2 e AND VPN2_MASK) AND NOT (offset_mask (page_mask e))"

lemma entry_from_wf: "entry_wf (entry_from c)"
proof -
  have "page_wf (page_from l)" for l using page_fields[of l] by (simp add: page_wf_def)
  moreover have "(((h AND VPN2_MASK) AND NOT m) AND VPN2_MASK) AND NOT m = (h AND VPN2_MASK) AND NOT m" for h m
    by (rule bit_word_eqI) (auto simp only: bit_and_iff bit_not_iff)
  ultimately show ?thesis
    by (simp add: entry_wf_def entry_from_def Let_def canonical_page_mask_idem unat_ucast_mod unat_and_3)
qed

definition hi_of :: "entry \<Rightarrow> u64" where
  "hi_of e = shl (to_u64 (region e)) 62 OR vpn2 e OR to_u64 (asid e)"

lemma hi_of_fields:
  assumes "entry_wf e"
  shows "hi_of e AND 0xC00000FFFFFFE0FF = hi_of e"
    "(hi_of e AND VPN2_MASK) AND NOT (offset_mask (page_mask e)) = vpn2 e"
    "to_u8 (hi_of e AND ASID_MASK) = asid e" "to_u8 (shr (hi_of e) 62 AND 3) = region e"
proof -
  have v: "VPN2_MASK = shl (mask 27) 13" by (simp add: VPN2_MASK_def mask_eq_exp_minus_1 push_bit_eq_mult)
  have m: "(0xC00000FFFFFFE0FF :: u64) = shl (mask 2) 62 OR shl (mask 27) 13 OR mask 8"
    by (simp add: mask_eq_exp_minus_1 push_bit_eq_mult)
  have b: "n \<ge> 2 \<Longrightarrow> \<not> bit (region e) n" for n
    using assms not_bit_of_lt[of "region e" 2] by (simp add: entry_wf_def)
  have ve: "vpn2 e = (vpn2 e AND VPN2_MASK) AND NOT (offset_mask (page_mask e))"
    using assms unfolding entry_wf_def by blast
  have q: "13 \<le> n \<and> n < 40 \<and> \<not> bit (offset_mask (page_mask e)) n" if h: "bit (vpn2 e) n" for n
  proof -
    have "bit ((vpn2 e AND VPN2_MASK) AND NOT (offset_mask (page_mask e))) n"
      by (subst ve [symmetric]) (rule h)
    then show ?thesis unfolding v by (auto simp: bit_word_simps simp del: push_bit_mask_eq)
  qed
  have p: "13 \<le> n" "n < 40" "\<not> bit (offset_mask (page_mask e)) n" if "bit (vpn2 e) n" for n
    using q[OF that] by simp_all
  have bl: "bit (asid e) n \<Longrightarrow> n < 8" for n using bit_imp_le_length[of "asid e" n] by simp
  have o: "n < 13 \<Longrightarrow> bit (offset_mask (page_mask e)) n" for n
  proof -
    have "(0x1FFF :: u64) = mask 13" by (simp add: mask_eq_exp_minus_1)
    then show "n < 13 \<Longrightarrow> bit (offset_mask (page_mask e)) n"
      by (simp only: offset_mask_def bit_or_iff bit_mask_iff possible_bit_word) simp
  qed
  show "hi_of e AND 0xC00000FFFFFFE0FF = hi_of e"
    unfolding m
    by (intro bit_word_eqI) (auto simp: hi_of_def bit_word_simps b simp del: push_bit_mask_eq intro: ccontr dest: p bl)
  show "(hi_of e AND VPN2_MASK) AND NOT (offset_mask (page_mask e)) = vpn2 e"
    unfolding v
    by (intro bit_word_eqI) (auto simp: hi_of_def bit_word_simps b o simp del: push_bit_mask_eq dest: p bl)
  show "to_u8 (hi_of e AND ASID_MASK) = asid e"
    unfolding ASID_MASK_def mask_numerals
    by (intro bit_word_eqI) (auto simp: hi_of_def bit_word_simps b dest: p bl)
  have m3: "(3 :: u64) = mask 2" by (simp add: mask_eq_exp_minus_1)
  show "to_u8 (shr (hi_of e) 62 AND 3) = region e"
    unfolding m3
    by (intro bit_word_eqI) (auto simp: hi_of_def bit_word_simps b intro: ccontr dest: p bl)
qed

definition tlb_wf :: "tlb \<Rightarrow> bool" where
  "tlb_wf t \<longleftrightarrow> length (entries t) = 32 \<and> length (itlb t) = 2 \<and> itlb_lru t < 2 \<and>
     (\<forall>e \<in> set (entries t). entry_wf e) \<and> (\<forall>i. Some i \<in> set (itlb t) \<longrightarrow> i < 32)"

lemma hardware_read:
  assumes "cop0_wf c" "c0_index q \<notin> {COUNT, CONFIG}" "\<not> is_unused (c0_index q)"
  shows "cop0_read (set_hardware r v c) q =
    (if c0_index q = c0_index r then v AND ARCH_MASK ! c0_index r else cop0_read c q)"
proof -
  have len: "length (c0_regs c) = 32" using assms(1) by (simp add: cop0_wf_def)
  show ?thesis
    unfolding plain_read[OF set_hardware_wf[OF assms(1)] assms(2,3)] plain_read[OF assms]
    using len by (simp add: set_hardware_def Let_def set_reg_regs nth_list_update)
qed

lemma tlb_indices: "c0_index 0 = 0" "c0_index 2 = 2" "c0_index 3 = 3" "c0_index 5 = 5" "c0_index 10 = 10"
  by (simp_all add: c0_index_def)

lemma tlb_arch: "ARCH_MASK ! 5 = 0x01FFE000" "ARCH_MASK ! 2 = 0x3FFFFFFF" "ARCH_MASK ! 3 = 0x3FFFFFFF"
  "ARCH_MASK ! 10 = 0xC00000FFFFFFE0FF"
  by (simp_all add: ARCH_MASK_def)

lemma read_entry_registers:
  assumes "cop0_wf c" "tlb_wf t" "e = entries t ! tlb_index i"
  shows "cop0_read (read_entry i t c) 10 = hi_of e" "cop0_read (read_entry i t c) 2 = lo_from (lo0 e) (global e)"
    "cop0_read (read_entry i t c) 3 = lo_from (lo1 e) (global e)"
    "to_u32 (cop0_read (read_entry i t c) 5) = page_mask e"
proof -
  have e: "entry_wf e" using assms(2,3) by (simp add: tlb_wf_def tlb_index_def)
  have "to_u32 (to_u64 (page_mask e) AND 0x01FFE000) = page_mask e AND 0x01FFE000"
    unfolding page_mask_field by (rule bit_word_eqI) (auto simp: bit_word_simps simp del: push_bit_mask_eq)
  also have "\<dots> = page_mask e"
    using e canonical_page_mask_field[of "page_mask e"] by (simp add: entry_wf_def)
  finally have m: "to_u32 (to_u64 (page_mask e) AND 0x01FFE000) = page_mask e" .
  show "cop0_read (read_entry i t c) 10 = hi_of e" "cop0_read (read_entry i t c) 2 = lo_from (lo0 e) (global e)"
    "cop0_read (read_entry i t c) 3 = lo_from (lo1 e) (global e)"
    "to_u32 (cop0_read (read_entry i t c) 5) = page_mask e"
    using e assms(1) hi_of_fields(1)[OF e] m
    by (simp_all add: read_entry_def Let_def hardware_read set_hardware_wf tlb_indices is_unused_def
        tlb_arch entry_wf_def lo_from_bits(1) flip: assms(3) hi_of_def)
qed

lemma entry_from_read_entry:
  assumes "cop0_wf c" "tlb_wf t"
  shows "entry_from (read_entry i t c) = entries t ! tlb_index i"
proof -
  define e where "e = entries t ! tlb_index i"
  have e: "entry_wf e" using assms by (simp add: tlb_wf_def tlb_index_def e_def)
  then have w: "page_wf (lo0 e)" "page_wf (lo1 e)" "canonical_page_mask (page_mask e) = page_mask e"
    by (simp_all add: entry_wf_def)
  have "entry_from (read_entry i t c) = e"
    unfolding entry_from_def Let_def read_entry_registers[OF assms e_def] w(3)
    by (simp only: hi_of_fields[OF e] lo_from_bits[OF w(1)] lo_from_bits[OF w(2)] conj_absorb) simp
  then show ?thesis by (simp add: e_def)
qed

lemma write_read_entry:
  assumes "cop0_wf c" "tlb_wf t"
  shows "write_entry i (read_entry i t c) t = t\<lparr>itlb := [None, None]\<rparr>"
  using assms by (simp add: write_entry_def entry_from_read_entry numeral_2_eq_2)

section \<open>The physical address of a hit\<close>

lemma translate_entry_address:
  assumes "offset_mask (page_mask e) = mask (13 + k)" "k \<le> 12" "page_wf (lo0 e)" "page_wf (lo1 e)"
    "translate_entry e vaddr store = Inr x"
  defines "p \<equiv> (if bit vaddr (12 + k) then lo1 e else lo0 e)"
  shows "valid p \<and> (store \<longrightarrow> dirty p) \<and> t_uncached x = uncached p \<and>
    to_u64 (t_addr x) AND mask (12 + k) = vaddr AND mask (12 + k) \<and>
    shr (t_addr x) (12 + k) = shr (pfn p) k"
proof -
  have ps: "pair_size (page_mask e) = 2 ^ (13 + k)"
    using assms(1) by (simp add: pair_size_def offset_mask_def mask_eq_exp_minus_1)
  have "shr (2 ^ (13 + k)) 1 = (2 ^ (12 + k) :: u64)"
    using assms(2) by (intro bit_word_eqI) (auto simp: bit_word_simps bit_exp_iff)
  then have sz: "page_size (page_mask e) = 2 ^ (12 + k)" by (simp only: page_size_def ps)
  have m: "page_size (page_mask e) - 1 = mask (12 + k)" by (simp add: sz mask_eq_exp_minus_1)
  have sel: "vaddr AND page_size (page_mask e) = 0 \<longleftrightarrow> \<not> bit vaddr (12 + k)"
    using assms(2) by (simp add: sz and_exp_eq_0_iff_not_bit)
  have wf: "page_wf p" using assms(3,4) by (simp add: p_def)
  have x: "valid p" "store \<longrightarrow> dirty p" "x = \<lparr>t_addr = to_u32 ((shl (to_u64 (pfn p)) 12 AND NOT (mask (12 + k))) OR
      (vaddr AND mask (12 + k))), t_uncached = uncached p\<rparr>"
    using assms(5) unfolding translate_entry_def Let_def sel m
    by (auto simp: p_def split: if_splits)
  have b: "n \<ge> 20 \<Longrightarrow> \<not> bit (pfn p) n" for n
    using wf not_bit_of_lt[of "pfn p" 20] by (simp add: page_wf_def)
  have bl: "bit (pfn p) n \<Longrightarrow> n < 20" for n using b[of n] by (meson not_le)
  have "to_u64 (t_addr x) AND mask (12 + k) = vaddr AND mask (12 + k)"
    using assms(2) by (intro bit_word_eqI) (auto simp: x(3) bit_word_simps)
  moreover have "shr (t_addr x) (12 + k) = shr (pfn p) k"
  proof (rule bit_word_eqI)
    fix n :: nat
    have "12 + k + n - 12 = k + n" by simp
    then show "bit (shr (t_addr x) (12 + k)) n = bit (shr (pfn p) k) n"
      using assms(2) bl[of "k + n"] by (auto simp: x(3) bit_word_simps)
  qed
  ultimately show ?thesis using x by simp
qed

section \<open>Invariant and the micro-TLB\<close>

lemma blank_entry_wf: "i < 32 \<Longrightarrow> entry_wf (blank_entry\<lparr>vpn2 := shl (0x7FFFFFF - of_nat i) 13\<rparr>)"
proof -
  have v: "VPN2_MASK = shl (mask 27) 13" by (simp add: VPN2_MASK_def mask_eq_exp_minus_1 push_bit_eq_mult)
  have o: "offset_mask 0 = mask 13" by (simp add: offset_mask_def mask_eq_exp_minus_1)
  have c: "canonical_page_mask 0 = 0" by (rule bit_word_eqI) (simp add: bit_canonical_page_mask)
  assume i: "i < 32"
  have "unat (of_nat i :: u64) = i" using i by (simp add: unsigned_of_nat take_bit_nat_eq_self)
  then have "unat (0x7FFFFFF - of_nat i :: u64) < 2 ^ 27"
    using i by (subst unat_sub) (simp_all add: word_le_nat_alt)
  then have b: "n \<ge> 27 \<Longrightarrow> \<not> bit (0x7FFFFFF - of_nat i :: u64) n" for n by (rule not_bit_of_lt)
  have "(shl x 13 AND shl (mask 27) 13) AND NOT (mask 13) = shl x 13"
    if "\<And>n. n \<ge> 27 \<Longrightarrow> \<not> bit x n" for x :: u64
    using that by (intro bit_word_eqI) (auto simp: bit_word_simps simp del: push_bit_mask_eq intro: ccontr)
  from this[OF b] show "entry_wf (blank_entry\<lparr>vpn2 := shl (0x7FFFFFF - of_nat i) 13\<rparr>)"
    unfolding entry_wf_def v by (simp add: blank_entry_def blank_page_def page_wf_def o c)
qed

lemma tlb_new_wf: "tlb_wf tlb_new"
  using blank_entry_wf by (auto simp: tlb_wf_def tlb_new_def)

lemma write_entry_wf: "tlb_wf t \<Longrightarrow> tlb_wf (write_entry i c t)"
  using entry_from_wf[of c]
  by (auto simp: tlb_wf_def write_entry_def dest!: set_update_subset_insert[THEN subsetD])

lemma lookup_wf: "tlb_wf t \<Longrightarrow> tlb_wf (snd (lookup t v a s))"
  by (auto simp: lookup_outcome tlb_wf_def split: list.splits)

lemma probe_scan_Some:
  "probe_scan (entries (t :: tlb)) 0 v a = Some i \<Longrightarrow> i < length (entries t) \<and> matches (entries t ! i) v a"
  using matching_in[of i t v a] by (auto simp: probe_scan_hits hits_matching split: list.splits)

lemma probe_scan_None: "probe_scan (entries (t :: tlb)) 0 v a = None \<longleftrightarrow> matching t v a = []"
  by (auto simp: probe_scan_hits hits_matching split: list.splits)

lemma itlb_fill_wf: "tlb_wf t \<Longrightarrow> tlb_wf (itlb_fill v a t)"
  using probe_scan_Some[of t v a]
  by (auto simp: tlb_wf_def itlb_fill_def split: option.splits dest!: set_update_subset_insert[THEN subsetD])

lemma itlb_probe_wf: "tlb_wf t \<Longrightarrow> tlb_wf (snd (itlb_probe v a t))"
  by (auto simp: tlb_wf_def itlb_probe_def)

lemma lt_2_cases: "i < (2 :: nat) \<Longrightarrow> i = 0 \<or> i = 1" by auto

lemma itlb_fill_probe:
  assumes "tlb_wf t" "matching t v a \<noteq> []"
  shows "fst (itlb_probe v a (itlb_fill v a t))"
proof -
  obtain i where i: "probe_scan (entries t) 0 v a = Some i"
    using assms(2) probe_scan_None[of t v a] by (cases "probe_scan (entries t) 0 v a") auto
  let ?t = "itlb_fill v a t"
  have "itlb ?t ! itlb_lru t = Some i" "entries ?t = entries t"
    using i assms(1) by (simp_all add: itlb_fill_def tlb_wf_def)
  then have "itlb_slot_hits ?t v a (itlb_lru t)"
    using probe_scan_Some[OF i] by (simp add: itlb_slot_hits_def)
  moreover have "itlb_lru t = 0 \<or> itlb_lru t = 1" using assms(1) by (auto simp: tlb_wf_def)
  ultimately show ?thesis by (auto simp: itlb_probe_def)
qed

lemma itlb_probe_sound:
  assumes "tlb_wf t" "fst (itlb_probe v a t)"
  shows "matching t v a \<noteq> []"
proof -
  obtain s where s: "s < 2" "itlb_slot_hits t v a s"
    using assms(2) by (auto simp: itlb_probe_def split: if_splits intro: that[of 0] that[of 1])
  then obtain i where "itlb t ! s = Some i" "matches (entries t ! i) v a"
    by (auto simp: itlb_slot_hits_def split: option.splits)
  moreover from this have "Some i \<in> set (itlb t)" using s assms(1) nth_mem[of s "itlb t"] by (simp add: tlb_wf_def)
  ultimately have "i \<in> set (matching t v a)" using assms(1) by (auto simp: matching_in tlb_wf_def)
  then show ?thesis by auto
qed

section \<open>Properties\<close>

text \<open>C25. A lookup translates through the one entry that matches the address and the address space;
  no match is a refill fault, and two matches shut the TLB down, after which every lookup is a
  refill fault. Nothing else changes the TLB. After reset no two entries match one address.\<close>

theorem lookup_unique_match:
  "lookup t vaddr a store =
     (if shutdown t then (Inl Refill, t)
      else case matching t vaddr a of
        [] \<Rightarrow> (Inl Refill, t)
      | i # ks \<Rightarrow> if ks = [] then (translate_entry (entries t ! i) vaddr store, t)
                  else (Inl Refill, t\<lparr>shutdown := True\<rparr>)) \<and>
   lookup tlb_new vaddr a store =
     (Inl (if matching tlb_new vaddr a = [] then Refill else Invalid), tlb_new)"
  using lookup_outcome reset_lookup by blast

text \<open>C26. \<open>TLBR\<close> followed by \<open>TLBWI\<close> of the same index writes back the very entry it read: the
  registers hold an entry without loss, whatever they held before. (The write flushes the
  micro-TLB.)\<close>

theorem tlbr_tlbwi_round_trip:
  assumes "cop0_wf c" and "tlb_wf t"
  shows "write_entry i (read_entry i t c) t = t\<lparr>itlb := [None, None]\<rparr>"
  using assms by (rule write_read_entry)

theorem tlbr_tlbwi_round_trip_witness:
  "write_entry 7 (read_entry 7 tlb_new cop0_new) tlb_new = tlb_new"
  using tlbr_tlbwi_round_trip [OF cop0_new_wf tlb_new_wf, of 7]
  by (simp add: tlb_new_def numeral_2_eq_2)

text \<open>C27. When an entry maps pages of \<open>2 ^ (12 + k)\<close> bytes and a lookup through it succeeds, the page
  was valid, and dirty for a store; the physical address keeps the offset of the virtual one
  inside the page, and its frame is the page's frame number; bit \<open>12 + k\<close> chose the page of the
  pair.\<close>

theorem translation_address:
  assumes "offset_mask (page_mask e) = mask (13 + k)" and "k \<le> 12"
    and "page_wf (lo0 e)" and "page_wf (lo1 e)"
    and "translate_entry e vaddr store = Inr x"
  shows "let p = (if bit vaddr (12 + k) then lo1 e else lo0 e) in
    valid p \<and> (store \<longrightarrow> dirty p) \<and> t_uncached x = uncached p \<and>
    to_u64 (t_addr x) AND mask (12 + k) = vaddr AND mask (12 + k) \<and>
    shr (t_addr x) (12 + k) = shr (pfn p) k"
  using translate_entry_address [OF assms] by (simp add: Let_def)

theorem translation_address_witness:
  "\<exists>x. translate_entry (blank_entry\<lparr>lo0 := \<lparr>pfn = 0x123, pc_attr = 3, dirty = True, valid = True\<rparr>\<rparr>)
     0x456 True = Inr x \<and> shr (t_addr x) 12 = 0x123"
proof -
  let ?e = "blank_entry\<lparr>lo0 := \<lparr>pfn = 0x123, pc_attr = 3, dirty = True, valid = True\<rparr>\<rparr>"
  have "offset_mask (page_mask ?e) = mask (13 + 0)"
    by (simp add: blank_entry_def offset_mask_def mask_eq_exp_minus_1)
  moreover have "page_wf (lo0 ?e)" "page_wf (lo1 ?e)"
    by (simp_all add: page_wf_def blank_entry_def blank_page_def)
  moreover have "translate_entry ?e 0x456 True = Inr \<lparr>t_addr = 0x123456, t_uncached = False\<rparr>"
    by code_simp
  ultimately show ?thesis
    using translation_address [of ?e 0 "0x456" True] by auto
qed

end
