(* ===== verification/Addr.thy ===== *)
theory Addr
  imports Tlb
begin

text \<open>
  Virtual address segments and translation (\<^verbatim>\<open>addr.rs\<close>). \<open>segment\<close> classifies an address by
  mode and addressing width before the TLB is consulted; \<open>translate_via\<close> sends the mapped
  segments through a TLB lookup. What translation needs of the lookup is the locale
  \<open>translator\<close>, interpreted on the TLB at the end.
\<close>

section \<open>Segments\<close>

datatype cached = CachedYes | CachedNo

record physical =
  p_addr :: u32
  p_cached :: cached

datatype segment = Direct (seg_addr: u32) (seg_cached: cached) | Mapped | InvalidSeg

datatype mode = Kernel | Supervisor | User

record access =
  a_mode :: mode
  a_wide :: bool
  a_erl :: bool

definition access_kernel :: access where
  "access_kernel = \<lparr>a_mode = Kernel, a_wide = False, a_erl = False\<rparr>"

definition XSEG_SIZE :: u64 where "XSEG_SIZE = 0x10000000000"

definition is_compat :: "u64 \<Rightarrow> bool" where
  "is_compat vaddr \<longleftrightarrow> scast (to_u32 vaddr) = vaddr"

definition compat_kernel_segment :: "u32 \<Rightarrow> segment" where
  "compat_kernel_segment v =
     (if 0x80000000 \<le> v \<and> v \<le> 0x9FFFFFFF then Direct (v - 0x80000000) CachedYes
      else if 0xA0000000 \<le> v \<and> v \<le> 0xBFFFFFFF then Direct (v - 0xA0000000) CachedNo
      else Mapped)"

definition user_segment :: "u64 \<Rightarrow> bool \<Rightarrow> segment" where
  "user_segment vaddr wide =
     (if wide then (if vaddr < XSEG_SIZE then Mapped else InvalidSeg)
      else if is_compat vaddr \<and> to_u32 vaddr < 0x80000000 then Mapped
      else InvalidSeg)"

definition supervisor_segment :: "u64 \<Rightarrow> bool \<Rightarrow> segment" where
  "supervisor_segment vaddr wide =
     (if wide then
        (if vaddr < 0x0000010000000000
            \<or> 0x4000000000000000 \<le> vaddr \<and> vaddr < 0x4000010000000000
            \<or> 0xFFFFFFFFC0000000 \<le> vaddr \<and> vaddr \<le> 0xFFFFFFFFDFFFFFFF
         then Mapped else InvalidSeg)
      else if \<not> is_compat vaddr then InvalidSeg
      else let v = to_u32 vaddr
        in if v \<le> 0x7FFFFFFF \<or> 0xC0000000 \<le> v \<and> v \<le> 0xDFFFFFFF then Mapped else InvalidSeg)"

definition xkphys :: "u64 \<Rightarrow> segment" where
  "xkphys vaddr =
     (if vaddr AND 0x07FFFFFF00000000 \<noteq> 0 then InvalidSeg
      else let c = shr vaddr 59 AND 7
        in Direct (to_u32 vaddr) (if c = 2 then CachedNo else CachedYes))"

definition kernel_segment :: "u64 \<Rightarrow> bool \<Rightarrow> segment" where
  "kernel_segment vaddr wide =
     (if \<not> wide then (if is_compat vaddr then compat_kernel_segment (to_u32 vaddr) else InvalidSeg)
      else if vaddr < 0x0000010000000000
          \<or> 0x4000000000000000 \<le> vaddr \<and> vaddr < 0x4000010000000000
          \<or> 0xC000000000000000 \<le> vaddr \<and> vaddr < 0xC00000FF80000000 then Mapped
      else if 0x8000000000000000 \<le> vaddr \<and> vaddr < 0xC000000000000000 then xkphys vaddr
      else if 0xFFFFFFFF80000000 \<le> vaddr then compat_kernel_segment (to_u32 vaddr)
      else InvalidSeg)"

definition segment_of :: "u64 \<Rightarrow> access \<Rightarrow> segment" where
  "segment_of vaddr ac =
     (if a_erl ac \<and> vaddr < 0x80000000 then Direct (to_u32 vaddr) CachedNo
      else case a_mode ac of
        User \<Rightarrow> user_segment vaddr (a_wide ac)
      | Supervisor \<Rightarrow> supervisor_segment vaddr (a_wide ac)
      | Kernel \<Rightarrow> kernel_segment vaddr (a_wide ac))"

section \<open>Translation\<close>

datatype translate_error = AddressFault | TlbFaultOf tlb_fault

text \<open>\<open>translate_with look\<close> is the body of \<^verbatim>\<open>translate_via\<close> over any lookup operation.\<close>

definition translate_with ::
  "('t \<Rightarrow> u64 \<Rightarrow> u8 \<Rightarrow> bool \<Rightarrow> (tlb_fault + translated) \<times> 't) \<Rightarrow>
   't \<Rightarrow> u64 \<Rightarrow> u8 \<Rightarrow> bool \<Rightarrow> access \<Rightarrow> (translate_error + physical) \<times> 't" where
  "translate_with look t vaddr a store ac =
     (case segment_of vaddr ac of
        Direct addr c \<Rightarrow> (Inr \<lparr>p_addr = addr, p_cached = c\<rparr>, t)
      | Mapped \<Rightarrow> (case look t vaddr a store of
            (Inl f, t') \<Rightarrow> (Inl (TlbFaultOf f), t')
          | (Inr x, t') \<Rightarrow>
              (Inr \<lparr>p_addr = t_addr x, p_cached = (if t_uncached x then CachedNo else CachedYes)\<rparr>, t'))
      | InvalidSeg \<Rightarrow> (Inl AddressFault, t))"

definition translate_via ::
  "tlb \<Rightarrow> u64 \<Rightarrow> u8 \<Rightarrow> bool \<Rightarrow> access \<Rightarrow> (translate_error + physical) \<times> tlb" where
  "translate_via = translate_with lookup"

section \<open>The contract of a lookup\<close>

locale translator =
  fixes look :: "'t \<Rightarrow> u64 \<Rightarrow> u8 \<Rightarrow> bool \<Rightarrow> (tlb_fault + translated) \<times> 't"
    and shut :: "'t \<Rightarrow> bool"
  assumes look_hit: "fst (look t v a s) = Inr x \<Longrightarrow> snd (look t v a s) = t"
    and look_load: "fst (look t v a True) = Inr x \<Longrightarrow> fst (look t v a False) = Inr x"
    and look_shut: "shut t \<Longrightarrow> look t v a s = (Inl Refill, t)"
    and look_change: "snd (look t v a s) \<noteq> t \<Longrightarrow> shut (snd (look t v a s))"
begin

lemma success_pure:
  "fst (translate_with look t v a s ac) = Inr x \<Longrightarrow> snd (translate_with look t v a s ac) = t"
  using look_hit[of t v a s]
  by (auto simp: translate_with_def split: segment.splits prod.splits sum.splits)

lemma store_implies_load:
  "fst (translate_with look t v a True ac) = Inr x \<Longrightarrow> fst (translate_with look t v a False ac) = Inr x"
  using look_load[of t v a]
  by (auto simp: translate_with_def split: segment.splits prod.splits sum.splits)

lemma shut_only_direct:
  assumes "shut t" "fst (translate_with look t v a s ac) = Inr x"
  shows "\<exists>c. segment_of v ac = Direct (p_addr x) c"
  using assms look_shut[OF assms(1)]
  by (auto simp: translate_with_def split: segment.splits)

lemma shut_forever:
  "shut t \<Longrightarrow> shut (snd (translate_with look t v a s ac))"
  using look_shut[of t] by (auto simp: translate_with_def split: segment.splits)

lemma shut_fold:
  "shut t \<Longrightarrow> shut (foldl (\<lambda>t (v, a, s, ac). snd (translate_with look t v a s ac)) t accesses)"
  by (induction accesses arbitrary: t) (auto simp: shut_forever)

lemma failure_keeps_or_shuts:
  "snd (translate_with look t v a s ac) \<noteq> t \<Longrightarrow> shut (snd (translate_with look t v a s ac))"
  using look_change[of t v a s]
  by (auto simp: translate_with_def split: segment.splits prod.splits sum.splits)

end

lemma translate_entry_load:
  "translate_entry e v True = Inr x \<Longrightarrow> translate_entry e v False = Inr x"
  by (auto simp: translate_entry_def Let_def split: if_splits)

interpretation jtlb: translator lookup shutdown
  using translate_entry_load
  by unfold_locales (auto simp: lookup_outcome split: list.splits if_splits)

section \<open>Privilege\<close>

lemma user_never_direct: "user_segment v w \<noteq> Direct x c"
  by (simp add: user_segment_def)

lemma supervisor_never_direct: "supervisor_segment v w \<noteq> Direct x c"
  by (simp add: supervisor_segment_def Let_def)

lemma scast_nonneg: "x < 0x80000000 \<Longrightarrow> (scast (x :: u32) :: u64) = to_u64 x"
proof -
  assume "x < 0x80000000"
  then have "unat x < 2 ^ 31" by (simp add: word_less_nat_alt)
  then have "\<not> bit x n" if "n \<ge> 31" for n using that by (rule not_bit_of_lt)
  then show "(scast x :: u64) = to_u64 x"
    by (intro bit_word_eqI) (auto simp: bit_word_simps min_def)
qed

lemma user_mapped_range:
  assumes "user_segment v w = Mapped"
  shows "v < XSEG_SIZE"
proof (cases w)
  case True
  then show ?thesis using assms by (simp add: user_segment_def split: if_splits)
next
  case False
  then have c: "scast (to_u32 v) = v" "to_u32 v < 0x80000000"
    using assms by (simp_all add: user_segment_def is_compat_def split: if_splits)
  have "v = to_u64 (to_u32 v)" using c scast_nonneg[OF c(2)] by simp
  then have "unat v = unat (to_u64 (to_u32 v))" by (rule arg_cong)
  also have "\<dots> = unat (to_u32 v)" by (rule unat_ucast_up) simp
  finally have "unat v = unat (to_u32 v)" .
  then show ?thesis using c(2) by (simp add: XSEG_SIZE_def word_less_nat_alt)
qed

text \<open>Outside kernel mode, and without \<open>ERL\<close>, an access succeeds only through a matching TLB entry.\<close>

lemma unprivileged_mapped:
  assumes "a_mode ac \<noteq> Kernel" "\<not> a_erl ac" "fst (translate_via t v a s ac) = Inr x"
  shows "\<not> shutdown t \<and> (\<exists>i. matching t v a = [i]) \<and> segment_of v ac = Mapped"
proof -
  have "segment_of v ac \<noteq> Direct y c" for y c
    using assms(1,2) user_never_direct supervisor_never_direct
    by (cases "a_mode ac") (auto simp: segment_of_def)
  then have m: "segment_of v ac = Mapped"
    using assms(3) by (auto simp: translate_via_def translate_with_def split: segment.splits)
  then obtain y where "fst (lookup t v a s) = Inr y"
    using assms(3) by (auto simp: translate_via_def translate_with_def split: prod.splits sum.splits)
  then show ?thesis
    using m by (auto simp: lookup_outcome split: if_splits list.splits)
qed

section \<open>The unmapped kernel windows\<close>

lemma compat_window:
  assumes "p < 0x20000000"
  shows "compat_kernel_segment (0x80000000 + p) = Direct p CachedYes"
    "compat_kernel_segment (0xA0000000 + p) = Direct p CachedNo"
proof -
  have p: "unat p < 0x20000000" using assms by (simp add: word_less_nat_alt)
  then have u: "unat (0x80000000 + p) = 0x80000000 + unat p" "unat (0xA0000000 + p) = 0xA0000000 + unat p"
    by (simp_all add: unat_word_ariths)
  show "compat_kernel_segment (0x80000000 + p) = Direct p CachedYes"
    using p u by (simp add: compat_kernel_segment_def word_le_nat_alt)
  show "compat_kernel_segment (0xA0000000 + p) = Direct p CachedNo"
    using p u by (simp add: compat_kernel_segment_def word_le_nat_alt)
qed

lemma to_u32_scast: "to_u32 (scast (x :: u32) :: u64) = x"
  by (rule bit_word_eqI) (auto simp: bit_word_simps)

lemma scast_high:
  assumes "0x80000000 \<le> x"
  shows "0xFFFFFFFF80000000 \<le> (scast (x :: u32) :: u64)"
proof -
  have "bit x 31"
  proof (rule ccontr)
    assume "\<not> bit x 31"
    then have "x = x AND mask 31"
      by (intro bit_word_eqI) (auto simp: bit_word_simps less_Suc_eq numeral_eq_Suc) 
    then have "unat x < 2 ^ 31" using unat_and_mask_lt[of x 31] by metis
    then show False using assms by (simp add: word_le_nat_alt)
  qed
  then have e: "(scast x :: u64) = shl (mask 33) 31 OR (scast x AND mask 31)"
    by (intro bit_word_eqI) (auto simp: bit_word_simps min_def simp del: push_bit_mask_eq)
  have "(0xFFFFFFFF80000000 :: u64) = shl (mask 33) 31"
    by (simp add: mask_eq_exp_minus_1 push_bit_eq_mult)
  then show ?thesis
    using le_word_or2 [of "shl (mask 33) 31" "scast x AND mask 31 :: u64"] e by (simp only:)
qed

lemma high_kernel:
  assumes "0x80000000 \<le> x"
  shows "kernel_segment (scast (x :: u32)) w = compat_kernel_segment x"
proof -
  have h: "0xFFFFFFFF80000000 \<le> (scast x :: u64)" using assms by (rule scast_high)
  then have "\<not> (scast x :: u64) < 0x0000010000000000" "\<not> (scast x :: u64) < 0x4000010000000000"
    "\<not> (scast x :: u64) < 0xC00000FF80000000" "\<not> (scast x :: u64) < 0xC000000000000000"
    by (simp_all add: word_less_nat_alt word_le_nat_alt)
  then show ?thesis
    using h by (cases w) (simp_all add: kernel_segment_def is_compat_def to_u32_scast)
qed

lemma kseg_segment:
  assumes "p < 0x20000000" "a_mode ac = Kernel" "\<not> a_erl ac"
  shows "segment_of (scast (0x80000000 + p :: u32)) ac = Direct p CachedYes"
    "segment_of (scast (0xA0000000 + p :: u32)) ac = Direct p CachedNo"
proof -
  have p: "unat p < 0x20000000" using assms by (simp add: word_less_nat_alt)
  have "0x80000000 \<le> 0x80000000 + p" "0x80000000 \<le> 0xA0000000 + p"
    using p by (simp_all add: word_le_nat_alt unat_word_ariths)
  then show "segment_of (scast (0x80000000 + p :: u32)) ac = Direct p CachedYes"
    "segment_of (scast (0xA0000000 + p :: u32)) ac = Direct p CachedNo"
    using assms by (simp_all add: segment_of_def high_kernel compat_window)
qed

section \<open>Properties\<close>

text \<open>Outside kernel mode, without \<open>ERL\<close>, a store translates only through the single TLB entry that
  matches, in user mode only below \<open>XSEG_SIZE\<close>, and leaves the TLB as it was; the load of the same
  address then translates to the same place.\<close>

lemma unprivileged_translation:
  assumes "a_mode ac \<noteq> Kernel" and "\<not> a_erl ac" and "fst (translate_via t v a True ac) = Inr x"
  shows "\<not> shutdown t \<and> (\<exists>i. matching t v a = [i]) \<and> snd (translate_via t v a True ac) = t \<and>
    fst (translate_via t v a False ac) = Inr x \<and> (a_mode ac = User \<longrightarrow> v < XSEG_SIZE)"
proof -
  have m: "\<not> shutdown t \<and> (\<exists>i. matching t v a = [i]) \<and> segment_of v ac = Mapped"
    using assms by (rule unprivileged_mapped)
  moreover have "snd (translate_via t v a True ac) = t"
    using assms(3) jtlb.success_pure unfolding translate_via_def by blast
  moreover have "fst (translate_via t v a False ac) = Inr x"
    using assms(3) jtlb.store_implies_load unfolding translate_via_def by blast
  moreover have "a_mode ac = User \<longrightarrow> v < XSEG_SIZE"
    using m user_mapped_range assms(2) by (auto simp: segment_of_def)
  ultimately show ?thesis by blast
qed

lemma unprivileged_translation_witness:
  "\<exists>t x. fst (translate_via t 0x1234 0 True \<lparr>a_mode = User, a_wide = False, a_erl = False\<rparr>) = Inr x \<and>
     (\<exists>i. matching t 0x1234 0 = [i])"
proof -
  let ?pg = "\<lparr>pfn = 7, pc_attr = 3, dirty = True, valid = True\<rparr>"
  let ?t = "tlb_new\<lparr>entries := [blank_entry\<lparr>lo0 := ?pg, lo1 := ?pg\<rparr>]\<rparr>"
  let ?ac = "\<lparr>a_mode = User, a_wide = False, a_erl = False\<rparr>"
  have "fst (translate_via ?t 0x1234 0 True ?ac) = Inr \<lparr>p_addr = 0x7234, p_cached = CachedYes\<rparr>"
    by code_simp
  then show ?thesis using unprivileged_translation [of ?ac ?t "0x1234" 0] by auto
qed

text \<open>In kernel mode the two unmapped windows see the same 512 MiB of physical memory, through the
  cache below \<open>0x20000000\<close> and around it above, at either addressing width, without the TLB and
  even after it has shut down.\<close>

lemma kseg_windows_alias:
  assumes "p < 0x20000000" and "a_mode ac = Kernel" and "\<not> a_erl ac"
  shows "translate_via t (scast (0x80000000 + p :: u32)) a s ac = (Inr \<lparr>p_addr = p, p_cached = CachedYes\<rparr>, t) \<and>
    translate_via t (scast (0xA0000000 + p :: u32)) a s ac = (Inr \<lparr>p_addr = p, p_cached = CachedNo\<rparr>, t)"
  using kseg_segment [OF assms] by (simp add: translate_via_def translate_with_def)

theorem kseg_windows_alias_witness:
  "fst (translate_via tlb_new (scast (0xA0000000 + 0x04600000 :: u32)) 0 True access_kernel) =
     Inr \<lparr>p_addr = 0x04600000, p_cached = CachedNo\<rparr>"
proof -
  have "(0x04600000 :: u32) < 0x20000000" "a_mode access_kernel = Kernel" "\<not> a_erl access_kernel"
    by (simp_all add: access_kernel_def)
  from kseg_windows_alias [OF this, of tlb_new 0 True] show ?thesis by (simp only: fst_conv)
qed

end
