(* ===== verification/Except.thy ===== *)
theory Except
  imports Tlb
begin

text \<open>
  Exception entry and return (\<^verbatim>\<open>exception.rs\<close>): the exception codes and vectors, the dispatch
  that saves the interrupted state in the COP0 registers, the non-maskable interrupt, and
  \<open>ERET\<close>. The functions take and return the COP0 state of \<open>Cop0\<close>.
\<close>

section \<open>Codes and vectors\<close>

definition EXC_INT :: u64 where "EXC_INT = 0"
definition EXC_MOD :: u64 where "EXC_MOD = 1"
definition EXC_TLBL :: u64 where "EXC_TLBL = 2"
definition EXC_TLBS :: u64 where "EXC_TLBS = 3"
definition EXC_ADEL :: u64 where "EXC_ADEL = 4"
definition EXC_ADES :: u64 where "EXC_ADES = 5"
definition EXC_SYS :: u64 where "EXC_SYS = 8"
definition EXC_BP :: u64 where "EXC_BP = 9"
definition EXC_RI :: u64 where "EXC_RI = 10"
definition EXC_CPU :: u64 where "EXC_CPU = 11"
definition EXC_OV :: u64 where "EXC_OV = 12"
definition EXC_TR :: u64 where "EXC_TR = 13"
definition EXC_FPE :: u64 where "EXC_FPE = 15"

lemmas exc_codes = EXC_INT_def EXC_MOD_def EXC_TLBL_def EXC_TLBS_def EXC_ADEL_def EXC_ADES_def
  EXC_SYS_def EXC_BP_def EXC_RI_def EXC_CPU_def EXC_OV_def EXC_TR_def EXC_FPE_def

datatype vector_kind = VkGeneral | VkTlbRefill | VkXtlbRefill | VkReset

definition STATUS_EXL :: u64 where "STATUS_EXL = shl 1 1"
definition STATUS_ERL :: u64 where "STATUS_ERL = shl 1 2"
definition STATUS_SR :: u64 where "STATUS_SR = shl 1 20"
definition STATUS_TS :: u64 where "STATUS_TS = shl 1 21"
definition STATUS_BEV :: u64 where "STATUS_BEV = shl 1 22"

definition vector :: "u64 \<Rightarrow> vector_kind \<Rightarrow> u64" where
  "vector status kind =
     (if kind = VkReset then 0xFFFFFFFFBFC00000
      else let bev = (status AND STATUS_BEV \<noteq> 0);
               exl = (status AND STATUS_EXL \<noteq> 0);
               base = (if bev then 0xFFFFFFFFBFC00200 else 0xFFFFFFFF80000000);
               offset = (if kind = VkTlbRefill \<and> \<not> exl then 0x000
                         else if kind = VkXtlbRefill \<and> \<not> exl then 0x080
                         else 0x180)
           in base + offset)"

fun exc_code_of :: "exn \<Rightarrow> u64" where
  "exc_code_of Nmi = EXC_INT"
| "exc_code_of Interrupt = EXC_INT"
| "exc_code_of (AddressError st) = (if st then EXC_ADES else EXC_ADEL)"
| "exc_code_of Overflow = EXC_OV"
| "exc_code_of exn.Syscall = EXC_SYS"
| "exc_code_of Breakpoint = EXC_BP"
| "exc_code_of Trap = EXC_TR"
| "exc_code_of ReservedInstruction = EXC_RI"
| "exc_code_of (CoprocessorReserved u) = EXC_RI"
| "exc_code_of (TlbRefill st w) = (if st then EXC_TLBS else EXC_TLBL)"
| "exc_code_of (TlbInvalid st) = (if st then EXC_TLBS else EXC_TLBL)"
| "exc_code_of TlbModified = EXC_MOD"
| "exc_code_of (CoprocessorUnusable u) = EXC_CPU"
| "exc_code_of FloatingPoint = EXC_FPE"

fun vector_kind_of :: "exn \<Rightarrow> vector_kind" where
  "vector_kind_of Nmi = VkReset"
| "vector_kind_of (TlbRefill st w) = (if w then VkXtlbRefill else VkTlbRefill)"
| "vector_kind_of _ = VkGeneral"

fun writes_bad_vaddr :: "exn \<Rightarrow> bool" where
  "writes_bad_vaddr (AddressError st) = True"
| "writes_bad_vaddr (TlbRefill st w) = True"
| "writes_bad_vaddr (TlbInvalid st) = True"
| "writes_bad_vaddr TlbModified = True"
| "writes_bad_vaddr _ = False"

section \<open>Entry\<close>

record dispatched =
  dp_vector :: u64
  dp_stall :: u32

definition EPILOGUE_STALL :: u32 where "EPILOGUE_STALL = 2"

abbreviation r_CONTEXT :: u8 where "r_CONTEXT \<equiv> 4"
abbreviation r_BAD_VADDR :: u8 where "r_BAD_VADDR \<equiv> 8"
abbreviation r_ENTRY_HI :: u8 where "r_ENTRY_HI \<equiv> 10"
abbreviation r_STATUS :: u8 where "r_STATUS \<equiv> 12"
abbreviation r_CAUSE :: u8 where "r_CAUSE \<equiv> 13"
abbreviation r_EPC :: u8 where "r_EPC \<equiv> 14"
abbreviation r_XCONTEXT :: u8 where "r_XCONTEXT \<equiv> 20"
abbreviation r_ERROR_EPC :: u8 where "r_ERROR_EPC \<equiv> 30"

definition nmi :: "u64 \<Rightarrow> cop0 \<Rightarrow> dispatched \<times> cop0" where
  "nmi pc c =
     (let c = set_hardware r_ERROR_EPC pc c;
          status = cop0_read c r_STATUS;
          c = set_hardware r_STATUS
                ((((status AND NOT STATUS_TS) OR STATUS_ERL) OR STATUS_SR) OR STATUS_BEV) c
      in (\<lparr>dp_vector = vector status VkReset, dp_stall = EPILOGUE_STALL\<rparr>, c))"

definition cop_unit_of :: "exn \<Rightarrow> u64" where
  "cop_unit_of e = (case e of CoprocessorUnusable u \<Rightarrow> to_u64 u AND 3
     | CoprocessorReserved u \<Rightarrow> to_u64 u AND 3 | _ \<Rightarrow> 0)"

definition save_bad_vaddr :: "u64 \<Rightarrow> cop0 \<Rightarrow> cop0" where
  "save_bad_vaddr bad c =
     (let c = set_hardware r_BAD_VADDR bad c;
          ctx = cop0_read c r_CONTEXT;
          c = set_hardware r_CONTEXT
                ((ctx AND 0xFFFFFFFFFF800000) OR shl (shr bad 13 AND 0x7FFFF) 4) c;
          xctx = cop0_read c r_XCONTEXT
      in set_hardware r_XCONTEXT
           ((xctx AND 0xFFFFFFFE00000000) OR shl (shr bad 62 AND 3) 31
             OR shl (shr bad 13 AND 0x7FFFFFF) 4) c)"

definition save_entry_hi :: "u64 \<Rightarrow> cop0 \<Rightarrow> cop0" where
  "save_entry_hi bad c =
     (let v = bad AND VPN2_MASK;
          h = cop0_read c r_ENTRY_HI;
          reg = bad AND 0xC000000000000000
      in set_hardware r_ENTRY_HI ((h AND ASID_MASK) OR v OR reg) c)"

definition dispatch :: "exn \<Rightarrow> u64 \<Rightarrow> bool \<Rightarrow> u64 \<Rightarrow> cop0 \<Rightarrow> dispatched \<times> cop0" where
  "dispatch e pc in_delay_slot bad c =
     (if e = Nmi then nmi pc c
      else
        let status = cop0_read c r_STATUS;
            exl_was_set = (status AND STATUS_EXL \<noteq> 0);
            cause = cop0_read c r_CAUSE;
            new_cause = (cause AND NOT 0x7C) OR shl (exc_code_of e) 2;
            new_cause = (new_cause AND NOT 0x30000000) OR shl (cop_unit_of e) 28;
            new_cause = (if exl_was_set then new_cause
              else if in_delay_slot then new_cause OR shl 1 31
              else new_cause AND NOT (shl 1 31));
            c = (if exl_was_set then c
                 else set_hardware r_EPC (if in_delay_slot then pc - 4 else pc) c);
            c = set_hardware r_CAUSE new_cause c;
            c = (if writes_bad_vaddr e then save_bad_vaddr bad c else c);
            c = (if writes_bad_vaddr e then save_entry_hi bad c else c);
            c = set_hardware r_STATUS (status OR STATUS_EXL) c
        in (\<lparr>dp_vector = vector status (vector_kind_of e), dp_stall = EPILOGUE_STALL\<rparr>, c))"

section \<open>Return\<close>

definition eret :: "cop0 \<Rightarrow> u64 \<times> cop0" where
  "eret c =
     (let status = cop0_read c r_STATUS
      in if status AND STATUS_ERL \<noteq> 0 then
           let c = set_hardware r_STATUS (status AND NOT STATUS_ERL) c
           in (cop0_read c r_ERROR_EPC, c)
         else
           let c = set_hardware r_STATUS (status AND NOT STATUS_EXL) c
           in (cop0_read c r_EPC, c))"

section \<open>Reading the registers a dispatch writes\<close>

lemma exn_indices: "c0_index r_CONTEXT = 4" "c0_index r_BAD_VADDR = 8" "c0_index r_ENTRY_HI = 10"
  "c0_index r_STATUS = 12" "c0_index r_CAUSE = 13" "c0_index r_EPC = 14" "c0_index r_XCONTEXT = 20"
  "c0_index r_ERROR_EPC = 30"
  by (simp_all add: c0_index_def)

lemma exn_arch: "ARCH_MASK ! 8 = - 1" "ARCH_MASK ! 14 = - 1" "ARCH_MASK ! 30 = - 1"
  by (simp_all add: ARCH_MASK_def)

lemmas exn_reads = hardware_read set_hardware_wf exn_indices is_unused_def exn_arch

lemma save_wf: "cop0_wf c \<Longrightarrow> cop0_wf (save_bad_vaddr b c)" "cop0_wf c \<Longrightarrow> cop0_wf (save_entry_hi b c)"
  by (simp_all add: save_bad_vaddr_def save_entry_hi_def Let_def set_hardware_wf)

lemma save_reads:
  assumes "cop0_wf c"
  shows "cop0_read (save_bad_vaddr b c) r_STATUS = cop0_read c r_STATUS"
    "cop0_read (save_bad_vaddr b c) r_CAUSE = cop0_read c r_CAUSE"
    "cop0_read (save_bad_vaddr b c) r_EPC = cop0_read c r_EPC"
    "cop0_read (save_bad_vaddr b c) r_ERROR_EPC = cop0_read c r_ERROR_EPC"
    "cop0_read (save_bad_vaddr b c) r_BAD_VADDR = b"
    "cop0_read (save_entry_hi b c) r_STATUS = cop0_read c r_STATUS"
    "cop0_read (save_entry_hi b c) r_CAUSE = cop0_read c r_CAUSE"
    "cop0_read (save_entry_hi b c) r_EPC = cop0_read c r_EPC"
    "cop0_read (save_entry_hi b c) r_ERROR_EPC = cop0_read c r_ERROR_EPC"
    "cop0_read (save_entry_hi b c) r_BAD_VADDR = cop0_read c r_BAD_VADDR"
  using assms by (simp_all add: save_bad_vaddr_def save_entry_hi_def Let_def exn_reads)

lemma status_arch: "n < 19 \<Longrightarrow> bit (ARCH_MASK ! 12) n"
proof -
  have "\<forall>n \<in> set [0..<19]. bit (ARCH_MASK ! 12) n" by code_simp
  then show "n < 19 \<Longrightarrow> ?thesis" by simp
qed

lemma cause_arch: "ARCH_MASK ! 13 = shl (mask 5) 2 OR shl (mask 8) 8 OR shl (mask 2) 28 OR shl 1 31"
  by (simp add: ARCH_MASK_def mask_eq_exp_minus_1 push_bit_eq_mult)

lemma status_read_arch:
  assumes "cop0_wf c"
  shows "cop0_read c r_STATUS AND ARCH_MASK ! 12 = cop0_read c r_STATUS"
  using assms arch_read[of c 12] by (simp add: plain_read exn_indices is_unused_def)

lemma status_or_arch:
  assumes "s AND ARCH_MASK ! 12 = s" "n < 19"
  shows "(s OR shl 1 n) AND ARCH_MASK ! 12 = s OR shl 1 n"
proof -
  have "shl 1 n AND ARCH_MASK ! 12 = shl 1 n"
    using status_arch[OF assms(2)] by (intro bit_word_eqI) (simp only: bit_and_iff bit_shl_1, auto)
  then show ?thesis using assms(1) by (simp add: bit.conj_disj_distrib2)
qed

lemma status_and_arch:
  assumes "s AND ARCH_MASK ! 12 = s"
  shows "(s AND m) AND ARCH_MASK ! 12 = s AND m"
  by (metis assms and.assoc and.commute)

lemma dispatch_wf: "cop0_wf c \<Longrightarrow> cop0_wf (snd (dispatch e pc ds bad c))"
  by (simp add: dispatch_def nmi_def Let_def save_wf set_hardware_wf)

lemma eret_wf: "cop0_wf c \<Longrightarrow> cop0_wf (snd (eret c))"
  by (simp add: eret_def Let_def set_hardware_wf)

lemma dispatch_status:
  assumes "cop0_wf c" "e \<noteq> Nmi"
  shows "cop0_read (snd (dispatch e pc ds bad c)) r_STATUS = cop0_read c r_STATUS OR STATUS_EXL"
  using assms status_or_arch[OF status_read_arch[OF assms(1)], of 1]
  by (simp add: dispatch_def Let_def exn_reads save_wf STATUS_EXL_def)

lemma dispatch_epc:
  assumes "cop0_wf c" "e \<noteq> Nmi"
  shows "cop0_read (snd (dispatch e pc ds bad c)) r_EPC =
    (if bit (cop0_read c r_STATUS) 1 then cop0_read c r_EPC else if ds then pc - 4 else pc)"
  using assms and_shl_1[of "cop0_read c r_STATUS" 1]
  by (auto simp: dispatch_def Let_def exn_reads save_wf save_reads STATUS_EXL_def)

lemma dispatch_bad_vaddr:
  assumes "cop0_wf c" "e \<noteq> Nmi"
  shows "cop0_read (snd (dispatch e pc ds bad c)) r_BAD_VADDR =
    (if writes_bad_vaddr e then bad else cop0_read c r_BAD_VADDR)"
  using assms by (auto simp: dispatch_def Let_def exn_reads save_wf save_reads)

definition new_cause_of :: "exn \<Rightarrow> bool \<Rightarrow> u64 \<Rightarrow> u64 \<Rightarrow> u64" where
  "new_cause_of e ds status cause =
     (let n1 = (cause AND NOT 0x7C) OR shl (exc_code_of e) 2;
          n2 = (n1 AND NOT 0x30000000) OR shl (cop_unit_of e) 28
      in if bit status 1 then n2 else if ds then n2 OR shl 1 31 else n2 AND NOT (shl 1 31))"

lemma dispatch_cause:
  assumes "cop0_wf c" "e \<noteq> Nmi"
  shows "cop0_read (snd (dispatch e pc ds bad c)) r_CAUSE =
    new_cause_of e ds (cop0_read c r_STATUS) (cop0_read c r_CAUSE) AND ARCH_MASK ! 13"
  using assms and_shl_1[of "cop0_read c r_STATUS" 1]
  by (auto simp: dispatch_def Let_def exn_reads save_wf save_reads new_cause_of_def STATUS_EXL_def)

lemma exc_code_lt: "exc_code_of e < 32"
  by (cases e rule: exc_code_of.cases) (simp_all add: exc_codes)

lemma cop_unit_lt: "unat (cop_unit_of e) < 4"
  by (cases e) (simp_all add: cop_unit_of_def unat_and_3)

lemma cause_fields:
  fixes e :: exn and ds :: bool and s cause k :: u64
  defines "k \<equiv> new_cause_of e ds s cause AND ARCH_MASK ! 13"
  shows "shr k 2 AND 31 = exc_code_of e" "shr k 28 AND 3 = cop_unit_of e"
    "bit k 31 = (if bit s 1 then bit cause 31 else ds)"
    "shr k 8 AND 255 = shr cause 8 AND 255"
proof -
  have m: "(0x7C :: u64) = shl (mask 5) 2" "(0x30000000 :: u64) = shl (mask 2) 28" "(3 :: u64) = mask 2"
    by (simp_all add: mask_eq_exp_minus_1 push_bit_eq_mult)
  have b: "n \<ge> 5 \<Longrightarrow> \<not> bit (exc_code_of e) n" "n \<ge> 2 \<Longrightarrow> \<not> bit (cop_unit_of e) n" for n
    using not_bit_of_lt[of "exc_code_of e" 5] not_bit_of_lt[of "cop_unit_of e" 2] exc_code_lt[of e] cop_unit_lt[of e]
    by (simp_all add: word_less_nat_alt)
  define b31 :: u64 where "b31 = shl 1 31"
  have b31: "bit b31 n \<longleftrightarrow> n = 31" for n unfolding b31_def bit_shl_1 by auto
  note bits = bit_word_simps b b31
  show "shr k 2 AND 31 = exc_code_of e"
    unfolding mask_numerals k_def new_cause_of_def Let_def cause_arch m b31_def [symmetric]
    by (intro bit_word_eqI) (auto simp: bits simp del: push_bit_mask_eq intro: ccontr)
  show "shr k 28 AND 3 = cop_unit_of e"
    unfolding mask_numerals k_def new_cause_of_def Let_def cause_arch m b31_def [symmetric]
    by (intro bit_word_eqI) (auto simp: bits simp del: push_bit_mask_eq intro: ccontr)
  show "bit k 31 = (if bit s 1 then bit cause 31 else ds)"
    unfolding mask_numerals k_def new_cause_of_def Let_def cause_arch m b31_def [symmetric]
    by (auto simp: bits simp del: push_bit_mask_eq)
  show "shr k 8 AND 255 = shr cause 8 AND 255"
    unfolding mask_numerals k_def new_cause_of_def Let_def cause_arch m b31_def [symmetric]
    by (intro bit_word_eqI) (auto simp: bits simp del: push_bit_mask_eq)
qed

section \<open>Return\<close>

lemma eret_after_dispatch:
  fixes e :: exn and pc bad :: u64 and ds :: bool and c c' :: cop0
  assumes "cop0_wf c" "e \<noteq> Nmi" "\<not> bit (cop0_read c r_STATUS) 1" "\<not> bit (cop0_read c r_STATUS) 2"
  defines "c' \<equiv> snd (dispatch e pc ds bad c)"
  shows "fst (eret c') = (if ds then pc - 4 else pc)" "cop0_read (snd (eret c')) r_STATUS = cop0_read c r_STATUS"
proof -
  let ?s = "cop0_read c r_STATUS"
  have wf: "cop0_wf c'" using assms(1) by (simp add: c'_def dispatch_wf)
  have st: "cop0_read c' r_STATUS = ?s OR STATUS_EXL"
    unfolding c'_def by (rule dispatch_status[OF assms(1,2)])
  have "\<not> bit (?s OR STATUS_EXL) 2" using assms(4) unfolding STATUS_EXL_def by (simp only: bit_or_iff bit_shl_1) simp
  then have erl: "(?s OR STATUS_EXL) AND STATUS_ERL = 0"
    using and_shl_1[of "?s OR STATUS_EXL" 2] by (auto simp: STATUS_ERL_def)
  have restore: "(?s OR STATUS_EXL) AND NOT STATUS_EXL = ?s"
    unfolding STATUS_EXL_def using assms(3)
    by (intro bit_word_eqI) (simp only: bit_and_iff bit_or_iff bit_not_iff bit_shl_1 possible_bit_word, auto)
  show "fst (eret c') = (if ds then pc - 4 else pc)"
    using dispatch_epc[OF assms(1,2), of pc ds bad] assms(3) wf
    by (simp add: eret_def st erl Let_def exn_reads flip: c'_def)
  show "cop0_read (snd (eret c')) r_STATUS = ?s"
    using wf status_read_arch[OF assms(1)]
    by (simp add: eret_def st erl restore Let_def exn_reads)
qed

lemma masked_interrupts:
  assumes "cop0_wf c" "bit (cop0_read c r_STATUS) 1 \<or> bit (cop0_read c r_STATUS) 2"
  shows "\<not> interrupt_pending c"
proof -
  have "c0_regs c ! STATUS = cop0_read c r_STATUS"
    using plain_read[OF assms(1), of r_STATUS] by (simp add: exn_indices is_unused_def)
  then show ?thesis
    using assms(2) and_shl_1[of "cop0_read c r_STATUS" 1] and_shl_1[of "cop0_read c r_STATUS" 2]
    by (auto simp: interrupt_pending_def Let_def simp del: STATUS_def)
qed

lemma dispatch_sets_exl:
  assumes "cop0_wf c" "e \<noteq> Nmi"
  shows "bit (cop0_read (snd (dispatch e pc ds bad c)) r_STATUS) 1"
  unfolding dispatch_status[OF assms] STATUS_EXL_def by (simp only: bit_or_iff bit_shl_1) simp

lemma nested_dispatch_keeps_epc:
  assumes "cop0_wf c" "e \<noteq> Nmi" "e2 \<noteq> Nmi"
  shows "cop0_read (snd (dispatch e2 pc2 ds2 bad2 (snd (dispatch e pc ds bad c)))) r_EPC =
    cop0_read (snd (dispatch e pc ds bad c)) r_EPC"
  using dispatch_epc[OF dispatch_wf[OF assms(1)] assms(3)] dispatch_sets_exl[OF assms(1,2)] by simp

section \<open>Properties\<close>

text \<open>C28. Taking an exception records it in the COP0 registers: \<open>EXL\<close> is set and nothing else in
  \<open>Status\<close>; \<open>Cause\<close> holds the exception code and the coprocessor unit and keeps its pending
  bits; \<open>EPC\<close> and the branch-delay bit are written unless an exception was already being
  handled; \<open>BadVAddr\<close> is written exactly for the address and TLB exceptions. Interrupts are
  then masked.\<close>

theorem dispatch_records_exception:
  assumes "cop0_wf c" and "e \<noteq> Nmi"
  shows "let c' = snd (dispatch e pc ds bad c); s = cop0_read c r_STATUS;
      k = cop0_read c r_CAUSE; k' = cop0_read c' r_CAUSE in
    cop0_read c' r_STATUS = s OR STATUS_EXL \<and>
    shr k' 2 AND 31 = exc_code_of e \<and> shr k' 28 AND 3 = cop_unit_of e \<and>
    shr k' 8 AND 255 = shr k 8 AND 255 \<and>
    bit k' 31 = (if bit s 1 then bit k 31 else ds) \<and>
    cop0_read c' r_EPC = (if bit s 1 then cop0_read c r_EPC else if ds then pc - 4 else pc) \<and>
    cop0_read c' r_BAD_VADDR = (if writes_bad_vaddr e then bad else cop0_read c r_BAD_VADDR) \<and>
    \<not> interrupt_pending c'"
  unfolding Let_def dispatch_cause [OF assms] cause_fields
  using dispatch_status [OF assms] dispatch_epc [OF assms] dispatch_bad_vaddr [OF assms]
    masked_interrupts [OF dispatch_wf [OF assms(1)]] dispatch_sets_exl [OF assms]
  by simp

theorem dispatch_records_exception_witness:
  "cop0_read (snd (dispatch (TlbRefill True False) 0x1000 True 0xDEAD0 cop0_new)) r_EPC = 0xFFC"
proof -
  have "\<not> bit (cop0_read cop0_new r_STATUS) 1" by code_simp
  then show ?thesis
    using dispatch_records_exception [OF cop0_new_wf, of "TlbRefill True False" "0x1000" True "0xDEAD0"]
    by (simp add: Let_def)
qed

text \<open>C29. \<open>ERET\<close> undoes the exception: from a running state it resumes at the interrupted instruction,
  at the branch when that one sat in a delay slot, with \<open>Status\<close> restored; an exception taken
  inside the handler does not disturb where the outer one returns to.\<close>

theorem eret_resumes:
  assumes "cop0_wf c" and "e \<noteq> Nmi" and "e2 \<noteq> Nmi"
    and "\<not> bit (cop0_read c r_STATUS) 1" and "\<not> bit (cop0_read c r_STATUS) 2"
  shows "let c1 = snd (dispatch e pc ds bad c); c2 = snd (dispatch e2 pc2 ds2 bad2 c1) in
    fst (eret c1) = (if ds then pc - 4 else pc) \<and>
    cop0_read (snd (eret c1)) r_STATUS = cop0_read c r_STATUS \<and>
    cop0_read c2 r_EPC = (if ds then pc - 4 else pc)"
  using eret_after_dispatch [OF assms(1,2,4,5)] nested_dispatch_keeps_epc [OF assms(1-3)]
    dispatch_epc [OF assms(1,2)] assms(4) by (simp add: Let_def)

theorem eret_resumes_witness:
  "fst (eret (snd (dispatch exn.Syscall 0x80000400 False 0 (dmtc0 12 0 cop0_new)))) = 0x80000400"
proof -
  have "cop0_wf (dmtc0 12 0 cop0_new)" by (simp add: mtc0_wf cop0_new_wf)
  moreover have "cop0_read (dmtc0 12 0 cop0_new) r_STATUS = 0" by code_simp
  ultimately show ?thesis
    using eret_resumes [of "dmtc0 12 0 cop0_new" exn.Syscall exn.Syscall "0x80000400" False 0 0 False 0]
    by (simp add: Let_def)
qed

end
