(* ===== verification/Softfloat.thy ===== *)
theory Softfloat
  imports Complex_Main Prelude
begin

text \<open>
  IEEE-754 arithmetic in integers: \<^verbatim>\<open>rustyn64-cpu/src/softfloat.rs\<close>, with the flag set and the
  rounding modes it takes from \<^verbatim>\<open>fpu.rs\<close>. A significand is a \<open>u128\<close> as in the code, so a shift
  that lost bits or a sum that wrapped would show. Exponents are \<^verbatim>\<open>i32\<close> in the code and \<open>int\<close>
  here: they stay below \<open>2 ^ 13\<close> in magnitude in every operation.

  The theorems are in \<open>Softfloat_Correct\<close>: each operation returns the exact result rounded once.
\<close>

section \<open>Flags, modes and formats\<close>

record flags =
  invalid :: bool
  div_by_zero :: bool
  overflow :: bool
  underflow :: bool
  inexact :: bool

definition flags_none :: flags where
  "flags_none = \<lparr>invalid = False, div_by_zero = False, overflow = False, underflow = False,
     inexact = False\<rparr>"

definition flags_invalid :: flags where
  "flags_invalid = flags_none\<lparr>invalid := True\<rparr>"

datatype rounding = Nearest | TowardZero | TowardPlusInf | TowardMinusInf

record fmt_desc =
  fp :: nat
  fwidth :: nat
  fbias :: int

definition F32 :: fmt_desc where "F32 = \<lparr>fp = 24, fwidth = 32, fbias = 127\<rparr>"
definition F64 :: fmt_desc where "F64 = \<lparr>fp = 53, fwidth = 64, fbias = 1023\<rparr>"

definition man_bits :: "fmt_desc \<Rightarrow> nat" where
  "man_bits f = fp f - 1"

definition max_biased :: "fmt_desc \<Rightarrow> u32" where
  "max_biased f = shl 1 (fwidth f - fp f) - 1"

definition min_lsb_exp :: "fmt_desc \<Rightarrow> int" where
  "min_lsb_exp f = 1 - fbias f - int (man_bits f)"

definition max_finite :: "fmt_desc \<Rightarrow> u64" where
  "max_finite f = shl (to_u64 (max_biased f) - 1) (man_bits f) OR (shl 1 (man_bits f) - 1)"

definition infinity :: "fmt_desc \<Rightarrow> u64" where
  "infinity f = shl (to_u64 (max_biased f)) (man_bits f)"

definition default_nan :: "fmt_desc \<Rightarrow> u64" where
  "default_nan f =
     (let man = shl 1 (man_bits f) - 1;
          quiet = shl 1 (man_bits f - 1)
      in infinity f OR (man AND NOT quiet))"

section \<open>Unpacking\<close>

datatype fclass = ClZero | ClFinite | ClInf | ClNan

record unpacked =
  u_sign :: bool
  u_class :: fclass
  u_sig :: u128
  u_exp :: int
  u_snan :: bool

definition unpack :: "u64 \<Rightarrow> fmt_desc \<Rightarrow> unpacked" where
  "unpack b f =
     (let sign = (shr b (fwidth f - 1) AND 1 \<noteq> 0);
          man = to_u128 (b AND (shl 1 (man_bits f) - 1));
          biased = to_u32 (shr b (man_bits f) AND to_u64 (max_biased f))
      in if biased = 0 then
           \<lparr>u_sign = sign, u_class = (if man = 0 then ClZero else ClFinite), u_sig = man,
            u_exp = min_lsb_exp f, u_snan = False\<rparr>
         else if biased = max_biased f then
           \<lparr>u_sign = sign, u_class = (if man = 0 then ClInf else ClNan), u_sig = man,
            u_exp = 0, u_snan = (man AND shl 1 (man_bits f - 1) \<noteq> 0)\<rparr>
         else
           \<lparr>u_sign = sign, u_class = ClFinite, u_sig = man OR shl 1 (man_bits f),
            u_exp = sint biased - fbias f - int (man_bits f), u_snan = False\<rparr>)"

section \<open>Results\<close>

record rounded =
  r_bits :: u64
  r_flags :: flags

definition sign_bit :: "bool \<Rightarrow> fmt_desc \<Rightarrow> u64" where
  "sign_bit s f = shl (b2w s) (fwidth f - 1)"

definition zero_of :: "bool \<Rightarrow> fmt_desc \<Rightarrow> rounded" where
  "zero_of s f = \<lparr>r_bits = sign_bit s f, r_flags = flags_none\<rparr>"

definition inf_of :: "bool \<Rightarrow> fmt_desc \<Rightarrow> rounded" where
  "inf_of s f = \<lparr>r_bits = sign_bit s f OR infinity f, r_flags = flags_none\<rparr>"

definition invalid_of :: "fmt_desc \<Rightarrow> rounded" where
  "invalid_of f = \<lparr>r_bits = default_nan f, r_flags = flags_invalid\<rparr>"

definition overflowed :: "bool \<Rightarrow> fmt_desc \<Rightarrow> rounding \<Rightarrow> rounded" where
  "overflowed s f m =
     (let to_inf = (case m of Nearest \<Rightarrow> True | TowardZero \<Rightarrow> False
            | TowardPlusInf \<Rightarrow> \<not> s | TowardMinusInf \<Rightarrow> s)
      in \<lparr>r_bits = sign_bit s f OR (if to_inf then infinity f else max_finite f),
          r_flags = flags_none\<lparr>overflow := True, inexact := True\<rparr>\<rparr>)"

text \<open>\<^verbatim>\<open>round_pack\<close> in its three steps: the kept significand with its exponent and whether a bit
  was discarded, the carry into the next binade, and the encoding.\<close>

definition round_increment :: "rounding \<Rightarrow> bool \<Rightarrow> bool \<Rightarrow> bool \<Rightarrow> bool \<Rightarrow> bool \<Rightarrow> bool" where
  "round_increment m sign odd_kept round_bit sticky_all inex =
     (case m of
        Nearest \<Rightarrow> round_bit \<and> (sticky_all \<or> odd_kept)
      | TowardZero \<Rightarrow> False
      | TowardPlusInf \<Rightarrow> inex \<and> \<not> sign
      | TowardMinusInf \<Rightarrow> inex \<and> sign)"

definition round_kept ::
  "bool \<Rightarrow> u128 \<Rightarrow> int \<Rightarrow> bool \<Rightarrow> int \<Rightarrow> rounding \<Rightarrow> u128 \<times> int \<times> bool" where
  "round_kept sign sig e sticky shift m =
     (if shift \<le> 0 then (shl sig (nat (- shift)), e + shift, sticky)
      else
        let sh = nat shift;
            (kept, discarded_nonzero) =
              (if sh \<ge> 128 then (0, sig \<noteq> 0)
               else (shr sig sh, sig AND (shl 1 sh - 1) \<noteq> 0));
            round_bit = (if sh > 128 then False else shr sig (sh - 1) AND 1 \<noteq> 0);
            lower = (if sh \<le> 1 then False
                     else if sh > 128 then sig \<noteq> 0
                     else sig AND (shl 1 (sh - 1) - 1) \<noteq> 0);
            sticky_all = (lower \<or> sticky);
            inex = (discarded_nonzero \<or> sticky);
            increment = round_increment m sign (kept AND 1 \<noteq> 0) round_bit sticky_all inex
        in (kept + b2w increment, e + shift, inex))"

definition encode_kept ::
  "bool \<Rightarrow> u128 \<Rightarrow> int \<Rightarrow> bool \<Rightarrow> bool \<Rightarrow> fmt_desc \<Rightarrow> rounding \<Rightarrow> rounded" where
  "encode_kept sign kept exp_f tiny inex f m =
     (let fl = flags_none\<lparr>inexact := inex, underflow := tiny \<and> inex\<rparr>
      in if kept = 0 then \<lparr>r_bits = sign_bit sign f, r_flags = fl\<rparr>
         else if shr kept (fp f - 1) \<noteq> 0 then
           let biased = exp_f + int (fp f) - 1 + fbias f
           in if biased \<ge> sint (max_biased f) then overflowed sign f m
              else
                let man = to_u64 kept AND (shl 1 (man_bits f) - 1)
                in \<lparr>r_bits = sign_bit sign f OR shl (word_of_int biased) (man_bits f) OR man,
                    r_flags = fl\<rparr>
         else \<lparr>r_bits = sign_bit sign f OR to_u64 kept, r_flags = fl\<rparr>)"

definition round_pack ::
  "bool \<Rightarrow> u128 \<Rightarrow> int \<Rightarrow> bool \<Rightarrow> fmt_desc \<Rightarrow> rounding \<Rightarrow> rounded" where
  "round_pack sign sig e sticky f m =
     (if sig = 0 then zero_of sign f
      else
        let used = 128 - int (leading_zeros sig);
            to_p = used - int (fp f);
            to_min = min_lsb_exp f - e;
            shift = (if to_p > to_min then to_p else to_min);
            tiny = (to_min > to_p);
            (kept, exp_f, inex) = round_kept sign sig e sticky shift m;
            (kept, exp_f) = (if shr kept (fp f) \<noteq> 0 then (shr kept 1, exp_f + 1) else (kept, exp_f))
        in encode_kept sign kept exp_f tiny inex f m)"

definition nan_result :: "unpacked \<Rightarrow> unpacked \<Rightarrow> fmt_desc \<Rightarrow> rounded" where
  "nan_result a b f =
     \<lparr>r_bits = default_nan f, r_flags = flags_none\<lparr>invalid := u_snan a \<or> u_snan b\<rparr>\<rparr>"

section \<open>Operations\<close>

text \<open>The 64-bit integer is signed; its magnitude is \<^verbatim>\<open>unsigned_abs\<close>.\<close>

definition from_int :: "u64 \<Rightarrow> fmt_desc \<Rightarrow> rounding \<Rightarrow> rounded" where
  "from_int v f m =
     (if v = 0 then zero_of False f
      else round_pack (sint v < 0) (word_of_int \<bar>sint v\<bar>) 0 False f m)"

definition GUARD :: int where "GUARD = 64"

definition align_low :: "u128 \<Rightarrow> int \<Rightarrow> u128 \<times> bool" where
  "align_low sig diff =
     (if diff \<le> GUARD then (shl sig (nat (GUARD - diff)), False)
      else
        let sh = nat (diff - GUARD)
        in if sh \<ge> 128 then (0, True)
           else (shr sig sh, sig AND (shl 1 sh - 1) \<noteq> 0))"

definition add_finite :: "unpacked \<Rightarrow> unpacked \<Rightarrow> fmt_desc \<Rightarrow> rounding \<Rightarrow> rounded" where
  "add_finite a b f m =
     (let (hi, lo) = (if u_exp a \<ge> u_exp b then (a, b) else (b, a));
          diff = u_exp hi - u_exp lo;
          target_exp = u_exp hi - GUARD;
          hi_scaled = shl (u_sig hi) (nat GUARD);
          (lo_scaled, sticky) = align_low (u_sig lo) diff
      in if u_sign hi = u_sign lo
         then round_pack (u_sign hi) (hi_scaled + lo_scaled) target_exp sticky f m
         else if sticky then round_pack (u_sign hi) (hi_scaled - lo_scaled - 1) target_exp True f m
         else if hi_scaled = lo_scaled then zero_of (m = TowardMinusInf) f
         else
           let (sign, mag) =
             (if hi_scaled > lo_scaled then (u_sign hi, hi_scaled - lo_scaled)
              else (u_sign lo, lo_scaled - hi_scaled))
           in round_pack sign mag target_exp False f m)"

definition add_unpacked :: "unpacked \<Rightarrow> unpacked \<Rightarrow> fmt_desc \<Rightarrow> rounding \<Rightarrow> rounded" where
  "add_unpacked a b f m =
     (if u_class a = ClNan \<or> u_class b = ClNan then nan_result a b f
      else if u_class a = ClInf \<or> u_class b = ClInf then
        (if u_class a = ClInf \<and> u_class b = ClInf \<and> u_sign a \<noteq> u_sign b then invalid_of f
         else if u_class a = ClInf then inf_of (u_sign a) f
         else inf_of (u_sign b) f)
      else if u_class a = ClZero \<and> u_class b = ClZero then
        zero_of (if u_sign a = u_sign b then u_sign a else m = TowardMinusInf) f
      else if u_class a = ClZero then round_pack (u_sign b) (u_sig b) (u_exp b) False f m
      else if u_class b = ClZero then round_pack (u_sign a) (u_sig a) (u_exp a) False f m
      else add_finite a b f m)"

definition sf_add :: "u64 \<Rightarrow> u64 \<Rightarrow> fmt_desc \<Rightarrow> rounding \<Rightarrow> rounded" where
  "sf_add a b f m = add_unpacked (unpack a f) (unpack b f) f m"

definition sf_sub :: "u64 \<Rightarrow> u64 \<Rightarrow> fmt_desc \<Rightarrow> rounding \<Rightarrow> rounded" where
  "sf_sub a b f m =
     (let ub = unpack b f
      in add_unpacked (unpack a f) (ub\<lparr>u_sign := \<not> u_sign ub\<rparr>) f m)"

definition sf_mul :: "u64 \<Rightarrow> u64 \<Rightarrow> fmt_desc \<Rightarrow> rounding \<Rightarrow> rounded" where
  "sf_mul ab bb f m =
     (let a = unpack ab f; b = unpack bb f; sign = (u_sign a \<noteq> u_sign b)
      in if u_class a = ClNan \<or> u_class b = ClNan then nan_result a b f
         else if u_class a = ClInf \<or> u_class b = ClInf then
           (if u_class a = ClZero \<or> u_class b = ClZero then invalid_of f else inf_of sign f)
         else if u_class a = ClZero \<or> u_class b = ClZero then zero_of sign f
         else round_pack sign (u_sig a * u_sig b) (u_exp a + u_exp b) False f m)"

definition norm_to_63 :: "u128 \<Rightarrow> int \<Rightarrow> u128 \<times> int" where
  "norm_to_63 sig e =
     (let sh = int (leading_zeros sig) - 64 in (shl sig (nat sh), e - sh))"

definition div_finite :: "bool \<Rightarrow> unpacked \<Rightarrow> unpacked \<Rightarrow> fmt_desc \<Rightarrow> rounding \<Rightarrow> rounded" where
  "div_finite sign a b f m =
     (let (na, nae) = norm_to_63 (u_sig a) (u_exp a);
          (nb, nbe) = norm_to_63 (u_sig b) (u_exp b);
          num = shl na 64
      in round_pack sign (num div nb) (nae - nbe - 64) (num mod nb \<noteq> 0) f m)"

definition sf_div :: "u64 \<Rightarrow> u64 \<Rightarrow> fmt_desc \<Rightarrow> rounding \<Rightarrow> rounded" where
  "sf_div ab bb f m =
     (let a = unpack ab f; b = unpack bb f; sign = (u_sign a \<noteq> u_sign b)
      in if u_class a = ClNan \<or> u_class b = ClNan then nan_result a b f
         else case (u_class a, u_class b) of
           (ClInf, ClInf) \<Rightarrow> invalid_of f
         | (ClZero, ClZero) \<Rightarrow> invalid_of f
         | (ClInf, _) \<Rightarrow> inf_of sign f
         | (_, ClInf) \<Rightarrow> zero_of sign f
         | (ClZero, _) \<Rightarrow> zero_of sign f
         | (_, ClZero) \<Rightarrow> \<lparr>r_bits = r_bits (inf_of sign f), r_flags = flags_none\<lparr>div_by_zero := True\<rparr>\<rparr>
         | _ \<Rightarrow> div_finite sign a b f m)"

definition sqrt_finite :: "unpacked \<Rightarrow> fmt_desc \<Rightarrow> rounding \<Rightarrow> rounded" where
  "sqrt_finite a f m =
     (let (m0, e0) = norm_to_63 (u_sig a) (u_exp a);
          (m1, e1) = (if odd e0 then (shl m0 1, e0 - 1) else (m0, e0));
          n = shl m1 62;
          q = (of_nat (isqrt (unat n)) :: u128)
      in round_pack False q (e1 div 2 - 31) (q * q \<noteq> n) f m)"

definition sf_sqrt :: "u64 \<Rightarrow> fmt_desc \<Rightarrow> rounding \<Rightarrow> rounded" where
  "sf_sqrt b f m =
     (let a = unpack b f
      in case u_class a of
           ClNan \<Rightarrow> \<lparr>r_bits = default_nan f, r_flags = flags_none\<lparr>invalid := u_snan a\<rparr>\<rparr>
         | ClZero \<Rightarrow> zero_of (u_sign a) f
         | ClInf \<Rightarrow> (if u_sign a then invalid_of f else inf_of False f)
         | ClFinite \<Rightarrow> (if u_sign a then invalid_of f else sqrt_finite a f m))"

definition sf_convert :: "u64 \<Rightarrow> fmt_desc \<Rightarrow> fmt_desc \<Rightarrow> rounding \<Rightarrow> rounded" where
  "sf_convert b from_f to_f m =
     (let a = unpack b from_f
      in case u_class a of
           ClNan \<Rightarrow> \<lparr>r_bits = default_nan to_f, r_flags = flags_none\<lparr>invalid := u_snan a\<rparr>\<rparr>
         | ClInf \<Rightarrow> inf_of (u_sign a) to_f
         | ClZero \<Rightarrow> zero_of (u_sign a) to_f
         | ClFinite \<Rightarrow> round_pack (u_sign a) (u_sig a) (u_exp a) False to_f m)"

end
