(* ===== verification/Softfloat_Correct.thy ===== *)
theory Softfloat_Correct
  imports Softfloat
begin

text \<open>
  The rounding step of \<open>Softfloat\<close> against real arithmetic. \<open>fround\<close> rounds a real number
  into a format, \<open>fval\<close> is the value of a bit pattern by the IEEE layout; \<open>round_pack_rounds\<close>
  shows that a significand with its exponent and sticky bit is packed into the rounding of the
  value it stands for, with the right flags.
\<close>

section \<open>Specification\<close>

definition round_even :: "real \<Rightarrow> int" where
  "round_even q =
     (let n = \<lfloor>q\<rfloor>; d = q - of_int n
      in if d < 1 / 2 then n else if d > 1 / 2 then n + 1 else if even n then n else n + 1)"

definition round_mag :: "rounding \<Rightarrow> bool \<Rightarrow> real \<Rightarrow> int" where
  "round_mag m s q =
     (case m of
        Nearest \<Rightarrow> round_even q
      | TowardZero \<Rightarrow> \<lfloor>q\<rfloor>
      | TowardPlusInf \<Rightarrow> (if s then \<lfloor>q\<rfloor> else \<lceil>q\<rceil>)
      | TowardMinusInf \<Rightarrow> (if s then \<lceil>q\<rceil> else \<lfloor>q\<rfloor>))"

definition pow2 :: "int \<Rightarrow> real" where
  "pow2 e = 2 powi e"

definition cexp :: "fmt_desc \<Rightarrow> real \<Rightarrow> int" where
  "cexp f x = max (\<lfloor>log 2 \<bar>x\<bar>\<rfloor> + 1 - int (fp f)) (min_lsb_exp f)"

definition fround :: "fmt_desc \<Rightarrow> rounding \<Rightarrow> real \<Rightarrow> real" where
  "fround f m x =
     (if x = 0 then 0
      else sgn x * of_int (round_mag m (x < 0) (\<bar>x\<bar> / pow2 (cexp f x))) * pow2 (cexp f x))"

definition fman :: "fmt_desc \<Rightarrow> u64 \<Rightarrow> nat" where
  "fman f b = unat (take_bit (fp f - 1) b)"

definition fexpo :: "fmt_desc \<Rightarrow> u64 \<Rightarrow> nat" where
  "fexpo f b = unat (take_bit (fwidth f - fp f) (shr b (fp f - 1)))"

definition fneg :: "fmt_desc \<Rightarrow> u64 \<Rightarrow> bool" where
  "fneg f b = bit b (fwidth f - 1)"

definition finite_bits :: "fmt_desc \<Rightarrow> u64 \<Rightarrow> bool" where
  "finite_bits f b = (fexpo f b \<noteq> 2 ^ (fwidth f - fp f) - 1)"

definition fval :: "fmt_desc \<Rightarrow> u64 \<Rightarrow> real" where
  "fval f b = (if fneg f b then - 1 else 1) *
     (if fexpo f b = 0 then of_nat (fman f b) * pow2 (min_lsb_exp f)
      else of_nat (2 ^ (fp f - 1) + fman f b) * pow2 (int (fexpo f b) - 1 + min_lsb_exp f))"

section \<open>The formats\<close>

definition fmt :: "fmt_desc \<Rightarrow> bool" where
  "fmt f \<longleftrightarrow> f = F32 \<or> f = F64"

lemma fmt_facts:
  assumes "fmt f"
  shows "2 \<le> fp f" "fp f \<le> 53" "fp f + 8 \<le> fwidth f" "fwidth f \<le> fp f + 11" "fwidth f \<le> 64"
    "fbias f = 2 ^ (fwidth f - fp f - 1) - 1"
    "sint (max_biased f) = 2 ^ (fwidth f - fp f) - 1" "2 * fbias f + 1 = 2 ^ (fwidth f - fp f) - 1"
    "to_u32 (max_biased f) = mask (fwidth f - fp f)"
    "min_lsb_exp f = 2 - fbias f - int (fp f)"
    "man_bits f = fp f - 1" "1 \<le> fbias f"
  using assms
  by (auto simp: fmt_def F32_def F64_def max_biased_def min_lsb_exp_def man_bits_def
      mask_eq_exp_minus_1)

section \<open>Powers of two\<close>

lemma pow2_pos [simp]: "0 < pow2 e" "pow2 e \<noteq> 0" "0 \<le> pow2 e"
  by (simp_all add: pow2_def)

lemma pow2_add: "pow2 (a + b) = pow2 a * pow2 b"
  by (simp add: pow2_def power_int_add)

lemma pow2_diff: "pow2 (a - b) = pow2 a / pow2 b"
  by (simp add: pow2_def power_int_diff)

lemma pow2_nat: "pow2 (int n) = 2 ^ n"
  by (simp add: pow2_def)

lemma pow2_0 [simp]: "pow2 0 = 1"
  by (simp add: pow2_def)

lemma pow2_1 [simp]: "pow2 1 = 2"
  by (simp add: pow2_def)

lemma pow2_mono: "a \<le> b \<Longrightarrow> pow2 a \<le> pow2 b"
  by (simp add: pow2_def power_int_increasing)

lemma pow2_less_iff: "pow2 a < pow2 b \<longleftrightarrow> a < b"
  by (metis pow2_mono linorder_not_less pow2_def power_int_strict_increasing one_less_numeral_iff
      semiring_norm(76) order_less_imp_not_less)

lemma pow2_le_iff: "pow2 a \<le> pow2 b \<longleftrightarrow> a \<le> b"
  using pow2_less_iff[of b a] by linarith

lemma floor_log2:
  assumes "pow2 k \<le> x" "x < pow2 (k + 1)"
  shows "\<lfloor>log 2 x\<rfloor> = k"
proof -
  have "0 < x" using assms(1) pow2_pos(1)[of k] by linarith
  have "2 powr of_int k \<le> x" "x < 2 powr of_int (k + 1)"
    using assms by (simp_all add: pow2_def powr_real_of_int' del: of_int_add)
  then show ?thesis
    using \<open>0 < x\<close> by (simp add: floor_eq_iff le_log_iff log_less_iff)
qed

section \<open>Significand words\<close>

section \<open>Rounding the kept significand\<close>

lemma floor_div_pow:
  fixes S :: nat and D :: nat
  assumes "of_nat S \<le> \<mu>" "\<mu> < of_nat S + 1" "0 < D"
  shows "\<lfloor>\<mu> / real D\<rfloor> = int (S div D)"
    and "\<mu> / real D - of_int \<lfloor>\<mu> / real D\<rfloor> = (real (S mod D) + (\<mu> - real S)) / real D"
proof -
  have S: "real S = real (S div D) * real D + real (S mod D)"
    by (metis div_mult_mod_eq of_nat_add of_nat_mult)
  have "real (S mod D) + 1 \<le> real D"
    using mod_less_divisor[OF \<open>0 < D\<close>, of S] by linarith
  then have "\<mu> < (real (S div D) + 1) * real D" "real (S div D) * real D \<le> \<mu>"
    using assms S by (auto simp: algebra_simps)
  then show *: "\<lfloor>\<mu> / real D\<rfloor> = int (S div D)"
    using \<open>0 < D\<close> by (simp add: floor_eq_iff pos_le_divide_eq pos_divide_less_eq)
  show "\<mu> / real D - of_int \<lfloor>\<mu> / real D\<rfloor> = (real (S mod D) + (\<mu> - real S)) / real D"
    unfolding * using S \<open>0 < D\<close> by (simp add: field_simps)
qed

lemma halves_of_frac:
  fixes S h :: nat
  assumes "of_nat S \<le> \<mu>" "\<mu> < of_nat S + 1" "0 < h"
    and d: "d = (real (S mod (2 * h)) + (\<mu> - real S)) / real (2 * h)"
  shows "d < 1 / 2 \<longleftrightarrow> even (S div h)"
    and "d > 1 / 2 \<longleftrightarrow> odd (S div h) \<and> (S mod h \<noteq> 0 \<or> \<mu> \<noteq> real S)"
    and "d = 0 \<longleftrightarrow> S mod (2 * h) = 0 \<and> \<mu> = real S"
proof -
  have m: "S mod (2 * h) = h * (S div h mod 2) + S mod h"
    using mod_mult2_eq[of S h 2] by (simp add: mult.commute)
  have lt: "S mod h < h" using \<open>0 < h\<close> by simp
  then have lt': "real (S mod h) + 1 \<le> real h" by linarith
  define t where "t = real (S mod (2 * h)) + (\<mu> - real S)"
  have dt: "d = t / real (2 * h)" by (simp add: d t_def)
  have i: "d < 1 / 2 \<longleftrightarrow> t < real h" "d > 1 / 2 \<longleftrightarrow> t > real h" "d = 0 \<longleftrightarrow> t = 0"
    unfolding dt using \<open>0 < h\<close> by (auto simp: field_simps)
  have t: "t = (if even (S div h) then 0 else real h) + real (S mod h) + (\<mu> - real S)"
    by (simp add: t_def m mod_2_eq_odd)
  show "d < 1 / 2 \<longleftrightarrow> even (S div h)"
    unfolding i using t lt' assms(1,2) by (cases "even (S div h)") auto
  show "d > 1 / 2 \<longleftrightarrow> odd (S div h) \<and> (S mod h \<noteq> 0 \<or> \<mu> \<noteq> real S)"
    unfolding i using t lt' assms(1,2) by (cases "even (S div h)") auto
  have "0 \<le> real (S mod (2 * h))" by (rule of_nat_0_le_iff)
  then show "d = 0 \<longleftrightarrow> S mod (2 * h) = 0 \<and> \<mu> = real S"
    unfolding i t_def using assms(1) by (metis add.right_neutral add_0 add_nonneg_eq_0_iff
      diff_ge_0_iff_ge eq_iff_diff_eq_0 of_nat_eq_0_iff)
qed

lemma round_increment_mag:
  fixes q :: real
  assumes n: "\<lfloor>q\<rfloor> = int n" and d: "d = q - of_int \<lfloor>q\<rfloor>"
    and rb: "d < 1 / 2 \<longleftrightarrow> \<not> rb" and st: "d > 1 / 2 \<longleftrightarrow> rb \<and> st" and ix: "d \<noteq> 0 \<longleftrightarrow> ix"
  shows "round_mag m s q = int (n + of_bool (round_increment m s (odd n) rb st ix))"
proof -
  have c: "\<lceil>q\<rceil> = (if ix then int n + 1 else int n)"
    using ix d n by (auto simp: ceiling_altdef)
  have "round_even q = (if d < 1 / 2 then int n else if d > 1 / 2 then int n + 1
      else if even n then int n else int n + 1)"
    by (simp add: round_even_def Let_def d n)
  then have "round_even q = int (n + of_bool (rb \<and> (st \<or> odd n)))"
    using rb st by auto
  then show ?thesis
    unfolding round_mag_def round_increment_def by (cases m) (auto simp: n c)
qed

lemma round_kept_words:
  fixes sig :: u128
  assumes "1 \<le> sh"
  shows "unat (if sh \<ge> 128 then 0 else shr sig sh) = unat sig div 2 ^ sh"
    and "(if sh \<ge> 128 then sig \<noteq> 0 else sig AND (shl 1 sh - 1) \<noteq> 0) = (unat sig mod 2 ^ sh \<noteq> 0)"
    and "(if sh > 128 then False else shr sig (sh - 1) AND 1 \<noteq> 0) = odd (unat sig div 2 ^ (sh - 1))"
    and "(if sh \<le> 1 then False else if sh > 128 then sig \<noteq> 0
      else sig AND (shl 1 (sh - 1) - 1) \<noteq> 0) = (unat sig mod 2 ^ (sh - 1) \<noteq> 0)"
proof -
  have big: "unat sig < 2 ^ n" if "128 \<le> n" for n
    using unat_u128[of sig] power_increasing[OF that, of "2 :: nat"] by simp
  have nz: "(unat sig \<noteq> 0) = (sig \<noteq> 0)" by (simp add: unat_eq_0)
  show "unat (if sh \<ge> 128 then 0 else shr sig sh) = unat sig div 2 ^ sh"
    using big[of sh] by (simp add: unat_shr del: drop_bit_eq_div)
  show "(if sh \<ge> 128 then sig \<noteq> 0 else sig AND (shl 1 sh - 1) \<noteq> 0) = (unat sig mod 2 ^ sh \<noteq> 0)"
    using big[of sh] nz and_low_bits[of sig sh] by simp
  show "(if sh > 128 then False else shr sig (sh - 1) AND 1 \<noteq> 0) = odd (unat sig div 2 ^ (sh - 1))"
    using big[of "sh - 1"] by (simp add: and_1_odd unat_shr)
  show "(if sh \<le> 1 then False else if sh > 128 then sig \<noteq> 0
      else sig AND (shl 1 (sh - 1) - 1) \<noteq> 0) = (unat sig mod 2 ^ (sh - 1) \<noteq> 0)"
    using big[of "sh - 1"] nz assms and_low_bits[of sig "sh - 1"] by simp
qed

lemma round_kept_unfold:
  assumes "0 < shift"
  shows "round_kept sign sig e sticky shift m =
    (let sh = nat shift; kept = (if sh \<ge> 128 then 0 else shr sig sh);
         disc = (if sh \<ge> 128 then sig \<noteq> 0 else sig AND (shl 1 sh - 1) \<noteq> 0);
         rb = (if sh > 128 then False else shr sig (sh - 1) AND 1 \<noteq> 0);
         lower = (if sh \<le> 1 then False else if sh > 128 then sig \<noteq> 0
           else sig AND (shl 1 (sh - 1) - 1) \<noteq> 0)
     in (kept + b2w (round_increment m sign (odd (unat kept)) rb (lower \<or> sticky) (disc \<or> sticky)),
         e + shift, disc \<or> sticky))"
  using assms by (cases "128 \<le> nat shift") (simp_all add: round_kept_def Let_def and_1_odd)

lemma unat_add_of_bool:
  assumes "unat (k :: u128) = n" "n + 1 < 2 ^ 128"
  shows "unat (k + b2w c) = n + of_bool c"
proof -
  have "unat (b2w c :: u128) = of_bool c" by (cases c) simp_all
  then have "unat (k + b2w c) = (n + of_bool c) mod 2 ^ LENGTH(128)"
    by (simp only: unat_word_ariths assms(1))
  moreover have "n + of_bool c < 2 ^ LENGTH(128)"
  proof -
    have "LENGTH(128) = 128" by simp
    then show ?thesis
      by (simp only:) (rule le_less_trans[OF _ assms(2)], cases c, simp_all)
  qed
  ultimately show ?thesis by (simp only: mod_less)
qed

lemma round_kept_pos:
  fixes sig :: u128
  assumes "0 < shift" "real (unat sig) \<le> \<mu>" "\<mu> < real (unat sig) + 1"
    and "sticky \<longleftrightarrow> \<mu> \<noteq> real (unat sig)" and q: "q = \<mu> / pow2 shift"
  obtains k where "round_kept sign sig e sticky shift m = (k, e + shift, q \<noteq> of_int \<lfloor>q\<rfloor>)"
    and "int (unat k) = round_mag m sign q"
proof -
  define sh where "sh = nat shift"
  define h :: nat where "h = 2 ^ (sh - 1)"
  have sh: "1 \<le> sh" "shift = int sh" using assms(1) by (auto simp: sh_def)
  have h: "0 < h" "2 ^ sh = 2 * h"
    using sh(1) by (auto simp: h_def simp flip: power_Suc)
  have q': "q = \<mu> / real (2 * h)" by (simp add: q sh(2) pow2_nat flip: h(2))
  note w = round_kept_words[OF sh(1), of sig, folded h_def, unfolded h(2)]
  define n where "n = unat sig div (2 * h)"
  define d where "d = q - of_int \<lfloor>q\<rfloor>"
  have fl: "\<lfloor>q\<rfloor> = int n" "d = (real (unat sig mod (2 * h)) + (\<mu> - real (unat sig))) / real (2 * h)"
    unfolding n_def d_def q' using floor_div_pow[OF assms(2,3), of "2 * h"] h(1) by auto
  note hf = halves_of_frac[OF assms(2,3) h(1) fl(2)]
  define kept where "kept = (if sh \<ge> 128 then 0 else shr sig sh)"
  define inc where "inc = round_increment m sign (odd n) (odd (unat sig div h))
    (unat sig mod h \<noteq> 0 \<or> sticky) (unat sig mod (2 * h) \<noteq> 0 \<or> sticky)"
  have kn: "unat kept = n" using w(1) by (simp add: kept_def n_def)
  have r: "round_kept sign sig e sticky shift m =
      (kept + b2w inc, e + shift, unat sig mod (2 * h) \<noteq> 0 \<or> sticky)"
    unfolding round_kept_unfold[OF assms(1)] Let_def sh_def[symmetric] w(2-4) kept_def[symmetric]
      kn inc_def by (rule refl)
  have i: "(unat sig mod (2 * h) \<noteq> 0 \<or> sticky) = (q \<noteq> of_int \<lfloor>q\<rfloor>)"
    using hf(3) assms(4) by (auto simp: d_def)
  have v: "int (unat (kept + b2w inc)) = round_mag m sign q"
  proof -
    have "n \<le> unat sig div 2"
      using h(1) by (auto simp: n_def intro: div_le_mono2)
    then have "n + n \<le> unat sig" by linarith
    moreover have "n + 1 \<le> n + n \<or> n = 0" by linarith
    ultimately have "n + 1 < 2 ^ 128"
      using unat_u128[of sig] by (metis add_0 le_less_trans one_less_numeral_iff one_less_power
        semiring_norm(76) zero_less_numeral)
    then have "unat (kept + b2w inc) = n + of_bool inc"
      by (rule unat_add_of_bool[OF kn])
    moreover have "round_mag m sign q = int (n + of_bool inc)"
      unfolding inc_def using hf assms(4) by (intro round_increment_mag[OF fl(1) d_def]) auto
    ultimately show ?thesis by (simp only:)
  qed
  show ?thesis by (rule that[OF r[unfolded i] v])
qed

section \<open>Encoding\<close>

lemma encoded_fields:
  fixes man be :: u64 and s :: bool
  assumes "fmt f" "unat man < 2 ^ (fp f - 1)" "unat be < 2 ^ (fwidth f - fp f)"
  defines "b \<equiv> sign_bit s f OR shl be (fp f - 1) OR man"
  shows "fman f b = unat man" "fexpo f b = unat be" "fneg f b = s"
proof -
  note f = fmt_facts[OF assms(1)]
  have sb: "bit (sign_bit s f) n \<longleftrightarrow> s \<and> n = fwidth f - 1" for n
    using f by (cases s) (auto simp: sign_bit_def bit_shl_1 simp del: push_bit_of_1)
  have m: "\<not> bit man n" if "fp f - 1 \<le> n" for n by (rule not_bit_of_lt[OF assms(2) that])
  have e: "\<not> bit be n" if "fwidth f - fp f \<le> n" for n by (rule not_bit_of_lt[OF assms(3) that])
  have bb: "bit b n \<longleftrightarrow> (s \<and> n = fwidth f - 1) \<or> (n < 64 \<and> fp f - 1 \<le> n \<and> bit be (n - (fp f - 1))) \<or> bit man n" for n
    by (auto simp: b_def bit_or_iff sb bit_push_bit_iff)
  have "take_bit (fp f - 1) b = man"
    by (rule bit_word_eqI) (use f m in \<open>auto simp: bit_take_bit_iff bb intro: ccontr\<close>)
  then show "fman f b = unat man" by (simp add: fman_def)
  have "take_bit (fwidth f - fp f) (shr b (fp f - 1)) = be"
  proof (rule bit_word_eqI)
    fix n assume "n < LENGTH(64)"
    show "bit (take_bit (fwidth f - fp f) (shr b (fp f - 1))) n = bit be n"
    proof (cases "n < fwidth f - fp f")
      case True
      then have "fp f - 1 + n \<noteq> fwidth f - 1" "fp f - 1 + n < 64" using f by linarith+
      then show ?thesis using True m[of "fp f - 1 + n"] by (simp add: bit_take_bit_iff bit_drop_bit_eq bb)
    qed (use e in \<open>simp add: bit_take_bit_iff\<close>)
  qed
  then show "fexpo f b = unat be" by (simp add: fexpo_def)
  show "fneg f b = s"
    using e[of "fwidth f - fp f"] m[of "fwidth f - 1"] f by (auto simp: fneg_def bb)
qed

lemma unat_word_of_int_u64: "0 \<le> b \<Longrightarrow> b < 2 ^ 64 \<Longrightarrow> unat (word_of_int b :: u64) = nat b"
  by (simp add: unsigned_of_int take_bit_int_eq_self)

lemma fval_fields:
  assumes "fman f b = mn" "fexpo f b = ex" "fneg f b = s"
  shows "fval f b = (if s then - 1 else 1) *
     (if ex = 0 then of_nat mn * pow2 (min_lsb_exp f)
      else of_nat (2 ^ (fp f - 1) + mn) * pow2 (int ex - 1 + min_lsb_exp f))"
  by (simp add: fval_def assms)

lemma encode_kept_correct:
  fixes kept :: u128
  assumes "fmt f" "unat kept = k" "k < 2 ^ fp f" "min_lsb_exp f \<le> e"
    and "k < 2 ^ (fp f - 1) \<Longrightarrow> e = min_lsb_exp f"
    and v: "v = of_nat k * pow2 e" and r: "r = encode_kept s kept e tiny ix f m"
  shows "if v < pow2 (fbias f + 1)
     then finite_bits f (r_bits r) \<and> fneg f (r_bits r) = s \<and>
       fval f (r_bits r) = (if s then - 1 else 1) * v \<and>
       r_flags r = flags_none\<lparr>inexact := ix, underflow := tiny \<and> ix\<rparr>
     else r = overflowed s f m"
proof -
  note f = fmt_facts[OF assms(1)]
  let ?p1 = "fp f - 1"
  define sg :: real where "sg = (if s then - 1 else 1)"
  have shr0: "(shr kept ?p1 \<noteq> 0) = (2 ^ ?p1 \<le> k)"
    using assms(2) by (metis unat_shr unat_0 unsigned_word_eqI div_eq_0_iff not_le power_eq_0_iff zero_neq_numeral)
  have k0: "(kept = 0) = (k = 0)" using assms(2) by (metis unat_eq_zero)
  have k64: "unat (to_u64 kept) = k"
  proof -
    have "k < 2 ^ 64" using assms(3) f(2) power_increasing[of "fp f" 64 "2 :: nat"] by linarith
    then show ?thesis using assms(2) by (simp add: unat_ucast_mod)
  qed
  have pe: "(2 :: nat) ^ fp f = 2 * 2 ^ ?p1" using f(1) by (simp flip: power_Suc)
  have rp: "pow2 (int ?p1 + e) = 2 ^ ?p1 * pow2 e" "pow2 (int (fp f) + e) = 2 ^ fp f * pow2 e"
    by (simp_all only: pow2_add pow2_nat)
  have c2: "(2 :: nat) ^ 8 \<le> 2 ^ (fwidth f - fp f)"
    using f(3) by (intro power_increasing) auto
  have small: ?thesis if "r_bits r = sign_bit s f OR to_u64 kept" "k < 2 ^ ?p1"
    "r_flags r = flags_none\<lparr>inexact := ix, underflow := tiny \<and> ix\<rparr>"
  proof -
    have fl: "fman f (r_bits r) = k" "fexpo f (r_bits r) = 0" "fneg f (r_bits r) = s"
      using encoded_fields[OF assms(1), of "to_u64 kept" 0 s] that(1,2) k64 by simp_all
    have "v < 2 ^ ?p1 * pow2 e" using that(2) by (simp add: v of_nat_less_numeral_power_cancel_iff)
    also have "\<dots> \<le> pow2 (fbias f + 1)"
      unfolding rp(1)[symmetric] using f(1,10,12) assms(5)[OF that(2)] by (simp add: pow2_le_iff)
    finally show ?thesis
      using fval_fields[OF fl] fl that c2 assms(5)[OF that(2)]
      by (simp add: sg_def v finite_bits_def)
  qed
  have norm: ?thesis if k: "2 ^ ?p1 \<le> k"
  proof -
    define biased where "biased = e + int (fp f) - 1 + fbias f"
    have "0 < k" using k by (metis gr0I le_zero_eq power_eq_0_iff zero_neq_numeral)
    then have nz: "kept \<noteq> 0" "shr kept (fp f - Suc 0) \<noteq> 0" using k k0 shr0 by simp_all
    have b1: "1 \<le> biased" using assms(4) f by (simp add: biased_def)
    have over: "sint (max_biased f) \<le> biased \<longleftrightarrow> \<not> v < pow2 (fbias f + 1)"
    proof -
      have "v < pow2 (int (fp f) + e)" "pow2 (int ?p1 + e) \<le> v"
        unfolding rp v using k assms(3)
        by (simp_all add: of_nat_less_numeral_power_cancel_iff numeral_power_le_of_nat_cancel_iff)
      moreover have "pow2 (fbias f + 1) \<le> pow2 (int ?p1 + e)" if "2 * fbias f + 1 \<le> biased"
        using that f(1) by (simp add: pow2_le_iff biased_def of_nat_diff)
      moreover have "pow2 (int (fp f) + e) \<le> pow2 (fbias f + 1)" if "\<not> 2 * fbias f + 1 \<le> biased"
        using that f(1) by (simp add: pow2_le_iff biased_def)
      ultimately have "2 * fbias f + 1 \<le> biased \<longleftrightarrow> \<not> v < pow2 (fbias f + 1)"
        by (meson le_less_trans less_le_trans not_less)
      then show ?thesis using f(7,8) by simp
    qed
    show ?thesis
    proof (cases "v < pow2 (fbias f + 1)")
      case False
      then show ?thesis
        using over nz by (simp add: r encode_kept_def Let_def biased_def)
    next
      case True
      define man where "man = to_u64 kept AND mask ?p1"
      have "unat man = k mod 2 ^ ?p1" by (simp only: man_def unat_and_mask k64)
      also have "\<dots> = k - 2 ^ ?p1" using k assms(3) pe by (simp add: mod_if)
      finally have man: "unat man = k - 2 ^ ?p1" .
      have ub: "biased < 2 ^ (fwidth f - fp f) - 1" using over True f(7) by linarith
      moreover have "(2 :: int) ^ (fwidth f - fp f) \<le> 2 ^ 64" using f(5) by (intro power_increasing) auto
      ultimately have be: "unat (word_of_int biased :: u64) = nat biased"
        using b1 by (intro unat_word_of_int_u64) linarith+
      have "nat biased < 2 ^ (fwidth f - fp f) - 1" using ub b1 by (simp add: nat_less_iff of_nat_diff)
      have rb: "r = \<lparr>r_bits = sign_bit s f OR shl (word_of_int biased) ?p1 OR man,
          r_flags = flags_none\<lparr>inexact := ix, underflow := tiny \<and> ix\<rparr>\<rparr>"
        using over nz True
        by (simp add: r encode_kept_def Let_def biased_def man_def f(11) mask_eq_exp_minus_1)
      have mlt: "unat man < 2 ^ ?p1" using man assms(3) k pe by linarith
      have blt: "unat (word_of_int biased :: u64) < 2 ^ (fwidth f - fp f)"
        using be \<open>nat biased < 2 ^ (fwidth f - fp f) - 1\<close> by linarith
      have fl: "fman f (r_bits r) = k - 2 ^ ?p1" "fexpo f (r_bits r) = nat biased" "fneg f (r_bits r) = s"
        using encoded_fields[OF assms(1) mlt blt] by (simp_all add: rb man be)
      have "int (nat biased) - 1 + min_lsb_exp f = e" using b1 f by (simp add: biased_def)
      then show ?thesis
        using True fl fval_fields[OF fl] k b1 \<open>nat biased < 2 ^ (fwidth f - fp f) - 1\<close>
        by (simp add: finite_bits_def rb v sg_def)
    qed
  qed
  show ?thesis
  proof (cases "2 ^ ?p1 \<le> k")
    case False
    then have "shr kept (fp f - Suc 0) = 0" using shr0 by simp
    then have "r = \<lparr>r_bits = sign_bit s f OR to_u64 kept,
        r_flags = flags_none\<lparr>inexact := ix, underflow := tiny \<and> ix\<rparr>\<rparr>"
      by (simp add: r encode_kept_def Let_def)
    then show ?thesis using False by (intro small) simp_all
  qed (rule norm)
qed

section \<open>Rounding and packing\<close>

lemma round_mag_nonneg: "0 \<le> q \<Longrightarrow> 0 \<le> round_mag m s q"
  by (cases m) (auto simp: round_mag_def round_even_def Let_def)

lemma round_mag_le: "q \<le> of_int n \<Longrightarrow> round_mag m s q \<le> n"
proof -
  assume q: "q \<le> of_int n"
  then have c: "\<lceil>q\<rceil> \<le> n" "\<lfloor>q\<rfloor> \<le> n" by linarith+
  have "round_even q \<le> \<lceil>q\<rceil>"
    unfolding round_even_def Let_def by (auto split: if_splits) linarith+
  then show ?thesis using c by (cases m) (auto simp: round_mag_def)
qed

lemma round_mag_ge: "of_int n \<le> q \<Longrightarrow> n \<le> round_mag m s q"
proof -
  assume q: "of_int n \<le> q"
  then have c: "n \<le> \<lceil>q\<rceil>" "n \<le> \<lfloor>q\<rfloor>" by linarith+
  have "\<lfloor>q\<rfloor> \<le> round_even q" by (simp add: round_even_def Let_def)
  then show ?thesis using c by (cases m) (auto simp: round_mag_def)
qed

lemma round_mag_int: "q = of_int n \<Longrightarrow> round_mag m s q = n"
  by (intro antisym round_mag_le round_mag_ge) simp_all

lemma round_mag_inexact: "(of_int (round_mag m s q) \<noteq> q) = (q \<noteq> of_int \<lfloor>q\<rfloor>)"
  by (metis floor_of_int round_mag_int)

text \<open>\<open>holds sig e sticky x\<close>: the exact magnitude \<open>x\<close> that a significand with its sticky bit
  stands for, precise enough for the rounding that follows.\<close>

definition holds :: "fmt_desc \<Rightarrow> u128 \<Rightarrow> int \<Rightarrow> bool \<Rightarrow> real \<Rightarrow> bool" where
  "holds f sig e sticky x \<longleftrightarrow> sig \<noteq> 0 \<and>
     (if sticky then of_nat (unat sig) * pow2 e < x \<and> x < (of_nat (unat sig) + 1) * pow2 e \<and>
        2 ^ fp f \<le> unat sig
      else x = of_nat (unat sig) * pow2 e)"

definition correctly_rounded :: "fmt_desc \<Rightarrow> rounding \<Rightarrow> bool \<Rightarrow> real \<Rightarrow> rounded \<Rightarrow> bool" where
  "correctly_rounded f m s x r \<longleftrightarrow>
     (let y = fround f m x in
      if \<bar>y\<bar> < pow2 (fbias f + 1)
      then finite_bits f (r_bits r) \<and> fval f (r_bits r) = y \<and> fneg f (r_bits r) = s \<and>
        r_flags r = flags_none\<lparr>inexact := (y \<noteq> x), underflow := \<bar>x\<bar> < pow2 (1 - fbias f) \<and> y \<noteq> x\<rparr>
      else r = overflowed s f m)"

lemma used_bits: "(sig :: u128) \<noteq> 0 \<Longrightarrow> 128 - int (leading_zeros sig) = int (bit_len (unat sig))"
  using bit_len_le[OF unat_u128, of sig] by (simp add: leading_zeros_def)

lemma holds_binade:
  assumes "holds f sig e sticky x"
  shows "0 < x" "pow2 (int (bit_len (unat sig)) - 1 + e) \<le> x" "x < pow2 (int (bit_len (unat sig)) + e)"
    "\<lfloor>log 2 x\<rfloor> = int (bit_len (unat sig)) - 1 + e"
proof -
  define L where "L = bit_len (unat sig)"
  have n: "unat sig \<noteq> 0" using assms by (simp add: holds_def unat_eq_0)
  have b: "2 ^ (L - 1) \<le> unat sig" "unat sig < 2 ^ L" "1 \<le> L"
    using bit_len_bounds[OF n] bit_len_pos[OF n] by (auto simp: L_def)
  have "unat sig + 1 \<le> 2 ^ L" using b by linarith
  then have r: "2 ^ (L - 1) \<le> real (unat sig)" "real (unat sig) + 1 \<le> 2 ^ L"
    using b(1) by (metis of_nat_le_iff of_nat_numeral of_nat_power,
      metis of_nat_1 of_nat_add of_nat_le_iff of_nat_numeral of_nat_power)
  have e: "pow2 (int L - 1 + e) = 2 ^ (L - 1) * pow2 e" "pow2 (int L + e) = 2 ^ L * pow2 e"
  proof -
    have "int L - 1 = int (L - 1)" using b(3) by (simp add: of_nat_diff)
    then show "pow2 (int L - 1 + e) = 2 ^ (L - 1) * pow2 e" "pow2 (int L + e) = 2 ^ L * pow2 e"
      by (simp_all only: pow2_add pow2_nat)
  qed
  have l: "2 ^ (L - 1) * pow2 e \<le> real (unat sig) * pow2 e"
    "(real (unat sig) + 1) * pow2 e \<le> 2 ^ L * pow2 e"
    using r by (simp_all add: mult_right_mono)
  have x: "real (unat sig) * pow2 e \<le> x" "x < (real (unat sig) + 1) * pow2 e"
    using assms by (auto simp: holds_def split: if_splits)
  show p: "pow2 (int (bit_len (unat sig)) - 1 + e) \<le> x" "x < pow2 (int (bit_len (unat sig)) + e)"
    unfolding L_def[symmetric] e using l x by linarith+
  then show "0 < x" using pow2_pos(1) less_le_trans by blast
  show "\<lfloor>log 2 x\<rfloor> = int (bit_len (unat sig)) - 1 + e"
    using p by (intro floor_log2) simp_all
qed

lemma shr_ne_0: "unat (k :: u128) = n \<Longrightarrow> (shr k j \<noteq> 0) = (2 ^ j \<le> n)"
  by (metis unat_shr unat_0 unsigned_word_eqI div_eq_0_iff not_le power_eq_0_iff zero_neq_numeral)

lemma carry_normalise:
  assumes "unat (k :: u128) = n" "n \<le> 2 ^ p" "1 \<le> p"
  obtains k' n' c' where "(if shr k p \<noteq> 0 then (shr k 1, c + 1) else (k, c)) = (k', c')"
    and "unat k' = n'" "n' < 2 ^ p" "of_nat n' * pow2 c' = of_nat n * pow2 c" "c \<le> c'"
    and "n' < 2 ^ (p - 1) \<Longrightarrow> n' = n \<and> c' = c"
proof (cases "2 ^ p \<le> n")
  case True
  then have n: "n = 2 * 2 ^ (p - 1)" using assms(2,3) by (cases p) auto
  have "unat (shr k 1) = 2 ^ (p - 1)" by (simp only: unat_shr assms(1) n) simp
  moreover have "(2 :: nat) ^ (p - 1) < 2 ^ p" using assms(3) by simp
  ultimately show ?thesis
    using True that[of "shr k 1" "c + 1" "2 ^ (p - 1)"] shr_ne_0[OF assms(1), of p] n
    by (simp add: pow2_add)
next
  case False
  then show ?thesis
    using that[of k c n] shr_ne_0[OF assms(1), of p] assms(1) by simp
qed

lemma round_kept_correct:
  assumes "fmt f" "holds f sig e sticky x"
    and c: "c = max (int (bit_len (unat sig)) + e - int (fp f)) (min_lsb_exp f)"
    and q: "q = x / pow2 c"
  obtains k where "round_kept s sig e sticky (c - e) m = (k, c, q \<noteq> of_int \<lfloor>q\<rfloor>)"
    and "int (unat k) = round_mag m s q"
proof -
  define L where "L = bit_len (unat sig)"
  have n: "unat sig \<noteq> 0" using assms(2) by (simp add: holds_def unat_eq_0)
  show ?thesis
  proof (cases "0 < c - e")
    case True
    have x: "(x / pow2 e = y) = (x = y * pow2 e)" for y by (simp add: nonzero_divide_eq_eq)
    have "real (unat sig) \<le> x / pow2 e" "x / pow2 e < real (unat sig) + 1"
      "sticky \<longleftrightarrow> x / pow2 e \<noteq> real (unat sig)"
      using assms(2) unfolding x
      by (auto simp: holds_def pos_le_divide_eq pos_divide_less_eq split: if_splits)
    moreover have "q = x / pow2 e / pow2 (c - e)" by (simp add: q pow2_diff)
    ultimately obtain k where
      "round_kept s sig e sticky (c - e) m = (k, e + (c - e), q \<noteq> of_int \<lfloor>q\<rfloor>)"
      "int (unat k) = round_mag m s q"
      by (rule round_kept_pos[OF True, of sig "x / pow2 e" sticky q s e m])
    then show ?thesis using that by simp
  next
    case False
    have "\<not> sticky"
    proof
      assume sticky
      then have "fp f < L" using assms(2) by (simp add: holds_def L_def bit_len_ge)
      then show False using False by (simp add: c L_def)
    qed
    define d where "d = nat (e - c)"
    have d: "e = c + int d" "L + d \<le> fp f" using False by (auto simp: d_def c L_def)
    have "unat sig * 2 ^ d < 2 ^ L * 2 ^ d" using bit_len_bounds[OF n] by (simp add: L_def)
    also have "\<dots> \<le> 2 ^ 128" unfolding power_add[symmetric]
      using d(2) fmt_facts(2)[OF assms(1)] by (intro power_increasing) auto
    finally have u: "unat (shl sig d) = unat sig * 2 ^ d" by (intro unat_shl) simp
    have qe: "q = of_int (int (unat sig * 2 ^ d))"
      using assms(2) \<open>\<not> sticky\<close> by (simp add: holds_def q d(1) pow2_add pow2_nat)
    then have "round_mag m s q = int (unat sig * 2 ^ d)" "q = of_int \<lfloor>q\<rfloor>"
      by (rule round_mag_int) (simp only: qe floor_of_int)
    moreover have "round_kept s sig e sticky (c - e) m = (shl sig d, c, False)"
      using False \<open>\<not> sticky\<close> by (simp add: round_kept_def d_def)
    ultimately show ?thesis using that[of "shl sig d"] u by simp
  qed
qed

theorem round_pack_rounds:
  assumes "fmt f" "holds f sig e sticky x"
  shows "correctly_rounded f m s (if s then - x else x) (round_pack s sig e sticky f m)"
proof -
  note f = fmt_facts[OF assms(1)]
  note b = holds_binade[OF assms(2)]
  define L where "L = int (bit_len (unat sig))"
  define c where "c = max (L + e - int (fp f)) (min_lsb_exp f)"
  define q where "q = x / pow2 c"
  define n where "n = nat (round_mag m s q)"
  have "sig \<noteq> 0" using assms(2) by (simp add: holds_def)
  have xq: "x = q * pow2 c" "0 < q" using b(1) by (auto simp: q_def)
  obtain k where k: "round_kept s sig e sticky (c - e) m = (k, c, q \<noteq> of_int \<lfloor>q\<rfloor>)"
    "int (unat k) = round_mag m s q"
    by (rule round_kept_correct[OF assms c_def[unfolded L_def] q_def, of s m])
  have kn: "unat k = n" "of_nat n = (of_int (round_mag m s q) :: real)"
    unfolding n_def k(2)[symmetric] by simp_all
  have q_lt: "q < pow2 (L + e - c)" "pow2 (L - 1 + e - c) \<le> q"
    using b(2,3) by (simp_all add: q_def pow2_diff L_def divide_right_mono divide_strict_right_mono)
  have n_le: "n \<le> 2 ^ fp f"
  proof -
    have "pow2 (L + e - c) \<le> pow2 (int (fp f))" by (simp add: pow2_le_iff c_def)
    then have "q \<le> of_int (2 ^ fp f)" using q_lt(1) by (simp add: pow2_nat)
    then have "int n \<le> 2 ^ fp f" unfolding kn(1)[symmetric] k(2) by (rule round_mag_le)
    then show ?thesis by (simp add: of_nat_le_numeral_power_cancel_iff)
  qed
  have n_ge: "2 ^ (fp f - 1) \<le> n" if "c \<noteq> min_lsb_exp f"
  proof -
    have "L - 1 + e - c = int (fp f - 1)" using that f(1) by (simp add: c_def of_nat_diff max_def split: if_splits)
    then have "of_int (2 ^ (fp f - 1)) \<le> q" using q_lt(2) by (simp add: pow2_nat)
    then have "2 ^ (fp f - 1) \<le> int n" unfolding kn(1)[symmetric] k(2) by (rule round_mag_ge)
    then show ?thesis by (simp add: numeral_power_le_of_nat_cancel_iff)
  qed
  have p1: "1 \<le> fp f" using f(1) by simp
  obtain k' n' c' where n': "(if shr k (fp f) \<noteq> 0 then (shr k 1, c + 1) else (k, c)) = (k', c')"
    "unat k' = n'" "n' < 2 ^ fp f" "of_nat n' * pow2 c' = of_nat n * pow2 c" "c \<le> c'"
    "n' < 2 ^ (fp f - 1) \<Longrightarrow> n' = n \<and> c' = c"
    by (rule carry_normalise[OF kn(1) n_le p1, of c]) blast
  define tiny where "tiny = (x < pow2 (1 - fbias f))"
  have tiny: "(L - int (fp f) < min_lsb_exp f - e) = tiny"
  proof -
    have "tiny \<longleftrightarrow> L + e \<le> 1 - fbias f"
      using b(2,3) unfolding tiny_def L_def[symmetric]
      by (metis less_le_trans not_le pow2_le_iff pow2_less_iff add1_zle_eq diff_add_cancel
          add_diff_eq diff_add_eq le_less_trans zle_diff1_eq)
    then show ?thesis using f(1,10) by linarith
  qed
  have rp: "round_pack s sig e sticky f m = encode_kept s k' c' tiny (q \<noteq> of_int \<lfloor>q\<rfloor>) f m"
  proof -
    have "(if min_lsb_exp f - e < L - int (fp f) then L - int (fp f) else min_lsb_exp f - e) = c - e"
      by (simp add: c_def max_def)
    then show ?thesis
      unfolding round_pack_def Let_def used_bits[OF \<open>sig \<noteq> 0\<close>] L_def[symmetric]
      using \<open>sig \<noteq> 0\<close> by (simp only: k(1) prod.case n'(1) tiny if_False)
  qed
  define y where "y = fround f m (if s then - x else x)"
  define v where "v = of_nat n * pow2 c"
  have cx: "cexp f (if s then - x else x) = c"
    using b(1,4) by (simp add: cexp_def c_def L_def abs_of_pos algebra_simps)
  have y: "y = (if s then - 1 else 1) * v"
    using b(1) unfolding y_def fround_def cx
    by (cases s) (simp_all add: v_def kn(2) flip: q_def)
  have ix: "(y \<noteq> (if s then - x else x)) = (q \<noteq> of_int \<lfloor>q\<rfloor>)"
  proof -
    have "(y \<noteq> (if s then - x else x)) = (v \<noteq> x)" unfolding y by auto
    also have "\<dots> = (of_nat n \<noteq> q)" unfolding v_def xq(1) by simp
    finally show ?thesis unfolding kn(2) by (simp only: round_mag_inexact)
  qed
  have "min_lsb_exp f \<le> c" by (simp add: c_def)
  then have "min_lsb_exp f \<le> c'" "n' < 2 ^ (fp f - 1) \<Longrightarrow> c' = min_lsb_exp f"
    using n'(5,6) n_ge by fastforce+
  note enc = encode_kept_correct[OF assms(1) n'(2,3) this v_def[folded n'(4)] rp]
  have "\<bar>y\<bar> = v" by (simp add: y v_def)
  moreover have "\<bar>if s then - x else x\<bar> = x" using b(1) by simp
  ultimately show ?thesis
    using enc unfolding correctly_rounded_def Let_def y_def[symmetric] ix
    by (simp add: y tiny_def split: if_splits)
qed

end
