(* ===== verification/Softfloat_Ops.thy ===== *)
theory Softfloat_Ops
  imports Softfloat_Correct
begin

text \<open>
  The operations of \<open>Softfloat\<close> on finite operands: each one prepares a significand that holds the
  exact result (\<open>holds\<close>), so that \<open>round_pack\<close> rounds it once. The last part shows that the
  rounding chosen is the best one among all the numbers of the format.
\<close>

section \<open>Unpacking\<close>

definition uval :: "unpacked \<Rightarrow> real" where
  "uval a = (if u_sign a then - 1 else 1) * of_nat (unat (u_sig a)) * pow2 (u_exp a)"

definition unpacked_wf :: "fmt_desc \<Rightarrow> unpacked \<Rightarrow> bool" where
  "unpacked_wf f a \<longleftrightarrow> unat (u_sig a) < 2 ^ fp f \<and> (u_class a = ClFinite \<longrightarrow> u_sig a \<noteq> 0) \<and>
     (u_class a = ClZero \<longrightarrow> u_sig a = 0)"

lemma biased_word:
  assumes "fmt f"
  shows "to_u32 (shr b (man_bits f) AND to_u64 (max_biased f)) = of_nat (fexpo f b)"
    and "fexpo f b < 2 ^ (fwidth f - fp f)"
proof -
  note f = fmt_facts[OF assms]
  have m: "to_u64 (max_biased f) = mask (fwidth f - fp f)"
    using assms by (auto simp: fmt_def F32_def F64_def max_biased_def mask_eq_exp_minus_1)
  have "shr b (man_bits f) AND to_u64 (max_biased f) = take_bit (fwidth f - fp f) (shr b (fp f - 1))"
    unfolding m f(11) by (simp add: take_bit_eq_mask)
  then show "to_u32 (shr b (man_bits f) AND to_u64 (max_biased f)) = of_nat (fexpo f b)"
    by (simp add: fexpo_def)
  show "fexpo f b < 2 ^ (fwidth f - fp f)"
    unfolding fexpo_def take_bit_eq_mask unat_and_mask by simp
qed

lemma unpack_words:
  assumes "fmt f"
  shows "to_u128 (b AND (shl 1 (man_bits f) - 1)) = of_nat (fman f b)" "fman f b < 2 ^ (fp f - 1)"
    "(of_nat (fexpo f b) = (0 :: u32)) = (fexpo f b = 0)"
    "(of_nat (fexpo f b) = max_biased f) = (fexpo f b = 2 ^ (fwidth f - fp f) - 1)"
    "sint (of_nat (fexpo f b) :: u32) = int (fexpo f b)"
    "(shr b (fwidth f - 1) AND 1 \<noteq> 0) = fneg f b"
proof -
  note f = fmt_facts[OF assms] and e = biased_word(2)[OF assms, of b]
  show "to_u128 (b AND (shl 1 (man_bits f) - 1)) = of_nat (fman f b)"
    unfolding mask_word fman_def f(11) take_bit_eq_mask by simp
  show "fman f b < 2 ^ (fp f - 1)"
    unfolding fman_def take_bit_eq_mask unat_and_mask by simp
  have "(2 :: nat) ^ (fwidth f - fp f) \<le> 2 ^ 11" using f(4) by (intro power_increasing) auto
  then have lt: "fexpo f b < 2 ^ 11" using e by linarith
  then have u: "unat (of_nat (fexpo f b) :: u32) = fexpo f b" by (intro unat_of_nat_lt) simp
  show "(of_nat (fexpo f b) = (0 :: u32)) = (fexpo f b = 0)" unfolding unat_eq_0[symmetric] u ..
  have "unat (max_biased f) = 2 ^ (fwidth f - fp f) - 1"
    using assms by (auto simp: fmt_def F32_def F64_def max_biased_def)
  then show "(of_nat (fexpo f b) = max_biased f) = (fexpo f b = 2 ^ (fwidth f - fp f) - 1)"
    using u by (metis unsigned_word_eqI)
  show "sint (of_nat (fexpo f b) :: u32) = int (fexpo f b)"
    using lt by (simp add: signed_of_nat signed_take_bit_int_eq_self)
  show "(shr b (fwidth f - 1) AND 1 \<noteq> 0) = fneg f b"
    by (simp add: fneg_def shr_and_1)
qed

lemma unat_fman: "unat (of_nat (fman f b) :: u128) = fman f b"
  unfolding fman_def by simp

lemma of_nat_fman_0: "(of_nat (fman f b) = (0 :: u128)) = (fman f b = 0)"
  unfolding unat_eq_0[symmetric] unat_fman ..

lemma unpack_fields:
  assumes "fmt f"
  shows "u_sign (unpack b f) = fneg f b"
    and "unpacked_wf f (unpack b f)"
    and "finite_bits f b \<Longrightarrow> uval (unpack b f) = fval f b"
    and "finite_bits f b \<Longrightarrow> u_class (unpack b f) = (if fval f b = 0 then ClZero else ClFinite)"
    and "\<not> finite_bits f b \<Longrightarrow> u_class (unpack b f) = (if fman f b = 0 then ClInf else ClNan)"
proof -
  note f = fmt_facts[OF assms] and w = unpack_words[OF assms] and e = biased_word[OF assms]
  have "(2 :: nat) ^ 8 \<le> 2 ^ (fwidth f - fp f)" using f(3) by (intro power_increasing) auto
  then have c2: "(2 :: nat) ^ (fwidth f - fp f) - 1 \<noteq> 0" by simp
  let ?mx = "2 ^ (fwidth f - fp f) - 1 :: nat"
  have up: "unpack b f =
     (if fexpo f b = 0 then
        \<lparr>u_sign = fneg f b, u_class = (if fman f b = 0 then ClZero else ClFinite),
         u_sig = of_nat (fman f b), u_exp = min_lsb_exp f, u_snan = False\<rparr>
      else if fexpo f b = ?mx then
        \<lparr>u_sign = fneg f b, u_class = (if fman f b = 0 then ClInf else ClNan),
         u_sig = of_nat (fman f b), u_exp = 0,
         u_snan = (of_nat (fman f b) AND shl (1 :: u128) (man_bits f - 1) \<noteq> 0)\<rparr>
      else
        \<lparr>u_sign = fneg f b, u_class = ClFinite, u_sig = of_nat (fman f b) OR shl 1 (man_bits f),
         u_exp = int (fexpo f b) - fbias f - int (man_bits f), u_snan = False\<rparr>)"
    unfolding unpack_def Let_def e(1) w(1,3-6) of_nat_fman_0 by (simp del: push_bit_of_1)
  show "u_sign (unpack b f) = fneg f b" by (simp add: up)
  have p1: "(2 :: nat) ^ (fp f - 1) < 2 ^ fp f" "(2 :: nat) ^ fp f = 2 ^ (fp f - 1) + 2 ^ (fp f - 1)"
    "man_bits f < 128" using f(1,2,11) by (simp_all flip: mult_2 power_Suc)
  have un: "unat (of_nat (fman f b) :: u128) = fman f b" by (rule unat_fman)
  have uo: "unat (of_nat (fman f b) OR shl 1 (man_bits f) :: u128) = fman f b + 2 ^ (fp f - 1)"
    using unat_or_disjoint[of "of_nat (fman f b) :: u128" "man_bits f"] un w(2) p1(3) f(11)
    by (simp del: push_bit_of_1)
  have uo0: "of_nat (fman f b) OR shl 1 (man_bits f) \<noteq> (0 :: u128)"
    using uo by (metis add_eq_0_iff_both_eq_0 power_not_zero unat_0 zero_neq_numeral)
  show "unpacked_wf f (unpack b f)"
    unfolding unpacked_wf_def up using un uo uo0 w(2)[of b] p1 of_nat_fman_0
    by (auto simp del: push_bit_of_1)
  have ex: "(finite_bits f b \<Longrightarrow> fexpo f b \<noteq> ?mx)" "(\<not> finite_bits f b \<Longrightarrow> fexpo f b = ?mx \<and> fexpo f b \<noteq> 0)"
    using c2 by (simp_all add: finite_bits_def)
  show "uval (unpack b f) = fval f b" if "finite_bits f b"
  proof -
    have E: "int (fexpo f b) - fbias f - int (man_bits f) = int (fexpo f b) - 1 + min_lsb_exp f"
      using f by (simp add: of_nat_diff)
    show ?thesis
      using ex(1)[OF that] unfolding uval_def fval_def up E
      by (simp del: push_bit_of_1 of_nat_unat add: un uo add.commute)
  qed
  show "u_class (unpack b f) = (if fval f b = 0 then ClZero else ClFinite)" if "finite_bits f b"
    using ex(1)[OF that] unfolding fval_def up by (auto simp: add_nonneg_eq_0_iff)
  show "u_class (unpack b f) = (if fman f b = 0 then ClInf else ClNan)" if "\<not> finite_bits f b"
  proof -
    have "fexpo f b = ?mx" "fexpo f b \<noteq> 0" using ex(2)[OF that] by blast+
    then show ?thesis unfolding up by (simp only: if_True if_False unpacked.select_convs simp_thms)
  qed
qed

section \<open>Multiplication, division and square root\<close>

lemma rounded_signed:
  assumes "fmt f" "holds f sig e sticky \<bar>x\<bar>"
  shows "correctly_rounded f m (x < 0) x (round_pack (x < 0) sig e sticky f m)"
  using round_pack_rounds[OF assms, of m "x < 0"] by (simp add: abs_if split: if_splits)

lemma signed_value:
  "0 < t \<Longrightarrow> v = (if s then - t else (t :: real)) \<Longrightarrow> v \<noteq> 0 \<and> (v < 0 \<longleftrightarrow> s) \<and> \<bar>v\<bar> = t"
  by auto

lemma uval_facts:
  assumes "unpacked_wf f a" "u_class a = ClFinite"
  shows "uval a \<noteq> 0" "uval a < 0 \<longleftrightarrow> u_sign a" "\<bar>uval a\<bar> = of_nat (unat (u_sig a)) * pow2 (u_exp a)"
    "0 < unat (u_sig a)" "unat (u_sig a) < 2 ^ fp f"
proof -
  show u: "0 < unat (u_sig a)" "unat (u_sig a) < 2 ^ fp f"
    using assms by (simp_all add: unpacked_wf_def unat_gt_0)
  have "0 < real (unat (u_sig a))" using u(1) by (rule of_nat_0_less_iff[THEN iffD2])
  then have t: "0 < real (unat (u_sig a)) * pow2 (u_exp a)" (is "0 < ?t") by (rule mult_pos_pos) simp
  have uv: "uval a = (if u_sign a then - ?t else ?t)" by (simp add: uval_def del: of_nat_unat)
  show "uval a \<noteq> 0" "uval a < 0 \<longleftrightarrow> u_sign a" "\<bar>uval a\<bar> = ?t"
    using signed_value[OF t uv] by blast+
qed

lemma holdsI:
  assumes "unat sig = n" "0 < n" "x = y * pow2 e" "real n \<le> y" "y < real n + 1"
    and "sticky \<longleftrightarrow> y \<noteq> real n" "sticky \<Longrightarrow> 2 ^ fp f \<le> n"
  shows "holds f sig e sticky x"
proof -
  have "sig \<noteq> 0" using assms(1,2) by auto
  moreover have "real n * pow2 e < x \<and> x < (real n + 1) * pow2 e" if sticky
    using that assms(4-6) unfolding assms(3) by (auto intro!: mult_strict_right_mono)
  ultimately show ?thesis using assms by (auto simp: holds_def simp del: of_nat_unat)
qed

lemma sig_lt_53: "fmt f \<Longrightarrow> n < 2 ^ fp f \<Longrightarrow> (n :: nat) < 2 ^ 53"
  using power_increasing[of "fp f" 53 "2 :: nat"] fmt_facts(2)[of f] by linarith

lemma mul_finite:
  assumes "fmt f" "unpacked_wf f a" "unpacked_wf f b" "u_class a = ClFinite" "u_class b = ClFinite"
  shows "correctly_rounded f m (u_sign a \<noteq> u_sign b) (uval a * uval b)
    (round_pack (u_sign a \<noteq> u_sign b) (u_sig a * u_sig b) (u_exp a + u_exp b) False f m)"
proof -
  note a = uval_facts[OF assms(2,4)] and b = uval_facts[OF assms(3,5)]
  have "unat (u_sig a) * unat (u_sig b) < 2 ^ 53 * 2 ^ 53"
    using sig_lt_53[OF assms(1)] a(5) b(5) by (intro mult_strict_mono) auto
  have u: "unat (u_sig a * u_sig b) = unat (u_sig a) * unat (u_sig b)"
  proof -
    have "(2 :: nat) ^ 53 * 2 ^ 53 \<le> 2 ^ LENGTH(128)" by simp
    then show ?thesis
      unfolding unat_word_ariths(2) using \<open>unat (u_sig a) * unat (u_sig b) < _\<close>
      by (intro mod_less) (rule less_le_trans)
  qed
  have h: "holds f (u_sig a * u_sig b) (u_exp a + u_exp b) False \<bar>uval a * uval b\<bar>"
    using a(4) b(4) unfolding holds_def abs_mult a(3) b(3) pow2_add
    by (simp add: u del: of_nat_unat flip: unat_eq_0)
  have "(uval a * uval b < 0) = (u_sign a \<noteq> u_sign b)"
    using a(1,2) b(1,2) by (auto simp: mult_less_0_iff)
  then show ?thesis using rounded_signed[OF assms(1) h, of m] by (simp only:)
qed

lemma norm_to_63:
  assumes "(sig :: u128) \<noteq> 0" "unat sig < 2 ^ 53"
  obtains n where "norm_to_63 sig e = (of_nat n, e - int (64 - bit_len (unat sig)))"
    and "2 ^ 63 \<le> n" "n < 2 ^ 64" "n = unat sig * 2 ^ (64 - bit_len (unat sig))"
proof -
  define L where "L = bit_len (unat sig)"
  have n: "unat sig \<noteq> 0" using assms(1) by (simp add: unat_eq_0)
  have L: "1 \<le> L" "L \<le> 53" "2 ^ (L - 1) \<le> unat sig" "unat sig < 2 ^ L"
    using bit_len_pos[OF n] bit_len_le[OF assms(2)] bit_len_bounds[OF n] by (auto simp: L_def)
  define n where "n = unat sig * 2 ^ (64 - L)"
  have "(2 :: nat) ^ (L - 1) * 2 ^ (64 - L) \<le> n" "n < 2 ^ L * 2 ^ (64 - L)"
    using L(3,4) by (simp_all add: n_def)
  moreover have "L - 1 + (64 - L) = 63" "L + (64 - L) = 64" using L(1,2) by simp_all
  ultimately have b: "2 ^ 63 \<le> n" "n < 2 ^ 64" by (simp_all only: flip: power_add)
  have "int (leading_zeros sig) - 64 = int (64 - L)"
    using used_bits[OF assms(1)] L(2) by (simp add: L_def of_nat_diff)
  moreover have "shl sig (64 - L) = of_nat n"
  proof -
    have "unat (shl sig (64 - L)) = n" using b(2) unfolding n_def by (intro unat_shl) simp
    then show ?thesis by (metis of_nat_unat ucast_id)
  qed
  ultimately show ?thesis
    using b by (intro that[of n]) (simp_all add: norm_to_63_def L_def n_def)
qed

lemma sig_ge_of_64: "fmt f \<Longrightarrow> 2 ^ 62 \<le> n \<Longrightarrow> 2 ^ fp f \<le> (n :: nat)"
  using power_increasing[of "fp f" 62 "2 :: nat"] fmt_facts(2)[of f] by linarith

lemma div_finite_correct:
  assumes "fmt f" "unpacked_wf f a" "unpacked_wf f b" "u_class a = ClFinite" "u_class b = ClFinite"
  shows "correctly_rounded f m (u_sign a \<noteq> u_sign b) (uval a / uval b)
    (div_finite (u_sign a \<noteq> u_sign b) a b f m)"
proof -
  note a = uval_facts[OF assms(2,4)] and b = uval_facts[OF assms(3,5)]
  obtain n where n: "norm_to_63 (u_sig a) (u_exp a) =
      (of_nat n, u_exp a - int (64 - bit_len (unat (u_sig a))))" "2 ^ 63 \<le> n" "n < 2 ^ 64"
    "n = unat (u_sig a) * 2 ^ (64 - bit_len (unat (u_sig a)))"
    using norm_to_63[of "u_sig a" "u_exp a"] a(4) sig_lt_53[OF assms(1) a(5)] by (metis unat_0 less_irrefl)
  obtain d where d: "norm_to_63 (u_sig b) (u_exp b) =
      (of_nat d, u_exp b - int (64 - bit_len (unat (u_sig b))))" "2 ^ 63 \<le> d" "d < 2 ^ 64"
    "d = unat (u_sig b) * 2 ^ (64 - bit_len (unat (u_sig b)))"
    using norm_to_63[of "u_sig b" "u_exp b"] b(4) sig_lt_53[OF assms(1) b(5)] by (metis unat_0 less_irrefl)
  define ea where "ea = u_exp a - int (64 - bit_len (unat (u_sig a)))"
  define eb where "eb = u_exp b - int (64 - bit_len (unat (u_sig b)))"
  have va: "\<bar>uval a\<bar> = of_nat n * pow2 ea" "\<bar>uval b\<bar> = of_nat d * pow2 eb"
    unfolding a(3) b(3) ea_def eb_def pow2_diff pow2_nat n(4) d(4) by (simp_all del: of_nat_unat)
  define num where "num = n * 2 ^ 64"
  have bounds: "num < 2 ^ 128" "0 < d" "d < 2 ^ 128" using n(3) d(2,3) by (simp_all add: num_def)
  have un: "unat (of_nat n :: u128) = n" "unat (of_nat d :: u128) = d"
    using n(3) d(3) by (auto intro!: unat_of_nat_lt elim: less_trans)
  have unum: "unat (shl (of_nat n :: u128) 64) = num"
    unfolding num_def using bounds(1) un(1) by (subst unat_shl) (simp_all add: num_def)
  define q where "q = shl (of_nat n :: u128) 64 div of_nat d"
  have uq: "unat q = num div d" "unat (shl (of_nat n :: u128) 64 mod of_nat d) = num mod d"
    by (simp_all only: q_def unat_div unat_mod_distrib unum un)
  define x where "x = \<bar>uval a / uval b\<bar>"
  have x: "x = real num / real d * pow2 (ea - eb - 64)"
    unfolding x_def abs_divide va num_def pow2_diff by (simp add: pow2_def)
  have q62: "2 ^ 62 \<le> num div d"
  proof -
    have "2 ^ 62 * d \<le> num" using d(3) n(2) by (simp add: num_def)
    then show ?thesis using bounds(2) by (simp add: less_eq_div_iff_mult_less_eq)
  qed
  have fl: "real (num div d) \<le> real num / real d" "real num / real d < real (num div d) + 1"
    "(num mod d \<noteq> 0) = (real num / real d \<noteq> real (num div d))"
  proof -
    have r: "real num = real (num div d) * real d + real (num mod d)"
      by (metis div_mult_mod_eq of_nat_add of_nat_mult)
    have "real (num mod d) < real d" using bounds(2) by simp
    then show "real (num div d) \<le> real num / real d" "real num / real d < real (num div d) + 1"
      "(num mod d \<noteq> 0) = (real num / real d \<noteq> real (num div d))"
      using bounds(2) r by (simp_all add: pos_le_divide_eq pos_divide_less_eq nonzero_divide_eq_eq algebra_simps)
  qed
  have "holds f q (ea - eb - 64) (num mod d \<noteq> 0) x"
    by (rule holdsI[OF uq(1) _ x fl sig_ge_of_64[OF assms(1) q62]]) (use q62 in simp)
  moreover have "(uval a / uval b < 0) = (u_sign a \<noteq> u_sign b)"
    using a(1,2) b(1,2) by (auto simp: divide_less_0_iff)
  moreover have "div_finite (u_sign a \<noteq> u_sign b) a b f m =
      round_pack (u_sign a \<noteq> u_sign b) q (ea - eb - 64) (num mod d \<noteq> 0) f m"
  proof -
    have "(shl (of_nat n :: u128) 64 mod of_nat d \<noteq> 0) = (num mod d \<noteq> 0)"
      by (simp only: uq(2) flip: unat_eq_0)
    then show ?thesis
      by (simp only: div_finite_def n(1) d(1) Let_def prod.case ea_def eb_def q_def)
  qed
  ultimately show ?thesis
    using rounded_signed[OF assms(1), of q "ea - eb - 64" "num mod d \<noteq> 0" "uval a / uval b" m]
    unfolding x_def by (simp only:)
qed

lemma sqrt_finite_correct:
  assumes "fmt f" "unpacked_wf f a" "u_class a = ClFinite" "\<not> u_sign a"
  shows "correctly_rounded f m False (sqrt (uval a)) (sqrt_finite a f m)"
proof -
  note a = uval_facts[OF assms(2,3)]
  obtain n where n: "norm_to_63 (u_sig a) (u_exp a) =
      (of_nat n, u_exp a - int (64 - bit_len (unat (u_sig a))))" "2 ^ 63 \<le> n" "n < 2 ^ 64"
    "n = unat (u_sig a) * 2 ^ (64 - bit_len (unat (u_sig a)))"
    using norm_to_63[of "u_sig a" "u_exp a"] a(4) sig_lt_53[OF assms(1) a(5)] by (metis unat_0 less_irrefl)
  define e0 where "e0 = u_exp a - int (64 - bit_len (unat (u_sig a)))"
  define j where "j = (if odd e0 then 63 else 62 :: nat)"
  define N where "N = n * 2 ^ j"
  define e1 where "e1 = (if odd e0 then e0 - 1 else e0)"
  have "even e1" by (simp add: e1_def)
  then obtain h where h: "e1 = 2 * h" by (rule evenE)
  have va: "uval a = of_nat n * pow2 e0"
    using a(2,3) assms(4) unfolding e0_def pow2_diff pow2_nat n(4) by (simp del: of_nat_unat)
  have NV: "uval a = of_nat N * pow2 (2 * (h - 31))"
  proof -
    have "e0 = int j + 2 * (h - 31)" using h by (auto simp: e1_def j_def split: if_splits)
    then show ?thesis by (simp only: va N_def pow2_add pow2_nat) simp
  qed
  have bounds: "N < 2 ^ 128" "2 ^ 124 \<le> N"
    using n(2,3) by (auto simp: N_def j_def)
  define q where "q = (of_nat (isqrt N) :: u128)"
  note iN = isqrt_bounds[of N]
  have iq: "isqrt N < 2 ^ 64" "2 ^ 62 \<le> isqrt N"
  proof -
    have "(isqrt N) ^ 2 < (2 ^ 64) ^ 2" using iN bounds(1) by (simp add: power2_eq_square)
    then show "isqrt N < 2 ^ 64" by (rule power2_less_imp_less) simp
    have "(2 ^ 62) ^ 2 < (isqrt N + 1) ^ 2" using iN bounds(2) by (simp add: power2_eq_square)
    then have "2 ^ 62 < isqrt N + 1" by (rule power2_less_imp_less) simp
    then show "2 ^ 62 \<le> isqrt N" by simp
  qed
  have uq: "unat q = isqrt N" unfolding q_def using iq(1) by (intro unat_of_nat_lt) simp
  have uqq: "unat (q * q) = isqrt N * isqrt N"
    unfolding unat_word_ariths(2) uq using iN bounds(1) by (intro mod_less) simp
  define m1 where "m1 = (if odd e0 then shl (of_nat n :: u128) 1 else of_nat n)"
  define w where "w = shl m1 62"
  have uw: "unat w = N"
  proof -
    have un: "unat (of_nat n :: u128) = n" using n(3) by (intro unat_of_nat_lt) simp
    have "unat m1 = n * (if odd e0 then 2 else 1)"
      using n(3) unat_shl[of "of_nat n :: u128" 1] by (simp add: m1_def un del: push_bit_Suc)
    then show ?thesis
      using n(3) unat_shl[of m1 62] by (simp add: w_def N_def j_def)
  qed
  have se: "sqrt_finite a f m = round_pack False q (h - 31) (isqrt N * isqrt N \<noteq> N) f m"
  proof -
    have "(q * q \<noteq> w) = (isqrt N * isqrt N \<noteq> N)" by (metis uqq uw unsigned_word_eqI)
    moreover have "e1 div 2 - 31 = h - 31" by (simp add: h)
    moreover have pr: "(if odd e0 then (shl (of_nat n :: u128) 1, e0 - 1) else (of_nat n, e0)) = (m1, e1)"
      by (simp add: m1_def e1_def)
    ultimately show ?thesis
      unfolding sqrt_finite_def n(1) Let_def prod.case e0_def[symmetric]
      by (simp only: pr prod.case w_def[symmetric] uw q_def[symmetric])
  qed
  have y: "real (isqrt N) \<le> sqrt (real N)" "sqrt (real N) < real (isqrt N) + 1"
    "(isqrt N * isqrt N \<noteq> N) = (sqrt (real N) \<noteq> real (isqrt N))"
  proof -
    have "real (isqrt N * isqrt N) \<le> real N" "real N < real ((isqrt N + 1) * (isqrt N + 1))"
      "(isqrt N * isqrt N = N) = (real N = real (isqrt N * isqrt N))"
      using iN by (simp_all only: of_nat_le_iff of_nat_less_iff of_nat_eq_iff eq_commute)
    then have r: "(real (isqrt N))\<^sup>2 \<le> real N" "real N < (real (isqrt N) + 1)\<^sup>2"
      "(isqrt N * isqrt N = N) = (real N = (real (isqrt N))\<^sup>2)"
      by (simp_all add: power2_eq_square algebra_simps)
    show "real (isqrt N) \<le> sqrt (real N)" using r(1) by (rule real_le_rsqrt)
    show "sqrt (real N) < real (isqrt N) + 1" using r(2) by (intro real_less_lsqrt) simp_all
    show "(isqrt N * isqrt N \<noteq> N) = (sqrt (real N) \<noteq> real (isqrt N))"
    proof -
      have "real (isqrt N) = sqrt ((real (isqrt N))\<^sup>2)" by simp
      then have "(sqrt (real N) = real (isqrt N)) = (real N = (real (isqrt N))\<^sup>2)"
        by (metis real_sqrt_eq_iff)
      then show ?thesis using r(3) by blast
    qed
  qed
  have "sqrt (uval a) = sqrt (real N) * pow2 (h - 31)"
  proof -
    have "pow2 (2 * (h - 31)) = (pow2 (h - 31))\<^sup>2"
      unfolding mult_2 pow2_add power2_eq_square ..
    then show ?thesis unfolding NV by (simp add: real_sqrt_mult)
  qed
  then have "holds f q (h - 31) (isqrt N * isqrt N \<noteq> N) (sqrt (uval a))"
    by (intro holdsI[OF uq _ _ y sig_ge_of_64[OF assms(1) iq(2)]]) (use iq(2) in simp_all)
  then show ?thesis using round_pack_rounds[OF assms(1), of q "h - 31" _ _ m False] se by simp
qed

section \<open>Addition\<close>

text \<open>The smaller operand, aligned to the larger one's exponent minus the guard: its integer part
  and whether anything was left behind.\<close>

lemma align_low_correct:
  assumes "0 < unat sig" "unat sig < 2 ^ 53" "0 \<le> diff"
    and y: "y = real (unat sig) * pow2 (64 - diff)"
  obtains lo where "align_low sig diff = (of_nat lo, y \<noteq> real lo)" "lo < 2 ^ 117"
    "real lo \<le> y" "y < real lo + 1" "y \<noteq> real lo \<Longrightarrow> lo < 2 ^ 53"
proof (cases "diff \<le> 64")
  case True
  define k where "k = nat (64 - diff)"
  have k: "64 - diff = int k" "k \<le> 64" using True assms(3) by (auto simp: k_def)
  have lt: "unat sig * 2 ^ k < 2 ^ 117"
  proof -
    have "unat sig * 2 ^ k < 2 ^ 53 * 2 ^ k" using assms(2) by simp
    also have "\<dots> \<le> 2 ^ 117" unfolding power_add[symmetric] using k(2) by (intro power_increasing) auto
    finally show ?thesis .
  qed
  have "unat (shl sig k) = unat sig * 2 ^ k" using lt by (intro unat_shl) simp
  then have "shl sig k = of_nat (unat sig * 2 ^ k)" by (metis of_nat_unat ucast_id)
  moreover have "y = real (unat sig * 2 ^ k)" by (simp add: y k(1) pow2_nat)
  ultimately show ?thesis
    using that[of "unat sig * 2 ^ k"] lt True by (simp add: align_low_def GUARD_def k_def)
next
  case False
  define k where "k = nat (diff - 64)"
  define D where "D = (2 :: nat) ^ k"
  have k: "64 - diff = - int k" "1 \<le> k" "0 < D" using False by (auto simp: k_def D_def)
  have yD: "y = real (unat sig) / real D"
    by (simp add: y k(1) pow2_def D_def power_int_minus divide_inverse del: of_nat_unat)
  note fl = floor_div_pow[of "unat sig" "real (unat sig)" D, OF _ _ k(3)]
  have f1: "\<lfloor>y\<rfloor> = int (unat sig div D)" and f2: "y - of_int \<lfloor>y\<rfloor> = real (unat sig mod D) / real D"
    using fl unfolding yD by (simp_all del: of_nat_unat)
  have b: "real (unat sig div D) \<le> y" "y < real (unat sig div D) + 1"
    "(y \<noteq> real (unat sig div D)) = (unat sig mod D \<noteq> 0)"
  proof -
    have g: "y - real (unat sig div D) = real (unat sig mod D) / real D"
      using f2 unfolding f1 by simp
    then have "(y = real (unat sig div D)) = (real (unat sig mod D) / real D = 0)"
      by (metis eq_iff_diff_eq_0)
    then show "(y \<noteq> real (unat sig div D)) = (unat sig mod D \<noteq> 0)" using k(3) by simp
    show "real (unat sig div D) \<le> y" "y < real (unat sig div D) + 1" using f1 by linarith+
  qed
  have "align_low sig diff = (of_nat (unat sig div D), y \<noteq> real (unat sig div D))"
  proof (cases "128 \<le> k")
    case True
    have "unat sig < D" unfolding D_def
      using unat_u128[of sig] power_increasing[OF True, of "2 :: nat"] by simp
    then show ?thesis using True False b(3) assms(1) by (simp add: align_low_def GUARD_def k_def)
  next
    case k128: False
    have "shr sig k = of_nat (unat sig div D)" by (metis D_def unat_shr of_nat_unat ucast_id)
    moreover have "(sig AND (shl 1 k - 1) \<noteq> 0) = (y \<noteq> real (unat sig div D))"
      unfolding b(3) unfolding D_def by (rule and_low_bits)
    ultimately show ?thesis using k128 False
      by (simp add: align_low_def GUARD_def k_def[symmetric] Let_def del: push_bit_of_1)
  qed
  moreover have "unat sig div D < 2 ^ 53" using assms(2) div_le_dividend le_less_trans by blast
  ultimately show ?thesis using that[of "unat sig div D"] b by simp
qed

lemma unat_of_nat_118: "n < 2 ^ 118 \<Longrightarrow> unat (of_nat n :: u128) = n"
  by (rule unat_of_nat_lt) simp

lemma add_aligned:
  assumes "fmt f" "unpacked_wf f hi" "unpacked_wf f lo" "u_class hi = ClFinite" "u_class lo = ClFinite"
    and "u_exp lo \<le> u_exp hi" and x: "x = uval hi + uval lo"
    and r: "r = (let diff = u_exp hi - u_exp lo; target_exp = u_exp hi - GUARD;
          hi_scaled = shl (u_sig hi) (nat GUARD);
          (lo_scaled, sticky) = align_low (u_sig lo) diff
      in if u_sign hi = u_sign lo
         then round_pack (u_sign hi) (hi_scaled + lo_scaled) target_exp sticky f m
         else if sticky then round_pack (u_sign hi) (hi_scaled - lo_scaled - 1) target_exp True f m
         else if hi_scaled = lo_scaled then zero_of (m = TowardMinusInf) f
         else
           let (sign, mag) =
             (if hi_scaled > lo_scaled then (u_sign hi, hi_scaled - lo_scaled)
              else (u_sign lo, lo_scaled - hi_scaled))
           in round_pack sign mag target_exp False f m)"
  shows "if x = 0 then u_sign hi \<noteq> u_sign lo \<and> r = zero_of (m = TowardMinusInf) f
    else correctly_rounded f m (x < 0) x r"
proof -
  note h = uval_facts[OF assms(2,4)] and l = uval_facts[OF assms(3,5)]
  define t where "t = u_exp hi - GUARD"
  define y where "y = real (unat (u_sig lo)) * pow2 (64 - (u_exp hi - u_exp lo))"
  obtain n where n: "align_low (u_sig lo) (u_exp hi - u_exp lo) = (of_nat n, y \<noteq> real n)" "n < 2 ^ 117"
    "real n \<le> y" "y < real n + 1" "y \<noteq> real n \<Longrightarrow> n < 2 ^ 53"
    using align_low_correct[OF l(4) sig_lt_53[OF assms(1) l(5)] _ y_def] assms(6) by auto
  define H where "H = unat (u_sig hi) * 2 ^ 64"
  have H: "H < 2 ^ 117" "2 ^ 64 \<le> H"
    using h(4) sig_lt_53[OF assms(1) h(5)] by (simp_all add: H_def)
  have uH: "unat (shl (u_sig hi) (nat GUARD)) = H"
    using H(1) unat_shl[of "u_sig hi" 64] by (simp add: H_def GUARD_def del: push_bit_numeral)
  have un: "unat (of_nat n :: u128) = n" using n(2) by (intro unat_of_nat_118) simp
  define hs where "hs = shl (u_sig hi) (nat GUARD)"
  have vh: "\<bar>uval hi\<bar> = real H * pow2 t"
    unfolding h(3) H_def t_def GUARD_def pow2_diff by (simp add: pow2_def del: of_nat_unat)
  have vl: "\<bar>uval lo\<bar> = y * pow2 t"
  proof -
    have "pow2 (64 - (u_exp hi - u_exp lo)) * pow2 t = pow2 (u_exp lo)"
      unfolding pow2_add[symmetric] t_def GUARD_def by simp
    then show ?thesis unfolding l(3) y_def mult.assoc by simp
  qed
  have r': "r = (if u_sign hi = u_sign lo then round_pack (u_sign hi) (hs + of_nat n) t (y \<noteq> real n) f m
         else if y \<noteq> real n then round_pack (u_sign hi) (hs - of_nat n - 1) t True f m
         else if hs = of_nat n then zero_of (m = TowardMinusInf) f
         else if hs > of_nat n then round_pack (u_sign hi) (hs - of_nat n) t False f m
         else round_pack (u_sign lo) (of_nat n - hs) t False f m)"
    unfolding r Let_def n(1) prod.case hs_def[symmetric] t_def[symmetric] by simp
  note uhs = uH[folded hs_def]
  have pos: "0 < real H * pow2 t" "0 < y * pow2 t" using h(1) l(1) vh vl by auto
  have sv: "uval hi = (if u_sign hi then - (real H * pow2 t) else real H * pow2 t)"
    "uval lo = (if u_sign lo then - (y * pow2 t) else y * pow2 t)"
    using h(2) l(2) vh vl by (auto simp: abs_if split: if_splits)
  have fin: "if x = 0 then u_sign hi \<noteq> u_sign lo \<and> r = zero_of (m = TowardMinusInf) f
      else correctly_rounded f m (x < 0) x r"
    if "r = round_pack s sig t st f m" "unat sig = k" "0 < k" "\<bar>x\<bar> = z * pow2 t" "real k \<le> z"
      "z < real k + 1" "st = (z \<noteq> real k)" "st \<Longrightarrow> 2 ^ 62 \<le> k" "(x < 0) = s" for s sig st k z
  proof -
    have "holds f sig t st \<bar>x\<bar>"
      by (rule holdsI[OF that(2-7)]) (rule sig_ge_of_64[OF assms(1) that(8)])
    moreover have "x \<noteq> 0" using that(3-5) pow2_pos(2)[of t] by auto
    ultimately show ?thesis using rounded_signed[OF assms(1), of sig t st x m] that(1,9) by simp
  qed
  show ?thesis
  proof (cases "u_sign hi = u_sign lo")
    case True
    have "unat (hs + of_nat n) = H + n"
      unfolding unat_word_ariths(1) uhs un using H(1) n(2) by (intro mod_less) simp
    moreover have xe: "x = (if u_sign hi then - ((real H + y) * pow2 t) else (real H + y) * pow2 t)"
      using True by (simp add: x sv algebra_simps)
    moreover have p: "0 < (real H + y) * pow2 t" using pos by (simp add: algebra_simps)
    ultimately show ?thesis
      using True n(3,4) signed_value[OF p xe] H(2) r' by (intro fin[of "u_sign hi" "hs + of_nat n" "y \<noteq> real n" "H + n" "real H + y"]) auto
  next
    case False
    have xd: "x = (if u_sign hi then - ((real H - y) * pow2 t) else (real H - y) * pow2 t)"
      using False by (auto simp: x sv algebra_simps)
    have xl: "x = (if u_sign lo then - ((y - real H) * pow2 t) else (y - real H) * pow2 t)"
      using False by (auto simp: x sv algebra_simps)
    have g: "\<bar>x\<bar> = (real H - y) * pow2 t \<and> (x < 0) = u_sign hi" if "0 < real H - y"
      using signed_value[OF mult_pos_pos[OF that pow2_pos(1)] xd] by blast
    have g': "\<bar>x\<bar> = (y - real H) * pow2 t \<and> (x < 0) = u_sign lo" if "0 < y - real H"
      using signed_value[OF mult_pos_pos[OF that pow2_pos(1)] xl] by blast
    show ?thesis
    proof (cases "y = real n")
      case nst: False
      have k: "2 ^ 62 \<le> H - n - 1" "n + 1 \<le> H" using n(5)[OF nst] H(2) by simp_all
      have "of_nat n \<le> hs" unfolding word_le_nat_alt un uhs using k(2) by simp
      then have d: "unat (hs - of_nat n) = H - n" by (simp only: unat_sub un uhs)
      have "1 \<le> hs - of_nat n" unfolding word_le_nat_alt d using k(2) by simp
      then have "unat (hs - of_nat n - 1) = H - n - 1" by (simp only: unat_sub d unat_1)
      moreover have "real (H - n - 1) = real H - real n - 1" using k(2) by (simp add: of_nat_diff)
      moreover have "y < real n + 1" "real n < y" "0 < real H - y"
        using n(3,4) nst k(2) by (auto simp: of_nat_diff)
      ultimately show ?thesis
        using False nst k r' g
        by (intro fin[of "u_sign hi" "hs - of_nat n - 1" True "H - n - 1" "real H - y"]) auto
    next
      case yn: True
      consider "H = n" | "n < H" | "H < n" by linarith
      then show ?thesis
      proof cases
        case 1
        then have "hs = of_nat n" using uhs un by (metis unsigned_word_eqI)
        then show ?thesis using False yn 1 r' xd by simp
      next
        case 2
        then have lt: "of_nat n < hs" by (simp only: word_less_nat_alt un uhs)
        then have "unat (hs - of_nat n) = H - n" by (simp only: unat_sub un uhs less_imp_le)
        then show ?thesis
          using False yn 2 lt r' g
          by (intro fin[of "u_sign hi" "hs - of_nat n" False "H - n" "real H - y"]) (auto simp: of_nat_diff)
      next
        case 3
        then have lt: "hs < of_nat n" by (simp only: word_less_nat_alt un uhs)
        then have "unat (of_nat n - hs) = n - H" by (simp only: unat_sub un uhs less_imp_le)
        then show ?thesis
          using False yn 3 lt r' g'
          by (intro fin[of "u_sign lo" "of_nat n - hs" False "n - H" "y - real H"]) (auto simp: of_nat_diff)
      qed
    qed
  qed
qed

lemma add_finite_correct:
  assumes "fmt f" "unpacked_wf f a" "unpacked_wf f b" "u_class a = ClFinite" "u_class b = ClFinite"
  shows "if uval a + uval b = 0
    then u_sign a \<noteq> u_sign b \<and> add_finite a b f m = zero_of (m = TowardMinusInf) f
    else correctly_rounded f m (uval a + uval b < 0) (uval a + uval b) (add_finite a b f m)"
proof (cases "u_exp b \<le> u_exp a")
  case True
  show ?thesis
    by (rule add_aligned[OF assms True refl]) (simp only: add_finite_def if_P[OF True] Let_def prod.case)
next
  case False
  then have le: "u_exp a \<le> u_exp b" by simp
  show ?thesis
    using add_aligned[OF assms(1,3,2,5,4) le add.commute refl, of m]
    by (simp only: add_finite_def if_not_P[OF False] Let_def prod.case) (simp only: eq_commute)
qed

section \<open>Whole operations on finite operands\<close>

lemma zero_signs: "uval a = (if u_sign a then - 1 else 1) * real (unat (u_sig a)) * pow2 (u_exp a)"
  by (simp add: uval_def)

lemma round_pack_uval:
  assumes "fmt g" "unpacked_wf f a" "u_class a = ClFinite" "uval a = x"
  shows "correctly_rounded g m (u_sign a) x (round_pack (u_sign a) (u_sig a) (u_exp a) False g m)"
proof -
  note u = uval_facts[OF assms(2,3)]
  have "holds g (u_sig a) (u_exp a) False \<bar>x\<bar>"
    by (rule holdsI[OF refl u(4) u(3)[unfolded assms(4)]]) simp_all
  then show ?thesis using rounded_signed[OF assms(1)] u(2) unfolding assms(4) by metis
qed

lemma add_unpacked_correct:
  assumes "fmt f" "unpacked_wf f a" "unpacked_wf f b"
    and "u_class a = (if uval a = 0 then ClZero else ClFinite)"
    and "u_class b = (if uval b = 0 then ClZero else ClFinite)"
    and x: "x = uval a + uval b"
  shows "if x = 0
    then add_unpacked a b f m = zero_of (if u_sign a = u_sign b then u_sign a else m = TowardMinusInf) f
    else correctly_rounded f m (x < 0) x (add_unpacked a b f m)"
proof -
  consider "uval a = 0" "uval b = 0" | "uval a = 0" "uval b \<noteq> 0" | "uval a \<noteq> 0" "uval b = 0"
    | "uval a \<noteq> 0" "uval b \<noteq> 0" by blast
  then show ?thesis
  proof cases
    case 1
    then show ?thesis using assms(4-6) by (simp add: add_unpacked_def)
  next
    case 2
    then have c: "u_class a = ClZero" "u_class b = ClFinite" "uval b = x" using assms(4-6) by simp_all
    note u = uval_facts[OF assms(3) c(2)]
    show ?thesis
      using round_pack_uval[OF assms(1,3) c(2,3), of m] u(1,2) unfolding c(3)
      by (simp add: add_unpacked_def c)
  next
    case 3
    then have c: "u_class b = ClZero" "u_class a = ClFinite" "uval a = x" using assms(4-6) by simp_all
    note u = uval_facts[OF assms(2) c(2)]
    show ?thesis
      using round_pack_uval[OF assms(1,2) c(2,3), of m] u(1,2) unfolding c(3)
      by (simp add: add_unpacked_def c)
  next
    case 4
    then have c: "u_class a = ClFinite" "u_class b = ClFinite" using assms(4,5) by simp_all
    then have "add_unpacked a b f m = add_finite a b f m" by (simp add: add_unpacked_def)
    then show ?thesis using add_finite_correct[OF assms(1-3) c, of m] by (simp add: x split: if_splits)
  qed
qed

lemma sf_add_rounds:
  assumes "fmt f" "finite_bits f a" "finite_bits f b" and x: "x = fval f a + fval f b"
  shows "if x = 0
    then sf_add a b f m = zero_of (if fneg f a = fneg f b then fneg f a else m = TowardMinusInf) f
    else correctly_rounded f m (x < 0) x (sf_add a b f m)"
proof -
  note u = unpack_fields[OF assms(1)]
  have c: "u_class (unpack b f) = (if uval (unpack b f) = 0 then ClZero else ClFinite)"
    if "finite_bits f b" for b
    unfolding u(3)[OF that] by (rule u(4)[OF that])
  have v: "x = uval (unpack a f) + uval (unpack b f)" unfolding u(3)[OF assms(2)] u(3)[OF assms(3)] x ..
  show ?thesis
    using add_unpacked_correct[OF assms(1) u(2) u(2) c[OF assms(2)] c[OF assms(3)] v, of m]
    unfolding u(1) sf_add_def .
qed

lemma sf_sub_rounds:
  assumes "fmt f" "finite_bits f a" "finite_bits f b" and x: "x = fval f a - fval f b"
  shows "if x = 0
    then sf_sub a b f m = zero_of (if fneg f a = fneg f b then m = TowardMinusInf else fneg f a) f
    else correctly_rounded f m (x < 0) x (sf_sub a b f m)"
proof -
  let ?b = "(unpack b f)\<lparr>u_sign := \<not> u_sign (unpack b f)\<rparr>"
  note u = unpack_fields[OF assms(1)]
  have vb: "uval ?b = - fval f b" using u(3)[OF assms(3)] by (simp add: uval_def split: if_splits)
  have w: "unpacked_wf f ?b" using u(2)[of b] by (simp add: unpacked_wf_def)
  have ca: "u_class (unpack a f) = (if uval (unpack a f) = 0 then ClZero else ClFinite)"
    unfolding u(3)[OF assms(2)] by (rule u(4)[OF assms(2)])
  have cb: "u_class ?b = (if uval ?b = 0 then ClZero else ClFinite)"
    unfolding vb using u(4)[OF assms(3)] by simp
  have v: "x = uval (unpack a f) + uval ?b" unfolding vb u(3)[OF assms(2)] x by simp
  have z: "(if u_sign (unpack a f) = u_sign ?b then u_sign (unpack a f) else m = TowardMinusInf) =
      (if fneg f a = fneg f b then m = TowardMinusInf else fneg f a)"
    by (simp add: u(1))
  show ?thesis
    using add_unpacked_correct[OF assms(1) u(2) w ca cb v, of m] unfolding z
    by (simp only: sf_sub_def Let_def)
qed

lemma sf_mul_rounds:
  assumes "fmt f" "finite_bits f a" "finite_bits f b" and x: "x = fval f a * fval f b"
  shows "if x = 0 then sf_mul a b f m = zero_of (fneg f a \<noteq> fneg f b) f
    else correctly_rounded f m (fneg f a \<noteq> fneg f b) x (sf_mul a b f m)"
proof -
  note u = unpack_fields[OF assms(1)]
  show ?thesis
    using mul_finite[OF assms(1) u(2)[of a] u(2)[of b], of m] u(1,3,4) assms(2-4)
    by (auto simp: sf_mul_def Let_def)
qed

lemma sf_div_rounds:
  assumes "fmt f" "finite_bits f a" "finite_bits f b"
  shows "if fval f b = 0
    then sf_div a b f m = (if fval f a = 0 then invalid_of f
      else \<lparr>r_bits = r_bits (inf_of (fneg f a \<noteq> fneg f b) f), r_flags = flags_none\<lparr>div_by_zero := True\<rparr>\<rparr>)
    else if fval f a = 0 then sf_div a b f m = zero_of (fneg f a \<noteq> fneg f b) f
    else correctly_rounded f m (fneg f a \<noteq> fneg f b) (fval f a / fval f b) (sf_div a b f m)"
proof -
  note u = unpack_fields[OF assms(1)]
  show ?thesis
    using div_finite_correct[OF assms(1) u(2)[of a] u(2)[of b], of m] u(1,3,4) assms(2,3)
    by (auto simp: sf_div_def Let_def)
qed

lemma sf_sqrt_rounds:
  assumes "fmt f" "finite_bits f a"
  shows "if fval f a = 0 then sf_sqrt a f m = zero_of (fneg f a) f
    else if fval f a < 0 then sf_sqrt a f m = invalid_of f
    else correctly_rounded f m False (sqrt (fval f a)) (sf_sqrt a f m)"
proof -
  note u = unpack_fields[OF assms(1)]
  show ?thesis
    using sqrt_finite_correct[OF assms(1) u(2)[of a], of m] u(1,3,4) assms(2)
      uval_facts[OF u(2)[of a]]
    by (auto simp: sf_sqrt_def Let_def)
qed

lemma sf_convert_rounds:
  assumes "fmt f" "fmt g" "finite_bits f a"
  shows "if fval f a = 0 then sf_convert a f g m = zero_of (fneg f a) g
    else correctly_rounded g m (fneg f a) (fval f a) (sf_convert a f g m)"
proof -
  note u = unpack_fields[OF assms(1)]
  show ?thesis
    using round_pack_uval[OF assms(2) u(2)[of a], of "fval f a" m] u(1,3,4) assms(3)
    by (auto simp: sf_convert_def Let_def)
qed

lemma from_int_rounds:
  assumes "fmt f"
  shows "if v = 0 then from_int v f m = zero_of False f
    else correctly_rounded f m (sint v < 0) (of_int (sint v)) (from_int v f m)"
proof (cases "v = 0")
  case True
  then show ?thesis by (simp add: from_int_def)
next
  case False
  define n where "n = nat \<bar>sint v\<bar>"
  have "sint v \<noteq> 0" using False by (metis signed_0 sint_eq_imp_eq)
  moreover have "\<bar>sint v\<bar> \<le> 2 ^ 63" using sint_in_range[of v] by (auto simp: abs_if)
  ultimately have n: "0 < n" "n < 2 ^ 128" by (auto simp: n_def nat_less_iff)
  have "(word_of_int \<bar>sint v\<bar> :: u128) = of_nat n" by (simp add: n_def)
  moreover have "unat (of_nat n :: u128) = n" using n(2) by (intro unat_of_nat_lt) simp
  ultimately have h: "holds f (word_of_int \<bar>sint v\<bar>) 0 False \<bar>real_of_int (sint v)\<bar>"
    using n(1) by (intro holdsI[of _ n _ "real n"]) (auto simp: n_def)
  show ?thesis
    using False rounded_signed[OF assms h, of m] unfolding of_int_less_0_iff
    by (simp only: from_int_def if_False)
qed

section \<open>The rounding function against the representable numbers\<close>

text \<open>No finite number lies strictly between the two neighbours that \<open>fround\<close> chooses from.\<close>

lemma fval_grid:
  assumes "fmt f"
  obtains k e where "\<bar>fval f b\<bar> = real k * pow2 e" "k < 2 ^ fp f" "min_lsb_exp f \<le> e"
proof (cases "fexpo f b = 0")
  case True
  have "fman f b < 2 ^ fp f"
    using unpack_words(2)[OF assms, of b] by (rule less_le_trans) (simp add: power_increasing)
  then show ?thesis using that[of "fman f b" "min_lsb_exp f"] True by (simp add: fval_def abs_mult)
next
  case False
  have "(2 :: nat) ^ fp f = 2 * 2 ^ (fp f - 1)" using fmt_facts(1)[OF assms] by (simp flip: power_Suc)
  then have "2 ^ (fp f - 1) + fman f b < 2 ^ fp f" using unpack_words(2)[OF assms, of b] by simp
  then show ?thesis
    using that[of "2 ^ (fp f - 1) + fman f b" "int (fexpo f b) - 1 + min_lsb_exp f"] False
    by (simp add: fval_def abs_mult)
qed

lemma no_number_between:
  assumes "fmt f" "x \<noteq> 0"
  defines "q \<equiv> \<bar>x\<bar> / pow2 (cexp f x)"
  shows "\<bar>fval f b\<bar> \<le> of_int \<lfloor>q\<rfloor> * pow2 (cexp f x) \<or> of_int \<lceil>q\<rceil> * pow2 (cexp f x) \<le> \<bar>fval f b\<bar>"
proof -
  define c where "c = cexp f x"
  obtain k e where v: "\<bar>fval f b\<bar> = real k * pow2 e" "k < 2 ^ fp f" "min_lsb_exp f \<le> e"
    by (rule fval_grid[OF assms(1)])
  show ?thesis unfolding c_def[symmetric]
  proof (cases "c \<le> e")
    case True
    define z where "z = int k * 2 ^ nat (e - c)"
    have "e = c + int (nat (e - c))" using True by simp
    then have "pow2 e = pow2 c * 2 ^ nat (e - c)" by (metis pow2_add pow2_nat)
    then have vz: "\<bar>fval f b\<bar> = of_int z * pow2 c" by (simp add: v(1) z_def)
    have "z \<le> \<lfloor>q\<rfloor> \<or> \<lceil>q\<rceil> \<le> z" by linarith
    then show "\<bar>fval f b\<bar> \<le> of_int \<lfloor>q\<rfloor> * pow2 c \<or> of_int \<lceil>q\<rceil> * pow2 c \<le> \<bar>fval f b\<bar>"
      unfolding vz by (auto intro: mult_right_mono)
  next
    case False
    then have c: "c = \<lfloor>log 2 \<bar>x\<bar>\<rfloor> + 1 - int (fp f)" using v(3) unfolding c_def cexp_def by linarith
    have "2 powr of_int \<lfloor>log 2 \<bar>x\<bar>\<rfloor> \<le> \<bar>x\<bar>"
      using assms(2) by (simp add: powr_le_iff)
    then have "pow2 (c + int (fp f) - 1) \<le> \<bar>x\<bar>"
      unfolding c pow2_def by (simp add: powr_real_of_int')
    then have "pow2 (int (fp f - 1)) \<le> q"
      unfolding q_def c_def[symmetric] using fmt_facts(1)[OF assms(1)]
      by (simp add: pos_le_divide_eq of_nat_diff flip: pow2_add) (simp add: algebra_simps)
    then have "2 ^ (fp f - 1) \<le> \<lfloor>q\<rfloor>" by (simp add: pow2_nat le_floor_iff)
    then have fl: "pow2 (int (fp f - 1) + c) \<le> of_int \<lfloor>q\<rfloor> * pow2 c"
      unfolding pow2_add pow2_nat by (intro mult_right_mono) (simp_all flip: of_int_le_iff)
    have "real k \<le> pow2 (int (fp f))" using v(2) by (simp add: pow2_nat)
    then have "\<bar>fval f b\<bar> \<le> pow2 (int (fp f) + e)" unfolding v(1) pow2_add by (intro mult_right_mono) simp_all
    also have "\<dots> \<le> pow2 (int (fp f - 1) + c)"
      using False fmt_facts(1)[OF assms(1)] by (simp add: pow2_le_iff of_nat_diff)
    finally show "\<bar>fval f b\<bar> \<le> of_int \<lfloor>q\<rfloor> * pow2 c \<or> of_int \<lceil>q\<rceil> * pow2 c \<le> \<bar>fval f b\<bar>"
      using fl by linarith
  qed
qed

definition best :: "fmt_desc \<Rightarrow> rounding \<Rightarrow> real \<Rightarrow> real \<Rightarrow> bool" where
  "best f m x y \<longleftrightarrow> (\<forall>b. let v = fval f b in
     case m of
       Nearest \<Rightarrow> \<bar>y - x\<bar> \<le> \<bar>v - x\<bar>
     | TowardZero \<Rightarrow> \<bar>y\<bar> \<le> \<bar>x\<bar> \<and> 0 \<le> y * x \<and> (\<bar>v\<bar> \<le> \<bar>x\<bar> \<longrightarrow> \<bar>v\<bar> \<le> \<bar>y\<bar>)
     | TowardPlusInf \<Rightarrow> x \<le> y \<and> (x \<le> v \<longrightarrow> y \<le> v)
     | TowardMinusInf \<Rightarrow> y \<le> x \<and> (v \<le> x \<longrightarrow> v \<le> y))"

lemma fround_best:
  assumes "fmt f" "x \<noteq> 0"
  shows "best f m x (fround f m x)"
proof -
  define c where "c = cexp f x"
  define q where "q = \<bar>x\<bar> / pow2 c"
  define a where "a = of_int \<lfloor>q\<rfloor> * pow2 c"
  define b where "b = of_int \<lceil>q\<rceil> * pow2 c"
  have xq: "\<bar>x\<bar> = q * pow2 c" "0 \<le> q" by (simp_all add: q_def)
  have ab: "0 \<le> a" "a \<le> \<bar>x\<bar>" "\<bar>x\<bar> \<le> b"
    unfolding xq(1) a_def b_def using xq(2) by (auto intro: mult_right_mono)
  have eq: "a = b" if "\<bar>x\<bar> = a \<or> \<bar>x\<bar> = b"
  proof -
    have "q = of_int \<lfloor>q\<rfloor> \<or> q = of_int \<lceil>q\<rceil>" using that by (simp add: xq(1) a_def b_def)
    then have "\<lfloor>q\<rfloor> = \<lceil>q\<rceil>" by (metis ceiling_of_int floor_of_int)
    then show ?thesis by (simp add: a_def b_def)
  qed
  have nb: "\<bar>fval f v\<bar> \<le> a \<or> b \<le> \<bar>fval f v\<bar>" for v
    using no_number_between[OF assms] unfolding a_def b_def q_def c_def by blast
  define y where "y = fround f m x"
  have y: "y = sgn x * (of_int (round_mag m (x < 0) q) * pow2 c)"
    using assms(2) by (simp add: y_def fround_def c_def q_def)
  have ne: "\<bar>\<bar>y\<bar> - \<bar>x\<bar>\<bar> \<le> \<bar>a - \<bar>x\<bar>\<bar> \<and> \<bar>\<bar>y\<bar> - \<bar>x\<bar>\<bar> \<le> \<bar>b - \<bar>x\<bar>\<bar>" if "m = Nearest"
  proof -
    have "0 \<le> round_even q" using xq(2) by (simp add: round_even_def Let_def)
    then have "\<bar>y\<bar> = of_int (round_even q) * pow2 c"
      using assms(2) that by (simp add: y abs_mult round_mag_def abs_sgn_eq)
    then have e: "\<bar>y\<bar> - \<bar>x\<bar> = (of_int (round_even q) - q) * pow2 c" by (simp add: xq(1) algebra_simps)
    have e': "a - \<bar>x\<bar> = (of_int \<lfloor>q\<rfloor> - q) * pow2 c" "b - \<bar>x\<bar> = (of_int \<lceil>q\<rceil> - q) * pow2 c"
      by (simp_all add: a_def b_def xq(1) algebra_simps)
    have "\<bar>of_int (round_even q) - q\<bar> \<le> \<bar>of_int \<lfloor>q\<rfloor> - q\<bar> \<and> \<bar>of_int (round_even q) - q\<bar> \<le> \<bar>of_int \<lceil>q\<rceil> - q\<bar>"
      unfolding round_even_def Let_def by (auto simp: ceiling_altdef split: if_splits)
    then show ?thesis unfolding e e' abs_mult by (auto intro: mult_right_mono)
  qed
  have sx: "sgn x = (if x < 0 then - 1 else 1)" using assms(2) by simp
  have yd: "m = TowardZero \<Longrightarrow> y = sgn x * a" "m = TowardPlusInf \<Longrightarrow> y = (if x < 0 then - a else b)"
    "m = TowardMinusInf \<Longrightarrow> y = (if x < 0 then - b else a)"
    unfolding y sx by (simp_all add: round_mag_def a_def b_def)
  have yx: "0 \<le> y * x"
  proof -
    have "0 \<le> round_mag m (x < 0) q" using xq(2) by (rule round_mag_nonneg)
    then have "0 \<le> \<bar>x\<bar> * (of_int (round_mag m (x < 0) q) * pow2 c)" by simp
    then show ?thesis unfolding y by (simp add: abs_sgn mult_ac)
  qed
  have "(let v = fval f v in
     case m of
       Nearest \<Rightarrow> \<bar>y - x\<bar> \<le> \<bar>v - x\<bar>
     | TowardZero \<Rightarrow> \<bar>y\<bar> \<le> \<bar>x\<bar> \<and> 0 \<le> y * x \<and> (\<bar>v\<bar> \<le> \<bar>x\<bar> \<longrightarrow> \<bar>v\<bar> \<le> \<bar>y\<bar>)
     | TowardPlusInf \<Rightarrow> x \<le> y \<and> (x \<le> v \<longrightarrow> y \<le> v)
     | TowardMinusInf \<Rightarrow> y \<le> x \<and> (v \<le> x \<longrightarrow> v \<le> y))" for v
  proof (cases m)
    case Nearest
    have "\<bar>y - x\<bar> = \<bar>\<bar>y\<bar> - \<bar>x\<bar>\<bar>"
      using yx assms(2) by (auto simp: zero_le_mult_iff abs_if)
    then show ?thesis using ne[OF Nearest] nb[of v] ab unfolding Nearest by simp linarith
  next
    case TowardZero
    then show ?thesis
      using yd(1)[OF TowardZero] yx nb[of v] ab eq by (auto simp: sx abs_mult Let_def)
  next
    case TowardPlusInf
    then show ?thesis using yd(2)[OF TowardPlusInf] nb[of v] ab eq assms(2)
      by (cases "x < 0"; simp add: Let_def; linarith)
  next
    case TowardMinusInf
    then show ?thesis using yd(3)[OF TowardMinusInf] nb[of v] ab eq assms(2)
      by (cases "x < 0"; simp add: Let_def; linarith)
  qed
  then show ?thesis unfolding best_def y_def[symmetric] by blast
qed

section \<open>Properties\<close>

text \<open>C6. On finite operands, single and double precision, in all four rounding modes, addition,
  subtraction, multiplication, division and square root return the exact real result rounded
  once, with exactly the overflow, underflow and inexact flags that rounding calls for; an exact
  zero takes the sign IEEE 754 gives it, a nonzero value over zero is a flagged infinity, and zero
  over zero and the root of a negative number are invalid.\<close>

theorem arithmetic_correctly_rounded:
  assumes "fmt f" "finite_bits f a" "finite_bits f b"
  shows "let u = fval f a; v = fval f b; s = (fneg f a \<noteq> fneg f b) in
    (if u + v = 0
     then sf_add a b f m = zero_of (if fneg f a = fneg f b then fneg f a else m = TowardMinusInf) f
     else correctly_rounded f m (u + v < 0) (u + v) (sf_add a b f m)) \<and>
    (if u - v = 0
     then sf_sub a b f m = zero_of (if fneg f a = fneg f b then m = TowardMinusInf else fneg f a) f
     else correctly_rounded f m (u - v < 0) (u - v) (sf_sub a b f m)) \<and>
    (if u * v = 0 then sf_mul a b f m = zero_of s f
     else correctly_rounded f m s (u * v) (sf_mul a b f m)) \<and>
    (if v = 0 then sf_div a b f m = (if u = 0 then invalid_of f
       else \<lparr>r_bits = r_bits (inf_of s f), r_flags = flags_none\<lparr>div_by_zero := True\<rparr>\<rparr>)
     else if u = 0 then sf_div a b f m = zero_of s f
     else correctly_rounded f m s (u / v) (sf_div a b f m)) \<and>
    (if u = 0 then sf_sqrt a f m = zero_of (fneg f a) f
     else if u < 0 then sf_sqrt a f m = invalid_of f
     else correctly_rounded f m False (sqrt u) (sf_sqrt a f m))"
  using sf_add_rounds[OF assms refl] sf_sub_rounds[OF assms refl] sf_mul_rounds[OF assms refl]
    sf_div_rounds[OF assms] sf_sqrt_rounds[OF assms(1,2)]
  unfolding Let_def by (intro conjI)

theorem arithmetic_correctly_rounded_witness:
  "correctly_rounded F32 Nearest False (1 / 3) (sf_div 0x3F800000 0x40400000 F32 Nearest)"
proof -
  have f: "fmt F32" by (simp add: fmt_def)
  have b: "fneg F32 0x3F800000 = False" "fneg F32 0x40400000 = False" "fexpo F32 0x3F800000 = 127"
    "fexpo F32 0x40400000 = 128" "fman F32 0x3F800000 = 0" "fman F32 0x40400000 = 0x400000"
    by (simp_all add: fneg_def fexpo_def fman_def F32_def)
  have v: "fval F32 0x3F800000 = 1" "fval F32 0x40400000 = 3"
    unfolding fval_def b by (simp_all add: min_lsb_exp_def man_bits_def F32_def pow2_def power_int_def
      power_one_over)
  have "finite_bits F32 0x3F800000" "finite_bits F32 0x40400000"
    unfolding finite_bits_def b by (simp_all add: F32_def)
  from arithmetic_correctly_rounded[OF f this, of Nearest] show ?thesis
    by (simp add: v b)
qed

text \<open>C30. Converting between the formats, and from a signed 64-bit integer, returns the value
  rounded once into the target format with the matching flags, and is exact on zero.\<close>

theorem conversions_correctly_rounded:
  assumes "fmt f" "fmt g" "finite_bits f a"
  shows "(if fval f a = 0 then sf_convert a f g m = zero_of (fneg f a) g
      else correctly_rounded g m (fneg f a) (fval f a) (sf_convert a f g m)) \<and>
    (if v = 0 then from_int v g m = zero_of False g
      else correctly_rounded g m (sint v < 0) (of_int (sint v)) (from_int v g m))"
  using sf_convert_rounds[OF assms, of m] from_int_rounds[OF assms(2), of v m] by (intro conjI)

theorem conversions_correctly_rounded_witness:
  "correctly_rounded F32 TowardZero True (- 3) (from_int (- 3) F32 TowardZero)"
proof -
  have f: "fmt F64" "fmt F32" by (simp_all add: fmt_def)
  have b: "finite_bits F64 0" by code_simp
  have "sint (- 3 :: u64) = - 3" "(- 3 :: u64) \<noteq> 0" by simp_all
  then show ?thesis
    using conversions_correctly_rounded[OF f b, of TowardZero "- 3"] by simp
qed

text \<open>C11. Whatever exact value a significand, exponent and sticky bit stand for, the packed result
  is the IEEE choice among all the finite numbers of the format: no number is nearer to it (to
  nearest), and none lies between the value and the result (the directed modes). A result beyond
  the largest finite number is the overflow result of the mode, and inexact is raised exactly
  when the result differs from the value.\<close>

theorem round_pack_refines_ieee:
  assumes "fmt f" "holds f sig e sticky \<bar>x\<bar>"
  shows "let r = round_pack (x < 0) sig e sticky f m in
    if \<bar>fround f m x\<bar> < pow2 (fbias f + 1)
    then finite_bits f (r_bits r) \<and> best f m x (fval f (r_bits r)) \<and>
      inexact (r_flags r) = (fval f (r_bits r) \<noteq> x) \<and> \<not> overflow (r_flags r)
    else r = overflowed (x < 0) f m"
proof -
  have "x \<noteq> 0" using holds_binade(1)[OF assms(2)] by simp
  then show ?thesis
    using rounded_signed[OF assms, of m] fround_best[OF assms(1), of x m]
    by (auto simp: correctly_rounded_def Let_def flags_none_def split: if_splits)
qed

theorem round_pack_refines_ieee_witness:
  "best F64 TowardPlusInf 5 (fval F64 (r_bits (round_pack False 5 0 False F64 TowardPlusInf)))"
proof -
  have f: "fmt F64" by (simp add: fmt_def)
  have h: "holds F64 5 0 False \<bar>5\<bar>" by (simp add: holds_def)
  have "\<not> overflow (r_flags (round_pack False 5 0 False F64 TowardPlusInf))" by code_simp
  then have "round_pack (5 < (0 :: real)) 5 0 False F64 TowardPlusInf \<noteq>
      overflowed (5 < (0 :: real)) F64 TowardPlusInf"
    by (auto simp: overflowed_def Let_def)
  then show ?thesis
    using round_pack_refines_ieee[OF f h, of TowardPlusInf] by (simp add: Let_def split: if_splits)
qed

end
