(* ===== verification/Fpr.thy ===== *)
theory Fpr
  imports Prelude
begin

text \<open>
  The floating-point register file and the coprocessor-1 control register:
  \<^verbatim>\<open>rustyn64-cpu/src/fpr.rs\<close> and \<^verbatim>\<open>cop1.rs\<close>. With \<open>Status.FR\<close> clear the odd registers are the
  upper halves of the even ones for moves and loads, while the arithmetic unit writes whole
  physical registers; \<open>read_s_fs\<close> and \<open>read_s_ft\<close> differ in the same way.
\<close>

section \<open>Register file\<close>

record fpr =
  fgr :: "u64 list"

definition fpr_new :: fpr where
  "fpr_new = \<lparr>fgr = replicate 32 0\<rparr>"

definition fidx :: "u8 \<Rightarrow> nat" where
  "fidx n = unat (n AND 31)"

definition even_of :: "nat \<Rightarrow> nat" where
  "even_of i = i - i mod 2"

definition read_s :: "fpr \<Rightarrow> u8 \<Rightarrow> bool \<Rightarrow> u32" where
  "read_s p n fr =
     (let i = fidx n
      in if fr then to_u32 (fgr p ! i)
         else if odd i then to_u32 (shr (fgr p ! even_of i) 32)
         else to_u32 (fgr p ! i))"

definition write_s :: "u8 \<Rightarrow> bool \<Rightarrow> u32 \<Rightarrow> fpr \<Rightarrow> fpr" where
  "write_s n fr v p =
     (let i = fidx n
      in if \<not> fr \<and> odd i then
           let e = even_of i
           in p\<lparr>fgr := (fgr p)[e := (fgr p ! e AND 0xFFFFFFFF) OR shl (to_u64 v) 32]\<rparr>
         else
           let e = (if fr then i else even_of i)
           in p\<lparr>fgr := (fgr p)[e := (fgr p ! e AND 0xFFFFFFFF00000000) OR to_u64 v]\<rparr>)"

definition write_s_arith :: "u8 \<Rightarrow> bool \<Rightarrow> u32 \<Rightarrow> fpr \<Rightarrow> fpr" where
  "write_s_arith n fr v p = p\<lparr>fgr := (fgr p)[fidx n := to_u64 v]\<rparr>"

definition read_s_fs :: "fpr \<Rightarrow> u8 \<Rightarrow> bool \<Rightarrow> u32" where
  "read_s_fs p n fr = (let i = fidx n in to_u32 (fgr p ! (if fr then i else even_of i)))"

definition read_s_ft :: "fpr \<Rightarrow> u8 \<Rightarrow> bool \<Rightarrow> u32" where
  "read_s_ft p n fr = to_u32 (fgr p ! fidx n)"

definition read_d_fs :: "fpr \<Rightarrow> u8 \<Rightarrow> bool \<Rightarrow> u64" where
  "read_d_fs p n fr = (let i = fidx n in fgr p ! (if fr then i else even_of i))"

definition read_d_ft :: "fpr \<Rightarrow> u8 \<Rightarrow> bool \<Rightarrow> u64" where
  "read_d_ft p n fr = fgr p ! fidx n"

definition write_d_arith :: "u8 \<Rightarrow> bool \<Rightarrow> u64 \<Rightarrow> fpr \<Rightarrow> fpr" where
  "write_d_arith n fr v p = p\<lparr>fgr := (fgr p)[fidx n := v]\<rparr>"

definition read_d :: "fpr \<Rightarrow> u8 \<Rightarrow> bool \<Rightarrow> u64" where
  "read_d p n fr = (let i = fidx n in fgr p ! (if fr then i else even_of i))"

definition write_d :: "u8 \<Rightarrow> bool \<Rightarrow> u64 \<Rightarrow> fpr \<Rightarrow> fpr" where
  "write_d n fr v p = (let i = fidx n in p\<lparr>fgr := (fgr p)[(if fr then i else even_of i) := v]\<rparr>)"

definition read_raw :: "fpr \<Rightarrow> u8 \<Rightarrow> u64" where
  "read_raw p n = fgr p ! fidx n"

definition write_raw :: "u8 \<Rightarrow> u64 \<Rightarrow> fpr \<Rightarrow> fpr" where
  "write_raw n v p = p\<lparr>fgr := (fgr p)[fidx n := v]\<rparr>"

definition fpr_wf :: "fpr \<Rightarrow> bool" where
  "fpr_wf p \<longleftrightarrow> length (fgr p) = 32"

lemma fidx_lt [simp]: "fidx n < 32"
  by (simp add: fidx_def unat_and_31)

lemma even_of_lt [simp]: "even_of (fidx n) < 32"
  using fidx_lt[of n] by (simp add: even_of_def less_imp_diff_less)

lemma even_of_cases: "even i \<Longrightarrow> even_of i = i" "odd i \<Longrightarrow> even_of i = i - 1"
  by (simp_all add: even_of_def mod_2_eq_odd)

lemma fpr_ops_wf [invlib]:
  "fpr_wf fpr_new"
  "fpr_wf p \<Longrightarrow> fpr_wf (write_s n fr v p)"
  "fpr_wf p \<Longrightarrow> fpr_wf (write_s_arith n fr v p)"
  "fpr_wf p \<Longrightarrow> fpr_wf (write_d_arith n fr w p)"
  "fpr_wf p \<Longrightarrow> fpr_wf (write_d n fr w p)"
  "fpr_wf p \<Longrightarrow> fpr_wf (write_raw n w p)"
  by (simp_all add: fpr_wf_def fpr_new_def write_s_def write_s_arith_def write_d_arith_def
      write_d_def write_raw_def Let_def)

section \<open>Halves of a register\<close>

lemma write_low_half:
  "to_u32 ((w AND 0xFFFFFFFF00000000) OR to_u64 v) = (v :: u32)"
  "to_u32 (shr ((w AND 0xFFFFFFFF00000000) OR to_u64 v) 32) = to_u32 (shr (w :: u64) 32)"
proof -
  have m: "(0xFFFFFFFF00000000 :: u64) = shl (mask 32) 32" by (simp add: mask_eq_exp_minus_1)
  show "to_u32 ((w AND 0xFFFFFFFF00000000) OR to_u64 v) = v"
    "to_u32 (shr ((w AND 0xFFFFFFFF00000000) OR to_u64 v) 32) = to_u32 (shr w 32)"
    unfolding m by (rule bit_word_eqI; auto simp: bit_word_simps dest: bit_imp_le_length)+
qed

lemma write_high_half:
  "to_u32 ((w AND 0xFFFFFFFF) OR shl (to_u64 v) 32) = to_u32 (w :: u64)"
  "to_u32 (shr ((w AND 0xFFFFFFFF) OR shl (to_u64 v) 32) 32) = (v :: u32)"
proof -
  have m: "(0xFFFFFFFF :: u64) = mask 32" by (simp add: mask_eq_exp_minus_1)
  show "to_u32 ((w AND 0xFFFFFFFF) OR shl (to_u64 v) 32) = to_u32 w"
    "to_u32 (shr ((w AND 0xFFFFFFFF) OR shl (to_u64 v) 32) 32) = v"
    unfolding m by (rule bit_word_eqI; auto simp: bit_word_simps dest: bit_imp_le_length)+
qed

lemma fpr_read_write_s:
  assumes "fpr_wf p"
  shows "read_s (write_s n fr v p) k fr = (if fidx k = fidx n then v else read_s p k fr)"
proof (cases fr)
  case True
  then show ?thesis
    using assms by (simp add: read_s_def write_s_def Let_def fpr_wf_def nth_list_update write_low_half)
next
  case False
  have l: "fidx n < length (fgr p)" "fidx k < length (fgr p)" "fidx n - 1 < length (fgr p)"
    using assms fidx_lt[of n] fidx_lt[of k] by (simp_all add: fpr_wf_def less_imp_diff_less)
  consider "even (fidx n)" "even (fidx k)" | "even (fidx n)" "odd (fidx k)"
    | "odd (fidx n)" "even (fidx k)" | "odd (fidx n)" "odd (fidx k)" by blast
  then show ?thesis
  proof cases
    case 1
    then show ?thesis
      using False l by (simp add: read_s_def write_s_def Let_def even_of_cases nth_list_update write_low_half)
  next
    case 2
    then have "fidx k \<noteq> fidx n" by auto
    then show ?thesis
      using 2 False l write_low_half(2)[of "fgr p ! (fidx k - 1)" v] by (simp add: read_s_def write_s_def Let_def even_of_cases nth_list_update write_low_half)
  next
    case 3
    then have "fidx k \<noteq> fidx n" by auto
    then show ?thesis
      using 3 False l by (simp add: read_s_def write_s_def Let_def even_of_cases nth_list_update write_high_half)
  next
    case 4
    then have "(fidx n - 1 = fidx k - 1) = (fidx n = fidx k)" by (auto elim!: oddE)
    then show ?thesis
      using 4 False l write_high_half(2)[of "fgr p ! (fidx n - 1)" v] by (simp add: read_s_def write_s_def Let_def even_of_cases nth_list_update write_high_half)
  qed
qed

lemma fpr_pair:
  assumes "even (fidx n)" "fidx k = fidx n + 1"
  shows "read_d p n False = word_cat (read_s p k False) (read_s p n False)"
    and "read_d p k False = read_d p n False"
  using assms by (simp_all add: read_d_def read_s_def Let_def even_of_cases halves64)

lemma fpr_read_write_d:
  assumes "fpr_wf p"
  shows "read_d (write_d n fr v p) n fr = v"
  using assms by (simp add: read_d_def write_d_def Let_def fpr_wf_def)

text \<open>C31. With \<open>Status.FR\<close> clear an even register and its odd neighbour are the halves of one 64-bit
  register: two single writes build the double their values make, a double write splits into the two
  singles, and a single write changes no other single register.\<close>

theorem fpr_pairs_alias:
  assumes "fpr_wf p" "even (fidx n)" "fidx k = fidx n + 1"
  shows "read_d (write_s k False hi (write_s n False lo p)) n False = word_cat hi lo \<and>
    read_s (write_d n False v p) n False = to_u32 v \<and> read_s (write_d n False v p) k False = to_u32 (shr v 32) \<and>
    (fidx j \<noteq> fidx n \<longrightarrow> read_s (write_s n False lo p) j False = read_s p j False)"
proof -
  have ne: "fidx n \<noteq> fidx k" using assms(3) by simp
  have wf: "fpr_wf (write_s n False lo p)" using assms(1) by (rule fpr_ops_wf)
  have "read_d (write_s k False hi (write_s n False lo p)) n False = word_cat hi lo"
    using fpr_pair(1)[OF assms(2,3), of "write_s k False hi (write_s n False lo p)"]
    by (simp add: fpr_read_write_s[OF wf] fpr_read_write_s[OF assms(1)] ne)
  moreover have "read_s (write_d n False v p) n False = to_u32 v" "read_s (write_d n False v p) k False = to_u32 (shr v 32)"
    using assms fidx_lt[of n] by (simp_all add: read_s_def write_d_def Let_def even_of_cases fpr_wf_def)
  ultimately show ?thesis by (simp add: fpr_read_write_s[OF assms(1)])
qed

lemma fpr_pairs_alias_witness:
  "read_d (write_s 5 False 0x11112222 (write_s 4 False 0x33334444 fpr_new)) 4 False = word_cat (0x11112222 :: u32) (0x33334444 :: u32)"
  using fpr_pairs_alias[of fpr_new 4 5 "0x11112222" "0x33334444" 0 0] fpr_ops_wf(1) by (simp add: fidx_def)

section \<open>Control register\<close>

definition FCR0_REVISION :: u32 where "FCR0_REVISION = 0x0A00"
definition FCSR_MASK :: u32 where "FCSR_MASK = 0x0183FFFF"

record cop1_control =
  fcsr :: u32

definition cop1_new :: cop1_control where
  "cop1_new = \<lparr>fcsr = 0\<rparr>"

definition cfc1 :: "cop1_control \<Rightarrow> u8 \<Rightarrow> u32" where
  "cfc1 c fs = (if fs = 0 then FCR0_REVISION else if fs = 31 then fcsr c else 0)"

definition ctc1 :: "u8 \<Rightarrow> u32 \<Rightarrow> cop1_control \<Rightarrow> cop1_control" where
  "ctc1 fs v c = (if fs = 31 then c\<lparr>fcsr := v AND FCSR_MASK\<rparr> else c)"

definition flush_denorm_to_zero :: "cop1_control \<Rightarrow> bool" where
  "flush_denorm_to_zero c = (fcsr c AND shl 1 24 \<noteq> 0)"

definition rounding_mode :: "cop1_control \<Rightarrow> u8" where
  "rounding_mode c = to_u8 (fcsr c AND 3)"

definition enables :: "cop1_control \<Rightarrow> u32" where
  "enables c = shr (fcsr c) 7 AND 0x1F"

end
