(* ===== verification/Fpu.thy ===== *)
theory Fpu
  imports Softfloat_Ops
begin

text \<open>
  The floating-point unit's helpers: \<^verbatim>\<open>rustyn64-cpu/src/fpu.rs\<close>. A Rust \<^verbatim>\<open>f32\<close> or \<^verbatim>\<open>f64\<close> is its bit
  pattern, so \<^verbatim>\<open>to_bits\<close> and \<^verbatim>\<open>from_bits\<close> are the identity. The few operations the code leaves to
  the host (comparison, a sum or difference of doubles, the casts between integers and doubles)
  are the language's IEEE arithmetic, round to nearest, and are given by the operations of
  \<open>Softfloat\<close>, which \<open>Softfloat_Ops\<close> proves to be that.
\<close>

type_synonym f32 = u32
type_synonym f64 = u64

section \<open>Host arithmetic on doubles\<close>

definition f64_is_nan :: "f64 \<Rightarrow> bool" where
  "f64_is_nan b \<longleftrightarrow> \<not> finite_bits F64 b \<and> fman F64 b \<noteq> 0"

definition f64_is_finite :: "f64 \<Rightarrow> bool" where
  "f64_is_finite b \<longleftrightarrow> finite_bits F64 b"

definition f32_is_nan :: "f32 \<Rightarrow> bool" where
  "f32_is_nan b \<longleftrightarrow> \<not> finite_bits F32 (to_u64 b) \<and> fman F32 (to_u64 b) \<noteq> 0"

text \<open>Sign and magnitude as an integer: numbers compare as their keys do, both zeros being 0.\<close>

definition f64_key :: "f64 \<Rightarrow> int" where
  "f64_key b = (if bit b 63 then - 1 else 1) * uint (take_bit 63 b)"

definition f32_key :: "f32 \<Rightarrow> int" where
  "f32_key b = (if bit b 31 then - 1 else 1) * uint (take_bit 31 b)"

definition f64_lt :: "f64 \<Rightarrow> f64 \<Rightarrow> bool" where
  "f64_lt a b \<longleftrightarrow> \<not> f64_is_nan a \<and> \<not> f64_is_nan b \<and> f64_key a < f64_key b"

definition f64_le :: "f64 \<Rightarrow> f64 \<Rightarrow> bool" where
  "f64_le a b \<longleftrightarrow> \<not> f64_is_nan a \<and> \<not> f64_is_nan b \<and> f64_key a \<le> f64_key b"

definition f64_eq :: "f64 \<Rightarrow> f64 \<Rightarrow> bool" where
  "f64_eq a b \<longleftrightarrow> \<not> f64_is_nan a \<and> \<not> f64_is_nan b \<and> f64_key a = f64_key b"

definition f32_lt :: "f32 \<Rightarrow> f32 \<Rightarrow> bool" where
  "f32_lt a b \<longleftrightarrow> \<not> f32_is_nan a \<and> \<not> f32_is_nan b \<and> f32_key a < f32_key b"

definition f32_eq :: "f32 \<Rightarrow> f32 \<Rightarrow> bool" where
  "f32_eq a b \<longleftrightarrow> \<not> f32_is_nan a \<and> \<not> f32_is_nan b \<and> f32_key a = f32_key b"

definition f64_add :: "f64 \<Rightarrow> f64 \<Rightarrow> f64" where
  "f64_add a b = r_bits (sf_add a b F64 Nearest)"

definition f64_sub :: "f64 \<Rightarrow> f64 \<Rightarrow> f64" where
  "f64_sub a b = r_bits (sf_sub a b F64 Nearest)"

definition f64_of_i64 :: "u64 \<Rightarrow> f64" where
  "f64_of_i64 v = r_bits (from_int v F64 Nearest)"

definition f64_of_i32 :: "u32 \<Rightarrow> f64" where
  "f64_of_i32 v = f64_of_i64 (scast v)"

definition f64_of_f32 :: "f32 \<Rightarrow> f64" where
  "f64_of_f32 v = r_bits (sf_convert (to_u64 v) F32 F64 Nearest)"

definition f32_of_f64 :: "f64 \<Rightarrow> f32" where
  "f32_of_f64 v = to_u32 (r_bits (sf_convert v F64 F32 Nearest))"

text \<open>The saturating cast to a signed integer of \<open>w\<close> bits: truncation, NaN to zero.\<close>

definition f64_trunc_int :: "f64 \<Rightarrow> int" where
  "f64_trunc_int b =
     (let u = unpack b F64; s = (if u_sign u then - 1 else 1)
      in s * (if u_exp u \<ge> 0 then uint (u_sig u) * 2 ^ nat (u_exp u)
              else uint (u_sig u) div 2 ^ nat (- u_exp u)))"

definition f64_cast :: "nat \<Rightarrow> f64 \<Rightarrow> int" where
  "f64_cast w b =
     (let mx = 2 ^ (w - 1) - 1; mn = - (2 ^ (w - 1))
      in case u_class (unpack b F64) of
           ClNan \<Rightarrow> 0
         | ClInf \<Rightarrow> (if fneg F64 b then mn else mx)
         | _ \<Rightarrow> min mx (max mn (f64_trunc_int b)))"

definition f64_to_i64 :: "f64 \<Rightarrow> u64" where
  "f64_to_i64 b = word_of_int (f64_cast 64 b)"

definition f64_to_i32 :: "f64 \<Rightarrow> u32" where
  "f64_to_i32 b = word_of_int (f64_cast 32 b)"

definition f64_one :: f64 where "f64_one = 0x3FF0000000000000"
definition f64_half :: f64 where "f64_half = 0x3FE0000000000000"

section \<open>Flags, modes and results\<close>

datatype stepping = Fixed | Early

definition has_mul_erratum :: "stepping \<Rightarrow> bool" where
  "has_mul_erratum s = (s = Early)"

definition mul_erratum_triggers :: "f64 \<Rightarrow> f64 \<Rightarrow> bool" where
  "mul_erratum_triggers a b =
     (let suspicious = (\<lambda>v. f64_is_nan v \<or> f64_key v = 0 \<or> u_class (unpack v F64) = ClInf)
      in suspicious a \<or> suspicious b)"

definition to_fcsr_bits :: "flags \<Rightarrow> u32" where
  "to_fcsr_bits f =
     (if invalid f then shl 1 16 OR shl 1 6 else 0) OR
     (if div_by_zero f then shl 1 15 OR shl 1 5 else 0) OR
     (if overflow f then shl 1 14 OR shl 1 4 else 0) OR
     (if underflow f then shl 1 13 OR shl 1 3 else 0) OR
     (if inexact f then shl 1 12 OR shl 1 2 else 0)"

definition rounding_from_rm :: "u8 \<Rightarrow> rounding" where
  "rounding_from_rm rm =
     (let k = rm AND 3
      in if k = 1 then TowardZero else if k = 2 then TowardPlusInf
         else if k = 3 then TowardMinusInf else Nearest)"

record 'a outcome =
  oc_value :: 'a
  oc_flags :: flags

section \<open>Classification\<close>

definition is_snan_f32 :: "f32 \<Rightarrow> bool" where
  "is_snan_f32 b \<longleftrightarrow> b AND 0x7F800000 = 0x7F800000 \<and> b AND 0x00400000 \<noteq> 0"

definition is_snan_f64 :: "f64 \<Rightarrow> bool" where
  "is_snan_f64 b \<longleftrightarrow> b AND 0x7FF0000000000000 = 0x7FF0000000000000 \<and> b AND 0x0008000000000000 \<noteq> 0"

definition is_subnormal_f32 :: "f32 \<Rightarrow> bool" where
  "is_subnormal_f32 b \<longleftrightarrow> b AND 0x7F800000 = 0 \<and> b AND 0x007FFFFF \<noteq> 0"

definition is_subnormal_f64 :: "f64 \<Rightarrow> bool" where
  "is_subnormal_f64 b \<longleftrightarrow> b AND 0x7FF0000000000000 = 0 \<and> b AND 0x000FFFFFFFFFFFFF \<noteq> 0"

definition is_unimplemented_nan_f32 :: "f32 \<Rightarrow> bool" where
  "is_unimplemented_nan_f32 b \<longleftrightarrow>
     b AND 0x7F800000 = 0x7F800000 \<and> b AND 0x007FFFFF \<noteq> 0 \<and> b AND 0x00400000 = 0"

definition is_unimplemented_nan_f64 :: "f64 \<Rightarrow> bool" where
  "is_unimplemented_nan_f64 b \<longleftrightarrow>
     b AND 0x7FF0000000000000 = 0x7FF0000000000000 \<and> b AND 0x000FFFFFFFFFFFFF \<noteq> 0 \<and>
     b AND 0x0008000000000000 = 0"

definition arith_unimplemented_s :: "f32 \<Rightarrow> f32 \<Rightarrow> bool" where
  "arith_unimplemented_s a b \<longleftrightarrow> is_subnormal_f32 a \<or> is_subnormal_f32 b \<or>
     is_unimplemented_nan_f32 a \<or> is_unimplemented_nan_f32 b"

definition arith_unimplemented_d :: "f64 \<Rightarrow> f64 \<Rightarrow> bool" where
  "arith_unimplemented_d a b \<longleftrightarrow> is_subnormal_f64 a \<or> is_subnormal_f64 b \<or>
     is_unimplemented_nan_f64 a \<or> is_unimplemented_nan_f64 b"

definition flushes_away_from_zero :: "bool \<Rightarrow> rounding \<Rightarrow> bool" where
  "flushes_away_from_zero negative m =
     (case m of Nearest \<Rightarrow> False | TowardZero \<Rightarrow> False
      | TowardPlusInf \<Rightarrow> \<not> negative | TowardMinusInf \<Rightarrow> negative)"

definition flush_subnormal_f32 :: "f32 \<Rightarrow> rounding \<Rightarrow> f32" where
  "flush_subnormal_f32 v m =
     (let negative = bit v 31
      in if flushes_away_from_zero negative m then (if negative then 0x80800000 else 0x00800000)
         else if negative then 0x80000000 else 0)"

definition flush_subnormal_f64 :: "f64 \<Rightarrow> rounding \<Rightarrow> f64" where
  "flush_subnormal_f64 v m =
     (let negative = bit v 63
      in if flushes_away_from_zero negative m
         then (if negative then 0x8010000000000000 else 0x0010000000000000)
         else if negative then 0x8000000000000000 else 0)"

section \<open>Arithmetic\<close>

definition arith_s :: "f32 \<Rightarrow> f32 \<Rightarrow> nat \<Rightarrow> rounding \<Rightarrow> f32 outcome" where
  "arith_s a b opn m =
     (let x = to_u64 a; y = to_u64 b;
          r = (if opn = 0 then sf_add x y F32 m else if opn = 1 then sf_sub x y F32 m
               else if opn = 2 then sf_mul x y F32 m else sf_div x y F32 m)
      in \<lparr>oc_value = to_u32 (r_bits r), oc_flags = r_flags r\<rparr>)"

definition arith_d :: "f64 \<Rightarrow> f64 \<Rightarrow> nat \<Rightarrow> rounding \<Rightarrow> f64 outcome" where
  "arith_d x y opn m =
     (let r = (if opn = 0 then sf_add x y F64 m else if opn = 1 then sf_sub x y F64 m
               else if opn = 2 then sf_mul x y F64 m else sf_div x y F64 m)
      in \<lparr>oc_value = r_bits r, oc_flags = r_flags r\<rparr>)"

definition add_s :: "f32 \<Rightarrow> f32 \<Rightarrow> rounding \<Rightarrow> f32 outcome" where "add_s a b m = arith_s a b 0 m"
definition sub_s :: "f32 \<Rightarrow> f32 \<Rightarrow> rounding \<Rightarrow> f32 outcome" where "sub_s a b m = arith_s a b 1 m"
definition mul_s :: "f32 \<Rightarrow> f32 \<Rightarrow> rounding \<Rightarrow> f32 outcome" where "mul_s a b m = arith_s a b 2 m"
definition div_s :: "f32 \<Rightarrow> f32 \<Rightarrow> rounding \<Rightarrow> f32 outcome" where "div_s a b m = arith_s a b 3 m"
definition add_d :: "f64 \<Rightarrow> f64 \<Rightarrow> rounding \<Rightarrow> f64 outcome" where "add_d a b m = arith_d a b 0 m"
definition sub_d :: "f64 \<Rightarrow> f64 \<Rightarrow> rounding \<Rightarrow> f64 outcome" where "sub_d a b m = arith_d a b 1 m"
definition mul_d :: "f64 \<Rightarrow> f64 \<Rightarrow> rounding \<Rightarrow> f64 outcome" where "mul_d a b m = arith_d a b 2 m"
definition div_d :: "f64 \<Rightarrow> f64 \<Rightarrow> rounding \<Rightarrow> f64 outcome" where "div_d a b m = arith_d a b 3 m"

definition abs_s :: "f32 \<Rightarrow> f32" where "abs_s a = a AND 0x7FFFFFFF"
definition neg_s :: "f32 \<Rightarrow> f32" where "neg_s a = a XOR 0x80000000"
definition abs_d :: "f64 \<Rightarrow> f64" where "abs_d a = a AND 0x7FFFFFFFFFFFFFFF"
definition neg_d :: "f64 \<Rightarrow> f64" where "neg_d a = a XOR 0x8000000000000000"

section \<open>Comparison\<close>

datatype relation = Less | Equal | Greater | Unordered

definition relation_f32 :: "f32 \<Rightarrow> f32 \<Rightarrow> relation" where
  "relation_f32 a b =
     (if f32_is_nan a \<or> f32_is_nan b then Unordered
      else if f32_lt a b then Less else if f32_eq a b then Equal else Greater)"

definition relation_f64 :: "f64 \<Rightarrow> f64 \<Rightarrow> relation" where
  "relation_f64 a b =
     (if f64_is_nan a \<or> f64_is_nan b then Unordered
      else if f64_lt a b then Less else if f64_eq a b then Equal else Greater)"

definition compare_result :: "relation \<Rightarrow> u8 \<Rightarrow> bool \<Rightarrow> bool outcome" where
  "compare_result rel cond snan =
     (let unordered = (rel = Unordered);
          value = (rel = Less \<and> cond AND 4 \<noteq> 0) \<or> (rel = Equal \<and> cond AND 2 \<noteq> 0) \<or>
            (unordered \<and> cond AND 1 \<noteq> 0);
          fl = (if unordered \<and> cond AND 8 \<noteq> 0 then flags_none\<lparr>invalid := True\<rparr> else flags_none);
          fl = (if snan then fl\<lparr>invalid := True\<rparr> else fl)
      in \<lparr>oc_value = value, oc_flags = fl\<rparr>)"

definition compare_s :: "f32 \<Rightarrow> f32 \<Rightarrow> u8 \<Rightarrow> bool outcome" where
  "compare_s a b cond = compare_result (relation_f32 a b) cond (is_snan_f32 a \<or> is_snan_f32 b)"

definition compare_d :: "f64 \<Rightarrow> f64 \<Rightarrow> u8 \<Rightarrow> bool outcome" where
  "compare_d a b cond = compare_result (relation_f64 a b) cond (is_snan_f64 a \<or> is_snan_f64 b)"

definition CAUSE_MASK :: u32 where "CAUSE_MASK = shl 0x3F 12"
definition CAUSE_UNIMPLEMENTED :: u32 where "CAUSE_UNIMPLEMENTED = shl 1 17"

section \<open>Conversions\<close>

definition long_convertible :: "u64 \<Rightarrow> bool" where
  "long_convertible v = (let top = sar v 55 AND 0x1FF in top = 0 \<or> top = 0x1FF)"

definition cvt_d_s :: "f32 \<Rightarrow> f64 outcome" where
  "cvt_d_s v = \<lparr>oc_value = f64_of_f32 v,
     oc_flags = (if is_snan_f32 v then flags_invalid else flags_none)\<rparr>"

definition TWO_POW_63 :: f64 where "TWO_POW_63 = 0x43E0000000000000"
definition F64_INTEGRAL_THRESHOLD :: f64 where "F64_INTEGRAL_THRESHOLD = 0x4330000000000000"

definition fabs_bits :: "f64 \<Rightarrow> f64" where "fabs_bits v = v AND 0x7FFFFFFFFFFFFFFF"

definition f64_trunc :: "f64 \<Rightarrow> f64" where
  "f64_trunc v =
     (if \<not> f64_is_finite v \<or> f64_le F64_INTEGRAL_THRESHOLD (fabs_bits v) then v
      else f64_of_i64 (f64_to_i64 v))"

definition f64_floor :: "f64 \<Rightarrow> f64" where
  "f64_floor v =
     (let t = f64_trunc v in if f64_lt v 0 \<and> \<not> f64_eq t v then f64_sub t f64_one else t)"

definition f64_ceil :: "f64 \<Rightarrow> f64" where
  "f64_ceil v =
     (let t = f64_trunc v in if f64_lt 0 v \<and> \<not> f64_eq t v then f64_add t f64_one else t)"

definition round_ties_even :: "f64 \<Rightarrow> f64" where
  "round_ties_even v =
     (if \<not> f64_is_finite v \<or> f64_le F64_INTEGRAL_THRESHOLD (fabs_bits v) then v
      else
        let f = f64_floor v; diff = f64_sub v f
        in if f64_lt f64_half diff then f64_add f f64_one
           else if f64_lt diff f64_half then f
           else if even (sint (f64_to_i64 f)) then f
           else f64_add f f64_one)"

definition round_f64 :: "f64 \<Rightarrow> rounding \<Rightarrow> f64" where
  "round_f64 v m =
     (case m of Nearest \<Rightarrow> round_ties_even v | TowardZero \<Rightarrow> f64_trunc v
      | TowardPlusInf \<Rightarrow> f64_ceil v | TowardMinusInf \<Rightarrow> f64_floor v)"

definition to_i32 :: "f64 \<Rightarrow> rounding \<Rightarrow> u32 outcome" where
  "to_i32 v m =
     (let r = round_f64 v m
      in if f64_is_nan v \<or> f64_lt r (f64_of_i32 0x80000000) \<or> f64_lt (f64_of_i32 0x7FFFFFFF) r
         then \<lparr>oc_value = 0x7FFFFFFF, oc_flags = flags_invalid\<rparr>
         else
           let value = f64_to_i32 r
           in \<lparr>oc_value = value, oc_flags =
             (if \<not> f64_eq (f64_of_i32 value) v then flags_none\<lparr>inexact := True\<rparr> else flags_none)\<rparr>)"

definition to_i64 :: "f64 \<Rightarrow> rounding \<Rightarrow> u64 outcome" where
  "to_i64 v m =
     (let r = round_f64 v m
      in if f64_is_nan v \<or> \<not> (f64_le (neg_d TWO_POW_63) r \<and> f64_lt r TWO_POW_63)
         then \<lparr>oc_value = 0x7FFFFFFFFFFFFFFF, oc_flags = flags_invalid\<rparr>
         else
           let value = f64_to_i64 r
           in \<lparr>oc_value = value, oc_flags =
             (if \<not> f64_eq (f64_of_i64 value) v then flags_none\<lparr>inexact := True\<rparr> else flags_none)\<rparr>)"

section \<open>Latencies\<close>

definition FMT_S :: u8 where "FMT_S = 16"
definition FMT_D :: u8 where "FMT_D = 17"
definition FMT_W :: u8 where "FMT_W = 20"
definition FMT_L :: u8 where "FMT_L = 21"

definition delay_cycles :: "u8 \<Rightarrow> u8 \<Rightarrow> u32" where
  "delay_cycles funct fm =
     (let double = (fm = FMT_D)
      in if funct = 0 \<or> funct = 1 then 3
         else if funct = 2 then (if double then 8 else 5)
         else if funct = 3 \<or> funct = 4 then (if double then 58 else 29)
         else if funct = 5 \<or> funct = 6 \<or> funct = 7 then 1
         else if 8 \<le> funct \<and> funct \<le> 15 then 5
         else if funct = 32 then (if double then 2 else 5)
         else if funct = 33 then (if fm = FMT_S then 1 else 5)
         else if funct = 36 \<or> funct = 37 then 5
         else 1)"

definition fp_stall_cycles :: "u8 \<Rightarrow> u8 \<Rightarrow> u32" where
  "fp_stall_cycles funct fm = (let rate = delay_cycles funct fm in if rate > 1 then rate else 0)"

end
