(* ===== verification/Save.thy ===== *)
theory Save
  imports Prelude
begin

text \<open>
  The cartridge save devices: \<^verbatim>\<open>rustyn64-cart/src/save.rs\<close> and the save kinds of its
  \<^verbatim>\<open>lib.rs\<close>. A boxed slice is a list; \<open>get_byte\<close> is the slice's \<^verbatim>\<open>get\<close>, and a list update out of
  range does nothing, as \<^verbatim>\<open>get_mut\<close> does. \<open>write_block\<close> is the code's loop over \<^verbatim>\<open>get_mut\<close>.
\<close>

definition get_byte :: "'a list \<Rightarrow> nat \<Rightarrow> 'a option" where
  "get_byte xs i = (if i < length xs then Some (xs ! i) else None)"

definition get_or :: "'a \<Rightarrow> 'a list \<Rightarrow> nat \<Rightarrow> 'a" where
  "get_or z xs i = (case get_byte xs i of Some v \<Rightarrow> v | None \<Rightarrow> z)"

fun write_block :: "nat \<Rightarrow> 'a list \<Rightarrow> 'a list \<Rightarrow> 'a list" where
  "write_block base [] xs = xs"
| "write_block base (d # ds) xs = write_block (Suc base) ds (xs[base := d])"

definition read_block :: "'a \<Rightarrow> nat \<Rightarrow> nat \<Rightarrow> 'a list \<Rightarrow> 'a list" where
  "read_block z base n xs = map (\<lambda>i. get_or z xs (base + i)) [0..<n]"

section \<open>Save kinds\<close>

datatype save_type = SaveNone | Eeprom4k | Eeprom16k | Sram | FlashRam | ControllerPak

definition size_bytes :: "save_type \<Rightarrow> nat" where
  "size_bytes t = (case t of SaveNone \<Rightarrow> 0 | Eeprom4k \<Rightarrow> 512 | Eeprom16k \<Rightarrow> 2 * 1024
     | Sram \<Rightarrow> 32 * 1024 | ControllerPak \<Rightarrow> 32 * 1024 | FlashRam \<Rightarrow> 128 * 1024)"

definition SAVE_PI_BASE :: u32 where "SAVE_PI_BASE = 0x08000000"
definition FLASH_CIR :: u32 where "FLASH_CIR = 0x08010000"
definition FLASH_SIZE :: nat where "FLASH_SIZE = 128 * 1024"
definition FLASH_PAGE :: nat where "FLASH_PAGE = 128"
definition FLASH_SECTOR_PAGES :: nat where "FLASH_SECTOR_PAGES = 128"
definition FLASH_SECTOR :: nat where "FLASH_SECTOR = FLASH_SECTOR_PAGES * FLASH_PAGE"
definition FLASH_STATUS_ERASE_OK :: u8 where "FLASH_STATUS_ERASE_OK = 8"
definition FLASH_STATUS_PROGRAM_OK :: u8 where "FLASH_STATUS_PROGRAM_OK = 4"

lemmas flash_consts = FLASH_SIZE_def FLASH_PAGE_def FLASH_SECTOR_PAGES_def FLASH_SECTOR_def

section \<open>FlashRAM\<close>

datatype flash_mode = ReadArray | FlashStatus | SiliconId | LoadPage

record flash =
  fl_array :: "u8 list"
  fl_page :: "u8 list"
  fl_mode :: flash_mode
  fl_erase_sector :: "nat option"
  fl_chip_erase :: bool
  fl_status :: u8

definition flash_new :: flash where
  "flash_new = \<lparr>fl_array = replicate FLASH_SIZE 0xFF, fl_page = replicate FLASH_PAGE 0xFF,
     fl_mode = ReadArray, fl_erase_sector = None, fl_chip_erase = False, fl_status = 0\<rparr>"

definition fill_range :: "nat \<Rightarrow> nat \<Rightarrow> 'a \<Rightarrow> 'a list \<Rightarrow> 'a list" where
  "fill_range lo hi v xs = map (\<lambda>i. if lo \<le> i \<and> i < hi then v else xs ! i) [0..<length xs]"

definition program_page :: "nat \<Rightarrow> u8 list \<Rightarrow> u8 list \<Rightarrow> u8 list" where
  "program_page base page xs =
     (if base + FLASH_PAGE \<le> length xs
      then map (\<lambda>i. if base \<le> i \<and> i < base + FLASH_PAGE then xs ! i AND page ! (i - base) else xs ! i) [0..<length xs]
      else xs)"

definition write_cir :: "u32 \<Rightarrow> flash \<Rightarrow> flash" where
  "write_cir cmd f =
     (let c = shr cmd 24
      in if c = 0xF0 then f\<lparr>fl_mode := ReadArray\<rparr>
         else if c = 0xE1 then f\<lparr>fl_mode := SiliconId\<rparr>
         else if c = 0xB4 then f\<lparr>fl_mode := LoadPage, fl_page := replicate FLASH_PAGE 0xFF\<rparr>
         else if c = 0x3C then f\<lparr>fl_chip_erase := True, fl_erase_sector := None\<rparr>
         else if c = 0x4B then
           (let page = unat (cmd AND 0xFFFF);
                sector = min (page div FLASH_SECTOR_PAGES) (FLASH_SIZE div FLASH_SECTOR - 1)
            in f\<lparr>fl_chip_erase := False, fl_erase_sector := Some (sector * FLASH_SECTOR)\<rparr>)
         else if c = 0x78 then
           f\<lparr>fl_array := (if fl_chip_erase f then replicate (length (fl_array f)) 0xFF
               else case fl_erase_sector f of
                 Some base \<Rightarrow> fill_range base (min (base + FLASH_SECTOR) (length (fl_array f))) 0xFF (fl_array f)
               | None \<Rightarrow> fl_array f),
             fl_chip_erase := False, fl_erase_sector := None,
             fl_status := FLASH_STATUS_ERASE_OK, fl_mode := FlashStatus\<rparr>
         else if c = 0xA5 then
           (let page = unat (cmd AND 0xFFFF)
            in f\<lparr>fl_array := program_page (page * FLASH_PAGE) (fl_page f) (fl_array f),
                 fl_status := FLASH_STATUS_PROGRAM_OK, fl_mode := FlashStatus\<rparr>)
         else f)"

definition flash_read :: "flash \<Rightarrow> nat \<Rightarrow> u8" where
  "flash_read f off =
     (case fl_mode f of
        ReadArray \<Rightarrow> get_or 0xFF (fl_array f) off
      | FlashStatus \<Rightarrow> if off mod 2 = 1 then fl_status f else 0
      | SiliconId \<Rightarrow> get_or 0 [0x11, 0x11, 0x80, 0x00, 0xC2, 0x00, 0x1D, 0x00] (off mod 8)
      | LoadPage \<Rightarrow> get_or 0xFF (fl_page f) (off mod FLASH_PAGE))"

definition flash_write :: "nat \<Rightarrow> u8 \<Rightarrow> flash \<Rightarrow> flash" where
  "flash_write off v f =
     (if fl_mode f = LoadPage then f\<lparr>fl_page := (fl_page f)[off mod FLASH_PAGE := v]\<rparr> else f)"

section \<open>Save device\<close>

datatype save_device = DevNone | DevEeprom "u8 list" | DevSram "u8 list" | DevFlash flash | DevPak "u8 list"

definition save_new :: "save_type \<Rightarrow> save_device" where
  "save_new t =
     (case t of SaveNone \<Rightarrow> DevNone
      | Eeprom4k \<Rightarrow> DevEeprom (replicate 512 0)
      | Eeprom16k \<Rightarrow> DevEeprom (replicate (2 * 1024) 0)
      | Sram \<Rightarrow> DevSram (replicate (32 * 1024) 0)
      | FlashRam \<Rightarrow> DevFlash flash_new
      | ControllerPak \<Rightarrow> DevPak (replicate (32 * 1024) 0))"

definition save_pi_read :: "save_device \<Rightarrow> u32 \<Rightarrow> u8 option" where
  "save_pi_read d addr =
     (let off = unat (addr - SAVE_PI_BASE)
      in case d of DevSram store \<Rightarrow> Some (get_or 0 store off)
         | DevFlash f \<Rightarrow> Some (flash_read f off)
         | _ \<Rightarrow> None)"

definition save_pi_write :: "u32 \<Rightarrow> u8 \<Rightarrow> save_device \<Rightarrow> save_device" where
  "save_pi_write addr v d =
     (let off = unat (addr - SAVE_PI_BASE)
      in case d of DevSram store \<Rightarrow> DevSram (store[off := v])
         | DevFlash f \<Rightarrow> DevFlash (flash_write off v f)
         | _ \<Rightarrow> d)"

definition flash_cir :: "u32 \<Rightarrow> save_device \<Rightarrow> save_device" where
  "flash_cir cmd d = (case d of DevFlash f \<Rightarrow> DevFlash (write_cir cmd f) | _ \<Rightarrow> d)"

definition eeprom_read_block :: "save_device \<Rightarrow> u8 \<Rightarrow> u8 list \<Rightarrow> u8 list" where
  "eeprom_read_block d block out =
     (case d of DevEeprom store \<Rightarrow> read_block 0 (unat block * 8) 8 store | _ \<Rightarrow> out)"

definition eeprom_write_block :: "u8 \<Rightarrow> u8 list \<Rightarrow> save_device \<Rightarrow> save_device" where
  "eeprom_write_block block data d =
     (case d of DevEeprom store \<Rightarrow> DevEeprom (write_block (unat block * 8) data store) | _ \<Rightarrow> d)"

definition cpak_read :: "save_device \<Rightarrow> u16 \<Rightarrow> u8 list \<Rightarrow> u8 list" where
  "cpak_read d addr out =
     (case d of DevPak store \<Rightarrow> read_block 0 (unat addr) 32 store | _ \<Rightarrow> out)"

definition cpak_write :: "u16 \<Rightarrow> u8 list \<Rightarrow> save_device \<Rightarrow> save_device" where
  "cpak_write addr data d =
     (case d of DevPak store \<Rightarrow> DevPak (write_block (unat addr) data store) | _ \<Rightarrow> d)"

definition backing :: "save_device \<Rightarrow> u8 list" where
  "backing d = (case d of DevNone \<Rightarrow> [] | DevEeprom s \<Rightarrow> s | DevSram s \<Rightarrow> s | DevPak s \<Rightarrow> s
     | DevFlash f \<Rightarrow> fl_array f)"

section \<open>Blocks and pages\<close>

lemma write_block_length [simp]: "length (write_block b ds xs) = length xs"
  by (induction b ds xs rule: write_block.induct) simp_all

lemma write_block_nth:
  "i < length xs \<Longrightarrow> write_block b ds xs ! i = (if b \<le> i \<and> i < b + length ds then ds ! (i - b) else xs ! i)"
proof (induction b ds xs rule: write_block.induct)
  case (2 base d ds xs)
  then show ?case
    by (cases "i = base") (auto simp: Suc_diff_Suc nth_Cons' diff_Suc split: nat.split)
qed auto

lemma read_write_block:
  "b + length ds \<le> length xs \<Longrightarrow> read_block z b (length ds) (write_block b ds xs) = ds"
  by (rule nth_equalityI) (auto simp: read_block_def get_or_def get_byte_def write_block_nth)

lemma program_page_length [simp]: "length (program_page b pg xs) = length xs"
  by (simp add: program_page_def)

lemma fill_range_length [simp]: "length (fill_range lo hi v xs) = length xs"
  by (simp add: fill_range_def)

lemma program_page_nth:
  "i < length xs \<Longrightarrow> b + FLASH_PAGE \<le> length xs \<Longrightarrow>
   program_page b pg xs ! i = (if b \<le> i \<and> i < b + FLASH_PAGE then xs ! i AND pg ! (i - b) else xs ! i)"
  by (simp add: program_page_def)

lemma fill_range_nth:
  "i < length xs \<Longrightarrow> fill_range lo hi v xs ! i = (if lo \<le> i \<and> i < hi then v else xs ! i)"
  by (simp add: fill_range_def)

definition flash_wf :: "flash \<Rightarrow> bool" where
  "flash_wf f \<longleftrightarrow> length (fl_array f) = FLASH_SIZE \<and> length (fl_page f) = FLASH_PAGE \<and>
     (\<forall>b. fl_erase_sector f = Some b \<longrightarrow> b + FLASH_SECTOR \<le> FLASH_SIZE \<and> b mod FLASH_SECTOR = 0)"

lemma flash_wf_write_cir [invlib]:
  assumes "flash_wf f"
  shows "flash_wf (write_cir cmd f)"
proof -
  have "min (p div FLASH_SECTOR_PAGES) (FLASH_SIZE div FLASH_SECTOR - 1) * FLASH_SECTOR + FLASH_SECTOR \<le> FLASH_SIZE" for p
    by (simp add: flash_consts min_def)
  then show ?thesis
    using assms by (auto simp: flash_wf_def write_cir_def Let_def split: option.splits)
qed

lemma flash_wf_ops [invlib]: "flash_wf flash_new" "flash_wf f \<Longrightarrow> flash_wf (flash_write off v f)"
  by (simp_all add: flash_wf_def flash_new_def flash_write_def)


section \<open>A FlashRAM program cycle\<close>

definition flash_cmd :: "u8 \<Rightarrow> u16 \<Rightarrow> u32" where
  "flash_cmd c page = shl (to_u32 c) 24 OR to_u32 page"

lemma flash_cmd_fields: "shr (flash_cmd c page) 24 = to_u32 c" "unat (flash_cmd c page AND 0xFFFF) = unat page"
proof -
  have m: "(0xFFFF :: u32) = mask 16" by (simp add: mask_eq_exp_minus_1)
  show "shr (flash_cmd c page) 24 = to_u32 c"
    unfolding flash_cmd_def by (rule bit_word_eqI) (auto simp: bit_word_simps dest: bit_imp_le_length)
  have "flash_cmd c page AND 0xFFFF = to_u32 page"
    unfolding flash_cmd_def m by (rule bit_word_eqI) (auto simp: bit_word_simps dest: bit_imp_le_length)
  then show "unat (flash_cmd c page AND 0xFFFF) = unat page" by simp
qed

definition program_cycle :: "u16 \<Rightarrow> u8 list \<Rightarrow> flash \<Rightarrow> flash" where
  "program_cycle page ds f =
     (let f = write_cir (flash_cmd 0x4B page) f;
          f = write_cir (flash_cmd 0x78 0) f;
          f = write_cir (flash_cmd 0xB4 0) f;
          f = foldl (\<lambda>f i. flash_write i (ds ! i) f) f [0..<FLASH_PAGE];
          f = write_cir (flash_cmd 0xA5 page) f
      in write_cir (flash_cmd 0xF0 0) f)"

lemma load_page_loop:
  "fl_mode f = LoadPage \<Longrightarrow> n \<le> FLASH_PAGE \<Longrightarrow> length (fl_page f) = FLASH_PAGE \<Longrightarrow>
   foldl (\<lambda>f i. flash_write i (ds ! i) f) f [0..<n] =
     f\<lparr>fl_page := map (\<lambda>i. if i < n then ds ! i else fl_page f ! i) [0..<FLASH_PAGE]\<rparr>"
proof (induction n)
  case 0
  have "map ((!) (fl_page f)) [0..<FLASH_PAGE] = fl_page f"
    using 0(3) map_nth[of "fl_page f"] by simp
  then show ?case by simp
next
  case (Suc n)
  have "(map (\<lambda>i. if i < n then ds ! i else fl_page f ! i) [0..<FLASH_PAGE])[n := ds ! n] =
      map (\<lambda>i. if i < Suc n then ds ! i else fl_page f ! i) [0..<FLASH_PAGE]"
    using Suc(3) by (intro nth_equalityI) (auto simp: nth_list_update less_Suc_eq)
  then show ?case using Suc by (simp add: flash_write_def)
qed

text \<open>C33. Erasing the sector of a FlashRAM page, loading the page buffer with 128 bytes and programming
  the page stores exactly those bytes: reading the page back gives them, the rest of the erased
  sector reads as 0xFF and every byte outside the sector is what it was.\<close>

theorem flash_program_cycle:
  assumes "flash_wf f" "unat page < 1024" "length ds = FLASH_PAGE" "j < FLASH_SIZE"
  shows "flash_read (program_cycle page ds f) j =
    (if unat page * FLASH_PAGE \<le> j \<and> j < unat page * FLASH_PAGE + FLASH_PAGE then ds ! (j - unat page * FLASH_PAGE)
     else if j div FLASH_SECTOR = unat page div FLASH_SECTOR_PAGES then 0xFF
     else fl_array f ! j)"
proof -
  define n where "n = unat page"
  define base where "base = n div 128 * 16384"
  have n: "n < 1024" using assms(2) by (simp add: n_def)
  then have n7: "n div 128 \<le> 7" by linarith
  have arr: "length (fl_array f) = 131072" "length (fl_page f) = 128" using assms(1) by (simp_all add: flash_wf_def flash_consts)
  let ?erased = "fill_range base (base + 16384) 0xFF (fl_array f)"
  have e: "base + 16384 \<le> 131072" using n7 by (simp add: base_def)
  have c: "fl_array (program_cycle page ds f) = program_page (n * 128) ds ?erased" "fl_mode (program_cycle page ds f) = ReadArray"
  proof -
    have "map (\<lambda>i. if i < FLASH_PAGE then ds ! i else x i) [0..<FLASH_PAGE] = ds" for x
      using assms(3) by (intro nth_equalityI) auto
    then show "fl_array (program_cycle page ds f) = program_page (n * 128) ds ?erased" "fl_mode (program_cycle page ds f) = ReadArray"
      using n7 e arr load_page_loop[of _ FLASH_PAGE ds]
      by (simp_all add: program_cycle_def write_cir_def flash_cmd_fields Let_def flash_consts n_def[symmetric]
          base_def[symmetric] min_absorb1)
  qed
  have j: "j < 131072" using assms(4) by (simp add: flash_consts)
  have ff: "(0xFF :: u8) AND v = v" for v
  proof -
    have "(0xFF :: u8) = - 1" by simp
    then show ?thesis by (simp only: and.left_neutral)
  qed
  have pg: "n * 128 + 128 \<le> 131072" "base \<le> n * 128" "n * 128 + 128 \<le> base + 16384"
    using n div_times_less_eq_dividend[of n 128] dividend_less_div_times[of 128 n]
    unfolding base_def by linarith+
  have sec: "j div 16384 = n div 128 \<longleftrightarrow> base \<le> j \<and> j < base + 16384"
    unfolding base_def by (rule div_eq_range) simp
  have "flash_read (program_cycle page ds f) j = program_page (n * 128) ds ?erased ! j"
    using j arr by (simp add: flash_read_def c get_or_def get_byte_def)
  also have "\<dots> = (if n * 128 \<le> j \<and> j < n * 128 + 128 then ?erased ! j AND ds ! (j - n * 128) else ?erased ! j)"
    using j arr pg by (simp add: program_page_nth FLASH_PAGE_def)
  also have "?erased ! j = (if base \<le> j \<and> j < base + 16384 then 0xFF else fl_array f ! j)"
    using j arr by (simp add: fill_range_nth)
  finally show ?thesis
    unfolding n_def[symmetric] flash_consts using pg sec ff by auto
qed

lemma flash_program_cycle_witness:
  "flash_read (program_cycle 2 (replicate 128 7) flash_new) 300 = 7"
  using flash_program_cycle[of flash_new 2 "replicate 128 7" 300]
  by (simp add: invlib flash_consts)

end
