(* ===== verification/BusTrait.thy ===== *)
theory BusTrait
  imports Prelude
begin

text \<open>
  The system bus as the processor sees it: the \<^verbatim>\<open>Bus\<close> trait of
  \<^verbatim>\<open>rustyn64-cpu/src/lib.rs\<close>. A bus with state \<open>'b\<close> is a record of its methods; the trait's
  default methods are definitions over the two required ones. The locale \<open>word_memory\<close> is what the
  caches rely on where the bus leads to memory.
\<close>

record 'b bus_ops =
  rd8 :: "u32 \<Rightarrow> 'b \<Rightarrow> u8 \<times> 'b"
  wr8 :: "u32 \<Rightarrow> u8 \<Rightarrow> 'b \<Rightarrow> 'b"
  rd32 :: "u32 \<Rightarrow> 'b \<Rightarrow> u32 \<times> 'b"
  wr32 :: "u32 \<Rightarrow> u32 \<Rightarrow> 'b \<Rightarrow> 'b"
  wr_sized :: "u32 \<Rightarrow> u64 \<Rightarrow> u64 \<Rightarrow> 'b \<Rightarrow> 'b"
  emux_enabled :: "'b \<Rightarrow> bool"
  emux_log :: "u8 list \<Rightarrow> 'b \<Rightarrow> 'b"
  emux_exit :: "'b \<Rightarrow> 'b"
  poll_irq :: "'b \<Rightarrow> bool \<times> 'b"

text \<open>Big-endian bytes of a word and back.\<close>

definition from_be_bytes :: "u8 list \<Rightarrow> u32" where
  "from_be_bytes bs = foldl (\<lambda>v b. shl v 8 OR to_u32 b) 0 bs"

definition to_be_bytes :: "u32 \<Rightarrow> u8 list" where
  "to_be_bytes w = [to_u8 (shr w 24), to_u8 (shr w 16), to_u8 (shr w 8), to_u8 w]"

definition default_read_u32 :: "(u32 \<Rightarrow> 'b \<Rightarrow> u8 \<times> 'b) \<Rightarrow> u32 \<Rightarrow> 'b \<Rightarrow> u32 \<times> 'b" where
  "default_read_u32 rd a b =
     (let (b0, b) = rd a b; (b1, b) = rd (a + 1) b; (b2, b) = rd (a + 2) b; (b3, b) = rd (a + 3) b
      in (from_be_bytes [b0, b1, b2, b3], b))"

definition default_write_u32 :: "(u32 \<Rightarrow> u8 \<Rightarrow> 'b \<Rightarrow> 'b) \<Rightarrow> u32 \<Rightarrow> u32 \<Rightarrow> 'b \<Rightarrow> 'b" where
  "default_write_u32 wr a v b =
     (let bs = to_be_bytes v
      in wr (a + 3) (bs ! 3) (wr (a + 2) (bs ! 2) (wr (a + 1) (bs ! 1) (wr a (bs ! 0) b))))"

definition default_write_sized ::
  "(u32 \<Rightarrow> u8 \<Rightarrow> 'b \<Rightarrow> 'b) \<Rightarrow> (u32 \<Rightarrow> u32 \<Rightarrow> 'b \<Rightarrow> 'b) \<Rightarrow> u32 \<Rightarrow> u64 \<Rightarrow> u64 \<Rightarrow> 'b \<Rightarrow> 'b" where
  "default_write_sized w8 w32 a width value b =
     (if width = 1 then w8 a (to_u8 value) b
      else if width = 2 then w8 (a + 1) (to_u8 value) (w8 a (to_u8 (shr value 8)) b)
      else if width = 4 then w32 a (to_u32 value) b
      else if width = 8 then w32 (a + 4) (to_u32 value) (w32 a (to_u32 (shr value 32)) b)
      else b)"

section \<open>Bytes of a word\<close>

lemma to_be_bytes_length [simp]: "length (to_be_bytes w) = 4"
  by (simp add: to_be_bytes_def)

lemma from_to_be_bytes [simp]: "from_be_bytes (to_be_bytes w) = w"
  unfolding from_be_bytes_def to_be_bytes_def foldl.simps
proof (rule bit_word_eqI)
  fix n assume "n < LENGTH(32)"
  consider "n < 8" | "8 \<le> n" "n < 16" | "16 \<le> n" "n < 24" | "24 \<le> n" by linarith
  then show "bit (shl (shl (shl (shl (0 :: u32) 8 OR to_u32 (to_u8 (shr w 24))) 8 OR
      to_u32 (to_u8 (shr w 16))) 8 OR to_u32 (to_u8 (shr w 8))) 8 OR to_u32 (to_u8 w)) n = bit w n"
    using \<open>n < LENGTH(32)\<close> by cases (auto simp: bit_word_simps)
qed

lemma to_from_be_bytes: "to_be_bytes (from_be_bytes [a, b, c, d]) = [a, b, c, d]"
proof -
  have "to_u8 (shr (from_be_bytes [a, b, c, d]) 24) = a" "to_u8 (shr (from_be_bytes [a, b, c, d]) 16) = b"
    "to_u8 (shr (from_be_bytes [a, b, c, d]) 8) = c" "to_u8 (from_be_bytes [a, b, c, d]) = d"
    unfolding from_be_bytes_def foldl.simps
    by (rule bit_word_eqI; auto simp: bit_word_simps dest: bit_imp_le_length)+
  then show ?thesis by (simp add: to_be_bytes_def)
qed

section \<open>Memory behind the bus\<close>

text \<open>\<open>peek\<close> is the byte a bus state holds at an address, \<open>ram\<close> the addresses that are memory.\<close>

locale word_memory =
  fixes ops :: "'b bus_ops"
    and peek :: "'b \<Rightarrow> u32 \<Rightarrow> u8"
    and ram :: "u32 \<Rightarrow> bool"
  assumes rd32_ram: "ram a \<Longrightarrow> 4 dvd unat a \<Longrightarrow>
      fst (rd32 ops a b) = from_be_bytes [peek b a, peek b (a + 1), peek b (a + 2), peek b (a + 3)]"
    and rd32_peek: "ram a \<Longrightarrow> 4 dvd unat a \<Longrightarrow> peek (snd (rd32 ops a b)) = peek b"
    and wr32_peek: "ram a \<Longrightarrow> 4 dvd unat a \<Longrightarrow>
      peek (wr32 ops a w b) = (peek b)(a := to_be_bytes w ! 0, a + 1 := to_be_bytes w ! 1,
        a + 2 := to_be_bytes w ! 2, a + 3 := to_be_bytes w ! 3)"
    and ram_line: "ram a \<Longrightarrow> unat a div 32 = unat c div 32 \<Longrightarrow> ram c"

end
