(* ===== verification/Pif.thy ===== *)
theory Pif
  imports Save BusTrait "HOL-Library.Monad_Syntax"
begin

text \<open>
  The peripheral interface's joybus interpreter and boot handshake: \<^verbatim>\<open>rustyn64-cart/src/pif.rs\<close>.
  Every array index of the code is a checked access of the option monad: \<open>None\<close> is a panic. The
  command loop is a \<open>function\<close> whose termination is proved from the growing index.
\<close>

definition PIF_RAM_LEN :: nat where [simp]: "PIF_RAM_LEN = 64"
definition CMD_BYTE :: nat where [simp]: "CMD_BYTE = 0x3F"
definition PIF_ROM_LEN :: nat where "PIF_ROM_LEN = 0x7C0"
definition TX_END :: u8 where "TX_END = 0xFE"
definition TX_SKIP :: u8 where "TX_SKIP = 0"
definition TX_NOP :: u8 where "TX_NOP = 0xFF"
definition RX_NO_DEVICE :: u8 where "RX_NO_DEVICE = 0x80"
definition ID_CONTROLLER :: "u8 list" where "ID_CONTROLLER = [5, 0]"
definition ID_EEPROM_4K :: "u8 list" where "ID_EEPROM_4K = [0, 0x80]"
definition ID_EEPROM_16K :: "u8 list" where "ID_EEPROM_16K = [0, 0xC0]"

section \<open>Checked access\<close>

definition ld :: "'a list \<Rightarrow> nat \<Rightarrow> 'a option" where
  "ld xs i = (if i < length xs then Some (xs ! i) else None)"

definition st :: "nat \<Rightarrow> 'a \<Rightarrow> 'a list \<Rightarrow> 'a list option" where
  "st i v xs = (if i < length xs then Some (xs[i := v]) else None)"

text \<open>\<open>xs[a..b]\<close> read, and \<open>copy_from_slice\<close> into \<open>xs[a..a + length ds]\<close>.\<close>

definition slice :: "'a list \<Rightarrow> nat \<Rightarrow> nat \<Rightarrow> 'a list option" where
  "slice xs a b = (if a \<le> b \<and> b \<le> length xs then Some (take (b - a) (drop a xs)) else None)"

definition blit :: "nat \<Rightarrow> 'a list \<Rightarrow> 'a list \<Rightarrow> 'a list option" where
  "blit a ds xs = (if a + length ds \<le> length xs then Some (write_block a ds xs) else None)"

lemma ld_ok [simp]: "i < length xs \<Longrightarrow> ld xs i = Some (xs ! i)"
  by (simp add: ld_def)

lemma st_ok [simp]: "i < length xs \<Longrightarrow> st i v xs = Some (xs[i := v])"
  by (simp add: st_def)

lemma slice_ok [simp]: "a \<le> b \<Longrightarrow> b \<le> length xs \<Longrightarrow> slice xs a b = Some (take (b - a) (drop a xs))"
  by (simp add: slice_def)

lemma blit_ok [simp]: "a + length ds \<le> length xs \<Longrightarrow> blit a ds xs = Some (write_block a ds xs)"
  by (simp add: blit_def)

section \<open>State\<close>

record pif =
  pif_ram :: "u8 list"
  pak_present :: "bool list"
  connected :: "bool list"
  boot_rom :: "u8 list option"
  boot_checksum :: "u8 list option"
  boot_acquired :: "u8 list option"
  rom_locked :: bool

definition pif_new :: pif where
  "pif_new = \<lparr>pif_ram = replicate PIF_RAM_LEN 0, pak_present = replicate 4 False,
     connected = [True, False, False, False], boot_rom = None, boot_checksum = None,
     boot_acquired = None, rom_locked = False\<rparr>"

definition set_controllers_connected :: "bool list \<Rightarrow> pif \<Rightarrow> pif" where
  "set_controllers_connected cs p = p\<lparr>connected := cs\<rparr>"

definition load_boot_rom :: "u8 list \<Rightarrow> pif \<Rightarrow> pif" where
  "load_boot_rom bytes p =
     (if length bytes < PIF_ROM_LEN then p else p\<lparr>boot_rom := Some (take PIF_ROM_LEN bytes)\<rparr>)"

definition has_boot_rom :: "pif \<Rightarrow> bool" where
  "has_boot_rom p = (boot_rom p \<noteq> None)"

definition boot_rom_read :: "pif \<Rightarrow> nat \<Rightarrow> u8" where
  "boot_rom_read p off =
     (if rom_locked p then 0
      else case boot_rom p of Some rom \<Rightarrow> get_or 0 rom off | None \<Rightarrow> 0)"

definition reset_boot :: "pif \<Rightarrow> pif" where
  "reset_boot p = p\<lparr>rom_locked := False, boot_acquired := None\<rparr>"

definition set_boot_checksum :: "u8 list \<Rightarrow> pif \<Rightarrow> pif" where
  "set_boot_checksum c p = p\<lparr>boot_checksum := Some c\<rparr>"

definition boot_command :: "pif \<Rightarrow> (bool \<times> pif) option" where
  "boot_command p =
     (if boot_rom p = None then Some (False, p)
      else do {
        cmd \<leftarrow> ld (pif_ram p) CMD_BYTE;
        p \<leftarrow> (if cmd AND 0x10 \<noteq> 0 then do {
               c \<leftarrow> ld (pif_ram p) CMD_BYTE;
               r \<leftarrow> st CMD_BYTE (c AND NOT 0x10) (pif_ram p);
               Some (p\<lparr>rom_locked := True, pif_ram := r\<rparr>) } else Some p);
        p \<leftarrow> (if cmd AND 0x20 \<noteq> 0 then do {
               got \<leftarrow> slice (pif_ram p) 0x32 0x38;
               r \<leftarrow> blit 0x32 (replicate 6 0) (pif_ram p);
               c \<leftarrow> ld r CMD_BYTE;
               r \<leftarrow> st CMD_BYTE ((c AND NOT 0x20) OR 0x80) r;
               Some (p\<lparr>boot_acquired := Some got, pif_ram := r\<rparr>) } else Some p);
        if cmd AND 0x40 \<noteq> 0 then do {
          c \<leftarrow> ld (pif_ram p) CMD_BYTE;
          r \<leftarrow> st CMD_BYTE (c AND NOT 0x40) (pif_ram p);
          let p = p\<lparr>pif_ram := r\<rparr>;
          Some (case (boot_acquired p, boot_checksum p) of
                  (Some got, Some expected) \<Rightarrow> (got \<noteq> expected, p)
                | _ \<Rightarrow> (False, p)) }
        else Some (False, p) })"

definition set_pak_present :: "nat \<Rightarrow> bool \<Rightarrow> pif \<Rightarrow> pif" where
  "set_pak_present ch v p = (if ch < 4 then p\<lparr>pak_present := (pak_present p)[ch := v]\<rparr> else p)"

definition pif_read :: "pif \<Rightarrow> nat \<Rightarrow> u8" where
  "pif_read p off = get_or 0 (pif_ram p) off"

definition pif_write :: "nat \<Rightarrow> u8 \<Rightarrow> pif \<Rightarrow> pif" where
  "pif_write off v p = (if off < PIF_RAM_LEN then p\<lparr>pif_ram := (pif_ram p)[off := v]\<rparr> else p)"

definition pif_load :: "u8 list \<Rightarrow> pif \<Rightarrow> pif" where
  "pif_load bytes p = p\<lparr>pif_ram := bytes\<rparr>"

section \<open>Joybus\<close>

fun crc_bits :: "nat \<Rightarrow> u8 \<Rightarrow> u8" where
  "crc_bits 0 crc = crc"
| "crc_bits (Suc k) crc =
     (let carry = crc AND 0x80 \<noteq> 0; crc = shl crc 1
      in crc_bits k (if carry then crc XOR 0x85 else crc))"

definition data_crc :: "u8 list \<Rightarrow> u8" where
  "data_crc bytes = foldl (\<lambda>crc b. crc_bits 8 (crc XOR b)) 0 bytes"

definition mark_no_device :: "nat \<Rightarrow> u8 list \<Rightarrow> u8 list" where
  "mark_no_device rx_byte ram =
     (if rx_byte < PIF_RAM_LEN then ram[rx_byte := (ram ! rx_byte) OR RX_NO_DEVICE] else ram)"

definition u16_be :: "u8 \<Rightarrow> u8 \<Rightarrow> u16" where
  "u16_be hi lo = shl (to_u16 hi) 8 OR to_u16 lo"

definition is_eeprom :: "save_device \<Rightarrow> bool" where
  "is_eeprom d = (case d of DevEeprom _ \<Rightarrow> True | _ \<Rightarrow> False)"

text \<open>One handshake, by command; the operands are the code's: the indices of the receive byte, the
  command and the response, and the lengths to transmit and receive.\<close>

definition joy_identify :: "bool \<Rightarrow> nat \<Rightarrow> nat \<Rightarrow> u8 list \<Rightarrow> u8 list option" where
  "joy_identify pak resp rx_len ram =
     (if rx_len \<ge> 3 then do {
        r \<leftarrow> st resp (ID_CONTROLLER ! 0) ram;
        r \<leftarrow> st (resp + 1) (ID_CONTROLLER ! 1) r;
        st (resp + 2) (if pak then 1 else 2) r }
      else Some ram)"

definition joy_poll :: "u32 \<Rightarrow> nat \<Rightarrow> nat \<Rightarrow> u8 list \<Rightarrow> u8 list option" where
  "joy_poll state resp rx_len ram = blit resp (take (min rx_len 4) (to_be_bytes state)) ram"

definition joy_pak_read :: "bool \<Rightarrow> save_device \<Rightarrow> nat \<Rightarrow> nat \<Rightarrow> nat \<Rightarrow> u8 list \<Rightarrow> u8 list option" where
  "joy_pak_read pak save cmd resp rx_len ram = do {
     a \<leftarrow> ld ram (cmd + 1);
     b \<leftarrow> ld ram (cmd + 2);
     let addr = u16_be a b AND 0xFFE0;
     let block = (if pak then cpak_read save addr (replicate 32 0) else replicate 32 0);
     r \<leftarrow> blit resp (take (min rx_len 32) block) ram;
     (if rx_len \<ge> 33 then
        st (resp + 32) (if pak then data_crc block else NOT (data_crc block)) r
      else Some r) }"

definition joy_pak_write :: "bool \<Rightarrow> nat \<Rightarrow> nat \<Rightarrow> nat \<Rightarrow> u8 list \<times> save_device \<Rightarrow> (u8 list \<times> save_device) option" where
  "joy_pak_write pak cmd resp rx_len s = do {
     a \<leftarrow> ld (fst s) (cmd + 1);
     b \<leftarrow> ld (fst s) (cmd + 2);
     let addr = u16_be a b AND 0xFFE0;
     block \<leftarrow> slice (fst s) (cmd + 3) (cmd + 35);
     let save = (if pak then cpak_write addr block (snd s) else snd s);
     r \<leftarrow> (if rx_len \<ge> 1
           then st resp (if pak then data_crc block else NOT (data_crc block)) (fst s)
           else Some (fst s));
     Some (r, save) }"

definition joy_eeprom_id :: "save_device \<Rightarrow> nat \<Rightarrow> nat \<Rightarrow> nat \<Rightarrow> u8 list \<Rightarrow> u8 list option" where
  "joy_eeprom_id save rx_byte resp rx_len ram =
     (case save of
        DevEeprom store \<Rightarrow>
          (if rx_len \<ge> 3 then do {
             let ident = (if length store > 512 then ID_EEPROM_16K else ID_EEPROM_4K);
             r \<leftarrow> st resp (ident ! 0) ram;
             r \<leftarrow> st (resp + 1) (ident ! 1) r;
             st (resp + 2) 0 r }
           else Some ram)
      | _ \<Rightarrow> Some (mark_no_device rx_byte ram))"

definition joy_eeprom_read :: "save_device \<Rightarrow> nat \<Rightarrow> nat \<Rightarrow> nat \<Rightarrow> u8 list \<Rightarrow> u8 list option" where
  "joy_eeprom_read save cmd resp rx_len ram = do {
     blk \<leftarrow> ld ram (cmd + 1);
     blit resp (take (min rx_len 8) (eeprom_read_block save blk (replicate 8 0))) ram }"

definition joy_eeprom_write :: "nat \<Rightarrow> nat \<Rightarrow> nat \<Rightarrow> u8 list \<times> save_device \<Rightarrow> (u8 list \<times> save_device) option" where
  "joy_eeprom_write cmd resp rx_len s = do {
     d \<leftarrow> slice (fst s) (cmd + 2) (cmd + 10);
     blk \<leftarrow> ld (fst s) (cmd + 1);
     let save = eeprom_write_block blk d (snd s);
     r \<leftarrow> (if rx_len \<ge> 1 then st resp 0 (fst s) else Some (fst s));
     Some (r, save) }"

definition with_save :: "save_device \<Rightarrow> u8 list option \<Rightarrow> (u8 list \<times> save_device) option" where
  "with_save save r = map_option (\<lambda>ram. (ram, save)) r"

definition run_channel :: "bool list \<Rightarrow> nat \<Rightarrow> nat \<Rightarrow> nat \<Rightarrow> nat \<Rightarrow> nat \<Rightarrow> nat \<Rightarrow> u32 list \<Rightarrow>
    u8 list \<times> save_device \<Rightarrow> (u8 list \<times> save_device) option" where
  "run_channel paks ch rx_byte cmd tx_len resp rx_len controllers s =
     (if tx_len = 0 then Some s
      else do {
        c \<leftarrow> ld (fst s) cmd;
        if ch \<le> 3 \<and> (c = 0 \<or> c = 0xFF) then do {
          pak \<leftarrow> (if rx_len \<ge> 3 then ld paks ch else Some False);
          with_save (snd s) (joy_identify pak resp rx_len (fst s)) }
        else if ch \<le> 3 \<and> c = 1 then do {
          pad \<leftarrow> ld controllers ch;
          with_save (snd s) (joy_poll pad resp rx_len (fst s)) }
        else if ch \<le> 3 \<and> c = 2 \<and> tx_len \<ge> 3 then do {
          pak \<leftarrow> ld paks ch;
          with_save (snd s) (joy_pak_read pak (snd s) cmd resp rx_len (fst s)) }
        else if ch \<le> 3 \<and> c = 3 \<and> tx_len \<ge> 35 then do {
          pak \<leftarrow> ld paks ch;
          joy_pak_write pak cmd resp rx_len s }
        else if ch = 4 \<and> (c = 0 \<or> c = 0xFF) then
          with_save (snd s) (joy_eeprom_id (snd s) rx_byte resp rx_len (fst s))
        else if ch = 4 \<and> c = 4 \<and> tx_len \<ge> 2 \<and> is_eeprom (snd s) then
          with_save (snd s) (joy_eeprom_read (snd s) cmd resp rx_len (fst s))
        else if ch = 4 \<and> c = 5 \<and> tx_len \<ge> 10 \<and> is_eeprom (snd s) then
          joy_eeprom_write cmd resp rx_len s
        else Some (mark_no_device rx_byte (fst s), snd s) })"

text \<open>A slot's handshake: a controller port with nothing connected answers that no device is there.\<close>

definition joy_serve :: "bool list \<Rightarrow> bool list \<Rightarrow> u32 list \<Rightarrow> nat \<Rightarrow> nat \<Rightarrow> nat \<Rightarrow> nat \<Rightarrow>
    u8 list \<times> save_device \<Rightarrow> (u8 list \<times> save_device) option" where
  "joy_serve paks conn controllers i ch tx_len rx_len s = do {
     no_device \<leftarrow> (if ch < 4 then map_option Not (ld conn ch) else Some False);
     if no_device then Some (mark_no_device (i + 1) (fst s), snd s)
     else run_channel paks ch (i + 1) (i + 2) tx_len (i + 2 + tx_len) rx_len controllers s }"

text \<open>The loop of \<^verbatim>\<open>execute\<close> from index \<open>i\<close> and channel \<open>ch\<close>. A \<^verbatim>\<open>break\<close> returns the state.\<close>

function joy_loop :: "bool list \<Rightarrow> bool list \<Rightarrow> u32 list \<Rightarrow> nat \<Rightarrow> nat \<Rightarrow> u8 list \<times> save_device \<Rightarrow>
    (u8 list \<times> save_device) option" where
  "joy_loop paks conn controllers i ch s =
     (if \<not> (i < CMD_BYTE \<and> ch \<le> 4) then Some s
      else case ld (fst s) i of
        None \<Rightarrow> None
      | Some tx \<Rightarrow>
          if tx = TX_END then Some s
          else if tx = TX_NOP then joy_loop paks conn controllers (i + 1) ch s
          else if tx = TX_SKIP then joy_loop paks conn controllers (i + 1) (ch + 1) s
          else
            let tx_len = unat (tx AND 0x3F) in
            if i + 1 \<ge> CMD_BYTE then Some s
            else case ld (fst s) (i + 1) of
              None \<Rightarrow> None
            | Some rx \<Rightarrow>
                let rx_len = unat (rx AND 0x3F); cmd = i + 2; resp = cmd + tx_len in
                if resp + rx_len > PIF_RAM_LEN then Some s
                else
                  case joy_serve paks conn controllers i ch tx_len rx_len s of None \<Rightarrow> None
                     | Some s \<Rightarrow> joy_loop paks conn controllers (resp + rx_len) (ch + 1) s)"
  by pat_completeness auto

termination joy_loop
  by (relation "measure (\<lambda>(_, _, _, i, _, _). CMD_BYTE - i)") auto

declare joy_loop.simps [simp del]

definition pif_execute :: "u32 list \<Rightarrow> pif \<times> save_device \<Rightarrow> (pif \<times> save_device) option" where
  "pif_execute controllers s = do {
     c \<leftarrow> ld (pif_ram (fst s)) CMD_BYTE;
     if c AND 1 = 0 then Some s
     else do {
       (ram, save) \<leftarrow> joy_loop (pak_present (fst s)) (connected (fst s)) controllers 0 0 (pif_ram (fst s), snd s);
       c \<leftarrow> ld ram CMD_BYTE;
       ram \<leftarrow> st CMD_BYTE (c AND NOT 1) ram;
       Some ((fst s)\<lparr>pif_ram := ram\<rparr>, save) } }"

section \<open>No panic\<close>

definition pif_wf :: "pif \<Rightarrow> bool" where
  "pif_wf p \<longleftrightarrow> length (pif_ram p) = PIF_RAM_LEN \<and> length (pak_present p) = 4 \<and> length (connected p) = 4"

text \<open>A handshake's outcome: it returns, keeping the length of the memory.\<close>

definition returns :: "nat \<Rightarrow> (u8 list \<times> save_device) option \<Rightarrow> bool" where
  "returns n r \<longleftrightarrow> (case r of Some (ram, _) \<Rightarrow> length ram = n | None \<Rightarrow> False)"

lemma returns_Some [simp]: "returns n (Some (ram, save)) = (length ram = n)"
  by (simp add: returns_def)

lemma mark_no_device_length [simp]: "length (mark_no_device i ram) = length ram"
  by (simp add: mark_no_device_def)

lemma run_channel_returns:
  assumes "length (fst s) = 64" "length paks = 4" "length controllers = 4"
    and "rx_byte < cmd" "cmd + tx_len = resp" "resp + rx_len \<le> 64"
  shows "returns 64 (run_channel paks ch rx_byte cmd tx_len resp rx_len controllers s)"
proof -
  have br: "length (read_block z b n xs) = n" for z b n and xs :: "u8 list"
    by (simp add: read_block_def)
  show ?thesis
    using assms
    by (cases s)
       (simp add: run_channel_def joy_identify_def joy_poll_def joy_pak_read_def joy_pak_write_def
        joy_eeprom_id_def joy_eeprom_read_def joy_eeprom_write_def with_save_def is_eeprom_def
        cpak_read_def eeprom_read_block_def br returns_def Let_def split: save_device.split)
qed

lemma joy_serve_returns:
  assumes "length (fst s) = 64" "length paks = 4" "length conn = 4" "length controllers = 4"
    and "i + 2 + tx_len + rx_len \<le> 64"
  shows "returns 64 (joy_serve paks conn controllers i ch tx_len rx_len s)"
  using assms run_channel_returns[of s paks controllers "i + 1" "i + 2" tx_len "i + 2 + tx_len" rx_len ch]
  by (cases s) (simp add: joy_serve_def)

lemma joy_loop_returns:
  assumes "length (fst s) = 64" "length paks = 4" "length conn = 4" "length controllers = 4"
  shows "returns 64 (joy_loop paks conn controllers i ch s)"
  using assms
proof (induction paks conn controllers i ch s rule: joy_loop.induct)
  case (1 paks conn controllers i ch s)
  show ?case
  proof (cases "i < 63 \<and> ch \<le> 4")
    case False
    then show ?thesis using "1.prems"(1) by (cases s) (simp add: joy_loop.simps)
  next
    case True
    then have li: "ld (fst s) i = Some (fst s ! i)" "ld (fst s) (i + 1) = Some (fst s ! (i + 1))"
      using "1.prems"(1) by simp_all
    define tx rx where "tx = fst s ! i" and "rx = fst s ! (i + 1)"
    define tl rl where "tl = unat (tx AND 0x3F)" and "rl = unat (rx AND 0x3F)"
    consider "tx = TX_END" | "tx = TX_NOP" "tx \<noteq> TX_END" | "tx = TX_SKIP" "tx \<noteq> TX_END" "tx \<noteq> TX_NOP"
      | "tx \<noteq> TX_END" "tx \<noteq> TX_NOP" "tx \<noteq> TX_SKIP" by blast
    then show ?thesis
    proof cases
      case 1
      then show ?thesis using True "1.prems"(1) li by (cases s) (simp add: joy_loop.simps tx_def)
    next
      case 2
      then show ?thesis using "1.IH"(1)[OF _ li(1)] "1.prems" True li
        by (subst joy_loop.simps) (simp add: tx_def)
    next
      case 3
      then show ?thesis using "1.IH"(2)[OF _ li(1)] "1.prems" True li
        by (subst joy_loop.simps) (simp add: tx_def)
    next
      case 4
      have eq: "joy_loop paks conn controllers i ch s =
         (if i + 1 \<ge> 63 then Some s
          else if i + 2 + tl + rl > 64 then Some s
          else case joy_serve paks conn controllers i ch tl rl s of None \<Rightarrow> None
             | Some s \<Rightarrow> joy_loop paks conn controllers (i + 2 + tl + rl) (ch + 1) s)"
        using 4 True li by (subst joy_loop.simps) (simp add: tx_def rx_def tl_def rl_def Let_def cong: option.case_cong)
      show ?thesis
      proof (cases "i + 1 \<ge> 63 \<or> i + 2 + tl + rl > 64")
        case True
        then have "joy_loop paks conn controllers i ch s = Some s" unfolding eq by auto
        then show ?thesis using "1.prems"(1) by (cases s) simp
      next
        case False
        then obtain s' where s': "joy_serve paks conn controllers i ch tl rl s = Some s'" "length (fst s') = 64"
          using joy_serve_returns[of s paks conn controllers i tl rl ch] "1.prems"
          by (cases "joy_serve paks conn controllers i ch tl rl s") (auto simp: returns_def)
        have "returns 64 (joy_loop paks conn controllers (i + 2 + tl + rl) (ch + 1) s')"
          using "1.IH"(3)[OF _ li(1) _ _ _ refl _ li(2) refl refl refl _, of s'] 4 True False "1.prems" s'
          by (simp add: tx_def rx_def tl_def rl_def)
        then show ?thesis using False s' by (simp add: eq)
      qed
    qed
  qed
qed

lemma boot_command_returns:
  assumes "pif_wf p"
  shows "case boot_command p of Some r \<Rightarrow> pif_wf (snd r) | None \<Rightarrow> False"
  using assms by (simp add: boot_command_def pif_wf_def Let_def split: option.split)

text \<open>C32. The joybus interpreter always returns and never indexes out of bounds: whatever the 64 bytes
  of PIF RAM say, running it (and the boot handshake) from a well-formed PIF yields a well-formed
  PIF, with the run bit of the command byte clear once the interpreter has run.\<close>

theorem pif_never_panics:
  assumes "pif_wf p" "length controllers = 4"
  shows "(\<exists>p' save'. pif_execute controllers (p, save) = Some (p', save') \<and> pif_wf p' \<and> \<not> bit (pif_ram p' ! CMD_BYTE) 0)
    \<and> (\<exists>halt p'. boot_command p = Some (halt, p') \<and> pif_wf p')"
proof
  have l: "length (pif_ram p) = 64" "length (pak_present p) = 4" "length (connected p) = 4"
    using assms(1) by (simp_all add: pif_wf_def)
  have "returns 64 (joy_loop (pak_present p) (connected p) controllers 0 0 (pif_ram p, save))"
    using joy_loop_returns[of "(pif_ram p, save)"] l assms(2) by simp
  then obtain ram' save' where j: "joy_loop (pak_present p) (connected p) controllers 0 0 (pif_ram p, save) = Some (ram', save')"
    and l': "length ram' = 64"
    by (cases "joy_loop (pak_present p) (connected p) controllers 0 0 (pif_ram p, save)") (auto simp: returns_def)
  have b: "\<not> bit (c AND NOT 1) 0" for c :: u8 by (simp add: bit_simps)
  show "\<exists>p' save'. pif_execute controllers (p, save) = Some (p', save') \<and> pif_wf p' \<and> \<not> bit (pif_ram p' ! CMD_BYTE) 0"
  proof (cases "pif_ram p ! 63 AND 1 = 0")
    case True
    then have "\<not> bit (pif_ram p ! 63) 0" using and_shl_1[of "pif_ram p ! 63" 0] by simp
    then show ?thesis using True l assms(1) by (simp add: pif_execute_def)
  next
    case False
    then show ?thesis using l l' j b by (simp add: pif_execute_def pif_wf_def)
  qed
  show "\<exists>halt p'. boot_command p = Some (halt, p') \<and> pif_wf p'"
    using boot_command_returns[OF assms(1)] by (auto split: option.splits)
qed

lemma pif_never_panics_witness:
  "\<exists>p' save'. pif_execute [0, 0, 0, 0] (pif_new, DevNone) = Some (p', save') \<and> pif_wf p' \<and> \<not> bit (pif_ram p' ! CMD_BYTE) 0"
  using pif_never_panics[of pif_new "[0, 0, 0, 0]" DevNone] by (simp add: pif_wf_def pif_new_def)

end
