(* ===== verification/Cart.thy ===== *)
theory Cart
  imports Pif
begin

text \<open>
  The cartridge: \<^verbatim>\<open>rustyn64-cart/src/lib.rs\<close>. ROM dumps in three byte orders, the header, the lockout
  chip's identification by checksum, and the cartridge's side of the peripheral bus.
\<close>

section \<open>Lockout chip\<close>

datatype cic = Cic6101 | Cic6102 | Cic6103 | Cic6105 | Cic6106

record cic_secrets =
  ipl2_seed :: u8
  ipl3_seed :: u8
  ipl2_checksum :: "u8 list"

fun crc32_bits :: "nat \<Rightarrow> u32 \<Rightarrow> u32" where
  "crc32_bits 0 crc = crc"
| "crc32_bits (Suc k) crc =
     crc32_bits k (if crc AND 1 \<noteq> 0 then 0xEDB88320 XOR shr crc 1 else shr crc 1)"

definition crc32 :: "u8 list \<Rightarrow> u32" where
  "crc32 bytes = NOT (foldl (\<lambda>crc b. crc32_bits 8 (crc XOR to_u32 b)) 0xFFFFFFFF bytes)"

definition from_ipl3 :: "u8 list \<Rightarrow> cic" where
  "from_ipl3 rom =
     (case slice rom 0x40 0x1000 of
        None \<Rightarrow> Cic6102
      | Some ipl3 \<Rightarrow>
          (let c = crc32 ipl3
           in if c \<in> {0x6170A4A1, 0x009E9EA3, 0xCD19FEF1, 0xB98CED9A, 0xE71C2766} then Cic6101
              else if c = 0x0B050EE0 then Cic6103
              else if c = 0x98BC2C86 then Cic6105
              else if c = 0xACC8580A then Cic6106
              else Cic6102))"

definition boot_secrets :: "cic \<Rightarrow> cic_secrets" where
  "boot_secrets c =
     (let (s2, s3, sum) = (case c of
        Cic6101 \<Rightarrow> (0x3F, 0x3F, [0x45, 0xCC, 0x73, 0xEE, 0x31, 0x7A])
      | Cic6102 \<Rightarrow> (0x3F, 0x3F, [0xA5, 0x36, 0xC0, 0xF1, 0xD8, 0x59])
      | Cic6103 \<Rightarrow> (0x78, 0x78, [0x58, 0x6F, 0xD4, 0x70, 0x98, 0x67])
      | Cic6105 \<Rightarrow> (0x91, 0x91, [0x86, 0x18, 0xA4, 0x5B, 0xC2, 0xD3])
      | Cic6106 \<Rightarrow> (0x85, 0x85, [0x2B, 0xBA, 0xD4, 0xE6, 0xEB, 0x74]))
      in \<lparr>ipl2_seed = s2, ipl3_seed = s3, ipl2_checksum = sum\<rparr>)"

section \<open>ROM images\<close>

datatype rom_format = Z64BigEndian | N64LittleEndian | V64ByteSwapped

definition detect :: "u8 list \<Rightarrow> rom_format option" where
  "detect magic =
     (if length magic < 4 then None
      else let m = take 4 magic
        in if m = [0x80, 0x37, 0x12, 0x40] then Some Z64BigEndian
           else if m = [0x40, 0x12, 0x37, 0x80] then Some N64LittleEndian
           else if m = [0x37, 0x80, 0x40, 0x12] then Some V64ByteSwapped
           else None)"

datatype cart_error = ShortHeader | UnknownFormat

record rom_header =
  h_title :: "u8 list"
  h_game_code :: "u8 list"
  h_save_type :: save_type
  h_cic :: cic

definition parse_header :: "u8 list \<Rightarrow> cart_error + rom_header" where
  "parse_header rom =
     (if length rom < 0x40 then Inl ShortHeader
      else Inr \<lparr>h_title = take 20 (drop 0x20 rom), h_game_code = take 4 (drop 0x3B rom),
             h_save_type = SaveNone, h_cic = from_ipl3 rom\<rparr>)"

fun swap_pairs :: "u8 list \<Rightarrow> u8 list" where
  "swap_pairs (a # b # xs) = b # a # swap_pairs xs"
| "swap_pairs xs = xs"

fun swap_words :: "u8 list \<Rightarrow> u8 list" where
  "swap_words (a # b # c # d # xs) = d # c # b # a # swap_words xs"
| "swap_words xs = xs"

definition normalize_to_big_endian :: "u8 list \<Rightarrow> rom_format \<Rightarrow> u8 list" where
  "normalize_to_big_endian raw f =
     (case f of Z64BigEndian \<Rightarrow> raw | V64ByteSwapped \<Rightarrow> swap_pairs raw | N64LittleEndian \<Rightarrow> swap_words raw)"

section \<open>Cartridge\<close>

record cart =
  c_rom :: "u8 list"
  c_header :: rom_header
  c_save :: save_device
  c_pif :: pif

definition cart_load :: "u8 list \<Rightarrow> cart_error + cart" where
  "cart_load raw =
     (case detect raw of
        None \<Rightarrow> Inl UnknownFormat
      | Some format \<Rightarrow>
          (let rom = normalize_to_big_endian raw format
           in case parse_header rom of
                Inl e \<Rightarrow> Inl e
              | Inr header \<Rightarrow>
                  Inr \<lparr>c_rom = rom, c_header = header, c_save = save_new (h_save_type header),
                    c_pif = set_pak_present 0 (h_save_type header = ControllerPak) pif_new\<rparr>))"

text \<open>The derived default: no ROM, an empty header, no save device.\<close>

definition cart_new :: cart where
  "cart_new = \<lparr>c_rom = [],
     c_header = \<lparr>h_title = replicate 20 0, h_game_code = replicate 4 0, h_save_type = SaveNone, h_cic = Cic6102\<rparr>,
     c_save = DevNone, c_pif = pif_new\<rparr>"

definition reattach_rom :: "u8 list \<Rightarrow> cart \<Rightarrow> cart" where
  "reattach_rom rom c = c\<lparr>c_rom := rom\<rparr>"

definition ROM_PI_BASE :: u32 where "ROM_PI_BASE = 0x10000000"

definition cart_pi_read :: "cart \<Rightarrow> u32 \<Rightarrow> u8" where
  "cart_pi_read c addr =
     (let from_rom = get_or 0 (c_rom c) (unat (ucast addr - (ucast ROM_PI_BASE :: u64)))
      in if SAVE_PI_BASE \<le> addr \<and> addr < ROM_PI_BASE
         then (case save_pi_read (c_save c) addr of Some b \<Rightarrow> b | None \<Rightarrow> from_rom)
         else from_rom)"

definition cart_pi_write :: "u32 \<Rightarrow> u8 \<Rightarrow> cart \<Rightarrow> cart" where
  "cart_pi_write addr v c =
     (if SAVE_PI_BASE \<le> addr \<and> addr < ROM_PI_BASE \<and> addr AND NOT 3 \<noteq> FLASH_CIR
      then c\<lparr>c_save := save_pi_write addr v (c_save c)\<rparr> else c)"

definition cart_pi_write_word :: "u32 \<Rightarrow> u32 \<Rightarrow> cart \<Rightarrow> cart" where
  "cart_pi_write_word addr w c =
     (if addr AND NOT 3 = FLASH_CIR then c\<lparr>c_save := flash_cir w (c_save c)\<rparr>
      else foldl (\<lambda>c i. cart_pi_write (addr + of_nat i) (to_be_bytes w ! i) c) c [0..<4])"

text \<open>\<open>pif_execute\<close> and \<open>boot_command\<close> never panic on a well-formed PIF (\<open>pif_never_panics\<close>), so the
  \<open>None\<close> branches below are not reached.\<close>

definition cart_pif_execute :: "u32 list \<Rightarrow> cart \<Rightarrow> cart" where
  "cart_pif_execute controllers c =
     (case pif_execute controllers (c_pif c, c_save c) of
        Some (p, s) \<Rightarrow> c\<lparr>c_pif := p, c_save := s\<rparr> | None \<Rightarrow> c)"

definition cart_pif_boot_command :: "cart \<Rightarrow> bool \<times> cart" where
  "cart_pif_boot_command c =
     (case boot_command (c_pif c) of Some (halt, p) \<Rightarrow> (halt, c\<lparr>c_pif := p\<rparr>) | None \<Rightarrow> (False, c))"

section \<open>Lemmas\<close>

lemma swap_pairs_involution [simp]: "swap_pairs (swap_pairs xs) = xs"
  by (induction xs rule: swap_pairs.induct) simp_all

lemma swap_words_involution [simp]: "swap_words (swap_words xs) = xs"
  by (induction xs rule: swap_words.induct) simp_all

lemma swap_pairs_length [simp]: "length (swap_pairs xs) = length xs"
  by (induction xs rule: swap_pairs.induct) simp_all

lemma swap_words_length [simp]: "length (swap_words xs) = length xs"
  by (induction xs rule: swap_words.induct) simp_all

text \<open>The three dumps of an image, by byte position: the bytes of each whole unit of one, two or four are
  stored in reverse, those of an incomplete last unit as they are.\<close>

definition dump_unit :: "rom_format \<Rightarrow> nat" where
  "dump_unit f = (case f of Z64BigEndian \<Rightarrow> 1 | V64ByteSwapped \<Rightarrow> 2 | N64LittleEndian \<Rightarrow> 4)"

definition dump :: "rom_format \<Rightarrow> u8 list \<Rightarrow> u8 list" where
  "dump f rom =
     (let u = dump_unit f
      in map (\<lambda>i. let base = i - i mod u in if base + u \<le> length rom then rom ! (base + (u - 1 - i mod u)) else rom ! i)
           [0..<length rom])"

lemma swap_pairs_nth:
  "i < length xs \<Longrightarrow> swap_pairs xs ! i = (if i - i mod 2 + 2 \<le> length xs then xs ! (i - i mod 2 + (1 - i mod 2)) else xs ! i)"
proof (induction xs arbitrary: i rule: swap_pairs.induct)
  case (1 a b xs)
  consider "i = 0" | "i = 1" | j where "i = j + 2" by (metis add.commute add_2_eq_Suc' not0_implies_Suc One_nat_def)
  then show ?case
  proof cases
    case (3 j)
    then have "i - i mod 2 = Suc (Suc (j - j mod 2))" by (simp add: Suc_diff_le)
    then show ?thesis using 1 3 by simp
  qed simp_all
qed simp_all

lemma swap_words_nth:
  "i < length xs \<Longrightarrow> swap_words xs ! i = (if i - i mod 4 + 4 \<le> length xs then xs ! (i - i mod 4 + (3 - i mod 4)) else xs ! i)"
proof (induction xs arbitrary: i rule: swap_words.induct)
  case (1 a b c d xs)
  have "i = 0 \<or> i = Suc 0 \<or> i = Suc (Suc 0) \<or> i = Suc (Suc (Suc 0)) \<or> (\<exists>j. i = Suc (Suc (Suc (Suc j))))" by presburger
  then consider "i = 0" | "i = Suc 0" | "i = Suc (Suc 0)" | "i = Suc (Suc (Suc 0))" | j where "i = Suc (Suc (Suc (Suc j)))"
    by blast
  then show ?case
  proof cases
    case (5 j)
    have m: "i mod 4 = j mod 4" unfolding 5 by presburger
    have "j mod 4 \<le> j" by simp
    then have base: "i - j mod 4 = Suc (Suc (Suc (Suc (j - j mod 4))))" by (simp add: 5 Suc_diff_le)
    define v w where "v = j - j mod 4" and "w = 3 - j mod 4"
    have "swap_words xs ! j = (if v + 4 \<le> length xs then xs ! (v + w) else xs ! j)"
      using 1 5 by (simp add: v_def w_def)
    then show ?thesis unfolding m base v_def[symmetric] w_def[symmetric] by (simp add: 5)
  qed (simp_all add: mod_Suc)
qed simp_all

lemma dump_swaps: "dump f rom = normalize_to_big_endian rom f"
proof (rule nth_equalityI)
  show "length (dump f rom) = length (normalize_to_big_endian rom f)"
    by (cases f) (simp_all add: dump_def normalize_to_big_endian_def Let_def)
  fix i assume "i < length (dump f rom)"
  then have i: "i < length rom" by (simp add: dump_def Let_def)
  show "dump f rom ! i = normalize_to_big_endian rom f ! i"
  proof -
    have d: "dump f rom ! i = (if i - i mod u + u \<le> length rom then rom ! (i - i mod u + (u - 1 - i mod u)) else rom ! i)"
      if "u = dump_unit f" for u using i by (simp add: dump_def Let_def that)
    have n: "(1 :: nat) - 1 = 0" "(2 :: nat) - 1 = 1" "(4 :: nat) - 1 = 3" by simp_all
    show ?thesis
    proof (cases f)
      case Z64BigEndian
      then show ?thesis using d[of 1] i by (simp add: dump_unit_def normalize_to_big_endian_def)
    next
      case V64ByteSwapped
      then show ?thesis using d[of 2]
        by (simp only: dump_unit_def normalize_to_big_endian_def rom_format.case swap_pairs_nth[OF i] n)
    next
      case N64LittleEndian
      then show ?thesis using d[of 4]
        by (simp only: dump_unit_def normalize_to_big_endian_def rom_format.case swap_words_nth[OF i] n)
    qed
  qed
qed

lemma length_dump [simp]: "length (dump f rom) = length rom"
  by (simp add: dump_def Let_def)

lemma normalize_dump: "normalize_to_big_endian (dump f rom) f = rom"
  by (cases f) (simp_all add: dump_swaps normalize_to_big_endian_def)

lemma detect_dump:
  assumes "detect rom = Some Z64BigEndian"
  shows "detect (dump f rom) = Some f"
proof -
  obtain a b c d rest where r: "rom = a # b # c # d # rest"
    using assms by (cases rom rule: swap_words.cases) (auto simp: detect_def split: if_splits)
  then have "a = 0x80" "b = 0x37" "c = 0x12" "d = 0x40"
    using assms by (auto simp: detect_def Let_def split: if_splits)
  then show ?thesis
    by (cases f) (simp_all add: r dump_swaps normalize_to_big_endian_def detect_def)
qed

text \<open>Loading is blind to the byte order of the dump: the little-endian and byte-swapped dumps of a
  big-endian image of at least 64 bytes load as the image itself does, with the image restored byte
  for byte; an image whose first word is in no known order is rejected as unknown, and a shorter one
  as having no header.\<close>

lemma load_byte_order:
  assumes "detect rom = Some Z64BigEndian"
  shows "cart_load (dump f rom) =
    (if length rom < 0x40 then Inl ShortHeader
     else Inr \<lparr>c_rom = rom,
       c_header = \<lparr>h_title = take 20 (drop 0x20 rom), h_game_code = take 4 (drop 0x3B rom),
                   h_save_type = SaveNone, h_cic = from_ipl3 rom\<rparr>,
       c_save = DevNone, c_pif = pif_new\<rparr>)
    \<and> (cart_load raw = Inl UnknownFormat \<longleftrightarrow> detect raw = None)"
proof -
  have p: "set_pak_present 0 False pif_new = pif_new"
    by (simp add: set_pak_present_def pif_new_def numeral_eq_Suc)
  show ?thesis
    using detect_dump[OF assms, of f]
    by (auto simp: cart_load_def normalize_dump parse_header_def save_new_def p Let_def split: option.splits if_splits)
qed

lemma load_byte_order_witness:
  "cart_load (dump N64LittleEndian ([0x80, 0x37, 0x12, 0x40] @ replicate 12 0)) = Inl ShortHeader"
  using load_byte_order[of "[0x80, 0x37, 0x12, 0x40] @ replicate 12 0" N64LittleEndian]
  by (simp add: detect_def)

end
