(* ===== verification/Pi_Dma.thy ===== *)
theory Pi_Dma
  imports Prelude
begin

text \<open>
  The peripheral interface's registers and DMA engine: \<^verbatim>\<open>rustyn64-cart/src/pi.rs\<close>. A write of a
  length register latches the transfer the bus then performs; \<open>pi_complete\<close> ends it.
\<close>

definition PI_BASE :: u32 where "PI_BASE = 0x04600000"
definition PI_DRAM_ADDR :: u32 where "PI_DRAM_ADDR = 0x04600000"
definition PI_CART_ADDR :: u32 where "PI_CART_ADDR = 0x04600004"
definition PI_RD_LEN :: u32 where "PI_RD_LEN = 0x04600008"
definition PI_WR_LEN :: u32 where "PI_WR_LEN = 0x0460000C"
definition PI_STATUS :: u32 where "PI_STATUS = 0x04600010"
definition PI_BSD_DOM1_LAT :: u32 where "PI_BSD_DOM1_LAT = 0x04600014"
definition STATUS_DMA_BUSY :: u32 where "STATUS_DMA_BUSY = 1"
definition STATUS_IO_BUSY :: u32 where "STATUS_IO_BUSY = shl 1 1"
definition STATUS_INTERRUPT :: u32 where "STATUS_INTERRUPT = shl 1 3"
definition STATUS_W_RESET :: u32 where "STATUS_W_RESET = 1"
definition STATUS_W_CLR_INTR :: u32 where "STATUS_W_CLR_INTR = shl 1 1"

lemmas pi_regs = PI_BASE_def PI_DRAM_ADDR_def PI_CART_ADDR_def PI_RD_LEN_def PI_WR_LEN_def
  PI_STATUS_def PI_BSD_DOM1_LAT_def STATUS_DMA_BUSY_def STATUS_IO_BUSY_def STATUS_INTERRUPT_def
  STATUS_W_RESET_def STATUS_W_CLR_INTR_def

record transfer =
  t_dram :: u32
  t_cart :: u32
  t_len :: u32
  t_to_dram :: bool

record pi =
  pi_dram :: u32
  pi_cart :: u32
  pi_busy :: bool
  pi_intr :: bool
  dom_lat :: "u8 list"
  dom_pwd :: "u8 list"
  dom_pgs :: "u8 list"
  dom_rls :: "u8 list"

definition pi_new :: pi where
  "pi_new = \<lparr>pi_dram = 0, pi_cart = 0, pi_busy = False, pi_intr = False,
     dom_lat = [0, 0], dom_pwd = [0, 0], dom_pgs = [0, 0], dom_rls = [0, 0]\<rparr>"

definition dom_field :: "u32 \<Rightarrow> (nat \<times> nat) option" where
  "dom_field addr =
     (let off = (addr AND NOT 3) - PI_BSD_DOM1_LAT
      in if off < 0x10 then Some (0, unat off div 4)
         else if off < 0x20 then Some (1, unat (off - 0x10) div 4)
         else None)"

definition pi_read :: "pi \<Rightarrow> u32 \<Rightarrow> u32" where
  "pi_read p addr =
     (let a = addr AND NOT 3
      in if a = PI_DRAM_ADDR then pi_dram p
         else if a = PI_CART_ADDR then pi_cart p
         else if a = PI_STATUS then
           (if pi_busy p then STATUS_DMA_BUSY OR STATUS_IO_BUSY else 0) OR
           (if pi_intr p then STATUS_INTERRUPT else 0)
         else case dom_field a of
           Some (d, field) \<Rightarrow>
             (if field = 0 then to_u32 (dom_lat p ! d)
              else if field = 1 then to_u32 (dom_pwd p ! d)
              else if field = 2 then to_u32 (dom_pgs p ! d AND 0xF)
              else to_u32 (dom_rls p ! d AND 3))
         | None \<Rightarrow> 0)"

definition pi_start :: "u32 \<Rightarrow> bool \<Rightarrow> pi \<Rightarrow> transfer \<times> pi" where
  "pi_start len to_dram p =
     (let len = (len AND 0x00FFFFFF) + 1
      in (\<lparr>t_dram = pi_dram p, t_cart = pi_cart p, t_len = len, t_to_dram = to_dram\<rparr>,
          p\<lparr>pi_busy := True, pi_dram := pi_dram p + len, pi_cart := pi_cart p + len\<rparr>))"

definition pi_write :: "u32 \<Rightarrow> u32 \<Rightarrow> pi \<Rightarrow> transfer option \<times> pi" where
  "pi_write addr val p =
     (let a = addr AND NOT 3
      in if a = PI_DRAM_ADDR then (None, p\<lparr>pi_dram := val AND 0x00FFFFF8\<rparr>)
         else if a = PI_CART_ADDR then (None, p\<lparr>pi_cart := val AND 0xFFFFFFFE\<rparr>)
         else if a = PI_RD_LEN then (let (t, p) = pi_start val False p in (Some t, p))
         else if a = PI_WR_LEN then (let (t, p) = pi_start val True p in (Some t, p))
         else if a = PI_STATUS then
           (let p = (if val AND STATUS_W_RESET \<noteq> 0 then p\<lparr>pi_busy := False\<rparr> else p)
            in (None, if val AND STATUS_W_CLR_INTR \<noteq> 0 then p\<lparr>pi_intr := False\<rparr> else p))
         else case dom_field a of
           Some (d, field) \<Rightarrow>
             (None,
              if field = 0 then p\<lparr>dom_lat := (dom_lat p)[d := to_u8 val]\<rparr>
              else if field = 1 then p\<lparr>dom_pwd := (dom_pwd p)[d := to_u8 val]\<rparr>
              else if field = 2 then p\<lparr>dom_pgs := (dom_pgs p)[d := to_u8 (val AND 0xF)]\<rparr>
              else p\<lparr>dom_rls := (dom_rls p)[d := to_u8 (val AND 3)]\<rparr>)
         | None \<Rightarrow> (None, p))"

definition pi_complete :: "pi \<Rightarrow> pi" where
  "pi_complete p = p\<lparr>pi_busy := False, pi_intr := True\<rparr>"

definition pi_wf :: "pi \<Rightarrow> bool" where
  "pi_wf p \<longleftrightarrow> length (dom_lat p) = 2 \<and> length (dom_pwd p) = 2 \<and> length (dom_pgs p) = 2 \<and> length (dom_rls p) = 2"

lemma pi_wf_ops [invlib]:
  "pi_wf pi_new" "pi_wf p \<Longrightarrow> pi_wf (snd (pi_write a v p))" "pi_wf p \<Longrightarrow> pi_wf (pi_complete p)"
  by (simp_all add: pi_wf_def pi_new_def pi_complete_def pi_write_def pi_start_def Let_def split: option.split)

lemma dom_field_lt: "dom_field a = Some (d, k) \<Longrightarrow> d < 2 \<and> k < 4"
proof -
  assume h: "dom_field a = Some (d, k)"
  define off where "off = (a AND NOT 3) - PI_BSD_DOM1_LAT"
  have "unat (off - 0x10) = unat off - 0x10" if "0x10 \<le> off"
    using unat_sub[OF that] by simp
  then show ?thesis using h
    unfolding dom_field_def off_def[symmetric] Let_def
    by (auto simp: word_less_nat_alt word_le_nat_alt not_less split: if_splits)
qed

lemma pi_transfer_bounds:
  assumes "fst (pi_write a v p) = Some t"
  shows "0 < unat (t_len t) \<and> unat (t_len t) \<le> 2 ^ 24"
proof -
  have m: "(0x00FFFFFF :: u32) = mask 24" by (simp add: mask_eq_exp_minus_1)
  have le: "unat (v AND 0x00FFFFFF) < 2 ^ 24" unfolding m by (rule unat_and_mask_lt)
  have "unat ((v AND 0x00FFFFFF) + 1) = Suc (unat (v AND 0x00FFFFFF))"
    using le by (simp add: unat_word_ariths)
  then show ?thesis
    using assms le by (auto simp: pi_write_def pi_start_def Let_def split: if_splits option.splits)
qed

end
