(* ===== verification/Sp.thy ===== *)
theory Sp
  imports Prelude
begin

text \<open>
  The signal processor's interface registers: \<^verbatim>\<open>rustyn64-rsp/src/sp.rs\<close>. Status flags under paired
  set and clear bits, the semaphore a read takes, and the DMA a length write starts.
\<close>

definition SP_HALTED :: u32 where "SP_HALTED = 1"
definition SP_BROKE :: u32 where "SP_BROKE = shl 1 1"
definition SP_DMA_BUSY :: u32 where "SP_DMA_BUSY = shl 1 2"
definition SP_DMA_FULL :: u32 where "SP_DMA_FULL = shl 1 3"
definition SP_SSTEP :: u32 where "SP_SSTEP = shl 1 5"
definition SP_INTBREAK :: u32 where "SP_INTBREAK = shl 1 6"
definition SP_SIG0 :: u32 where "SP_SIG0 = shl 1 7"

record dma =
  dma_sp_addr :: u32
  dma_ram_addr :: u32
  dma_row_len :: u32
  dma_rows :: u32
  dma_skip :: u32
  dma_to_dram :: bool

record sp_regs =
  sp_status :: u32
  sp_pc :: u32
  sp_semaphore :: bool
  sp_addr :: u32
  sp_ram_addr :: u32
  sp_len :: u32
  sp_pending_sp_addr :: u32
  sp_pending_ram_addr :: u32

definition sp_new :: sp_regs where
  "sp_new = \<lparr>sp_status = SP_HALTED, sp_pc = 0, sp_semaphore = False, sp_addr = 0, sp_ram_addr = 0,
     sp_len = 0, sp_pending_sp_addr = 0, sp_pending_ram_addr = 0\<rparr>"

definition sp_halted :: "sp_regs \<Rightarrow> bool" where
  "sp_halted s = (sp_status s AND SP_HALTED \<noteq> 0)"

definition sp_broke :: "sp_regs \<Rightarrow> bool" where
  "sp_broke s = (sp_status s AND SP_BROKE \<noteq> 0)"

definition sp_set_broke :: "bool \<Rightarrow> sp_regs \<Rightarrow> sp_regs" where
  "sp_set_broke v s = s\<lparr>sp_status := (if v then sp_status s OR SP_BROKE else sp_status s AND NOT SP_BROKE)\<rparr>"

definition sp_set_halted :: "bool \<Rightarrow> sp_regs \<Rightarrow> sp_regs" where
  "sp_set_halted v s = s\<lparr>sp_status := (if v then sp_status s OR SP_HALTED else sp_status s AND NOT SP_HALTED)\<rparr>"

definition sp_set_pc :: "u32 \<Rightarrow> sp_regs \<Rightarrow> sp_regs" where
  "sp_set_pc pc s = s\<lparr>sp_pc := pc AND 0xFFC\<rparr>"

definition sp_read :: "u32 \<Rightarrow> sp_regs \<Rightarrow> u32 \<times> sp_regs" where
  "sp_read i s =
     (let k = i AND 7
      in if k = 0 then (sp_addr s, s)
         else if k = 1 then (sp_ram_addr s, s)
         else if k = 2 \<or> k = 3 then (sp_len s, s)
         else if k = 4 then (sp_status s, s)
         else if k = 5 then (b2w (sp_status s AND SP_DMA_FULL \<noteq> 0), s)
         else if k = 6 then (b2w (sp_status s AND SP_DMA_BUSY \<noteq> 0), s)
         else (b2w (sp_semaphore s), s\<lparr>sp_semaphore := True\<rparr>))"

definition sp_apply :: "u32 \<Rightarrow> u32 \<Rightarrow> u32 \<Rightarrow> u32 \<Rightarrow> sp_regs \<Rightarrow> sp_regs" where
  "sp_apply val clr setb flag s =
     (let clearing = val AND clr \<noteq> 0; setting = val AND setb \<noteq> 0
      in if clearing \<and> setting then s
         else if clearing then s\<lparr>sp_status := sp_status s AND NOT flag\<rparr>
         else if setting then s\<lparr>sp_status := sp_status s OR flag\<rparr>
         else s)"

fun apply_signals :: "u32 \<Rightarrow> nat list \<Rightarrow> sp_regs \<Rightarrow> sp_regs" where
  "apply_signals val [] s = s"
| "apply_signals val (n # ns) s =
     apply_signals val ns (sp_apply val (shl 1 (9 + 2 * n)) (shl 1 (10 + 2 * n)) (shl SP_SIG0 n) s)"

definition write_status :: "u32 \<Rightarrow> sp_regs \<Rightarrow> sp_regs" where
  "write_status val s =
     (let s = sp_apply val 1 (shl 1 1) SP_HALTED s;
          s = (if val AND shl 1 2 \<noteq> 0 then s\<lparr>sp_status := sp_status s AND NOT SP_BROKE\<rparr> else s);
          s = sp_apply val (shl 1 5) (shl 1 6) SP_SSTEP s;
          s = sp_apply val (shl 1 7) (shl 1 8) SP_INTBREAK s
      in apply_signals val [0..<8] s)"

definition interrupt_change :: "u32 \<Rightarrow> bool option" where
  "interrupt_change val =
     (case (val AND shl 1 3 \<noteq> 0, val AND shl 1 4 \<noteq> 0) of
        (True, False) \<Rightarrow> Some False | (False, True) \<Rightarrow> Some True | _ \<Rightarrow> None)"

definition start_dma :: "u32 \<Rightarrow> bool \<Rightarrow> sp_regs \<Rightarrow> dma \<times> sp_regs" where
  "start_dma len_word to_dram s =
     (let row_len = ((len_word AND 0xFFF) OR 7) + 1;
          rows = (shr len_word 12 AND 0xFF) + 1;
          skip = shr len_word 20 AND 0xFF8;
          s = s\<lparr>sp_addr := sp_pending_sp_addr s, sp_ram_addr := sp_pending_ram_addr s, sp_len := shl skip 20\<rparr>
      in (\<lparr>dma_sp_addr = sp_addr s, dma_ram_addr = sp_ram_addr s, dma_row_len = row_len,
           dma_rows = rows, dma_skip = skip, dma_to_dram = to_dram\<rparr>, s))"

definition sp_write :: "u32 \<Rightarrow> u32 \<Rightarrow> sp_regs \<Rightarrow> dma option \<times> sp_regs" where
  "sp_write i val s =
     (let k = i AND 7
      in if k = 0 then (None, s\<lparr>sp_pending_sp_addr := val AND 0x1FF8\<rparr>)
         else if k = 1 then (None, s\<lparr>sp_pending_ram_addr := val AND 0x00FFFFF8\<rparr>)
         else if k = 2 then (let (d, s) = start_dma val False s in (Some d, s))
         else if k = 3 then (let (d, s) = start_dma val True s in (Some d, s))
         else if k = 4 then (None, write_status val s)
         else if k = 7 then (None, s\<lparr>sp_semaphore := False\<rparr>)
         else (None, s))"

definition complete_dma :: "u32 \<Rightarrow> u32 \<Rightarrow> sp_regs \<Rightarrow> sp_regs" where
  "complete_dma a r s =
     s\<lparr>sp_addr := a, sp_ram_addr := r, sp_len := (sp_len s AND 0xFFF00000) OR 0xFF8,
       sp_status := sp_status s AND NOT (SP_DMA_BUSY OR SP_DMA_FULL)\<rparr>"

section \<open>Status bits\<close>

text \<open>A pair of set and clear bits updates one status bit; the pair set together does nothing.\<close>

lemma sp_apply_bit:
  assumes "flag = shl 1 k" "clr = shl 1 c" "setb = shl 1 t" "k < 32"
  shows "bit (sp_status (sp_apply val clr setb flag s)) n =
    (if n = k \<and> bit val c \<noteq> bit val t then bit val t else bit (sp_status s) n)"
proof -
  have "bit (sp_status s) n \<Longrightarrow> n < 32" by (rule bit_imp_le_length[where 'a=32, simplified])
  then show ?thesis
    using assms(4) unfolding sp_apply_def assms(1-3) Let_def and_shl_1
    by (auto simp: bit_simps bit_shl_1)
qed

lemma apply_signals_bit:
  assumes "distinct ns" "\<forall>m \<in> set ns. m < 8"
  shows "bit (sp_status (apply_signals val ns s)) n =
    (if 7 \<le> n \<and> n - 7 \<in> set ns \<and> bit val (9 + 2 * (n - 7)) \<noteq> bit val (10 + 2 * (n - 7))
     then bit val (10 + 2 * (n - 7)) else bit (sp_status s) n)"
  using assms
proof (induction ns arbitrary: s)
  case (Cons m ns)
  have f: "shl SP_SIG0 m = (shl 1 (7 + m) :: u32)" unfolding SP_SIG0_def by (simp only: push_bit_push_bit add.commute)
  have st: "bit (sp_status (sp_apply val (shl 1 (9 + 2 * m)) (shl 1 (10 + 2 * m)) (shl SP_SIG0 m) s)) j =
    (if j = 7 + m \<and> bit val (9 + 2 * m) \<noteq> bit val (10 + 2 * m) then bit val (10 + 2 * m) else bit (sp_status s) j)" for j
    using Cons(3) by (intro sp_apply_bit f refl) auto
  show ?case
    unfolding apply_signals.simps using Cons by (auto simp: st simp del: push_bit_of_1)
qed simp

definition status_pair :: "nat \<Rightarrow> (nat \<times> nat) option" where
  "status_pair n =
     (if n = 0 then Some (0, 1) else if n = 5 then Some (5, 6) else if n = 6 then Some (7, 8)
      else if 7 \<le> n \<and> n < 15 then Some (9 + 2 * (n - 7), 10 + 2 * (n - 7)) else None)"

lemma write_status_bit:
  "bit (sp_status (write_status v s)) n =
    (case status_pair n of
       Some (c, t) \<Rightarrow> if bit v c \<noteq> bit v t then bit v t else bit (sp_status s) n
     | None \<Rightarrow> bit (sp_status s) n \<and> \<not> (n = 1 \<and> bit v 2))"
proof -
  have s0: "bit (sp_status (sp_apply v 1 (shl 1 1) SP_HALTED s)) n =
      (if n = 0 \<and> bit v 0 \<noteq> bit v 1 then bit v 1 else bit (sp_status s) n)" for s
    using sp_apply_bit[of SP_HALTED 0 1 0 "shl 1 1" 1 v s n] by (simp add: SP_HALTED_def)
  have s1: "bit (sp_status (if v AND shl 1 2 \<noteq> 0 then s\<lparr>sp_status := sp_status s AND NOT SP_BROKE\<rparr> else s)) n =
      (bit (sp_status s) n \<and> \<not> (n = 1 \<and> bit v 2))" for s :: sp_regs
  proof -
    have "bit (sp_status s) n \<Longrightarrow> n < 32" by (rule bit_imp_le_length[where 'a=32, simplified])
    then show ?thesis unfolding and_shl_1 SP_BROKE_def by (auto simp: bit_simps bit_shl_1)
  qed
  have s5: "bit (sp_status (sp_apply v (shl 1 5) (shl 1 6) SP_SSTEP s)) n =
      (if n = 5 \<and> bit v 5 \<noteq> bit v 6 then bit v 6 else bit (sp_status s) n)" for s
    by (rule sp_apply_bit) (simp_all add: SP_SSTEP_def)
  have s6: "bit (sp_status (sp_apply v (shl 1 7) (shl 1 8) SP_INTBREAK s)) n =
      (if n = 6 \<and> bit v 7 \<noteq> bit v 8 then bit v 8 else bit (sp_status s) n)" for s
    by (rule sp_apply_bit) (simp_all add: SP_INTBREAK_def)
  have sig: "bit (sp_status (apply_signals v [0..<8] s)) n =
      (if 7 \<le> n \<and> n - 7 \<in> {0..<8} \<and> bit v (9 + 2 * (n - 7)) \<noteq> bit v (10 + 2 * (n - 7))
       then bit v (10 + 2 * (n - 7)) else bit (sp_status s) n)" for s
    by (subst apply_signals_bit) auto
  show ?thesis
    unfolding write_status_def Let_def sig s6 s5 s1 s0 by (auto simp: status_pair_def)
qed

lemma write_status_frame: "write_status v s = s\<lparr>sp_status := sp_status (write_status v s)\<rparr>"
proof -
  have a: "\<exists>x. sp_apply v c t f s = s\<lparr>sp_status := x\<rparr>" for c t f s
    unfolding sp_apply_def Let_def by (cases s) auto
  have e: "\<exists>x. s = s\<lparr>sp_status := x\<rparr>" for s :: sp_regs
    by (rule exI[of _ "sp_status s"]) simp
  have g: "\<exists>x. apply_signals v ns s = s\<lparr>sp_status := x\<rparr>" for ns s
  proof (induction ns arbitrary: s)
    case (Cons n ns)
    obtain x where x: "sp_apply v (shl 1 (9 + 2 * n)) (shl 1 (10 + 2 * n)) (shl SP_SIG0 n) s = s\<lparr>sp_status := x\<rparr>"
      using a by blast
    show ?case using Cons[of "s\<lparr>sp_status := x\<rparr>"] by (simp add: x del: push_bit_of_1)
  next
    case Nil
    show ?case using e by simp
  qed
  have i: "\<exists>x. (if c then s\<lparr>sp_status := y\<rparr> else s) = s\<lparr>sp_status := x\<rparr>" for c y and s :: sp_regs
    using e[of s] by auto
  have tr: "\<exists>x. t = s\<lparr>sp_status := x\<rparr> \<Longrightarrow> \<exists>x. u = t\<lparr>sp_status := x\<rparr> \<Longrightarrow> \<exists>x. u = s\<lparr>sp_status := x\<rparr>"
    for s t u :: sp_regs by auto
  have "\<exists>x. write_status v s = s\<lparr>sp_status := x\<rparr>"
    unfolding write_status_def Let_def
    by (rule tr[OF _ g], rule tr[OF _ a], rule tr[OF _ a], rule tr[OF a i])
  then show ?thesis by auto
qed

text \<open>C34. A write of SP_STATUS acts on each status bit through its own pair of clear and set bits, a pair
  with both bits set leaving the bit as it was; the break flag can only be cleared, and no other
  status bit, nor the program counter, the semaphore, a latched address or a transfer changes.\<close>

theorem status_write_is_pairwise:
  "sp_write 4 v s = (None, s\<lparr>sp_status := sp_status (write_status v s)\<rparr>) \<and>
   bit (sp_status (write_status v s)) n =
    (case status_pair n of
       Some (c, t) \<Rightarrow> if bit v c \<noteq> bit v t then bit v t else bit (sp_status s) n
     | None \<Rightarrow> bit (sp_status s) n \<and> \<not> (n = 1 \<and> bit v 2))"
proof -
  have "(4 :: u32) AND 7 = 4" by simp
  then show ?thesis
    using write_status_frame[of v s] write_status_bit[of v s n] by (simp add: sp_write_def)
qed

end
