(* ===== verification/Rsp.thy ===== *)
theory Rsp
  imports Sp
begin

text \<open>
  The signal processor's state and its two memories: \<^verbatim>\<open>rustyn64-rsp/src/lib.rs\<close>. The 4 KiB banks are
  functions of the byte offset, which the code masks to the bank's length before every access. The
  fields \<^verbatim>\<open>pc\<close> and \<^verbatim>\<open>halted\<close>, which the code never reads, and the work counters are left out.
\<close>

record vu_control =
  vco :: u16
  vcc :: u16
  vce :: u8

record vu_divide =
  div_input :: u16
  div_output :: u16
  div_pending :: bool

record rsp =
  su_regs :: "u32 list"
  vu_regs :: "u16 list list"
  vu_acc :: "u64 list"
  dmem :: "nat \<Rightarrow> u8"
  imem :: "nat \<Rightarrow> u8"
  rsp_sp :: sp_regs
  rsp_dp :: "u32 list"
  vu_ctrl :: vu_control
  vu_div :: vu_divide
  pending_vd_lane :: "(nat \<times> u16) option"
  su_branch :: "u32 option"

definition rsp_new :: rsp where
  "rsp_new = \<lparr>su_regs = replicate 32 0, vu_regs = replicate 32 (replicate 8 0), vu_acc = replicate 8 0,
     dmem = (\<lambda>_. 0), imem = (\<lambda>_. 0), rsp_sp = sp_new, rsp_dp = replicate 8 0,
     vu_ctrl = \<lparr>vco = 0, vcc = 0, vce = 0\<rparr>,
     vu_div = \<lparr>div_input = 0, div_output = 0, div_pending = False\<rparr>,
     pending_vd_lane = None, su_branch = None\<rparr>"

definition rsp_fold :: "u32 \<Rightarrow> nat" where
  "rsp_fold off = unat (off AND 0x1FFF)"

definition mem_read :: "rsp \<Rightarrow> u32 \<Rightarrow> u8" where
  "mem_read r off =
     (let o' = rsp_fold off
      in if o' < 0x1000 then dmem r o' else imem r (o' - 0x1000))"

definition mem_write :: "u32 \<Rightarrow> u8 \<Rightarrow> rsp \<Rightarrow> rsp" where
  "mem_write off v r =
     (let o' = rsp_fold off
      in if o' < 0x1000 then r\<lparr>dmem := (dmem r)(o' := v)\<rparr> else r\<lparr>imem := (imem r)(o' - 0x1000 := v)\<rparr>)"

lemma rsp_fold_lt [simp]: "rsp_fold off < 0x2000"
proof -
  have m: "(0x1FFF :: u32) = mask 13" by (simp add: mask_eq_exp_minus_1)
  show ?thesis unfolding rsp_fold_def m using unat_and_mask_lt[of off 13] by simp
qed

text \<open>The two banks are one memory of 8 KiB, mirrored.\<close>

lemma mem_read_write:
  "mem_read (mem_write a v r) b = (if rsp_fold a = rsp_fold b then v else mem_read r b)"
  by (auto simp: mem_read_def mem_write_def Let_def not_less)

end
