(* ===== verification/Dpc.thy ===== *)
theory Dpc
  imports Prelude
begin

text \<open>
  The display processor's command interface: the DPC registers, the synchronisation stall and the
  command FIFO of \<^verbatim>\<open>rustyn64-rdp/src/lib.rs\<close>, and the command lengths of its \<^verbatim>\<open>command.rs\<close>. The record
  holds the fields of \<^verbatim>\<open>Rdp\<close> that this interface reads and writes.
\<close>

definition DP_STATUS_XBUS :: u32 where "DP_STATUS_XBUS = 0x1"
definition DP_STATUS_FREEZE :: u32 where "DP_STATUS_FREEZE = 0x2"
definition DP_STATUS_START_VALID :: u32 where "DP_STATUS_START_VALID = 0x400"
definition DPC_ADDR_MASK :: u32 where "DPC_ADDR_MASK = 0x00FFFFF8"

record dpc =
  cmd_start :: u32
  cmd_end :: u32
  cmd_current :: u32
  rdp_status :: u32
  commands_processed :: u64
  rdp_stall :: u32

definition dpc_new :: dpc where
  "dpc_new = \<lparr>cmd_start = 0, cmd_end = 0, cmd_current = 0, rdp_status = 0, commands_processed = 0, rdp_stall = 0\<rparr>"

definition dpc_read :: "dpc \<Rightarrow> u32 \<Rightarrow> u32" where
  "dpc_read d offset =
     (let k = offset AND 7
      in if k = 0 then cmd_start d else if k = 1 then cmd_end d
         else if k = 2 then cmd_current d else if k = 3 then rdp_status d else 0)"

definition dpc_write_status :: "u32 \<Rightarrow> dpc \<Rightarrow> dpc" where
  "dpc_write_status v d =
     (let d = (if v AND 1 \<noteq> 0 then d\<lparr>rdp_status := rdp_status d AND NOT DP_STATUS_XBUS\<rparr> else d);
          d = (if v AND 2 \<noteq> 0 then d\<lparr>rdp_status := rdp_status d OR DP_STATUS_XBUS\<rparr> else d);
          d = (if v AND 4 \<noteq> 0 then d\<lparr>rdp_status := rdp_status d AND NOT DP_STATUS_FREEZE\<rparr> else d)
      in if v AND 8 \<noteq> 0 then d\<lparr>rdp_status := rdp_status d OR DP_STATUS_FREEZE\<rparr> else d)"

definition dpc_write :: "u32 \<Rightarrow> u32 \<Rightarrow> dpc \<Rightarrow> dpc" where
  "dpc_write offset v d =
     (let k = offset AND 7
      in if k = 0 then
           (if rdp_status d AND DP_STATUS_START_VALID = 0
            then d\<lparr>cmd_start := v AND DPC_ADDR_MASK, rdp_status := rdp_status d OR DP_STATUS_START_VALID\<rparr>
            else d)
         else if k = 1 then
           (let d = d\<lparr>cmd_end := v AND DPC_ADDR_MASK\<rparr>
            in if rdp_status d AND DP_STATUS_START_VALID \<noteq> 0
               then d\<lparr>cmd_current := cmd_start d, rdp_status := rdp_status d AND NOT DP_STATUS_START_VALID\<rparr>
               else d)
         else if k = 3 then dpc_write_status v d
         else d)"

section \<open>Commands\<close>

definition opcode_of :: "u32 \<Rightarrow> u8" where
  "opcode_of hi = to_u8 (shr hi 24 AND 0x3F)"

definition command_len_words :: "u8 \<Rightarrow> u32" where
  "command_len_words opcode =
     (let k = opcode AND 0x3F
      in if 8 \<le> k \<and> k \<le> 0xF then
           4 + to_u32 (shr opcode 2 AND 1) * 8 + to_u32 (shr opcode 1 AND 1) * 8 + to_u32 (opcode AND 1) * 2
         else if k = 0x24 \<or> k = 0x25 then 2
         else 1)"

definition dpc_tick_without_bus :: "dpc \<Rightarrow> bool \<times> dpc" where
  "dpc_tick_without_bus d =
     (if rdp_status d AND (DP_STATUS_FREEZE OR DP_STATUS_XBUS) \<noteq> 0 then (False, d)
      else if rdp_stall d > 0 then (False, d\<lparr>rdp_stall := rdp_stall d - 1\<rparr>)
      else if cmd_current d \<ge> cmd_end d then (False, d)
      else (True, d))"

text \<open>The fetch of \<^verbatim>\<open>tick_with_bus\<close>: a command that is not whole yet is left in the FIFO; a whole one is
  taken out and handed, with its two words and its address, to the dispatcher.\<close>

definition dpc_fetch :: "(u32 \<Rightarrow> u32) \<Rightarrow> dpc \<Rightarrow> (u8 \<times> u32 \<times> u32 \<times> u32) option \<times> dpc" where
  "dpc_fetch rd d =
     (let hi = rd (cmd_current d); opcode = opcode_of hi; len_bytes = command_len_words opcode * 8
      in if cmd_end d - cmd_current d < len_bytes then (None, d)
         else (Some (opcode, hi, rd (cmd_current d + 4), cmd_current d),
               d\<lparr>cmd_current := cmd_current d + len_bytes, commands_processed := commands_processed d + 1\<rparr>))"

lemma command_len_bounds: "8 \<le> unat (command_len_words opcode * 8) \<and> unat (command_len_words opcode * 8) \<le> 176"
proof -
  have b: "shr opcode n AND 1 = of_bool (bit opcode n)" for n by (rule shr_and_1)
  have b0: "opcode AND 1 = of_bool (bit opcode 0)" using b[of 0] by simp
  show ?thesis
    unfolding command_len_words_def Let_def b b0
    by (cases "bit opcode 0"; cases "bit opcode 1"; cases "bit opcode 2") simp_all
qed

text \<open>The consumer never runs past the producer: a fetched command lies whole between the FIFO's
  pointers.\<close>

lemma fetch_in_fifo:
  assumes "dpc_tick_without_bus d = (True, d1)" "dpc_fetch rd d1 = (Some (opcode, hi, lo, base), d2)"
  shows "base = cmd_current d \<and> cmd_end d2 = cmd_end d \<and>
    unat (cmd_current d2) = unat base + unat (command_len_words opcode * 8) \<and> unat (cmd_current d2) \<le> unat (cmd_end d2)"
proof -
  have d: "d1 = d" and lt: "cmd_current d < cmd_end d"
    using assms(1) by (auto simp: dpc_tick_without_bus_def not_le split: if_splits)
  define n where "n = unat (command_len_words opcode * 8)"
  have f: "base = cmd_current d" "d2 = d\<lparr>cmd_current := cmd_current d + command_len_words opcode * 8, commands_processed := commands_processed d + 1\<rparr>"
    "\<not> cmd_end d - cmd_current d < command_len_words opcode * 8"
    using assms(2) by (auto simp: d dpc_fetch_def Let_def split: if_splits)
  have "unat (cmd_end d - cmd_current d) = unat (cmd_end d) - unat (cmd_current d)"
    using lt by (intro unat_sub) simp
  then have le: "unat (cmd_current d) + n \<le> unat (cmd_end d)"
    using f(3) lt by (auto simp: word_less_nat_alt n_def)
  then have "unat (cmd_current d + command_len_words opcode * 8) = unat (cmd_current d) + n"
    using unat_u32[of "cmd_end d"] by (simp add: unat_word_ariths n_def mult.commute)
  then show ?thesis using f le by (simp add: n_def)
qed

end
