(* ===== verification/Vi.thy ===== *)
theory Vi
  imports Prelude
begin

text \<open>
  The video interface's registers and its half-line counter: \<^verbatim>\<open>rustyn64-core/src/vi.rs\<close>. \<open>vi_scan\<close> is the
  loop of \<^verbatim>\<open>tick\<close>, one half-line a turn; its guard on a zero period is the early return the code takes
  before the loop.
\<close>

definition VI_CTRL :: nat where "VI_CTRL = 0"
definition VI_ORIGIN :: nat where "VI_ORIGIN = 1"
definition VI_WIDTH :: nat where "VI_WIDTH = 2"
definition VI_V_INTR :: nat where "VI_V_INTR = 3"
definition VI_V_CURRENT :: nat where "VI_V_CURRENT = 4"
definition VI_V_TOTAL :: nat where "VI_V_TOTAL = 6"
definition MASTER_HZ :: u64 where "MASTER_HZ = 187500000"
definition VI_FIELD_HZ :: u64 where "VI_FIELD_HZ = 60"
definition VI_FIELD_HZ_PAL :: u64 where "VI_FIELD_HZ_PAL = 50"
definition VI_MAX_HALFLINES :: u64 where "VI_MAX_HALFLINES = 1024"
definition VI_MIN_TICKS_PER_HALFLINE :: u64 where
  "VI_MIN_TICKS_PER_HALFLINE = MASTER_HZ div (VI_FIELD_HZ * VI_MAX_HALFLINES)"
definition VI_PAL_V_TOTAL_THRESHOLD :: u32 where "VI_PAL_V_TOTAL_THRESHOLD = 550"

record vi =
  vi_regs :: "u32 list"
  v_current :: u32
  vi_acc :: u64
  vi_prev_ticks :: u64

definition vi_new :: vi where
  "vi_new = \<lparr>vi_regs = replicate 16 0, v_current = 0, vi_acc = 0, vi_prev_ticks = 0\<rparr>"

definition reset_scan :: "vi \<Rightarrow> vi" where
  "reset_scan v = v\<lparr>v_current := 0, vi_acc := 0, vi_prev_ticks := 0\<rparr>"

definition total_halflines :: "vi \<Rightarrow> u32" where
  "total_halflines v = (vi_regs v ! VI_V_TOTAL AND 0x3FF) + 1"

definition field_hz :: "vi \<Rightarrow> u64" where
  "field_hz v = (if (vi_regs v ! VI_V_TOTAL AND 0x3FF) > VI_PAL_V_TOTAL_THRESHOLD then VI_FIELD_HZ_PAL else VI_FIELD_HZ)"

definition ticks_per_halfline :: "vi \<Rightarrow> u64" where
  "ticks_per_halfline v = MASTER_HZ div (field_hz v * to_u64 (total_halflines v))"

function vi_scan :: "u64 \<Rightarrow> u32 \<Rightarrow> u32 \<Rightarrow> bool \<Rightarrow> u64 \<times> u32 \<times> bool \<Rightarrow> u64 \<times> u32 \<times> bool" where
  "vi_scan per_hl halflines v_intr on (acc, cur, fired) =
     (if per_hl = 0 \<or> acc < per_hl then (acc, cur, fired)
      else let cur = (cur + 1) mod halflines
        in vi_scan per_hl halflines v_intr on (acc - per_hl, cur, fired \<or> (on \<and> cur = v_intr)))"
  by pat_completeness auto

lemma vi_scan_decreases: "\<not> (p = 0 \<or> a < p) \<Longrightarrow> unat (a - p) < unat (a :: u64)"
  using unat_sub[of p a] unat_eq_zero[of p] by (auto simp: not_less word_le_nat_alt)

termination vi_scan
  by (relation "measure (\<lambda>(_, _, _, _, acc, _, _). unat acc)") (rule wf_measure, simp only: in_measure split_conv, rule vi_scan_decreases)

declare vi_scan.simps [simp del]

definition vi_tick :: "u64 \<Rightarrow> vi \<Rightarrow> bool \<times> vi" where
  "vi_tick master_ticks v =
     (let delta = (if vi_prev_ticks v \<le> master_ticks then master_ticks - vi_prev_ticks v else 0);
          v = v\<lparr>vi_prev_ticks := master_ticks\<rparr>;
          acc = vi_acc v + delta
      in if acc < VI_MIN_TICKS_PER_HALFLINE then (False, v\<lparr>vi_acc := acc\<rparr>)
         else
           let per_hl = ticks_per_halfline v
           in if per_hl = 0 then (False, v)
              else
                let halflines = total_halflines v;
                    v_intr = vi_regs v ! VI_V_INTR AND 0x3FF;
                    on = (vi_regs v ! VI_CTRL AND 3 \<noteq> 0);
                    (acc, cur, fired) = vi_scan per_hl halflines v_intr on (acc, v_current v, False)
                in (fired, v\<lparr>vi_acc := acc, v_current := cur\<rparr>))"

definition vi_read :: "vi \<Rightarrow> u32 \<Rightarrow> u32" where
  "vi_read v word_offset =
     (let i = unat (word_offset AND 0xF)
      in if i = VI_V_CURRENT then v_current v else vi_regs v ! i)"

definition vi_write :: "u32 \<Rightarrow> u32 \<Rightarrow> vi \<Rightarrow> bool \<times> vi" where
  "vi_write word_offset value v =
     (let i = unat (word_offset AND 0xF)
      in if i = VI_V_CURRENT then (True, v) else (False, v\<lparr>vi_regs := (vi_regs v)[i := value]\<rparr>))"

definition vi_wf :: "vi \<Rightarrow> bool" where
  "vi_wf v \<longleftrightarrow> length (vi_regs v) = 16 \<and> unat (v_current v) < 1024"

lemma vi_wf_ops [invlib]:
  "vi_wf vi_new" "vi_wf v \<Longrightarrow> vi_wf (reset_scan v)" "vi_wf v \<Longrightarrow> vi_wf (snd (vi_write a w v))"
  by (simp_all add: vi_wf_def vi_new_def reset_scan_def vi_write_def Let_def)

section \<open>The half-line counter in closed form\<close>

lemma total_halflines_bounds: "1 \<le> unat (total_halflines v) \<and> unat (total_halflines v) \<le> 1024"
proof -
  have m: "(0x3FF :: u32) = mask 10" by (simp add: mask_eq_exp_minus_1)
  have "unat (vi_regs v ! VI_V_TOTAL AND 0x3FF) < 1024"
    unfolding m using unat_and_mask_lt[of "vi_regs v ! VI_V_TOTAL" 10] by simp
  then show ?thesis by (simp add: total_halflines_def unat_word_ariths)
qed

lemma ticks_per_halfline_bounds:
  "VI_MIN_TICKS_PER_HALFLINE \<le> ticks_per_halfline v" "0 < unat (ticks_per_halfline v)"
proof -
  define h where "h = unat (total_halflines v)"
  have h: "1 \<le> h" "h \<le> 1024" using total_halflines_bounds[of v] by (simp_all add: h_def)
  define f where "f = unat (field_hz v)"
  have f: "f = 50 \<or> f = 60" by (simp add: f_def field_hz_def VI_FIELD_HZ_def VI_FIELD_HZ_PAL_def)
  have d: "unat (field_hz v * to_u64 (total_halflines v)) = f * h"
  proof -
    have "f * h \<le> 60 * 1024" using f h by (intro mult_le_mono) auto
    then show ?thesis by (simp add: unat_word_ariths f_def h_def)
  qed
  have t: "unat (ticks_per_halfline v) = 187500000 div (f * h)"
    unfolding ticks_per_halfline_def unat_div_distrib d by (simp add: MASTER_HZ_def)
  have "187500000 div (60 * 1024) \<le> 187500000 div (f * h)"
    using f h by (intro div_le_mono2 mult_le_mono) auto
  then have ge: "3051 \<le> unat (ticks_per_halfline v)" by (simp add: t)
  have "unat VI_MIN_TICKS_PER_HALFLINE = 3051"
    by (simp add: VI_MIN_TICKS_PER_HALFLINE_def MASTER_HZ_def VI_FIELD_HZ_def VI_MAX_HALFLINES_def)
  then show "VI_MIN_TICKS_PER_HALFLINE \<le> ticks_per_halfline v" "0 < unat (ticks_per_halfline v)"
    using ge by (simp_all add: word_le_nat_alt)
qed


lemma field_hit_shift:
  "(\<exists>k \<in> {1..Suc n}. P k) \<longleftrightarrow> P 1 \<or> (\<exists>k \<in> {1..n}. P (Suc k))" for P :: "nat \<Rightarrow> bool"
proof -
  have "{1..Suc n} = insert 1 {Suc 1..Suc n}" using atLeastAtMost_insertL[of 1 "Suc n"] by simp
  also have "{Suc 1..Suc n} = Suc ` {1..n}" by (simp only: image_Suc_atLeastAtMost)
  finally show ?thesis by (simp only: bex_simps(5) bex_simps(7))
qed

lemma vi_scan_closed:
  assumes "p \<noteq> 0" "unat cur < 1024" "1 \<le> unat hl" "unat hl \<le> 1024"
  shows "\<exists>cur'. vi_scan p hl vint on (acc, cur, fired) =
      (acc mod p, cur', fired \<or> (on \<and> (\<exists>k \<in> {1..unat acc div unat p}. (unat cur + k) mod unat hl = unat vint)))
    \<and> unat cur' = (if unat acc div unat p = 0 then unat cur else (unat cur + unat acc div unat p) mod unat hl)"
  using assms(2)
proof (induction "unat acc div unat p" arbitrary: acc cur fired)
  case 0
  have up: "unat p \<noteq> 0" using assms(1) by (simp add: unat_eq_zero)
  then have l: "unat acc < unat p" using 0(1) by (metis div_eq_0_iff)
  then have a: "acc < p" by (simp add: word_less_nat_alt)
  have "acc mod p = acc" using l by (simp add: word_unat_eq_iff unat_mod_distrib)
  then show ?case using a 0(1)[symmetric] by (simp add: vi_scan.simps)
next
  case (Suc n)
  have up: "0 < unat p" using assms(1) by (simp add: unat_gt_0)
  have ge: "unat p \<le> unat acc" using Suc(2) by (metis div_less not_less nat.distinct(1))
  then have le: "p \<le> acc" by (simp add: word_le_nat_alt)
  have us: "unat (acc - p) = unat acc - unat p" by (rule unat_sub[OF le])
  have n: "n = unat (acc - p) div unat p" using Suc(2) ge up by (simp add: us le_div_geq)
  have m: "(acc - p) mod p = acc mod p"
    using ge by (simp add: word_unat_eq_iff unat_mod_distrib us le_mod_geq)
  define cur1 where "cur1 = (cur + 1) mod hl"
  have c1: "unat cur1 = (unat cur + 1) mod unat hl"
    using Suc(3) by (simp add: cur1_def unat_mod_distrib unat_word_ariths)
  then have c1l: "unat cur1 < 1024" using assms(3,4) by (metis less_le_trans mod_less_divisor not_one_le_zero gr0I)
  have hit: "(\<exists>k \<in> {1..Suc n}. (unat cur + k) mod unat hl = unat vint) \<longleftrightarrow>
      cur1 = vint \<or> (\<exists>k \<in> {1..n}. (unat cur1 + k) mod unat hl = unat vint)"
    unfolding field_hit_shift by (simp add: c1 word_unat_eq_iff mod_simps)
  have st: "vi_scan p hl vint on (acc, cur, fired) = vi_scan p hl vint on (acc - p, cur1, fired \<or> (on \<and> cur1 = vint))"
    using assms(1) le by (subst vi_scan.simps) (auto simp: cur1_def not_less Let_def)
  obtain cur' where ih: "vi_scan p hl vint on (acc - p, cur1, fired \<or> (on \<and> cur1 = vint)) =
      ((acc - p) mod p, cur', (fired \<or> (on \<and> cur1 = vint)) \<or> (on \<and> (\<exists>k \<in> {1..n}. (unat cur1 + k) mod unat hl = unat vint)))"
    "unat cur' = (if n = 0 then unat cur1 else (unat cur1 + n) mod unat hl)"
    using Suc(1)[OF n c1l, of "fired \<or> (on \<and> cur1 = vint)", folded n] by blast
  have "unat cur' = (unat cur + Suc n) mod unat hl"
    unfolding ih(2) by (simp add: c1 mod_simps)
  then show ?case
    unfolding st ih(1) m Suc(2)[symmetric] hit by (intro exI[of _ cur']) auto
qed


text \<open>What is due at master tick \<open>t\<close>: the ticks not yet counted, the half-lines they hold, and whether
  the beam crosses the interrupt's line.\<close>

definition vi_due :: "vi \<Rightarrow> u64 \<Rightarrow> nat" where
  "vi_due v t = unat (vi_acc v) + (unat t - unat (vi_prev_ticks v))"

definition vi_lines :: "vi \<Rightarrow> u64 \<Rightarrow> nat" where
  "vi_lines v t = vi_due v t div unat (ticks_per_halfline v)"

definition vi_crosses :: "vi \<Rightarrow> nat \<Rightarrow> bool" where
  "vi_crosses v n \<longleftrightarrow> vi_regs v ! VI_CTRL AND 3 \<noteq> 0 \<and>
     (\<exists>k \<in> {1..n}. (unat (v_current v) + k) mod unat (total_halflines v) = unat (vi_regs v ! VI_V_INTR AND 0x3FF))"

lemma vi_tick_cases:
  assumes "vi_due v t < 2 ^ 64" "vi_wf v"
  shows "fst (vi_tick t v) = vi_crosses v (vi_lines v t)"
    and "vi_prev_ticks (snd (vi_tick t v)) = t" "vi_regs (snd (vi_tick t v)) = vi_regs v"
    and "unat (vi_acc (snd (vi_tick t v))) = vi_due v t mod unat (ticks_per_halfline v)"
    and "unat (v_current (snd (vi_tick t v))) =
      (if vi_lines v t = 0 then unat (v_current v) else (unat (v_current v) + vi_lines v t) mod unat (total_halflines v))"
proof -
  define delta where "delta = (if vi_prev_ticks v \<le> t then t - vi_prev_ticks v else 0)"
  define acc where "acc = vi_acc v + delta"
  have ud: "unat delta = unat t - unat (vi_prev_ticks v)"
    by (auto simp: delta_def unat_sub not_le word_less_nat_alt)
  have ua: "unat acc = vi_due v t"
    using assms(1) by (simp add: acc_def vi_due_def ud unat_word_ariths)
  define p where "p = ticks_per_halfline v"
  have p: "VI_MIN_TICKS_PER_HALFLINE \<le> p" "0 < unat p" using ticks_per_halfline_bounds[of v] by (simp_all add: p_def)
  then have p0: "p \<noteq> 0" by auto
  have rf: "ticks_per_halfline (v\<lparr>vi_prev_ticks := t\<rparr>) = p" "total_halflines (v\<lparr>vi_prev_ticks := t\<rparr>) = total_halflines v"
    by (simp_all add: p_def ticks_per_halfline_def field_hz_def total_halflines_def)
  have c: "unat (v_current v) < 1024" using assms(2) by (simp add: vi_wf_def)
  have "\<exists>cur'. vi_scan p (total_halflines v) (vi_regs v ! VI_V_INTR AND 0x3FF) (vi_regs v ! VI_CTRL AND 3 \<noteq> 0) (acc, v_current v, False) =
      (acc mod p, cur', vi_crosses v (vi_lines v t)) \<and>
    unat cur' = (if vi_lines v t = 0 then unat (v_current v) else (unat (v_current v) + vi_lines v t) mod unat (total_halflines v))"
    unfolding vi_lines_def ua[symmetric] p_def[symmetric] vi_crosses_def
    using vi_scan_closed[OF p0 c conjunct1[OF total_halflines_bounds[of v]] conjunct2[OF total_halflines_bounds[of v]],
        of "vi_regs v ! VI_V_INTR AND 0x3FF" "vi_regs v ! VI_CTRL AND 3 \<noteq> 0" acc False]
    unfolding simp_thms .
  then obtain cur' where sc: "vi_scan p (total_halflines v) (vi_regs v ! VI_V_INTR AND 0x3FF) (vi_regs v ! VI_CTRL AND 3 \<noteq> 0) (acc, v_current v, False) =
      (acc mod p, cur', vi_crosses v (vi_lines v t))"
    "unat cur' = (if vi_lines v t = 0 then unat (v_current v) else (unat (v_current v) + vi_lines v t) mod unat (total_halflines v))"
    by (elim exE conjE)
  have "fst (vi_tick t v) = vi_crosses v (vi_lines v t) \<and> vi_prev_ticks (snd (vi_tick t v)) = t \<and>
    vi_regs (snd (vi_tick t v)) = vi_regs v \<and>
    unat (vi_acc (snd (vi_tick t v))) = vi_due v t mod unat p \<and>
    unat (v_current (snd (vi_tick t v))) =
      (if vi_lines v t = 0 then unat (v_current v) else (unat (v_current v) + vi_lines v t) mod unat (total_halflines v))"
  proof (cases "acc < VI_MIN_TICKS_PER_HALFLINE")
    case True
    then have "acc < p" using p(1) by (rule order.strict_trans2)
    then have lt: "vi_due v t < unat p" by (simp add: word_less_nat_alt ua)
    then have l0: "vi_lines v t = 0" by (simp add: vi_lines_def p_def)
    have "vi_tick t v = (False, v\<lparr>vi_prev_ticks := t, vi_acc := acc\<rparr>)"
      using True by (simp add: vi_tick_def Let_def acc_def delta_def)
    then show ?thesis using lt by (simp add: l0 ua vi_crosses_def)
  next
    case False
    have "vi_tick t v = (vi_crosses v (vi_lines v t), v\<lparr>vi_prev_ticks := t, vi_acc := acc mod p, v_current := cur'\<rparr>)"
      using False p0 sc(1) by (simp add: vi_tick_def Let_def acc_def delta_def rf)
    then show ?thesis by (simp add: sc(2) unat_mod_distrib ua)
  qed
  then show "fst (vi_tick t v) = vi_crosses v (vi_lines v t)"
    "vi_prev_ticks (snd (vi_tick t v)) = t" "vi_regs (snd (vi_tick t v)) = vi_regs v"
    "unat (vi_acc (snd (vi_tick t v))) = vi_due v t mod unat (ticks_per_halfline v)"
    "unat (v_current (snd (vi_tick t v))) =
      (if vi_lines v t = 0 then unat (v_current v) else (unat (v_current v) + vi_lines v t) mod unat (total_halflines v))"
    by (simp_all add: p_def)
qed

text \<open>C35. The video interface's tick, with its constant-bound early return and its half-line loop, is one
  division: it advances the beam by the half-lines the ticks due hold, modulo the half-lines of a
  field, keeps the remainder, and reports the interrupt exactly when the beam crossed its line with
  the video on.\<close>

theorem vi_tick_is_division:
  assumes "vi_due v t < 2 ^ 64" "vi_wf v"
  shows "fst (vi_tick t v) = vi_crosses v (vi_lines v t) \<and>
    unat (vi_acc (snd (vi_tick t v))) = vi_due v t mod unat (ticks_per_halfline v) \<and>
    unat (v_current (snd (vi_tick t v))) =
      (if vi_lines v t = 0 then unat (v_current v) else (unat (v_current v) + vi_lines v t) mod unat (total_halflines v)) \<and>
    vi_wf (snd (vi_tick t v))"
proof -
  have "(unat (v_current v) + n) mod unat (total_halflines v) < 1024" for n
    using total_halflines_bounds[of v] by (metis less_le_trans mod_less_divisor not_one_le_zero gr0I)
  then show ?thesis using vi_tick_cases[OF assms] assms(2) by (simp add: vi_wf_def)
qed

lemma vi_tick_is_division_witness:
  "vi_wf (snd (vi_tick 4000000 vi_new))"
  using vi_tick_is_division[of vi_new 4000000] by (simp add: vi_due_def vi_new_def vi_wf_def)

text \<open>C36. The vertical interrupt is never starved: with the video on and the interrupt's line inside the
  field, every tick that a whole field of half-lines is due at raises it.\<close>

theorem vi_interrupt_every_field:
  assumes "vi_due v t < 2 ^ 64" "vi_wf v" "vi_regs v ! VI_CTRL AND 3 \<noteq> 0"
    and "unat (vi_regs v ! VI_V_INTR AND 0x3FF) < unat (total_halflines v)"
    and "unat (total_halflines v) * unat (ticks_per_halfline v) \<le> vi_due v t"
  shows "fst (vi_tick t v)"
proof -
  define h c i where "h = unat (total_halflines v)" and "c = unat (v_current v)"
    and "i = unat (vi_regs v ! VI_V_INTR AND 0x3FF)"
  have h: "h \<le> vi_lines v t"
    using assms(5) ticks_per_halfline_bounds(2)[of v]
    by (simp add: vi_lines_def h_def less_eq_div_iff_mult_less_eq mult.commute)
  have i: "i < h" using assms(4) by (simp add: i_def h_def)
  define r where "r = c mod h"
  define k where "k = (h + i - r - 1) mod h + 1"
  have r: "r < h" unfolding r_def using i by (intro mod_less_divisor) simp
  have "r + k = (if r < i then i else h + i)"
  proof (cases "r < i")
    case True
    then have e: "h + i - r - 1 = h + (i - r - 1)" by simp
    have "(h + i - r - 1) mod h = i - r - 1" unfolding e mod_add_self1 by (rule mod_less) (use i in simp)
    then show ?thesis using True by (simp add: k_def)
  next
    case False
    have "(h + i - r - 1) mod h = h + i - r - 1" by (rule mod_less) (use False i r in linarith)
    then show ?thesis using False i r by (simp add: k_def)
  qed
  then have "(r + k) mod h = i" using i by simp
  then have "(c + k) mod h = i" unfolding r_def mod_add_left_eq .
  moreover have "1 \<le> k" "k \<le> vi_lines v t"
  proof -
    have "(h + i - r - 1) mod h < h" using i by (intro mod_less_divisor) simp
    then show "1 \<le> k" "k \<le> vi_lines v t" using h by (simp_all add: k_def)
  qed
  ultimately have "\<exists>k \<in> {1..vi_lines v t}. (c + k) mod h = i" by (intro bexI[of _ k]) simp_all
  then have "vi_crosses v (vi_lines v t)"
    unfolding vi_crosses_def h_def c_def i_def using assms(3) by (rule conjI[rotated])
  then show ?thesis using vi_tick_cases(1)[OF assms(1,2)] by simp
qed

lemma vi_interrupt_every_field_witness:
  "fst (vi_tick 4000000 (vi_new\<lparr>vi_regs := [3, 0, 0, 2, 0, 0, 0x20D, 0, 0, 0, 0, 0, 0, 0, 0, 0]\<rparr>))"
  by (rule vi_interrupt_every_field)
     (simp_all add: vi_due_def vi_new_def vi_wf_def ticks_per_halfline_def field_hz_def total_halflines_def
       VI_V_TOTAL_def VI_CTRL_def VI_V_INTR_def MASTER_HZ_def VI_FIELD_HZ_def VI_PAL_V_TOTAL_THRESHOLD_def)

end
