(* ===== verification/Audio.thy ===== *)
theory Audio
  imports Prelude
begin

text \<open>
  The audio interface: \<^verbatim>\<open>rustyn64-audio/src/lib.rs\<close>. The two-deep DMA queue, the DAC's sample clock on
  the master clock, and the registers. The bus is the function that reads a word of memory; an
  operation that raises the interrupt returns so. The catch-up loop of \<^verbatim>\<open>tick_with_bus\<close> is a
  \<open>partial_function\<close>: \<open>None\<close> is a loop that never returns.
\<close>

definition VIDEO_CLOCK_NTSC :: u32 where "VIDEO_CLOCK_NTSC = 48681812"
definition VIDEO_CLOCK_PAL :: u32 where "VIDEO_CLOCK_PAL = 49656530"
definition AI_MASTER_HZ :: u64 where "AI_MASTER_HZ = 187500000"
definition AI_PAGE :: u32 where "AI_PAGE = 0x2000"
definition DEFAULT_DAC_HZ :: u32 where "DEFAULT_DAC_HZ = 44100"

datatype region = Ntsc | Pal

definition region_video_clock :: "region \<Rightarrow> u32" where
  "region_video_clock r = (case r of Ntsc \<Rightarrow> VIDEO_CLOCK_NTSC | Pal \<Rightarrow> VIDEO_CLOCK_PAL)"

definition from_destination_code :: "u8 \<Rightarrow> region" where
  "from_destination_code code =
     (if code \<in> {0x44, 0x46, 0x48, 0x49, 0x4C, 0x50, 0x53, 0x55, 0x57, 0x58, 0x59, 0x5A} then Pal else Ntsc)"

record sample =
  s_left :: u16
  s_right :: u16

datatype ai_irq = IrqNone | IrqRaise | IrqLower

record needs_bus =
  nb_period :: u64
  nb_now :: u64

record audio =
  ai_dma_addr :: "u32 list"
  ai_dma_len :: "u32 list"
  ai_dma_count :: nat
  ai_addr_carry :: u32
  ai_dma_enable :: bool
  ai_dac_rate :: u16
  ai_bit_rate :: u8
  ai_video_clock :: u32
  ai_sample_rate :: u32
  ai_next_sample :: u64
  ai_last_tick :: u64
  ai_dac_hold :: sample
  ai_underruns :: u64
  ai_sink :: "sample list"

definition sat_add :: "u64 \<Rightarrow> u64 \<Rightarrow> u64" where
  "sat_add a b = (if a + b < a then - 1 else a + b)"

definition sat_mul :: "u64 \<Rightarrow> u64 \<Rightarrow> u64" where
  "sat_mul a b = (if unat a * unat b < 2 ^ 64 then a * b else - 1)"

definition recompute_rate :: "audio \<Rightarrow> audio" where
  "recompute_rate a =
     a\<lparr>ai_sample_rate :=
         (if ai_video_clock a = 0 then 0
          else if ai_dac_rate a = 0 then DEFAULT_DAC_HZ
          else ai_video_clock a div (to_u32 (ai_dac_rate a) + 1))\<rparr>"

definition audio_new :: audio where
  "audio_new = recompute_rate
     \<lparr>ai_dma_addr = [0, 0], ai_dma_len = [0, 0], ai_dma_count = 0, ai_addr_carry = 0,
      ai_dma_enable = False, ai_dac_rate = 0, ai_bit_rate = 0, ai_video_clock = VIDEO_CLOCK_NTSC,
      ai_sample_rate = 0, ai_next_sample = 0, ai_last_tick = 0,
      ai_dac_hold = \<lparr>s_left = 0, s_right = 0\<rparr>, ai_underruns = 0, ai_sink = []\<rparr>"

definition set_region :: "region \<Rightarrow> audio \<Rightarrow> audio" where
  "set_region r a = recompute_rate (a\<lparr>ai_video_clock := region_video_clock r\<rparr>)"

definition audio_drain :: "audio \<Rightarrow> sample list \<times> audio" where
  "audio_drain a = (ai_sink a, a\<lparr>ai_sink := []\<rparr>)"

definition period_ticks :: "audio \<Rightarrow> u64" where
  "period_ticks a =
     (if ai_sample_rate a = 0 then 0 else max (AI_MASTER_HZ div to_u64 (ai_sample_rate a)) 1)"

definition ai_status :: "audio \<Rightarrow> u32" where
  "ai_status a =
     (let s = (if ai_dma_count a > 1 then shl 1 31 OR 1 else 0);
          s = s OR (if ai_dma_count a > 0 then shl 1 30 else 0);
          s = s OR shl 1 24;
          s = s OR (if ai_dma_enable a then shl 1 25 else 0);
          s = s OR shl 1 20
      in if ai_bit_rate a = 0 then s
         else
           let vi_ticks = sat_mul (ai_last_tick a) (to_u64 (ai_video_clock a)) div AI_MASTER_HZ;
               half = to_u64 (ai_dac_rate a) div 2;
               s = (if half = 0 then s
                    else let phase = vi_ticks mod (half * 2);
                             count = (if phase < half then half - phase else half * 2 - phase);
                             s = s OR shl (to_u32 count AND 0x3FFF) 1
                         in if phase \<ge> half then s OR shl 1 19 else s);
               half_periods = vi_ticks div (to_u64 (ai_bit_rate a) + 1)
           in if half_periods AND 1 \<noteq> 0 then s OR shl 1 16 else s)"

definition ai_read_reg :: "audio \<Rightarrow> u32 \<Rightarrow> u32" where
  "ai_read_reg a i = (if i = 3 then ai_status a else ai_dma_len a ! 0 AND 0x0003FFFF)"

definition ai_write_reg :: "u32 \<Rightarrow> u32 \<Rightarrow> audio \<Rightarrow> ai_irq \<times> audio" where
  "ai_write_reg i val a =
     (if i = 0 then
        (IrqNone, if ai_dma_count a < 2
           then a\<lparr>ai_dma_addr := (ai_dma_addr a)[ai_dma_count a := val AND 0x00FFFFF8]\<rparr> else a)
      else if i = 1 then
        (let length = val AND 0x0003FFF8
         in if ai_dma_count a < 2 then
              let starting = (ai_dma_count a = 0);
                  a = a\<lparr>ai_dma_len := (ai_dma_len a)[ai_dma_count a := length], ai_dma_count := ai_dma_count a + 1\<rparr>
              in if starting
                 then (IrqRaise, a\<lparr>ai_addr_carry := 0, ai_next_sample := sat_add (ai_last_tick a) (period_ticks a)\<rparr>)
                 else (IrqNone, a)
            else (IrqNone, a))
      else if i = 2 then (IrqNone, a\<lparr>ai_dma_enable := (val AND 1 \<noteq> 0)\<rparr>)
      else if i = 3 then (IrqLower, a)
      else if i = 4 then (IrqNone, recompute_rate (a\<lparr>ai_dac_rate := to_u16 (val AND 0x3FFF)\<rparr>))
      else if i = 5 then (IrqNone, a\<lparr>ai_bit_rate := to_u8 (val AND 0xF)\<rparr>)
      else (IrqNone, a))"

definition decay :: "u16 \<Rightarrow> u16" where
  "decay v = word_of_int ((sint v * 63) sdiv 64)"

text \<open>One sample from the DAC; the first result tells whether the AI interrupt is raised.\<close>

definition emit_sample :: "(u32 \<Rightarrow> u32) \<Rightarrow> audio \<Rightarrow> bool \<times> audio" where
  "emit_sample mem_read a =
     (let active = (ai_dma_count a > 0 \<and> ai_dma_len a ! 0 > 0 \<and> ai_dma_enable a);
          a = (if active then
                 let addr = ai_dma_addr a ! 0;
                     high = (addr AND NOT (AI_PAGE - 1)) + ai_addr_carry a * AI_PAGE;
                     addr = high OR (addr AND (AI_PAGE - 1));
                     word = mem_read (addr AND 0x00FFFFFF);
                     sample = \<lparr>s_left = to_u16 (shr word 16), s_right = to_u16 word\<rparr>;
                     low = (addr AND (AI_PAGE - 1)) + 4;
                     next_addr = (addr AND NOT (AI_PAGE - 1)) OR (low AND (AI_PAGE - 1))
                 in a\<lparr>ai_dac_hold := sample, ai_sink := ai_sink a @ [sample],
                      ai_addr_carry := b2w (low \<ge> AI_PAGE),
                      ai_dma_addr := (ai_dma_addr a)[0 := next_addr],
                      ai_dma_len := (ai_dma_len a)[0 := ai_dma_len a ! 0 - 4]\<rparr>
               else
                 let hold = \<lparr>s_left = decay (s_left (ai_dac_hold a)), s_right = decay (s_right (ai_dac_hold a))\<rparr>
                 in a\<lparr>ai_dac_hold := hold, ai_sink := ai_sink a @ [hold]\<rparr>)
      in if ai_dma_count a > 0 \<and> ai_dma_len a ! 0 = 0 then
           let a = a\<lparr>ai_dma_count := ai_dma_count a - 1\<rparr>
           in if ai_dma_count a > 0 then
                (True, a\<lparr>ai_dma_addr := (ai_dma_addr a)[0 := ai_dma_addr a ! 1],
                         ai_dma_len := (ai_dma_len a)[0 := ai_dma_len a ! 1]\<rparr>)
              else if ai_dma_enable a then (False, a\<lparr>ai_underruns := ai_underruns a + 1\<rparr>)
              else (False, a)
         else (False, a))"

definition tick_without_bus :: "u64 \<Rightarrow> audio \<Rightarrow> needs_bus option \<times> audio" where
  "tick_without_bus t a =
     (let a = a\<lparr>ai_last_tick := t\<rparr>
      in if ai_next_sample a \<noteq> 0 \<and> t < ai_next_sample a then (None, a)
         else let period = period_ticks a
           in if period = 0 then (None, a)
              else if ai_next_sample a = 0 then (None, a\<lparr>ai_next_sample := sat_add t period\<rparr>)
              else (Some \<lparr>nb_period = period, nb_now = t\<rparr>, a))"

partial_function (option) tick_with_bus :: "(u32 \<Rightarrow> u32) \<Rightarrow> needs_bus \<Rightarrow> bool \<times> audio \<Rightarrow> (bool \<times> audio) option" where
  "tick_with_bus mem_read proof_of s =
     (if ai_next_sample (snd s) \<le> nb_now proof_of then
        let (raised, a) = emit_sample mem_read (snd s)
        in tick_with_bus mem_read proof_of
             (fst s \<or> raised, a\<lparr>ai_next_sample := sat_add (ai_next_sample a) (nb_period proof_of)\<rparr>)
      else Some s)"


section \<open>Catching up\<close>

lemma emit_sample_frame:
  "length (ai_sink (snd (emit_sample rd a))) = Suc (length (ai_sink a))"
  "ai_next_sample (snd (emit_sample rd a)) = ai_next_sample a"
  "ai_sample_rate (snd (emit_sample rd a)) = ai_sample_rate a"
  "ai_last_tick (snd (emit_sample rd a)) = ai_last_tick a"
  by (simp_all add: emit_sample_def Let_def)

definition audio_wf :: "audio \<Rightarrow> bool" where
  "audio_wf a \<longleftrightarrow> length (ai_dma_addr a) = 2 \<and> length (ai_dma_len a) = 2 \<and> ai_dma_count a \<le> 2"

lemma audio_wf_ops [invlib]:
  "audio_wf audio_new"
  "audio_wf a \<Longrightarrow> audio_wf (set_region r a)"
  "audio_wf a \<Longrightarrow> audio_wf (snd (ai_write_reg i v a))"
  "audio_wf a \<Longrightarrow> audio_wf (snd (emit_sample rd a))"
  "audio_wf a \<Longrightarrow> audio_wf (snd (tick_without_bus t a))"
  by (simp_all add: audio_wf_def audio_new_def recompute_rate_def set_region_def ai_write_reg_def
      emit_sample_def tick_without_bus_def Let_def le_diff_conv)

lemma sat_add_exact: "unat a + unat b < 2 ^ 64 \<Longrightarrow> sat_add a b = a + b \<and> unat (a + b) = unat a + unat b"
  by (simp add: sat_add_def word_less_nat_alt unat_word_ariths)

definition samples_due :: "u64 \<Rightarrow> u64 \<Rightarrow> u64 \<Rightarrow> nat" where
  "samples_due nxt t period =
     (if unat nxt \<le> unat t then (unat t - unat nxt) div unat period + 1 else 0)"

lemma tick_with_bus_closed:
  assumes "0 < unat period" "unat t + unat period < 2 ^ 64"
  shows "\<exists>raised' a'. tick_with_bus rd \<lparr>nb_period = period, nb_now = t\<rparr> (raised, a) = Some (raised', a') \<and>
    length (ai_sink a') = length (ai_sink a) + samples_due (ai_next_sample a) t period \<and>
    unat (ai_next_sample a') = unat (ai_next_sample a) + samples_due (ai_next_sample a) t period * unat period \<and>
    (audio_wf a \<longrightarrow> audio_wf a')"
proof (induction "samples_due (ai_next_sample a) t period" arbitrary: a raised)
  case 0
  then have "\<not> ai_next_sample a \<le> t" by (simp add: samples_due_def word_le_nat_alt split: if_splits)
  then show ?case using 0 by (subst tick_with_bus.simps) simp
next
  case (Suc n)
  have le: "unat (ai_next_sample a) \<le> unat t" using Suc(2) by (simp add: samples_due_def split: if_splits)
  then have n: "n = (unat t - unat (ai_next_sample a)) div unat period" using Suc(2) by (simp add: samples_due_def)
  obtain r a1 where e: "emit_sample rd a = (r, a1)" by (cases "emit_sample rd a")
  have fr: "length (ai_sink a1) = Suc (length (ai_sink a))" "ai_next_sample a1 = ai_next_sample a"
    using emit_sample_frame[of rd a] by (simp_all add: e)
  define nx where "nx = sat_add (ai_next_sample a) period"
  have nx: "unat nx = unat (ai_next_sample a) + unat period"
    using sat_add_exact[of "ai_next_sample a" period] le assms(2) by (simp add: nx_def)
  define a2 where "a2 = a1\<lparr>ai_next_sample := nx\<rparr>"
  have due: "n = samples_due (ai_next_sample a2) t period"
  proof (cases "unat period \<le> unat t - unat (ai_next_sample a)")
    case True
    then have "(unat t - unat (ai_next_sample a)) div unat period = (unat t - unat (ai_next_sample a) - unat period) div unat period + 1"
      using assms(1) by (simp add: le_div_geq)
    then show ?thesis using True le by (simp add: n samples_due_def a2_def nx)
  next
    case False
    then show ?thesis using le by (simp add: n samples_due_def a2_def nx)
  qed
  have wf2: "audio_wf a \<Longrightarrow> audio_wf a2" using audio_wf_ops(4)[of a rd] by (simp add: e a2_def audio_wf_def)
  have st: "tick_with_bus rd \<lparr>nb_period = period, nb_now = t\<rparr> (raised, a) =
      tick_with_bus rd \<lparr>nb_period = period, nb_now = t\<rparr> (raised \<or> r, a2)"
    using le by (subst tick_with_bus.simps) (simp add: word_le_nat_alt e a2_def nx_def fr)
  show ?case
    unfolding st using Suc(1)[OF due, of "raised \<or> r"] wf2 Suc(2)[symmetric]
    unfolding due[symmetric] by (auto simp: a2_def nx fr algebra_simps)
qed

text \<open>C37. The sample clock always catches up: from a tick at which a sample is due, the catch-up loop
  returns (as long as the clock is a period away from wrapping), having emitted exactly one sample
  for each elapsed period, and leaves the next sample strictly after the tick and at most a period
  beyond it.\<close>

theorem audio_catches_up:
  assumes "tick_without_bus t a = (Some nb, a1)" "audio_wf a"
    and "unat t + unat (period_ticks a) < 2 ^ 64"
  shows "\<exists>raised a2. tick_with_bus rd nb (False, a1) = Some (raised, a2) \<and>
    length (ai_sink a2) = length (ai_sink a) + (unat t - unat (ai_next_sample a)) div unat (period_ticks a) + 1 \<and>
    unat t < unat (ai_next_sample a2) \<and> unat (ai_next_sample a2) \<le> unat t + unat (period_ticks a) \<and> audio_wf a2"
proof -
  define p x where "p = unat (period_ticks a)" and "x = unat (ai_next_sample a)"
  have c: "nb = \<lparr>nb_period = period_ticks a, nb_now = t\<rparr>" "a1 = a\<lparr>ai_last_tick := t\<rparr>" "period_ticks a \<noteq> 0"
    "x \<le> unat t"
    using assms(1) by (auto simp: tick_without_bus_def Let_def period_ticks_def x_def not_less word_le_nat_alt split: if_splits)
  have p0: "0 < p" using c(3) by (simp add: p_def unat_gt_0)
  have w1: "audio_wf a1" using assms(2) by (simp add: c audio_wf_def)
  have due: "samples_due (ai_next_sample a1) t (period_ticks a) = (unat t - x) div p + 1"
    using c(4) by (simp add: samples_due_def c(2) x_def p_def)
  have q: "(unat t - x) div p * p \<le> unat t - x" "unat t - x < (unat t - x) div p * p + p"
    using div_times_less_eq_dividend[of "unat t - x" p] dividend_less_div_times[OF p0, of "unat t - x"]
    by (simp_all add: add.commute)
  obtain raised a2 where r: "tick_with_bus rd nb (False, a1) = Some (raised, a2)"
    "length (ai_sink a2) = length (ai_sink a1) + ((unat t - x) div p + 1)"
    "unat (ai_next_sample a2) = unat (ai_next_sample a1) + ((unat t - x) div p + 1) * p" "audio_wf a2"
    using tick_with_bus_closed[OF p0[unfolded p_def] assms(3), of rd False a1] w1 unfolding due p_def[symmetric] c(1)
    by blast
  have "unat (ai_next_sample a2) = x + (unat t - x) div p * p + p"
    using r(3) by (simp add: c(2) x_def)
  then have "unat t < unat (ai_next_sample a2)" "unat (ai_next_sample a2) \<le> unat t + p"
    using q c(4) by linarith+
  then show ?thesis
    using r(1,2,4) unfolding p_def[symmetric] x_def[symmetric] by (simp add: c(2))
qed

lemma audio_catches_up_witness:
  "\<exists>raised a2. tick_with_bus (\<lambda>_. 0) \<lparr>nb_period = 4251, nb_now = 10000\<rparr> (False, audio_new\<lparr>ai_next_sample := 5000, ai_last_tick := 10000\<rparr>) = Some (raised, a2) \<and>
    length (ai_sink a2) = 2"
proof -
  have p: "period_ticks (audio_new\<lparr>ai_next_sample := 5000\<rparr>) = 4251"
    by (simp add: period_ticks_def audio_new_def recompute_rate_def VIDEO_CLOCK_NTSC_def DEFAULT_DAC_HZ_def AI_MASTER_HZ_def)
  have per: "period_ticks (a\<lparr>ai_last_tick := t\<rparr>) = period_ticks a" for a t by (simp add: period_ticks_def)
  have "tick_without_bus 10000 (audio_new\<lparr>ai_next_sample := 5000\<rparr>) =
      (Some \<lparr>nb_period = 4251, nb_now = 10000\<rparr>, audio_new\<lparr>ai_next_sample := 5000, ai_last_tick := 10000\<rparr>)"
    using p by (simp add: tick_without_bus_def Let_def per)
  moreover have "audio_wf (audio_new\<lparr>ai_next_sample := 5000\<rparr>)"
    using audio_wf_ops(1) by (simp add: audio_wf_def)
  moreover have "length (ai_sink audio_new) = 0" by (simp add: audio_new_def recompute_rate_def)
  ultimately show ?thesis
    using audio_catches_up[of 10000 "audio_new\<lparr>ai_next_sample := 5000\<rparr>"] p by fastforce
qed

end
