(* ===== verification/Bus.thy ===== *)
theory Bus
  imports Cart Pi_Dma Rsp Dpc Vi Audio BusTrait
begin

text \<open>
  The system bus: \<^verbatim>\<open>rustyn64-core/src/bus.rs\<close>. Address decode, the RDRAM, the MIPS interface and the RDRAM
  interface registers, the DMA engines that move data between the devices and RDRAM, and the
  interrupt line. The 8 MiB of RDRAM is a function of the offset \<open>rdram_offset\<close> yields. The dirty-page
  map, the command tap and the access counters belong to optional features and are left out.
\<close>

definition RDRAM_SIZE :: nat where "RDRAM_SIZE = 8 * 1024 * 1024"

section \<open>State\<close>

record mi_interrupt =
  mi_sp :: bool
  mi_si :: bool
  mi_ai :: bool
  mi_vi :: bool
  mi_pi :: bool
  mi_dp :: bool

definition mi_none :: mi_interrupt where
  "mi_none = \<lparr>mi_sp = False, mi_si = False, mi_ai = False, mi_vi = False, mi_pi = False, mi_dp = False\<rparr>"

definition pack_mi :: "mi_interrupt \<Rightarrow> u32" where
  "pack_mi l = b2w (mi_sp l) OR shl (b2w (mi_si l)) 1 OR shl (b2w (mi_ai l)) 2 OR shl (b2w (mi_vi l)) 3
     OR shl (b2w (mi_pi l)) 4 OR shl (b2w (mi_dp l)) 5"

definition mi_any :: "mi_interrupt \<Rightarrow> bool" where
  "mi_any l = (mi_sp l \<or> mi_si l \<or> mi_ai l \<or> mi_vi l \<or> mi_pi l \<or> mi_dp l)"

record rcp_regs =
  mi_intr :: mi_interrupt
  mi_mask :: mi_interrupt
  mi_mode :: u32
  ri :: "u32 list"

record bus =
  rdram :: "nat \<Rightarrow> u8"
  rdram_hidden :: "(nat \<Rightarrow> u8) option"
  b_pi :: pi
  isviewer :: "u8 list"
  isviewer_out :: "u8 list"
  emux_out :: "u8 list"
  emux_exited :: bool
  emux_on :: bool
  pi_write_latch :: u32
  pi_write_countdown :: u32
  si_dram_addr :: u32
  boot_nmi_halt :: bool
  b_rsp :: rsp
  b_rdp :: dpc
  b_vi :: vi
  b_audio :: audio
  b_cart :: cart
  rcp :: rcp_regs
  controllers :: "u32 list"

definition ISVIEWER_LEN :: nat where "ISVIEWER_LEN = 0x1000"

definition bus_new :: bus where
  "bus_new = \<lparr>rdram = (\<lambda>_. 0), rdram_hidden = None, b_pi = pi_new,
     isviewer = replicate (0x20 + ISVIEWER_LEN) 0, isviewer_out = [], emux_out = [],
     emux_exited = False, emux_on = False, pi_write_latch = 0, pi_write_countdown = 0,
     si_dram_addr = 0, boot_nmi_halt = False, b_rsp = rsp_new, b_rdp = dpc_new, b_vi = vi_new,
     b_audio = audio_new, b_cart = cart_new,
     rcp = \<lparr>mi_intr = mi_none, mi_mask = mi_none, mi_mode = 0, ri = replicate 8 0\<rparr>,
     controllers = [0, 0, 0, 0]\<rparr>"

text \<open>Field updates through the nested records.\<close>

abbreviation set_intr :: "(mi_interrupt \<Rightarrow> mi_interrupt) \<Rightarrow> bus \<Rightarrow> bus" where
  "set_intr f b \<equiv> b\<lparr>rcp := (rcp b)\<lparr>mi_intr := f (mi_intr (rcp b))\<rparr>\<rparr>"

abbreviation set_sp :: "(sp_regs \<Rightarrow> sp_regs) \<Rightarrow> bus \<Rightarrow> bus" where
  "set_sp f b \<equiv> b\<lparr>b_rsp := (b_rsp b)\<lparr>rsp_sp := f (rsp_sp (b_rsp b))\<rparr>\<rparr>"

section \<open>Address map\<close>

definition SPMEM_BASE :: u32 where "SPMEM_BASE = 0x04000000"
definition SPMEM_WINDOW_END :: u32 where "SPMEM_WINDOW_END = 0x04040000"
definition PI_WRITE_CYCLES :: u32 where "PI_WRITE_CYCLES = 100"
definition MI_BASE :: u32 where "MI_BASE = 0x04300000"
definition MI_VERSION_VALUE :: u32 where "MI_VERSION_VALUE = 0x02020102"
definition SP_REGS_BASE :: u32 where "SP_REGS_BASE = 0x04040000"
definition SP_PC :: u32 where "SP_PC = 0x04080000"
definition DP_REGS_BASE :: u32 where "DP_REGS_BASE = 0x04100000"
definition VI_REGS_BASE :: u32 where "VI_REGS_BASE = 0x04400000"
definition AI_REGS_BASE :: u32 where "AI_REGS_BASE = 0x04500000"
definition RI_BASE :: u32 where "RI_BASE = 0x04700000"
definition SI_BASE :: u32 where "SI_BASE = 0x04800000"
definition PIF_ROM_BASE :: u32 where "PIF_ROM_BASE = 0x1FC00000"
definition PIF_RAM_BASE :: u32 where "PIF_RAM_BASE = 0x1FC007C0"
definition PIF_CMD_BYTE :: nat where "PIF_CMD_BYTE = 0x3F"
definition ISVIEWER_BASE :: u32 where "ISVIEWER_BASE = 0x13FF0000"
definition ISVIEWER_WRITE_LEN :: u32 where "ISVIEWER_WRITE_LEN = 0x13FF0014"
definition ISVIEWER_BUF :: u32 where "ISVIEWER_BUF = 0x13FF0020"

definition is_mi_register :: "u32 \<Rightarrow> bool" where
  "is_mi_register a = (a \<ge> MI_BASE \<and> a < 0x04400000)"
definition is_sp_register :: "u32 \<Rightarrow> bool" where
  "is_sp_register a = (a \<ge> SP_REGS_BASE \<and> a < SP_REGS_BASE + 0x20)"
definition is_dp_register :: "u32 \<Rightarrow> bool" where
  "is_dp_register a = (a \<ge> DP_REGS_BASE \<and> a < DP_REGS_BASE + 0x20)"
definition is_vi_register :: "u32 \<Rightarrow> bool" where
  "is_vi_register a = (a \<ge> VI_REGS_BASE \<and> a < 0x04500000)"
definition is_ai_register :: "u32 \<Rightarrow> bool" where
  "is_ai_register a = (a \<ge> AI_REGS_BASE \<and> a < 0x04600000)"
definition is_ri_register :: "u32 \<Rightarrow> bool" where
  "is_ri_register a = (a \<ge> RI_BASE \<and> a < SI_BASE)"
definition is_si_register :: "u32 \<Rightarrow> bool" where
  "is_si_register a = (a \<ge> SI_BASE \<and> a < 0x04900000)"
definition is_pif :: "u32 \<Rightarrow> bool" where
  "is_pif a = (a \<ge> 0x1FC00000 \<and> a < 0x1FC00800)"
definition is_spmem :: "u32 \<Rightarrow> bool" where
  "is_spmem a = (a \<ge> SPMEM_BASE \<and> a < SPMEM_WINDOW_END)"
definition is_rcp_internal :: "u32 \<Rightarrow> bool" where
  "is_rcp_internal a = (0x04000000 \<le> a \<and> a \<le> 0x04FFFFFF)"
definition is_isviewer :: "u32 \<Rightarrow> bool" where
  "is_isviewer a = (a \<ge> ISVIEWER_BASE \<and> a < ISVIEWER_BASE + 0x20 + of_nat ISVIEWER_LEN)"
definition is_pi_bus :: "u32 \<Rightarrow> bool" where
  "is_pi_bus a = ((0x05000000 \<le> a \<and> a \<le> 0x1FBFFFFF) \<or> (0x1FD00000 \<le> a \<and> a \<le> 0x7FFFFFFF))"
definition pi_bus_byte :: "u32 \<Rightarrow> u32" where
  "pi_bus_byte a = (if a AND 2 \<noteq> 0 then a + 2 else a)"
definition is_pi_register :: "u32 \<Rightarrow> bool" where
  "is_pi_register a = (a \<ge> PI_BASE \<and> a < PI_BASE + 0x34)"

definition rdram_offset :: "u32 \<Rightarrow> nat option" where
  "rdram_offset a = (let phys = unat (a AND 0x1FFFFFFF) in if phys < RDRAM_SIZE then Some phys else None)"

lemmas addr_map = is_mi_register_def is_sp_register_def is_dp_register_def is_vi_register_def
  is_ai_register_def is_ri_register_def is_si_register_def is_pif_def is_spmem_def is_rcp_internal_def
  is_isviewer_def is_pi_bus_def is_pi_register_def SPMEM_BASE_def SPMEM_WINDOW_END_def MI_BASE_def
  SP_REGS_BASE_def SP_PC_def DP_REGS_BASE_def VI_REGS_BASE_def AI_REGS_BASE_def RI_BASE_def SI_BASE_def
  PIF_ROM_BASE_def PIF_RAM_BASE_def ISVIEWER_BASE_def ISVIEWER_WRITE_LEN_def ISVIEWER_BUF_def
  ISVIEWER_LEN_def PI_BASE_def

text \<open>The RDRAM bus of the DMA masters.\<close>

definition rdram_read :: "bus \<Rightarrow> u32 \<Rightarrow> u8" where
  "rdram_read b a = (case rdram_offset a of Some off \<Rightarrow> rdram b off | None \<Rightarrow> 0)"

definition rdram_write :: "u32 \<Rightarrow> u8 \<Rightarrow> bus \<Rightarrow> bus" where
  "rdram_write a v b = (case rdram_offset a of Some off \<Rightarrow> b\<lparr>rdram := (rdram b)(off := v)\<rparr> | None \<Rightarrow> b)"

definition rdram_read_u32 :: "bus \<Rightarrow> u32 \<Rightarrow> u32" where
  "rdram_read_u32 b a =
     from_be_bytes [rdram_read b a, rdram_read b (a + 1), rdram_read b (a + 2), rdram_read b (a + 3)]"

definition rdram_read_hidden :: "bus \<Rightarrow> u32 \<Rightarrow> u8" where
  "rdram_read_hidden b a =
     (case (rdram_hidden b, rdram_offset a) of
        (Some hidden, Some off) \<Rightarrow>
          (let halfword = off div 2; shift = halfword mod 4 * 2
           in shr (hidden (halfword div 4)) shift AND 3)
      | _ \<Rightarrow> 0)"

definition rdram_write_hidden :: "u32 \<Rightarrow> u8 \<Rightarrow> bus \<Rightarrow> bus" where
  "rdram_write_hidden a v b =
     (case rdram_offset a of
        None \<Rightarrow> b
      | Some off \<Rightarrow>
          (let hidden = (case rdram_hidden b of Some h \<Rightarrow> h | None \<Rightarrow> (\<lambda>_. 0));
               halfword = off div 2; shift = halfword mod 4 * 2; k = halfword div 4
           in b\<lparr>rdram_hidden := Some (hidden(k := (hidden k AND NOT (shl 3 shift)) OR shl (v AND 3) shift))\<rparr>))"

section \<open>Device registers\<close>

definition mi_read :: "bus \<Rightarrow> u32 \<Rightarrow> u32" where
  "mi_read b a =
     (let k = shr a 2 AND 3
      in if k = 0 then mi_mode (rcp b)
         else if k = 1 then MI_VERSION_VALUE
         else if k = 2 then pack_mi (mi_intr (rcp b))
         else pack_mi (mi_mask (rcp b)))"

text \<open>A line's pair of bits in a write of MI_MASK: clear, then set.\<close>

definition mask_pair :: "u32 \<Rightarrow> nat \<Rightarrow> bool \<Rightarrow> bool" where
  "mask_pair val line slot =
     (let clear = (val AND shl 1 (line * 2) \<noteq> 0); setb = (val AND shl 1 (line * 2 + 1) \<noteq> 0);
          slot = (if clear then False else slot)
      in if setb then True else slot)"

definition mi_write :: "u32 \<Rightarrow> u32 \<Rightarrow> bus \<Rightarrow> bus" where
  "mi_write a val b =
     (let k = shr a 2 AND 3; r = rcp b
      in if k = 0 then
           (let r = r\<lparr>mi_mode := (mi_mode r AND NOT 0x7F) OR (val AND 0x7F)\<rparr>
            in b\<lparr>rcp := (if val AND shl 1 11 \<noteq> 0 then r\<lparr>mi_intr := (mi_intr r)\<lparr>mi_dp := False\<rparr>\<rparr> else r)\<rparr>)
         else if k = 1 \<or> k = 2 then b
         else
           (let m = mi_mask r
            in b\<lparr>rcp := r\<lparr>mi_mask :=
                 \<lparr>mi_sp = mask_pair val 0 (mi_sp m), mi_si = mask_pair val 1 (mi_si m),
                  mi_ai = mask_pair val 2 (mi_ai m), mi_vi = mask_pair val 3 (mi_vi m),
                  mi_pi = mask_pair val 4 (mi_pi m), mi_dp = mask_pair val 5 (mi_dp m)\<rparr>\<rparr>\<rparr>))"

definition ai_write :: "u32 \<Rightarrow> u32 \<Rightarrow> bus \<Rightarrow> bus" where
  "ai_write a val b =
     (let (irq, au) = ai_write_reg (shr a 2 AND 7) val (b_audio b); b = b\<lparr>b_audio := au\<rparr>
      in case irq of
           IrqRaise \<Rightarrow> set_intr (mi_ai_update (\<lambda>_. True)) b
         | IrqLower \<Rightarrow> set_intr (mi_ai_update (\<lambda>_. False)) b
         | IrqNone \<Rightarrow> b)"

definition vi_reg_write :: "u32 \<Rightarrow> u32 \<Rightarrow> bus \<Rightarrow> bus" where
  "vi_reg_write a val b =
     (let (ack, v) = vi_write (shr a 2) val (b_vi b); b = b\<lparr>b_vi := v\<rparr>
      in if ack then set_intr (mi_vi_update (\<lambda>_. False)) b else b)"

definition pif_boot_command_if_cmd :: "nat \<Rightarrow> bus \<Rightarrow> bus" where
  "pif_boot_command_if_cmd off b =
     (if off = PIF_CMD_BYTE then
        (let (halt, c) = cart_pif_boot_command (b_cart b); b = b\<lparr>b_cart := c\<rparr>
         in if halt then b\<lparr>boot_nmi_halt := True\<rparr> else b)
      else b)"

definition reset_boot_latches :: "bus \<Rightarrow> bus" where
  "reset_boot_latches b =
     b\<lparr>boot_nmi_halt := False, b_cart := (b_cart b)\<lparr>c_pif := reset_boot (c_pif (b_cart b))\<rparr>\<rparr>"

definition si_read :: "bus \<Rightarrow> u32 \<Rightarrow> u32" where
  "si_read b a =
     (let k = (a - SI_BASE) AND 0x1C
      in if k = 0 then si_dram_addr b
         else if k = 0x18 then shl (b2w (mi_si (mi_intr (rcp b)))) 12
         else 0)"

definition si_write :: "u32 \<Rightarrow> u32 \<Rightarrow> bus \<Rightarrow> bus" where
  "si_write a val b =
     (let k = (a - SI_BASE) AND 0x1C
      in if k = 0 then b\<lparr>si_dram_addr := val AND 0x00FFFFFF\<rparr>
         else if k = 4 then
           (let c = cart_pif_execute (controllers b) (b_cart b);
                b = b\<lparr>b_cart := c\<rparr>;
                ram = pif_ram (c_pif c);
                b = foldl (\<lambda>b i. rdram_write (si_dram_addr b + of_nat i) (ram ! i) b) b [0..<length ram]
            in set_intr (mi_si_update (\<lambda>_. True)) b)
         else if k = 0x10 then
           (let ram = map (\<lambda>i. rdram_read b (si_dram_addr b + of_nat i)) [0..<PIF_RAM_LEN];
                b = b\<lparr>b_cart := (b_cart b)\<lparr>c_pif := pif_load ram (c_pif (b_cart b))\<rparr>\<rparr>
            in set_intr (mi_si_update (\<lambda>_. True)) b)
         else if k = 0x18 then set_intr (mi_si_update (\<lambda>_. False)) b
         else b)"

section \<open>DMA\<close>

text \<open>SP DMA: \<open>row_len\<close> bytes, then the skip, \<open>rows\<close> times; the memory side wraps inside its bank.\<close>

fun sp_dma_row :: "bool \<Rightarrow> u32 \<Rightarrow> nat \<Rightarrow> u32 \<times> u32 \<times> bus \<Rightarrow> u32 \<times> u32 \<times> bus" where
  "sp_dma_row to_dram bank 0 s = s"
| "sp_dma_row to_dram bank (Suc n) (mem, dram, b) =
     (let m = bank OR (mem AND 0xFFF);
          b = (case rdram_offset dram of
                 None \<Rightarrow> b
               | Some off \<Rightarrow>
                   if to_dram then b\<lparr>rdram := (rdram b)(off := mem_read (b_rsp b) m)\<rparr>
                   else b\<lparr>b_rsp := mem_write m (rdram b off) (b_rsp b)\<rparr>)
      in sp_dma_row to_dram bank n (mem + 1, dram + 1, b))"

fun sp_dma_rows :: "bool \<Rightarrow> u32 \<Rightarrow> nat \<Rightarrow> u32 \<Rightarrow> nat \<Rightarrow> u32 \<times> u32 \<times> bus \<Rightarrow> u32 \<times> u32 \<times> bus" where
  "sp_dma_rows to_dram bank row_len skip 0 s = s"
| "sp_dma_rows to_dram bank row_len skip (Suc n) s =
     (let (mem, dram, b) = sp_dma_row to_dram bank row_len s
      in sp_dma_rows to_dram bank row_len skip n (mem, dram + skip, b))"

definition sp_dma :: "dma \<Rightarrow> bus \<Rightarrow> bus" where
  "sp_dma d b =
     (let bank = dma_sp_addr d AND 0x1000;
          (mem, dram, b) = sp_dma_rows (dma_to_dram d) bank (unat (dma_row_len d)) (dma_skip d)
            (unat (dma_rows d)) (dma_sp_addr d AND 0xFFF, dma_ram_addr d, b)
      in set_sp (complete_dma (bank OR (mem AND 0xFFF)) (dram AND 0x00FFFFFF)) b)"

definition sp_register_write :: "u32 \<Rightarrow> u32 \<Rightarrow> bus \<Rightarrow> bus" where
  "sp_register_write a val b =
     (let i = shr a 2 AND 7;
          b = (if i = 4 then
                 (case interrupt_change val of
                    Some raise \<Rightarrow> set_intr (mi_sp_update (\<lambda>_. raise)) b
                  | None \<Rightarrow> b)
               else b);
          (started, sp) = sp_write i val (rsp_sp (b_rsp b));
          b = set_sp (\<lambda>_. sp) b
      in case started of Some d \<Rightarrow> sp_dma d b | None \<Rightarrow> b)"

text \<open>PI DMA, a byte a turn.\<close>

definition pi_dma_byte :: "transfer \<Rightarrow> bus \<Rightarrow> nat \<Rightarrow> bus" where
  "pi_dma_byte t b i =
     (if t_to_dram t then rdram_write (t_dram t + of_nat i) (cart_pi_read (b_cart b) (t_cart t + of_nat i)) b
      else b\<lparr>b_cart := cart_pi_write (t_cart t + of_nat i) (rdram_read b (t_dram t + of_nat i)) (b_cart b)\<rparr>)"

definition pi_write_word :: "u32 \<Rightarrow> u32 \<Rightarrow> bus \<Rightarrow> bus" where
  "pi_write_word a val b =
     (let (started, p) = pi_write a val (b_pi b);
          b = set_intr (mi_pi_update (\<lambda>_. pi_intr p)) (b\<lparr>b_pi := p\<rparr>)
      in case started of
           None \<Rightarrow> b
         | Some t \<Rightarrow>
             (let b = foldl (pi_dma_byte t) b [0..<unat (t_len t)];
                  p = pi_complete (b_pi b)
              in set_intr (mi_pi_update (\<lambda>_. pi_intr p)) (b\<lparr>b_pi := p\<rparr>)))"


section \<open>The processor's accesses\<close>

definition pi_io_busy :: "bus \<Rightarrow> bool" where
  "pi_io_busy b = (pi_write_countdown b > 0)"

definition pi_tick :: "bus \<Rightarrow> bus" where
  "pi_tick b = (if pi_write_countdown b > 0 then b\<lparr>pi_write_countdown := pi_write_countdown b - 1\<rparr> else b)"

text \<open>The byte of a register's word that an address selects.\<close>

definition byte_lane :: "u32 \<Rightarrow> u32 \<Rightarrow> u8" where
  "byte_lane a w = to_u8 (shr w (8 * (3 - unat (a AND 3))))"

definition read_u8 :: "u32 \<Rightarrow> bus \<Rightarrow> u8 \<times> bus" where
  "read_u8 a b =
     (case rdram_offset a of
        Some off \<Rightarrow> (rdram b off, b)
      | None \<Rightarrow>
          if is_pi_register a then
            (let w = pi_read (b_pi b) a;
                 w = (if a AND NOT 3 = PI_STATUS \<and> pi_io_busy b then w OR STATUS_IO_BUSY else w)
             in (byte_lane a w, b))
          else if is_spmem a then (mem_read (b_rsp b) (a - SPMEM_BASE), b)
          else if is_sp_register a then
            (let (w, sp) = sp_read (shr a 2 AND 7) (rsp_sp (b_rsp b)) in (byte_lane a w, set_sp (\<lambda>_. sp) b))
          else if is_mi_register a then (byte_lane a (mi_read b a), b)
          else if is_dp_register a then (byte_lane a (dpc_read (b_rdp b) (shr a 2 AND 7)), b)
          else if is_vi_register a then (byte_lane a (vi_read (b_vi b) (shr a 2)), b)
          else if is_ai_register a then (byte_lane a (ai_read_reg (b_audio b) (shr a 2 AND 7)), b)
          else if is_ri_register a then (byte_lane a (ri (rcp b) ! unat (shr a 2 AND 7)), b)
          else if is_si_register a then (byte_lane a (si_read b a), b)
          else if is_pif a then
            ((if a \<ge> PIF_RAM_BASE then pif_read (c_pif (b_cart b)) (unat (a - PIF_RAM_BASE))
              else boot_rom_read (c_pif (b_cart b)) (unat (a - PIF_ROM_BASE))), b)
          else if a AND NOT 3 = SP_PC then (byte_lane a (sp_pc (rsp_sp (b_rsp b))), b)
          else if is_isviewer a then (get_or 0 (isviewer b) (unat (a - ISVIEWER_BASE)), b)
          else if is_pi_bus a then
            ((if pi_io_busy b then to_be_bytes (pi_write_latch b) ! unat (a AND 3)
              else cart_pi_read (b_cart b) (pi_bus_byte a)), b)
          else (cart_pi_read (b_cart b) a, b))"

text \<open>Four bytes of RDRAM as a word, where they all lie below its end.\<close>

definition rdram_word :: "bus \<Rightarrow> u32 \<Rightarrow> u32 option" where
  "rdram_word b a =
     (case rdram_offset a of
        Some off \<Rightarrow>
          if off + 4 \<le> RDRAM_SIZE
          then Some (from_be_bytes [rdram b off, rdram b (off + 1), rdram b (off + 2), rdram b (off + 3)])
          else None
      | None \<Rightarrow> None)"

definition read_u32 :: "u32 \<Rightarrow> bus \<Rightarrow> u32 \<times> bus" where
  "read_u32 a b =
     (if is_pi_bus a \<and> \<not> is_isviewer a then
        ((if pi_io_busy b then pi_write_latch b
          else let c = b_cart b
            in from_be_bytes [cart_pi_read c a, cart_pi_read c (a + 1), cart_pi_read c (a + 2), cart_pi_read c (a + 3)]), b)
      else if is_sp_register a then
        (let (w, sp) = sp_read (shr a 2 AND 7) (rsp_sp (b_rsp b)) in (w, set_sp (\<lambda>_. sp) b))
      else if is_mi_register a then (mi_read b a, b)
      else if is_dp_register a then (dpc_read (b_rdp b) (shr a 2 AND 7), b)
      else if is_vi_register a then (vi_read (b_vi b) (shr a 2), b)
      else if is_ai_register a then (ai_read_reg (b_audio b) (shr a 2 AND 7), b)
      else if is_ri_register a then (ri (rcp b) ! unat (shr a 2 AND 7), b)
      else if is_si_register a then (si_read b a, b)
      else if is_pif a then
        (let p = c_pif (b_cart b)
         in ((if a \<ge> PIF_RAM_BASE then
                (let off = unat (a - PIF_RAM_BASE)
                 in from_be_bytes [pif_read p off, pif_read p (off + 1), pif_read p (off + 2), pif_read p (off + 3)])
              else
                (let off = unat (a - PIF_ROM_BASE)
                 in from_be_bytes [boot_rom_read p off, boot_rom_read p (off + 1), boot_rom_read p (off + 2), boot_rom_read p (off + 3)])), b))
      else case rdram_word b a of
        Some w \<Rightarrow> (w, b)
      | None \<Rightarrow> default_read_u32 read_u8 a b)"

definition write_u8 :: "u32 \<Rightarrow> u8 \<Rightarrow> bus \<Rightarrow> bus" where
  "write_u8 a v b =
     (case rdram_offset a of
        Some off \<Rightarrow> b\<lparr>rdram := (rdram b)(off := v)\<rparr>
      | None \<Rightarrow>
          if is_pi_register a then
            (if a AND NOT 3 = PI_DRAM_ADDR \<or> a AND NOT 3 = PI_CART_ADDR then
               (let shift = 8 * (3 - unat (a AND 3));
                    w = (pi_read (b_pi b) a AND NOT (shl 0xFF shift)) OR shl (to_u32 v) shift
                in pi_write_word a w b)
             else b)
          else if is_spmem a then b\<lparr>b_rsp := mem_write (a - SPMEM_BASE) v (b_rsp b)\<rparr>
          else if is_isviewer a then b\<lparr>isviewer := (isviewer b)[unat (a - ISVIEWER_BASE) := v]\<rparr>
          else if is_pif a then
            (if a \<ge> PIF_RAM_BASE then
               (let off = unat (a - PIF_RAM_BASE);
                    b = b\<lparr>b_cart := (b_cart b)\<lparr>c_pif := pif_write off v (c_pif (b_cart b))\<rparr>\<rparr>
                in pif_boot_command_if_cmd off b)
             else b)
          else b\<lparr>b_cart := cart_pi_write a v (b_cart b)\<rparr>)"

definition write_u32 :: "u32 \<Rightarrow> u32 \<Rightarrow> bus \<Rightarrow> bus" where
  "write_u32 a val b =
     (let by = to_be_bytes val in
      if is_pi_bus a \<and> \<not> is_isviewer a then
        (if pi_io_busy b then b
         else b\<lparr>pi_write_latch := val, pi_write_countdown := PI_WRITE_CYCLES,
                b_cart := cart_pi_write_word a val (b_cart b)\<rparr>)
      else if is_sp_register a then sp_register_write a val b
      else if is_mi_register a then mi_write a val b
      else if is_dp_register a then b\<lparr>b_rdp := dpc_write (shr a 2 AND 7) val (b_rdp b)\<rparr>
      else if is_vi_register a then vi_reg_write a val b
      else if is_ai_register a then ai_write a val b
      else if is_ri_register a then
        b\<lparr>rcp := (rcp b)\<lparr>ri := (ri (rcp b))[unat (shr a 2 AND 7) := val]\<rparr>\<rparr>
      else if is_si_register a then si_write a val b
      else if is_pif a then
        (if a \<ge> PIF_RAM_BASE then
           (let off = unat (a - PIF_RAM_BASE);
                b = foldl (\<lambda>b i. b\<lparr>b_cart := (b_cart b)\<lparr>c_pif := pif_write (off + i) (by ! i) (c_pif (b_cart b))\<rparr>\<rparr>) b [0..<4]
            in pif_boot_command_if_cmd (off + 3) b)
         else b)
      else if a AND NOT 3 = SP_PC then set_sp (sp_set_pc val) b
      else if a = ISVIEWER_WRITE_LEN then
        (let n = min (unat val) ISVIEWER_LEN; base = unat (ISVIEWER_BUF - ISVIEWER_BASE)
         in b\<lparr>isviewer_out := isviewer_out b @ take n (drop base (isviewer b))\<rparr>)
      else if is_isviewer a then
        (let off = unat (a - ISVIEWER_BASE)
         in if off + 4 \<le> length (isviewer b) then b\<lparr>isviewer := write_block off by (isviewer b)\<rparr> else b)
      else if is_pi_register a then pi_write_word a val b
      else
        let bytewise = foldl (\<lambda>b i. write_u8 (a + of_nat i) (by ! i) b) b [0..<4]
        in case rdram_offset a of
             Some off \<Rightarrow>
               if off + 3 < RDRAM_SIZE
               then b\<lparr>rdram := (rdram b)(off := by ! 0, off + 1 := by ! 1, off + 2 := by ! 2, off + 3 := by ! 3)\<rparr>
               else bytewise
           | None \<Rightarrow> bytewise)"

definition write_sized :: "u32 \<Rightarrow> u64 \<Rightarrow> u64 \<Rightarrow> bus \<Rightarrow> bus" where
  "write_sized a width value b =
     (if width \<notin> {1, 2, 4, 8} then b
      else if \<not> is_rcp_internal a then default_write_sized write_u8 write_u32 a width value b
      else
        let word = (if width = 8 then to_u32 (shr value 32)
                    else if width = 4 then to_u32 value
                    else shl (to_u32 value) (8 * (4 - unat width - unat (a AND 3))))
        in write_u32 (a AND NOT 3) word b)"

definition bus_poll_irq :: "bus \<Rightarrow> bool" where
  "bus_poll_irq b =
     (let i = mi_intr (rcp b); m = mi_mask (rcp b)
      in (mi_sp i \<and> mi_sp m) \<or> (mi_si i \<and> mi_si m) \<or> (mi_ai i \<and> mi_ai m) \<or>
         (mi_vi i \<and> mi_vi m) \<or> (mi_pi i \<and> mi_pi m) \<or> (mi_dp i \<and> mi_dp m))"

definition system_bus :: "bus bus_ops" where
  "system_bus = \<lparr>rd8 = read_u8, wr8 = write_u8, rd32 = read_u32, wr32 = write_u32, wr_sized = write_sized,
     emux_enabled = emux_on, emux_log = (\<lambda>bs b. b\<lparr>emux_out := emux_out b @ bs\<rparr>),
     emux_exit = (\<lambda>b. b\<lparr>emux_exited := True\<rparr>), poll_irq = (\<lambda>b. (bus_poll_irq b, b))\<rparr>"

section \<open>The devices' ticks\<close>

definition audio_tick :: "u64 \<Rightarrow> bus \<Rightarrow> bus option" where
  "audio_tick master_ticks b =
     (let (needs, a) = tick_without_bus master_ticks (b_audio b)
      in case needs of
           None \<Rightarrow> Some (b\<lparr>b_audio := a\<rparr>)
         | Some nb \<Rightarrow>
             map_option (\<lambda>(raised, a).
                 let b = b\<lparr>b_audio := a\<rparr> in if raised then set_intr (mi_ai_update (\<lambda>_. True)) b else b)
               (tick_with_bus (rdram_read_u32 b) nb (False, a)))"

end
