(* ===== verification/Cache.thy ===== *)
theory Cache
  imports BusTrait Cop0 Stages
begin

text \<open>
  The primary caches, \<^verbatim>\<open>rustyn64-cpu/src/cache.rs\<close>, and the pipeline's traffic between them and
  the bus (\<^verbatim>\<open>icache_fill\<close>, \<^verbatim>\<open>dcache_fill\<close>, \<^verbatim>\<open>push_line\<close>, \<^verbatim>\<open>pull_line\<close>, \<^verbatim>\<open>read_width\<close>,
  \<^verbatim>\<open>write_width\<close> and the \<^verbatim>\<open>CACHE\<close> operations of \<^verbatim>\<open>pipeline.rs\<close>). Both caches have 512 lines,
  so bit 12 of an address is in the tag and in the data cache's index.

  That cached accesses in front of memory behave as accesses to one flat memory is the subject of
  \<open>Cache_Coherence\<close>.
\<close>

section \<open>Lines and tags\<close>

definition ICACHE_LINE :: u32 where "ICACHE_LINE = 32"
definition DCACHE_LINE :: u32 where "DCACHE_LINE = 16"
definition ICACHE_LINES :: nat where [simp]: "ICACHE_LINES = 512"
definition DCACHE_LINES :: nat where [simp]: "DCACHE_LINES = 512"
definition ICACHE_VALID_STATE :: u32 where "ICACHE_VALID_STATE = 2"
definition DCACHE_VALID_STATE :: u32 where "DCACHE_VALID_STATE = 3"

record line =
  ln_tag :: u32
  ln_valid :: bool
  ln_dirty :: bool
  ln_data :: "u8 list"

definition line_empty :: "nat \<Rightarrow> line" where
  "line_empty n = \<lparr>ln_tag = 0, ln_valid = False, ln_dirty = False, ln_data = replicate n 0\<rparr>"

definition pack_tag :: "u32 \<Rightarrow> bool \<Rightarrow> u32 \<Rightarrow> u32" where
  "pack_tag tag v valid_state =
     (let pstate = (if v then valid_state else 0)
      in shl pstate 6 OR shl (tag AND 0x000FFFFF) 8)"

definition unpack_tag :: "u32 \<Rightarrow> u32 \<Rightarrow> u32 \<times> bool" where
  "unpack_tag tag_lo valid_state =
     (shr tag_lo 8 AND 0x000FFFFF, shr tag_lo 6 AND 3 = valid_state)"

record writeback =
  wb_addr :: u32
  wb_data :: "u8 list"

section \<open>Data cache\<close>

record dcache =
  d_lines :: "line list"

definition dcache_new :: dcache where
  "dcache_new = \<lparr>d_lines = replicate DCACHE_LINES (line_empty 16)\<rparr>"

definition d_index :: "u32 \<Rightarrow> nat" where
  "d_index a = unat (a div DCACHE_LINE) mod DCACHE_LINES"

definition d_line :: "dcache \<Rightarrow> u32 \<Rightarrow> line" where
  "d_line c a = d_lines c ! d_index a"

definition d_resident_addr :: "dcache \<Rightarrow> nat \<Rightarrow> u32" where
  "d_resident_addr c i =
     (let within_page = (of_nat i * DCACHE_LINE) AND 0xFFF
      in shl (ln_tag (d_lines c ! i)) 12 OR within_page)"

definition d_hits :: "dcache \<Rightarrow> u32 \<Rightarrow> bool" where
  "d_hits c a \<longleftrightarrow> ln_valid (d_line c a) \<and> ln_tag (d_line c a) = shr a 12"

definition d_writeback :: "dcache \<Rightarrow> nat \<Rightarrow> writeback" where
  "d_writeback c i = \<lparr>wb_addr = d_resident_addr c i, wb_data = ln_data (d_lines c ! i)\<rparr>"

definition miss_plan :: "dcache \<Rightarrow> u32 \<Rightarrow> writeback option option" where
  "miss_plan c a =
     (let i = d_index a
      in if ln_valid (d_lines c ! i) \<and> ln_tag (d_lines c ! i) = shr a 12 then None
         else if ln_valid (d_lines c ! i) \<and> ln_dirty (d_lines c ! i)
         then Some (Some (d_writeback c i))
         else Some None)"

definition set_dline :: "nat \<Rightarrow> line \<Rightarrow> dcache \<Rightarrow> dcache" where
  "set_dline i l c = c\<lparr>d_lines := (d_lines c)[i := l]\<rparr>"

definition d_install :: "u32 \<Rightarrow> u8 list \<Rightarrow> dcache \<Rightarrow> dcache" where
  "d_install a bytes c = set_dline (d_index a)
     \<lparr>ln_tag = shr a 12, ln_valid = True, ln_dirty = False, ln_data = bytes\<rparr> c"

text \<open>The loops over the bytes of an access; an access that ran past the line would index out of
  it, which aligned accesses never do.\<close>

definition d_read :: "dcache \<Rightarrow> u32 \<Rightarrow> nat \<Rightarrow> u64" where
  "d_read c a len =
     (let o' = unat (a mod DCACHE_LINE)
      in foldl (\<lambda>v k. shl v 8 OR to_u64 (ln_data (d_line c a) ! (o' + k))) 0 [0..<len])"

definition d_write :: "u32 \<Rightarrow> nat \<Rightarrow> u64 \<Rightarrow> dcache \<Rightarrow> dcache" where
  "d_write a len v c =
     (let i = d_index a; o' = unat (a mod DCACHE_LINE); l = d_lines c ! i;
          bytes = foldl (\<lambda>xs k. xs[o' + k := to_u8 (shr v (8 * (len - 1 - k)))]) (ln_data l) [0..<len]
      in set_dline i (l\<lparr>ln_data := bytes, ln_dirty := True\<rparr>) c)"

definition d_load_tag :: "dcache \<Rightarrow> u32 \<Rightarrow> u32" where
  "d_load_tag c a =
     pack_tag (ln_tag (d_line c a)) (ln_valid (d_line c a)) DCACHE_VALID_STATE"

definition d_store_tag :: "u32 \<Rightarrow> u32 \<Rightarrow> dcache \<Rightarrow> dcache" where
  "d_store_tag a tag_lo c =
     (let (tag, v) = unpack_tag tag_lo DCACHE_VALID_STATE
      in set_dline (d_index a) ((d_line c a)\<lparr>ln_tag := tag, ln_valid := v, ln_dirty := False\<rparr>) c)"

definition d_invalidate_index :: "nat \<Rightarrow> dcache \<Rightarrow> dcache" where
  "d_invalidate_index i c =
     set_dline i ((d_lines c ! i)\<lparr>ln_valid := False, ln_dirty := False\<rparr>) c"

definition flush_index :: "u32 \<Rightarrow> bool \<Rightarrow> bool \<Rightarrow> dcache \<Rightarrow> writeback option \<times> dcache" where
  "flush_index a invalidate clean c =
     (let i = d_index a;
          out = (if ln_valid (d_lines c ! i) \<and> ln_dirty (d_lines c ! i)
                 then Some (d_writeback c i) else None);
          c = (if clean then set_dline i ((d_lines c ! i)\<lparr>ln_dirty := False\<rparr>) c else c);
          c = (if invalidate then d_invalidate_index i c else c)
      in (out, c))"

definition create_dirty_exclusive :: "u32 \<Rightarrow> dcache \<Rightarrow> writeback option \<times> dcache" where
  "create_dirty_exclusive a c =
     (let i = d_index a; l = d_lines c ! i;
          out = (if ln_valid l \<and> ln_dirty l \<and> ln_tag l \<noteq> shr a 12
                 then Some (d_writeback c i) else None)
      in (out, set_dline i (l\<lparr>ln_tag := shr a 12, ln_valid := True, ln_dirty := True\<rparr>) c))"

section \<open>Instruction cache\<close>

record icache =
  i_lines :: "line list"

definition icache_new :: icache where
  "icache_new = \<lparr>i_lines = replicate ICACHE_LINES (line_empty 32)\<rparr>"

definition i_index :: "u32 \<Rightarrow> nat" where
  "i_index a = unat (a div ICACHE_LINE) mod ICACHE_LINES"

definition i_line :: "icache \<Rightarrow> u32 \<Rightarrow> line" where
  "i_line c a = i_lines c ! i_index a"

definition i_resident_addr :: "icache \<Rightarrow> nat \<Rightarrow> u32" where
  "i_resident_addr c i =
     (let within_page = (of_nat i * ICACHE_LINE) AND 0xFFF
      in shl (ln_tag (i_lines c ! i)) 12 OR within_page)"

definition i_hits :: "icache \<Rightarrow> u32 \<Rightarrow> bool" where
  "i_hits c a \<longleftrightarrow> ln_valid (i_line c a) \<and> ln_tag (i_line c a) = shr a 12"

definition set_iline :: "nat \<Rightarrow> line \<Rightarrow> icache \<Rightarrow> icache" where
  "set_iline i l c = c\<lparr>i_lines := (i_lines c)[i := l]\<rparr>"

definition i_read_word :: "icache \<Rightarrow> u32 \<Rightarrow> u32" where
  "i_read_word c a =
     (let o' = unat (a mod ICACHE_LINE); d = ln_data (i_line c a)
      in from_be_bytes [d ! o', d ! (o' + 1), d ! (o' + 2), d ! (o' + 3)])"

definition i_install :: "u32 \<Rightarrow> u8 list \<Rightarrow> icache \<Rightarrow> icache" where
  "i_install a bytes c = set_iline (i_index a)
     \<lparr>ln_tag = shr a 12, ln_valid = True, ln_dirty = False, ln_data = bytes\<rparr> c"

definition i_load_tag :: "icache \<Rightarrow> u32 \<Rightarrow> u32" where
  "i_load_tag c a =
     pack_tag (ln_tag (i_line c a)) (ln_valid (i_line c a)) ICACHE_VALID_STATE"

definition i_store_tag :: "u32 \<Rightarrow> u32 \<Rightarrow> icache \<Rightarrow> icache" where
  "i_store_tag a tag_lo c =
     (let (tag, v) = unpack_tag tag_lo ICACHE_VALID_STATE
      in set_iline (i_index a) ((i_line c a)\<lparr>ln_tag := tag, ln_valid := v\<rparr>) c)"

definition i_invalidate_index :: "u32 \<Rightarrow> icache \<Rightarrow> icache" where
  "i_invalidate_index a c = set_iline (i_index a) ((i_line c a)\<lparr>ln_valid := False\<rparr>) c"

definition i_hit_invalidate :: "u32 \<Rightarrow> icache \<Rightarrow> icache" where
  "i_hit_invalidate a c = (if i_hits c a then i_invalidate_index a c else c)"

definition i_flush_hit :: "icache \<Rightarrow> u32 \<Rightarrow> writeback option" where
  "i_flush_hit c a =
     (if \<not> i_hits c a then None
      else Some \<lparr>wb_addr = i_resident_addr c (i_index a), wb_data = ln_data (i_line c a)\<rparr>)"

section \<open>Lines over the bus\<close>

text \<open>\<open>push_words\<close> and \<open>pull_words\<close> are the loops over the four-byte chunks of a line.\<close>

fun push_words :: "'b bus_ops \<Rightarrow> u32 \<Rightarrow> u8 list \<Rightarrow> nat \<Rightarrow> 'b \<Rightarrow> 'b" where
  "push_words ops a (w0 # w1 # w2 # w3 # rest) k b =
     push_words ops a rest (Suc k) (wr32 ops (a + of_nat k * 4) (from_be_bytes [w0, w1, w2, w3]) b)"
| "push_words ops a _ k b = b"

definition push_line :: "'b bus_ops \<Rightarrow> u32 \<Rightarrow> u8 list \<Rightarrow> 'b \<Rightarrow> 'b" where
  "push_line ops a bytes b = push_words ops a bytes 0 b"

fun pull_words :: "'b bus_ops \<Rightarrow> u32 \<Rightarrow> nat \<Rightarrow> nat \<Rightarrow> 'b \<Rightarrow> u8 list \<times> 'b" where
  "pull_words ops a k 0 b = ([], b)"
| "pull_words ops a k (Suc n) b =
     (let (w, b) = rd32 ops (a + of_nat k * 4) b; (rest, b) = pull_words ops a (Suc k) n b
      in (to_be_bytes w @ rest, b))"

definition pull_line :: "'b bus_ops \<Rightarrow> u32 \<Rightarrow> nat \<Rightarrow> 'b \<Rightarrow> u8 list \<times> 'b" where
  "pull_line ops a len b = pull_words ops a 0 (len div 4) b"

definition push_writeback :: "'b bus_ops \<Rightarrow> writeback option \<Rightarrow> 'b \<Rightarrow> 'b" where
  "push_writeback ops w b = (case w of None \<Rightarrow> b | Some w \<Rightarrow> push_line ops (wb_addr w) (wb_data w) b)"

definition M_DCACHE_FILL :: u32 where "M_DCACHE_FILL = 40"
definition M_ICACHE_FILL :: u32 where "M_ICACHE_FILL = M_DCACHE_FILL + 6"

text \<open>\<^verbatim>\<open>stall_for\<close> sets the pipeline's stall unless it is asked for no cycles; the fills return
  the stall they leave behind.\<close>

definition stall_for :: "u32 \<Rightarrow> interlock \<Rightarrow> stall option \<Rightarrow> stall option" where
  "stall_for cycles cause s =
     (if cycles = 0 then s else Some \<lparr>st_cycles = cycles, st_cause = cause\<rparr>)"

definition icache_fill :: "'b bus_ops \<Rightarrow> u32 \<Rightarrow> icache \<times> stall option \<times> 'b \<Rightarrow> icache \<times> stall option \<times> 'b" where
  "icache_fill ops a = (\<lambda>(ic, s, b).
     let base = a AND NOT (ICACHE_LINE - 1); (bytes, b) = pull_line ops base 32 b
     in (i_install base bytes ic, stall_for M_ICACHE_FILL Icb s, b))"

definition dcache_fill :: "'b bus_ops \<Rightarrow> u32 \<Rightarrow> dcache \<times> stall option \<times> 'b \<Rightarrow> dcache \<times> stall option \<times> 'b" where
  "dcache_fill ops a = (\<lambda>(dc, s, b).
     case miss_plan dc a of
       None \<Rightarrow> (dc, s, b)
     | Some evicted \<Rightarrow>
         let b = push_writeback ops evicted b;
             base = a AND NOT (DCACHE_LINE - 1);
             (bytes, b) = pull_line ops base 16 b
         in (d_install base bytes dc, stall_for M_DCACHE_FILL Dcm s, b))"

definition cached_read :: "'b bus_ops \<Rightarrow> u32 \<Rightarrow> nat \<Rightarrow> dcache \<times> stall option \<times> 'b \<Rightarrow>
    u64 \<times> dcache \<times> stall option \<times> 'b" where
  "cached_read ops a width s = (let (dc, s, b) = dcache_fill ops a s in (d_read dc a width, dc, s, b))"

definition cached_write :: "'b bus_ops \<Rightarrow> u32 \<Rightarrow> nat \<Rightarrow> u64 \<Rightarrow> dcache \<times> stall option \<times> 'b \<Rightarrow>
    dcache \<times> stall option \<times> 'b" where
  "cached_write ops a width v s = (let (dc, s, b) = dcache_fill ops a s in (d_write a width v dc, s, b))"

section \<open>The CACHE instruction\<close>

record 'b cache_state =
  cs_icache :: icache
  cs_dcache :: dcache
  cs_cop0 :: cop0
  cs_stall :: "stall option"
  cs_bus :: 'b

abbreviation r_TAG_LO :: u8 where "r_TAG_LO \<equiv> 28"

definition cache_index_op :: "'b bus_ops \<Rightarrow> u8 \<Rightarrow> u32 \<Rightarrow> 'b cache_state \<Rightarrow> 'b cache_state" where
  "cache_index_op ops opn a s =
     (let isd = (opn AND 1 = 1); k = shr opn 2
      in if k = 0 \<and> \<not> isd then s\<lparr>cs_icache := i_invalidate_index a (cs_icache s)\<rparr>
         else if k = 0 then
           let (w, dc) = flush_index a True False (cs_dcache s)
           in s\<lparr>cs_dcache := dc, cs_bus := push_writeback ops w (cs_bus s)\<rparr>
         else if k = 1 \<and> \<not> isd then
           s\<lparr>cs_cop0 := set_hardware r_TAG_LO (to_u64 (i_load_tag (cs_icache s) a)) (cs_cop0 s)\<rparr>
         else if k = 1 then
           s\<lparr>cs_cop0 := set_hardware r_TAG_LO (to_u64 (d_load_tag (cs_dcache s) a)) (cs_cop0 s)\<rparr>
         else if k = 2 \<and> \<not> isd then
           s\<lparr>cs_icache := i_store_tag a (to_u32 (cop0_read (cs_cop0 s) r_TAG_LO)) (cs_icache s)\<rparr>
         else if k = 2 then
           s\<lparr>cs_dcache := d_store_tag a (to_u32 (cop0_read (cs_cop0 s) r_TAG_LO)) (cs_dcache s)\<rparr>
         else s)"

definition cache_hit_op :: "'b bus_ops \<Rightarrow> u8 \<Rightarrow> u32 \<Rightarrow> 'b cache_state \<Rightarrow> 'b cache_state" where
  "cache_hit_op ops opn a s =
     (let isd = (opn AND 1 = 1); k = shr opn 2
      in if k = 3 \<and> isd then
           let (w, dc) = create_dirty_exclusive a (cs_dcache s)
           in s\<lparr>cs_dcache := dc, cs_bus := push_writeback ops w (cs_bus s)\<rparr>
         else if k = 4 \<and> \<not> isd then s\<lparr>cs_icache := i_hit_invalidate a (cs_icache s)\<rparr>
         else if k = 4 then
           (if d_hits (cs_dcache s) a
            then s\<lparr>cs_dcache := snd (flush_index a True False (cs_dcache s))\<rparr> else s)
         else if k = 5 \<and> \<not> isd then
           let (ic, st, b) = icache_fill ops a (cs_icache s, cs_stall s, cs_bus s)
           in s\<lparr>cs_icache := ic, cs_stall := st, cs_bus := b\<rparr>
         else if k = 5 then
           (if d_hits (cs_dcache s) a then
              let (w, dc) = flush_index a True False (cs_dcache s)
              in s\<lparr>cs_dcache := dc, cs_bus := push_writeback ops w (cs_bus s)\<rparr>
            else s)
         else if k = 6 \<and> \<not> isd then
           s\<lparr>cs_bus := push_writeback ops (i_flush_hit (cs_icache s) a) (cs_bus s)\<rparr>
         else if k = 6 then
           (if d_hits (cs_dcache s) a then
              let (w, dc) = flush_index a False True (cs_dcache s)
              in s\<lparr>cs_dcache := dc, cs_bus := push_writeback ops w (cs_bus s)\<rparr>
            else s)
         else s)"

end
