(* ===== verification/Cache_Coherence.thy ===== *)
theory Cache_Coherence
  imports Cache
begin

text \<open>
  The data cache in front of memory refines a flat memory. \<open>dview\<close> is the memory a program sees;
  \<open>coherent\<close> is the invariant: a dirty line lies in memory at an address that selects it, and a
  clean line that can be hit holds what memory holds.
\<close>

section \<open>Addresses and lines\<close>

lemma unat_16 [simp]: "unat (a div DCACHE_LINE) = unat a div 16" "unat (a mod DCACHE_LINE) = unat a mod 16"
  by (simp_all add: DCACHE_LINE_def unat_div unat_mod_distrib)

lemma d_index_unat: "d_index a = unat a div 16 mod 512"
  by (simp add: d_index_def)

lemma d_index_lt [simp]: "d_index a < 512"
  by (simp add: d_index_def)

lemma tag_unat: "unat (shr a 12 :: u32) = unat a div 4096"
  by (simp add: unat_shr)

lemma same_line:
  "unat a div 16 = unat c div 16 \<longleftrightarrow> d_index a = d_index c \<and> shr a 12 = shr (c :: u32) 12"
proof -
  have "shr a 12 = shr c 12 \<longleftrightarrow> unat a div 16 div 256 = unat c div 16 div 256"
  proof -
    have "n div 16 div 256 = n div 4096" for n :: nat using div_mult2_eq[of n 16 256] by simp
    then show ?thesis unfolding word_unat_eq_iff tag_unat by simp
  qed
  moreover have "m = n" if "m div 256 = n div 256" "m mod 512 = n mod 512" for m n :: nat
  proof -
    have "m mod 256 = n mod 256"
      using that(2) mod_mod_cancel[of 256 512 m] mod_mod_cancel[of 256 512 n] by simp
    then show ?thesis using that(1) by (metis div_mult_mod_eq)
  qed
  ultimately show ?thesis unfolding d_index_unat by metis
qed

definition line_consistent :: "u32 \<Rightarrow> nat \<Rightarrow> bool" where
  "line_consistent tag i \<longleftrightarrow> unat tag < 2 ^ 20 \<and> unat tag mod 2 = i div 256"

lemma line_consistent_addr: "line_consistent (shr a 12) (d_index a)"
proof -
  have "unat a < 2 ^ 32" using unsigned_less[of a] by simp
  then have "unat a div 4096 < 2 ^ 20" by (simp add: less_mult_imp_div_less)
  moreover have "n div 256 mod 2 = n mod 512 div 256" for n :: nat
    using mod_mult2_eq[of n 256 2] by simp
  ultimately show ?thesis
    by (simp add: line_consistent_def tag_unat d_index_unat div_mult2_eq[of _ 16 256, simplified])
qed

lemma resident_addr_facts:
  assumes "line_consistent (ln_tag (d_lines c ! i)) i" "i < 512"
  shows "d_index (d_resident_addr c i) = i" "shr (d_resident_addr c i) 12 = ln_tag (d_lines c ! i)"
    "unat (d_resident_addr c i) mod 16 = 0"
proof -
  define t where "t = ln_tag (d_lines c ! i)"
  define w where "w = (of_nat i * DCACHE_LINE) AND (0xFFF :: u32)"
  have t: "unat t < 2 ^ 20" "unat t mod 2 = i div 256"
    using assms(1) by (auto simp: line_consistent_def t_def)
  have "unat (of_nat i * DCACHE_LINE :: u32) = i * 16"
    using assms(2) by (simp add: DCACHE_LINE_def unat_word_ariths unsigned_of_nat take_bit_nat_eq_self)
  then have w: "unat w = i * 16 mod 4096"
    unfolding w_def using unat_and_mask[of "of_nat i * DCACHE_LINE :: u32" 12] by (simp add: mask_eq_exp_minus_1)
  have wlt: "unat w < 2 ^ 12" by (simp add: w)
  have st: "unat (shl t 12) = unat t * 2 ^ 12" using t(1) by (intro unat_shl) simp
  have "shl t 12 AND w = 0"
    by (rule bit_word_eqI) (auto simp: bit_word_simps not_bit_of_lt[OF wlt])
  then have "shl t 12 OR w = shl t 12 + w" by (metis disjunctive_add_eq_or)
  moreover have "unat (shl t 12) + unat w < 2 ^ LENGTH(32)" using t(1) wlt st by simp
  ultimately have u: "unat (d_resident_addr c i) = unat t * 4096 + i * 16 mod 4096"
    unfolding d_resident_addr_def Let_def t_def[symmetric] w_def[symmetric]
    by (simp only: unat_word_ariths(1) mod_less st w) simp
  have "unat t * 4096 + i * 16 mod 4096 = 16 * (unat t * 256 + i mod 256)"
    using mult_mod_right[of 16 i 256] by (simp add: mult.commute)
  then have u16: "unat (d_resident_addr c i) = 16 * (unat t * 256 + i mod 256)" using u by simp
  then show "unat (d_resident_addr c i) mod 16 = 0" by simp
  have "unat (shr (d_resident_addr c i) 12) = unat t"
    unfolding tag_unat u by simp
  then show "shr (d_resident_addr c i) 12 = ln_tag (d_lines c ! i)"
    unfolding t_def by (rule unsigned_word_eqI)
  have "(unat t * 256 + i mod 256) mod 512 = unat t mod 2 * 256 + i mod 256"
    using mod_mult2_eq[of "unat t * 256 + i mod 256" 256 2] by simp
  also have "\<dots> = i" unfolding t(2) using div_mult_mod_eq[of i 256] by simp
  finally show "d_index (d_resident_addr c i) = i"
    by (simp add: d_index_unat u16 mult.commute)
qed

definition dc_wf :: "dcache \<Rightarrow> bool" where
  "dc_wf c \<longleftrightarrow> length (d_lines c) = 512 \<and>
     (\<forall>i < 512. length (ln_data (d_lines c ! i)) = 16 \<and>
       (ln_valid (d_lines c ! i) \<and> ln_dirty (d_lines c ! i) \<longrightarrow> line_consistent (ln_tag (d_lines c ! i)) i))"

lemma dc_wf_new: "dc_wf dcache_new"
  by (simp add: dc_wf_def dcache_new_def line_empty_def)

lemma dc_wf_data: "dc_wf c \<Longrightarrow> length (ln_data (d_line c a)) = 16"
  by (simp add: dc_wf_def d_line_def)

lemma dc_wf_set:
  assumes "dc_wf c" "i < 512" "length (ln_data l) = 16"
    and "ln_valid l \<Longrightarrow> ln_dirty l \<Longrightarrow> line_consistent (ln_tag l) i"
  shows "dc_wf (set_dline i l c)"
  using assms by (auto simp: dc_wf_def set_dline_def nth_list_update)

lemma d_line_set:
  "dc_wf c \<Longrightarrow> d_line (set_dline i l c) x = (if d_index x = i then l else d_line c x)"
  using d_index_lt[of x] by (cases "d_index x = i") (auto simp: d_line_def set_dline_def dc_wf_def)

lemma d_lines_set:
  "dc_wf c \<Longrightarrow> j < 512 \<Longrightarrow> d_lines (set_dline i l c) ! j = (if j = i then l else d_lines c ! j)"
  by (simp add: set_dline_def dc_wf_def nth_list_update)

lemma d_resident_addr_cong:
  "ln_tag (d_lines c ! i) = ln_tag (d_lines c' ! i) \<Longrightarrow> d_resident_addr c i = d_resident_addr c' i"
  by (simp add: d_resident_addr_def)

definition dview :: "dcache \<Rightarrow> (u32 \<Rightarrow> u8) \<Rightarrow> u32 \<Rightarrow> u8" where
  "dview c m a = (if d_hits c a then ln_data (d_line c a) ! (unat a mod 16) else m a)"

definition be_value :: "u8 list \<Rightarrow> u64" where
  "be_value bs = foldl (\<lambda>v b. shl v 8 OR to_u64 b) 0 bs"

definition store_bytes :: "u32 \<Rightarrow> nat \<Rightarrow> u64 \<Rightarrow> (u32 \<Rightarrow> u8) \<Rightarrow> u32 \<Rightarrow> u8" where
  "store_bytes a len v m x =
     (if unat a \<le> unat x \<and> unat x < unat a + len
      then to_u8 (shr v (8 * (len - 1 - (unat x - unat a)))) else m x)"

definition in_line :: "u32 \<Rightarrow> nat \<Rightarrow> bool" where
  "in_line a len \<longleftrightarrow> unat a mod 16 + len \<le> 16"

lemma step_16: "(m :: nat) mod 16 + k < 16 \<Longrightarrow> (m + k) div 16 = m div 16 \<and> (m + k) mod 16 = m mod 16 + k"
proof -
  assume a: "m mod 16 + k < 16"
  have "(16 * q + r) div 16 = q \<and> (16 * q + r) mod 16 = r" if "r < 16" for q r :: nat using that by simp
  moreover have "m + k = 16 * (m div 16) + (m mod 16 + k)" by simp
  ultimately show ?thesis using a by metis
qed

lemma range_16:
  assumes "(m :: nat) mod 16 + len \<le> 16"
  shows "m \<le> x \<and> x < m + len \<longleftrightarrow> x div 16 = m div 16 \<and> m mod 16 \<le> x mod 16 \<and> x mod 16 < m mod 16 + len"
    and "x div 16 = m div 16 \<Longrightarrow> x - m = x mod 16 - m mod 16"
proof -
  have m: "m = 16 * (m div 16) + m mod 16" and x: "x = 16 * (x div 16) + x mod 16" by simp_all
  show d: "x - m = x mod 16 - m mod 16" if "x div 16 = m div 16" for x
    using that m by (metis add_diff_cancel_left mult_div_mod_eq)
  show "m \<le> x \<and> x < m + len \<longleftrightarrow> x div 16 = m div 16 \<and> m mod 16 \<le> x mod 16 \<and> x mod 16 < m mod 16 + len"
  proof
    assume a: "m \<le> x \<and> x < m + len"
    then obtain k where k: "x = m + k" "k < len" by (metis le_Suc_ex nat_add_left_cancel_less)
    then show "x div 16 = m div 16 \<and> m mod 16 \<le> x mod 16 \<and> x mod 16 < m mod 16 + len"
      using step_16[of m k] assms by simp
  next
    assume "x div 16 = m div 16 \<and> m mod 16 \<le> x mod 16 \<and> x mod 16 < m mod 16 + len"
    then show "m \<le> x \<and> x < m + len" using m x by linarith
  qed
qed

lemma in_line_step:
  assumes "in_line a len" "k < len"
  shows "unat (a + of_nat k) = unat a + k" "unat (a + of_nat k) div 16 = unat a div 16"
    "unat (a + of_nat k) mod 16 = unat a mod 16 + k"
proof -
  have lt: "unat a mod 16 + k < 16" using assms by (simp add: in_line_def)
  have d: "unat a = 16 * (unat a div 16) + unat a mod 16" by simp
  have "16 * (unat a div 16) < 4294967296" using unat_u32[of a] by linarith
  then have "16 * (unat a div 16) + 16 \<le> 4294967296" by presburger
  then have "unat a + k < 2 ^ 32" using lt d by (simp, linarith)
  then show u: "unat (a + of_nat k) = unat a + k"
    by (simp add: unat_word_ariths unsigned_of_nat take_bit_nat_def)
  show "unat (a + of_nat k) div 16 = unat a div 16" "unat (a + of_nat k) mod 16 = unat a mod 16 + k"
    unfolding u using step_16[OF lt] by blast+
qed

lemma foldl_updates:
  assumes "off + n \<le> length xs"
  shows "length (foldl (\<lambda>xs k. xs[off + k := f k]) xs [0..<n]) = length xs"
    and "j < length xs \<Longrightarrow> foldl (\<lambda>xs k. xs[off + k := f k]) xs [0..<n] ! j =
      (if off \<le> j \<and> j < off + n then f (j - off) else xs ! j)"
proof -
  have "length (foldl (\<lambda>xs k. xs[off + k := f k]) xs [0..<n]) = length xs \<and>
    (j < length xs \<longrightarrow> foldl (\<lambda>xs k. xs[off + k := f k]) xs [0..<n] ! j =
      (if off \<le> j \<and> j < off + n then f (j - off) else xs ! j))"
    using assms by (induction n) (auto simp: nth_list_update less_Suc_eq)
  then show "length (foldl (\<lambda>xs k. xs[off + k := f k]) xs [0..<n]) = length xs"
    "j < length xs \<Longrightarrow> foldl (\<lambda>xs k. xs[off + k := f k]) xs [0..<n] ! j =
      (if off \<le> j \<and> j < off + n then f (j - off) else xs ! j)" by blast+
qed

lemma d_read_view:
  assumes "d_hits c a" "in_line a len"
  shows "d_read c a len = be_value (map (\<lambda>k. dview c m (a + of_nat k)) [0..<len])"
proof -
  have v: "dview c m (a + of_nat k) = ln_data (d_line c a) ! (unat a mod 16 + k)" if "k < len" for k
  proof -
    note st = in_line_step[OF assms(2) that]
    have "d_line c (a + of_nat k) = d_line c a" "d_hits c (a + of_nat k)"
      using st(2) assms(1) unfolding same_line by (auto simp: d_line_def d_hits_def)
    then show ?thesis by (simp add: dview_def st(3))
  qed
  have "map (\<lambda>k. dview c m (a + of_nat k)) [0..<len] = map (\<lambda>k. ln_data (d_line c a) ! (unat a mod 16 + k)) [0..<len]"
    using v by simp
  then show ?thesis unfolding be_value_def by (simp only:) (simp add: d_read_def Let_def foldl_map)
qed

lemma d_write_line:
  assumes "dc_wf c" "d_hits c a" "in_line a len"
  obtains bytes where "d_write a len v c =
      set_dline (d_index a) ((d_line c a)\<lparr>ln_data := bytes, ln_dirty := True\<rparr>) c"
    and "length bytes = 16"
    and "\<And>j. j < 16 \<Longrightarrow> bytes ! j = (if unat a mod 16 \<le> j \<and> j < unat a mod 16 + len
      then to_u8 (shr v (8 * (len - 1 - (j - unat a mod 16)))) else ln_data (d_line c a) ! j)"
proof -
  have l: "length (ln_data (d_line c a)) = 16" by (rule dc_wf_data[OF assms(1)])
  have le: "unat a mod 16 + len \<le> length (ln_data (d_line c a))"
    using assms(3) l by (simp add: in_line_def)
  let ?bs = "foldl (\<lambda>xs k. xs[unat a mod 16 + k := to_u8 (shr v (8 * (len - 1 - k)))]) (ln_data (d_line c a)) [0..<len]"
  show ?thesis
    by (rule that[of ?bs]) (use foldl_updates[OF le] l in \<open>simp_all add: d_write_def Let_def d_line_def\<close>)
qed

lemma d_write_view:
  assumes "dc_wf c" "d_hits c a" "in_line a len"
  shows "dview (d_write a len v c) m x = store_bytes a len v (dview c m) x" "dc_wf (d_write a len v c)"
proof -
  obtain bytes where w: "d_write a len v c =
      set_dline (d_index a) ((d_line c a)\<lparr>ln_data := bytes, ln_dirty := True\<rparr>) c"
    and l: "length bytes = 16"
    and bt: "\<And>j. j < 16 \<Longrightarrow> bytes ! j = (if unat a mod 16 \<le> j \<and> j < unat a mod 16 + len
      then to_u8 (shr v (8 * (len - 1 - (j - unat a mod 16)))) else ln_data (d_line c a) ! j)"
    by (rule d_write_line[OF assms, of v]) blast
  have t: "ln_tag (d_line c a) = shr a 12" using assms(2) by (simp add: d_hits_def)
  show "dc_wf (d_write a len v c)"
    unfolding w by (rule dc_wf_set[OF assms(1)]) (simp_all add: l t line_consistent_addr)
  note range = range_16(1)[OF assms(3)[unfolded in_line_def], of "unat x"]
    and diff = range_16(2)[OF assms(3)[unfolded in_line_def], of "unat x"]
  show "dview (d_write a len v c) m x = store_bytes a len v (dview c m) x"
  proof (cases "unat x div 16 = unat a div 16")
    case True
    then have "d_index x = d_index a" "shr x 12 = shr a 12" unfolding same_line by blast+
    then show ?thesis
      using bt[of "unat x mod 16"] diff[OF True] range True assms(2)
      by (simp add: w dview_def d_hits_def d_line_set[OF assms(1)] store_bytes_def t)
         (use t in \<open>simp add: d_line_def\<close>)
  next
    case False
    then have "d_index x = d_index a \<Longrightarrow> shr x 12 \<noteq> shr a 12" unfolding same_line by blast
    moreover have "d_index x = d_index a \<Longrightarrow> d_line c x = d_line c a" by (simp add: d_line_def)
    ultimately show ?thesis
      using range False
      by (cases "d_index x = d_index a")
         (auto simp: w dview_def d_hits_def d_line_set[OF assms(1)] store_bytes_def t)
  qed
qed

section \<open>Lines as pieces of memory\<close>

lemma unat_add_of_nat: "unat (a :: u32) + n < 2 ^ 32 \<Longrightarrow> unat (a + of_nat n) = unat a + n"
  by (simp add: unat_word_ariths unsigned_of_nat take_bit_nat_def)

lemma upd4:
  fixes a :: u32
  assumes "unat a + 3 < 2 ^ 32" "length bs = 4"
  shows "(m(a := bs ! 0, a + 1 := bs ! 1, a + 2 := bs ! 2, a + 3 := bs ! 3)) x =
    (if unat a \<le> unat x \<and> unat x < unat a + 4 then bs ! (unat x - unat a) else m x)"
proof -
  have e: "x = a + of_nat n \<longleftrightarrow> unat x = unat a + n" if "n \<le> 3" for n
    using unat_add_of_nat[of a n] that assms(1) by (metis add_le_less_mono le_less_trans nat_add_left_cancel_le unsigned_word_eqI)
  show ?thesis
    using e[of 0] e[of 1] e[of 2] e[of 3]
    by (auto simp: less_Suc_eq numeral_eq_Suc le_Suc_eq)
qed

section \<open>Runs of accesses\<close>

text \<open>A run of cached loads, stores and data-cache instructions, on the caches and on a flat memory.\<close>

datatype mem_step = MRead u32 nat | MWrite u32 nat u64 | MCacheOp u8 u32

fun cached_step :: "'b bus_ops \<Rightarrow> mem_step \<Rightarrow> 'b cache_state \<Rightarrow> u64 list \<times> 'b cache_state" where
  "cached_step ops (MRead a w) s =
     (let (v, dc, st, b) = cached_read ops a w (cs_dcache s, cs_stall s, cs_bus s)
      in ([v], s\<lparr>cs_dcache := dc, cs_stall := st, cs_bus := b\<rparr>))"
| "cached_step ops (MWrite a w v) s =
     (let (dc, st, b) = cached_write ops a w v (cs_dcache s, cs_stall s, cs_bus s)
      in ([], s\<lparr>cs_dcache := dc, cs_stall := st, cs_bus := b\<rparr>))"
| "cached_step ops (MCacheOp opn a) s =
     ([], if shr opn 2 \<ge> 3 then cache_hit_op ops opn a s else cache_index_op ops opn a s)"

fun flat_step :: "mem_step \<Rightarrow> (u32 \<Rightarrow> u8) \<Rightarrow> u64 list \<times> (u32 \<Rightarrow> u8)" where
  "flat_step (MRead a w) m = ([be_value (map (\<lambda>k. m (a + of_nat k)) [0..<w])], m)"
| "flat_step (MWrite a w v) m = ([], store_bytes a w v m)"
| "flat_step (MCacheOp opn a) m = ([], m)"

fun cached_run :: "'b bus_ops \<Rightarrow> mem_step list \<Rightarrow> 'b cache_state \<Rightarrow> u64 list \<times> 'b cache_state" where
  "cached_run ops [] s = ([], s)"
| "cached_run ops (x # xs) s =
     (let (v, s) = cached_step ops x s; (vs, s) = cached_run ops xs s in (v @ vs, s))"

fun flat_run :: "mem_step list \<Rightarrow> (u32 \<Rightarrow> u8) \<Rightarrow> u64 list \<times> (u32 \<Rightarrow> u8)" where
  "flat_run [] m = ([], m)"
| "flat_run (x # xs) m = (let (v, m) = flat_step x m; (vs, m) = flat_run xs m in (v @ vs, m))"

text \<open>Accesses stay inside a line; the cache instructions are the ones that keep what the program
  wrote: index and hit write-back-invalidate (1, 21), hit write-back (25) and index load tag (5).\<close>

fun step_ok :: "(u32 \<Rightarrow> bool) \<Rightarrow> mem_step \<Rightarrow> bool" where
  "step_ok ram (MRead a w) \<longleftrightarrow> ram a \<and> in_line a w"
| "step_ok ram (MWrite a w v) \<longleftrightarrow> ram a \<and> in_line a w"
| "step_ok ram (MCacheOp opn a) \<longleftrightarrow> opn \<in> {1, 5, 21, 25}"

section \<open>Lines over the bus\<close>

context word_memory
begin

lemma push_words_peek:
  assumes "unat a mod 4 = 0" "length bs = 4 * n" "unat a + 4 * k + length bs \<le> 2 ^ 32"
    and "\<And>x. unat a + 4 * k \<le> unat x \<Longrightarrow> unat x < unat a + 4 * k + length bs \<Longrightarrow> ram x"
  shows "peek (push_words ops a bs k b) x =
    (if unat a + 4 * k \<le> unat x \<and> unat x < unat a + 4 * k + length bs
     then bs ! (unat x - (unat a + 4 * k)) else peek b x)"
  using assms
proof (induction n arbitrary: bs k b)
  case 0
  then show ?case by auto
next
  case (Suc n)
  have "length bs = Suc (Suc (Suc (Suc (4 * n))))" using Suc(3) by simp
  then obtain w0 w1 w2 w3 rest where bs: "bs = w0 # w1 # w2 # w3 # rest" "length rest = 4 * n"
    unfolding length_Suc_conv by blast
  define c where "c = a + of_nat k * 4"
  have uc: "unat c = unat a + 4 * k"
    using unat_add_of_nat[of a "4 * k"] Suc(4) bs by (simp add: c_def mult.commute)
  have "4 dvd unat c" unfolding uc using Suc(2) by (simp add: dvd_eq_mod_eq_0)
  moreover have "ram c" using Suc(5)[of c] by (simp add: uc bs)
  ultimately have w: "peek (wr32 ops c (from_be_bytes [w0, w1, w2, w3]) b) =
      (peek b)(c := w0, c + 1 := w1, c + 2 := w2, c + 3 := w3)"
    using wr32_peek[of c "from_be_bytes [w0, w1, w2, w3]" b] by (simp add: to_from_be_bytes)
  have wx: "peek (wr32 ops c (from_be_bytes [w0, w1, w2, w3]) b) x =
      (if unat a + 4 * k \<le> unat x \<and> unat x < unat a + 4 * k + 4
       then [w0, w1, w2, w3] ! (unat x - (unat a + 4 * k)) else peek b x)"
    unfolding w using upd4[of c "[w0, w1, w2, w3]" "peek b" x] Suc(4) by (simp add: uc bs)
  have ih: "peek (push_words ops a rest (Suc k) (wr32 ops c (from_be_bytes [w0, w1, w2, w3]) b)) x =
      (if unat a + 4 * Suc k \<le> unat x \<and> unat x < unat a + 4 * Suc k + length rest
       then rest ! (unat x - (unat a + 4 * Suc k))
       else peek (wr32 ops c (from_be_bytes [w0, w1, w2, w3]) b) x)"
    using Suc(2,4,5) bs by (intro Suc(1)) auto
  show ?case
  proof (cases "unat a + 4 * Suc k \<le> unat x")
    case True
    then obtain j where "unat x = unat a + 4 * Suc k + j" by (auto dest: le_Suc_ex)
    then have j: "unat x = unat a + 4 * k + Suc (Suc (Suc (Suc j)))" by simp
    show ?thesis
      unfolding bs(1) push_words.simps c_def[symmetric] ih wx by (simp add: j)
  next
    case False
    then show ?thesis
      unfolding bs(1) push_words.simps c_def[symmetric] ih wx by (auto simp: nth_Cons')
  qed
qed

lemma push_line_peek:
  assumes "unat a mod 4 = 0" "length bs = 4 * n" "unat a + length bs \<le> 2 ^ 32"
    and "\<And>x. unat a \<le> unat x \<Longrightarrow> unat x < unat a + length bs \<Longrightarrow> ram x"
  shows "peek (push_line ops a bs b) x =
    (if unat a \<le> unat x \<and> unat x < unat a + length bs then bs ! (unat x - unat a) else peek b x)"
  using push_words_peek[of a bs n 0 b x] assms by (simp add: push_line_def)

lemma pull_words_peek:
  assumes "unat a mod 4 = 0" "unat a + 4 * (k + n) \<le> 2 ^ 32"
    and "\<And>x. unat a + 4 * k \<le> unat x \<Longrightarrow> unat x < unat a + 4 * (k + n) \<Longrightarrow> ram x"
  shows "fst (pull_words ops a k n b) = map (\<lambda>j. peek b (a + of_nat j)) [4 * k..<4 * (k + n)] \<and>
    peek (snd (pull_words ops a k n b)) = peek b"
  using assms
proof (induction n arbitrary: k b)
  case 0
  then show ?case by simp
next
  case (Suc n)
  define c where "c = a + of_nat k * 4"
  have uc: "unat c = unat a + 4 * k"
    using unat_add_of_nat[of a "4 * k"] Suc(3) by (simp add: c_def mult.commute)
  have d: "4 dvd unat c" unfolding uc using Suc(2) by (simp add: dvd_eq_mod_eq_0)
  have r: "ram c" using Suc(4)[of c] by (simp add: uc)
  obtain w b' where wb: "rd32 ops c b = (w, b')" by (cases "rd32 ops c b")
  have w: "w = from_be_bytes [peek b c, peek b (c + 1), peek b (c + 2), peek b (c + 3)]" "peek b' = peek b"
    using rd32_ram[OF r d, of b] rd32_peek[OF r d, of b] by (simp_all add: wb)
  have ih: "fst (pull_words ops a (Suc k) n b') = map (\<lambda>j. peek b' (a + of_nat j)) [4 * Suc k..<4 * (Suc k + n)] \<and>
    peek (snd (pull_words ops a (Suc k) n b')) = peek b'"
    using Suc(2-4) by (intro Suc(1)) auto
  have l: "[4 * k..<4 * (k + Suc n)] = [4 * k, 4 * k + 1, 4 * k + 2, 4 * k + 3] @ [4 * Suc k..<4 * (Suc k + n)]"
  proof -
    have "[4 * k..<4 * (k + Suc n)] = [4 * k..<4 * Suc k] @ [4 * Suc k..<4 * (Suc k + n)]"
      using upt_add_eq_append[of "4 * k" "4 * Suc k" "4 * n"] by (simp add: algebra_simps)
    then show ?thesis by (simp add: upt_rec numeral_eq_Suc)
  qed
  show ?case
    unfolding pull_words.simps c_def[symmetric] wb l
    using ih by (simp add: case_prod_beta w to_from_be_bytes c_def algebra_simps del: upt_Suc)
qed

lemma pull_line_peek:
  assumes "unat a mod 4 = 0" "len = 4 * n" "unat a + len \<le> 2 ^ 32"
    and "\<And>x. unat a \<le> unat x \<Longrightarrow> unat x < unat a + len \<Longrightarrow> ram x"
  shows "fst (pull_line ops a len b) = map (\<lambda>j. peek b (a + of_nat j)) [0..<len]"
    "peek (snd (pull_line ops a len b)) = peek b"
  using pull_words_peek[of a 0 n b] assms by (auto simp: pull_line_def)


section \<open>Coherence\<close>

definition coherent :: "dcache \<Rightarrow> 'b \<Rightarrow> bool" where
  "coherent c b \<longleftrightarrow> dc_wf c \<and>
     (\<forall>i < 512. ln_valid (d_lines c ! i) \<and> ln_dirty (d_lines c ! i) \<longrightarrow> ram (d_resident_addr c i)) \<and>
     (\<forall>x. ram x \<and> d_hits c x \<and> \<not> ln_dirty (d_line c x) \<longrightarrow>
       ln_data (d_line c x) ! (unat x mod 16) = peek b x)"

lemma coherent_new: "coherent dcache_new b"
  by (simp add: coherent_def dc_wf_new) (simp add: dcache_new_def line_empty_def d_hits_def d_line_def)

lemma coherent_peek: "peek b' = peek b \<Longrightarrow> coherent c b' = coherent c b"
  by (simp add: coherent_def)

lemma ram_same_line: "ram a \<Longrightarrow> unat a div 16 = unat c div 16 \<Longrightarrow> ram c"
proof -
  assume r: "ram a" and l: "unat a div 16 = unat c div 16"
  have "n div 32 = n div 16 div 2" for n :: nat using div_mult2_eq[of n 16 2] by simp
  then show "ram c" using ram_line[OF r] l by metis
qed

lemma div_16_bounds: "(m :: nat) div 16 = q \<longleftrightarrow> 16 * q \<le> m \<and> m < 16 * q + 16"
  using div_eq_range[of 16 m q] by (simp add: mult.commute)

lemma line_bounds: "unat (x :: u32) div 16 = unat y div 16 \<longleftrightarrow>
    16 * (unat y div 16) \<le> unat x \<and> unat x < 16 * (unat y div 16) + 16"
  by (rule div_16_bounds)

text \<open>Writing back the line that an index selects: memory then holds the line where it resides.\<close>

lemma writeback_peek:
  assumes "coherent c b" "i < 512" "ln_valid (d_lines c ! i)" "ln_dirty (d_lines c ! i)"
  shows "peek (push_writeback ops (Some (d_writeback c i)) b) x =
    (if d_index x = i \<and> ln_tag (d_lines c ! i) = shr x 12
     then ln_data (d_lines c ! i) ! (unat x mod 16) else peek b x)"
proof -
  define r where "r = d_resident_addr c i"
  have wf: "dc_wf c" and rr: "ram r" using assms by (auto simp: coherent_def r_def)
  have lc: "line_consistent (ln_tag (d_lines c ! i)) i" and len: "length (ln_data (d_lines c ! i)) = 16"
    using wf assms by (auto simp: dc_wf_def)
  note rf = resident_addr_facts[OF lc assms(2), folded r_def]
  have r16: "16 * (unat r div 16) = unat r" using rf(3) by (metis div_mult_mod_eq add.right_neutral mult.commute)
  have "16 * (unat r div 16) < 4294967296" unfolding r16 using unsigned_less[of r] by simp
  then have "16 * (unat r div 16) + 16 \<le> 4294967296" by presburger
  then have top: "unat r + 16 \<le> 2 ^ 32" unfolding r16 by simp
  have here: "(unat r \<le> unat x \<and> unat x < unat r + 16) = (unat x div 16 = unat r div 16)"
    using line_bounds[of x r] r16 by simp
  have off: "unat x - unat r = unat x mod 16" if "unat x div 16 = unat r div 16"
    using that r16 by (metis minus_mult_div_eq_mod)
  have m4: "unat r mod 4 = 0" using rf(3) by presburger
  have l4: "length (ln_data (d_lines c ! i)) = 4 * 4" using len by simp
  have rl: "ram y" if "unat r \<le> unat y" "unat y < unat r + length (ln_data (d_lines c ! i))" for y
    using that line_bounds[of y r] unfolding r16 len by (intro ram_same_line[OF rr]) simp
  have "peek (push_line ops r (ln_data (d_lines c ! i)) b) x =
    (if unat x div 16 = unat r div 16 then ln_data (d_lines c ! i) ! (unat x mod 16) else peek b x)"
    using push_line_peek[OF m4 l4 _ rl, of b x] top off here unfolding len by auto
  then show ?thesis
    unfolding push_writeback_def d_writeback_def r_def[symmetric] same_line rf(1,2) by auto
qed


lemma line_base:
  fixes a :: u32
  defines "base \<equiv> a AND NOT (DCACHE_LINE - 1)"
  shows "unat base = 16 * (unat a div 16)" "unat base div 16 = unat a div 16"
    "d_index base = d_index a" "shr base 12 = shr a 12" "unat base + 16 \<le> 2 ^ 32"
    "j < 16 \<Longrightarrow> unat (base + of_nat j) = 16 * (unat a div 16) + j"
proof -
  have "base = shl (shr a 4) 4"
    unfolding base_def DCACHE_LINE_def
    by (rule bit_word_eqI) (auto simp: bit_word_simps mask_numerals simp del: push_bit_mask_eq)
  moreover have "unat (shr a 4) * 2 ^ 4 < 2 ^ LENGTH(32)"
    using unat_u32[of a] by (simp add: unat_shr)
  ultimately have "unat base = unat (shr a 4) * 2 ^ 4" using unat_shl by metis
  then show u: "unat base = 16 * (unat a div 16)" by (simp add: unat_shr)
  then show l: "unat base div 16 = unat a div 16" by simp
  then show "d_index base = d_index a" "shr base 12 = shr a 12" using same_line by blast+
  have "16 * (unat a div 16) < 4294967296" using unat_u32[of base] u by simp
  then have "16 * (unat a div 16) + 16 \<le> 4294967296" by presburger
  then show t: "unat base + 16 \<le> 2 ^ 32" by (simp add: u)
  show "unat (base + of_nat j) = 16 * (unat a div 16) + j" if "j < 16"
    using unat_add_of_nat[of base j] t that u by simp
qed

lemma evict_view:
  assumes "coherent c b" "miss_plan c a = Some e" "ram x"
  shows "peek (push_writeback ops e b) x = (if d_index x = d_index a then dview c (peek b) x else peek b x)"
proof -
  let ?l = "d_lines c ! d_index a"
  have x: "d_line c x = ?l" if "d_index x = d_index a" using that by (simp add: d_line_def)
  show ?thesis
  proof (cases "ln_valid ?l \<and> ln_dirty ?l")
    case True
    then have e: "e = Some (d_writeback c (d_index a))"
      using assms(2) by (auto simp: miss_plan_def Let_def split: if_splits)
    show ?thesis
      unfolding e using writeback_peek[OF assms(1) _ conjunct1[OF True] conjunct2[OF True], of x] x True
      by (auto simp: dview_def d_hits_def)
  next
    case False
    then have "e = None" using assms(2) by (auto simp: miss_plan_def Let_def split: if_splits)
    then show ?thesis
      using False x assms(1,3) unfolding coherent_def
      by (auto simp: push_writeback_def dview_def d_hits_def)
  qed
qed

lemma dcache_fill_coherent:
  assumes "coherent c b" "ram a" "dcache_fill ops a (c, s, b) = (c', s', b')"
  shows "coherent c' b'" "d_hits c' a" "ram x \<Longrightarrow> dview c' (peek b') x = dview c (peek b) x"
proof -
  have wf: "dc_wf c" using assms(1) by (simp add: coherent_def)
  have "coherent c' b' \<and> d_hits c' a \<and> (\<forall>x. ram x \<longrightarrow> dview c' (peek b') x = dview c (peek b) x)"
  proof (cases "miss_plan c a")
    case None
    then have "d_hits c a" "c' = c" "b' = b"
      using assms(3) by (auto simp: dcache_fill_def miss_plan_def d_hits_def d_line_def Let_def split: if_splits)
    then show ?thesis using assms(1) by simp
  next
    case (Some e)
    define b1 where "b1 = push_writeback ops e b"
    define base where "base = a AND NOT (DCACHE_LINE - 1)"
    note lb = line_base[where a = a, folded base_def]
    have rl: "ram y" if "unat base \<le> unat y" "unat y < unat base + 16" for y
      using that line_bounds[of y a] lb(1) by (intro ram_same_line[OF assms(2)]) simp
    have m4: "unat base mod 4 = 0" unfolding lb(1) by presburger
    have l16: "16 = 4 * (4 :: nat)" by simp
    note pl = pull_line_peek[OF m4 l16 lb(5) rl, of b1]
    obtain bytes where pb: "pull_line ops base 16 b1 = (bytes, b')" "c' = d_install base bytes c"
      using assms(3) Some by (auto simp: dcache_fill_def b1_def base_def Let_def split: prod.splits)
    have bytes: "bytes = map (\<lambda>j. peek b1 (base + of_nat j)) [0..<16]" "peek b' = peek b1"
      using pl unfolding pb(1) fst_conv snd_conv by blast+
    define l where "l = \<lparr>ln_tag = shr a 12, ln_valid = True, ln_dirty = False, ln_data = bytes\<rparr>"
    have c': "c' = set_dline (d_index a) l c" by (simp add: pb(2) d_install_def l_def lb(3,4))
    have wf': "dc_wf c'" unfolding c' by (rule dc_wf_set[OF wf]) (simp_all add: l_def bytes)
    have line: "d_line c' x = (if d_index x = d_index a then l else d_line c x)" for x
      unfolding c' by (rule d_line_set[OF wf])
    have ev: "peek b' x = (if d_index x = d_index a then dview c (peek b) x else peek b x)" if "ram x" for x
      unfolding bytes(2) b1_def by (rule evict_view[OF assms(1) Some that])
    have data: "bytes ! (unat x mod 16) = peek b' x" if "unat x div 16 = unat a div 16" for x
    proof -
      have "unat (base + of_nat (unat x mod 16)) = unat x"
        using lb(6)[of "unat x mod 16"] that by (metis mod_less_divisor mult_div_mod_eq zero_less_numeral)
      then have "base + of_nat (unat x mod 16) = x" by (rule unsigned_word_eqI)
      then show ?thesis unfolding bytes(1) bytes(2) by (simp add: nth_map_upt del: of_nat_mod)
    qed
    have view: "dview c' (peek b') x = dview c (peek b) x" if "ram x" for x
      using ev[OF that] data[of x] same_line[of x a]
      by (auto simp: dview_def d_hits_def line l_def)
    have "coherent c' b'"
      unfolding coherent_def
    proof (intro conjI allI impI)
      show "dc_wf c'" by (rule wf')
      fix i assume i: "i < 512" "ln_valid (d_lines c' ! i) \<and> ln_dirty (d_lines c' ! i)"
      then have "i \<noteq> d_index a" by (auto simp: c' d_lines_set[OF wf] l_def)
      then have "d_lines c' ! i = d_lines c ! i" using i(1) by (simp add: c' d_lines_set[OF wf])
      then show "ram (d_resident_addr c' i)"
        using assms(1) i d_resident_addr_cong[of c' i c] by (simp add: coherent_def)
    next
      fix x assume x: "ram x \<and> d_hits c' x \<and> \<not> ln_dirty (d_line c' x)"
      show "ln_data (d_line c' x) ! (unat x mod 16) = peek b' x"
      proof (cases "d_index x = d_index a")
        case True
        then show ?thesis using x data[of x] same_line[of x a] by (auto simp: d_hits_def line l_def)
      next
        case False
        then show ?thesis using x ev[of x] assms(1) by (auto simp: d_hits_def line coherent_def)
      qed
    qed
    then show ?thesis using view by (auto simp: d_hits_def line l_def)
  qed
  then show "coherent c' b'" "d_hits c' a" "ram x \<Longrightarrow> dview c' (peek b') x = dview c (peek b) x" by blast+
qed


lemma flush_line:
  assumes "dc_wf c"
  shows "snd (flush_index a inval clean c) = set_dline (d_index a)
      ((d_line c a)\<lparr>ln_valid := ln_valid (d_line c a) \<and> \<not> inval,
        ln_dirty := ln_dirty (d_line c a) \<and> \<not> inval \<and> \<not> clean\<rparr>) c"
proof -
  have "(d_lines c)[d_index a := d_lines c ! d_index a] = d_lines c" by (rule list_update_id)
  then show ?thesis
    using assms by (auto simp: flush_index_def Let_def d_invalidate_index_def set_dline_def d_line_def dc_wf_def)
qed

lemma flush_coherent:
  fixes a :: u32
  assumes "coherent c b" "inval \<or> clean"
  defines "c' \<equiv> snd (flush_index a inval clean c)"
    and "b' \<equiv> push_writeback ops (fst (flush_index a inval clean c)) b"
  shows "coherent c' b'"
    and "ram x \<Longrightarrow> dview c' (peek b') x = dview c (peek b) x"
    and "ram x \<Longrightarrow> d_index x = d_index a \<Longrightarrow> peek b' x = dview c (peek b) x"
    and "inval \<Longrightarrow> \<not> d_hits c' a"
proof -
  have wf: "dc_wf c" using assms(1) by (simp add: coherent_def)
  let ?l = "d_line c a"
  have c': "c' = set_dline (d_index a) (?l\<lparr>ln_valid := ln_valid ?l \<and> \<not> inval, ln_dirty := False\<rparr>) c"
    unfolding c'_def flush_line[OF wf] using assms(2) by auto
  have line: "d_line c' x = (if d_index x = d_index a
      then ?l\<lparr>ln_valid := ln_valid ?l \<and> \<not> inval, ln_dirty := False\<rparr> else d_line c x)" for x
    unfolding c' by (rule d_line_set[OF wf])
  have same: "d_line c x = ?l" if "d_index x = d_index a" for x using that by (simp add: d_line_def)
  have ev: "peek b' x = (if d_index x = d_index a then dview c (peek b) x else peek b x)" if "ram x" for x
  proof (cases "ln_valid ?l \<and> ln_dirty ?l")
    case True
    then have "fst (flush_index a inval clean c) = Some (d_writeback c (d_index a))"
      by (simp add: flush_index_def Let_def d_line_def)
    then show ?thesis
      using writeback_peek[OF assms(1), of "d_index a" x] True same[of x]
      by (auto simp: b'_def dview_def d_hits_def d_line_def)
  next
    case False
    then have "b' = b" by (auto simp: b'_def flush_index_def Let_def d_line_def push_writeback_def)
    then show ?thesis using False same[of x] assms(1) that by (auto simp: coherent_def dview_def d_hits_def)
  qed
  show "ram x \<Longrightarrow> d_index x = d_index a \<Longrightarrow> peek b' x = dview c (peek b) x" using ev by simp
  show "ram x \<Longrightarrow> dview c' (peek b') x = dview c (peek b) x"
    using ev[of x] same[of x] by (auto simp: dview_def d_hits_def line)
  show "inval \<Longrightarrow> \<not> d_hits c' a" by (simp add: d_hits_def line)
  show "coherent c' b'" unfolding coherent_def
  proof (intro conjI allI impI)
    show "dc_wf c'" unfolding c' by (rule dc_wf_set[OF wf]) (simp_all add: dc_wf_data[OF wf])
  next
    fix i assume i: "i < 512" "ln_valid (d_lines c' ! i) \<and> ln_dirty (d_lines c' ! i)"
    then have "i \<noteq> d_index a" by (auto simp: c' d_lines_set[OF wf])
    then have "d_lines c' ! i = d_lines c ! i" using i(1) by (simp add: c' d_lines_set[OF wf])
    then show "ram (d_resident_addr c' i)"
      using assms(1) i d_resident_addr_cong[of c' i c] by (simp add: coherent_def)
  next
    fix x assume x: "ram x \<and> d_hits c' x \<and> \<not> ln_dirty (d_line c' x)"
    then show "ln_data (d_line c' x) ! (unat x mod 16) = peek b' x"
      using ev[of x] same[of x] assms(1) by (auto simp: d_hits_def line dview_def coherent_def split: if_splits)
  qed
qed

lemma cached_read_view:
  assumes "coherent c b" "ram a" "in_line a len" "cached_read ops a len (c, s, b) = (v, c', s', b')"
  shows "v = be_value (map (\<lambda>k. dview c (peek b) (a + of_nat k)) [0..<len])" "coherent c' b'"
    "ram x \<Longrightarrow> dview c' (peek b') x = dview c (peek b) x"
proof -
  have f: "dcache_fill ops a (c, s, b) = (c', s', b')" and v: "v = d_read c' a len"
    using assms(4) by (auto simp: cached_read_def split: prod.splits)
  note fc = dcache_fill_coherent[OF assms(1,2) f]
  show "coherent c' b'" by (rule fc(1))
  show "ram x \<Longrightarrow> dview c' (peek b') x = dview c (peek b) x" by (rule fc(3))
  have "ram (a + of_nat k)" if "k < len" for k
    using in_line_step(2)[OF assms(3) that] by (intro ram_same_line[OF assms(2)]) simp
  then show "v = be_value (map (\<lambda>k. dview c (peek b) (a + of_nat k)) [0..<len])"
    unfolding v d_read_view[OF fc(2) assms(3), of "peek b'"] using fc(3) by (intro arg_cong[where f=be_value]) simp
qed

lemma cached_write_view:
  assumes "coherent c b" "ram a" "in_line a len" "cached_write ops a len v (c, s, b) = (c', s', b')"
  shows "coherent c' b'" "ram x \<Longrightarrow> dview c' (peek b') x = store_bytes a len v (dview c (peek b)) x"
proof -
  obtain c1 where f: "dcache_fill ops a (c, s, b) = (c1, s', b')" and c': "c' = d_write a len v c1"
    using assms(4) by (auto simp: cached_write_def split: prod.splits)
  note fc = dcache_fill_coherent[OF assms(1,2) f]
  have wf: "dc_wf c1" using fc(1) by (simp add: coherent_def)
  note wv = d_write_view[OF wf fc(2) assms(3), of v]
  show "ram x \<Longrightarrow> dview c' (peek b') x = store_bytes a len v (dview c (peek b)) x"
    using fc(3)[of x] by (simp add: c' wv(1) store_bytes_def)
  obtain bytes where w: "c' = set_dline (d_index a) ((d_line c1 a)\<lparr>ln_data := bytes, ln_dirty := True\<rparr>) c1"
    using d_write_line[OF wf fc(2) assms(3), of v] unfolding c' by metis
  have t: "ln_tag (d_line c1 a) = shr a 12" using fc(2) by (simp add: d_hits_def)
  show "coherent c' b'" unfolding coherent_def
  proof (intro conjI allI impI)
    show "dc_wf c'" using wv(2) by (simp add: c')
  next
    fix i assume i: "i < 512" "ln_valid (d_lines c' ! i) \<and> ln_dirty (d_lines c' ! i)"
    show "ram (d_resident_addr c' i)"
    proof (cases "i = d_index a")
      case True
      then have "ln_tag (d_lines c' ! i) = shr a 12" using i(1) by (simp add: w d_lines_set[OF wf] t)
      then have "unat a div 16 = unat (d_resident_addr c' i) div 16"
        unfolding same_line using resident_addr_facts[of c' i] line_consistent_addr[of a] i(1) True by simp
      then show ?thesis by (rule ram_same_line[OF assms(2)])
    next
      case False
      then have "d_lines c' ! i = d_lines c1 ! i" using i(1) by (simp add: w d_lines_set[OF wf])
      then show ?thesis
        using fc(1) i d_resident_addr_cong[of c' i c1] by (simp add: coherent_def)
    qed
  next
    fix x assume x: "ram x \<and> d_hits c' x \<and> \<not> ln_dirty (d_line c' x)"
    then have "d_line c' x = d_line c1 x" by (auto simp: w d_line_set[OF wf] split: if_splits)
    then show "ln_data (d_line c' x) ! (unat x mod 16) = peek b' x"
      using x fc(1) by (auto simp: d_hits_def coherent_def)
  qed
qed


definition sees :: "'b cache_state \<Rightarrow> (u32 \<Rightarrow> u8) \<Rightarrow> bool" where
  "sees s m \<longleftrightarrow> coherent (cs_dcache s) (cs_bus s) \<and>
     (\<forall>x. ram x \<longrightarrow> dview (cs_dcache s) (peek (cs_bus s)) x = m x)"

lemma sees_reset: "cs_dcache s = dcache_new \<Longrightarrow> sees s (peek (cs_bus s))"
  unfolding sees_def
  by (simp add: coherent_new)
     (simp add: dview_def d_hits_def d_line_def dcache_new_def line_empty_def)

lemma flush_sees:
  assumes "sees s m" "inval \<or> clean"
  shows "sees (s\<lparr>cs_dcache := snd (flush_index a inval clean (cs_dcache s)),
    cs_bus := push_writeback ops (fst (flush_index a inval clean (cs_dcache s))) (cs_bus s)\<rparr>) m"
  using assms flush_coherent[of "cs_dcache s" "cs_bus s" inval clean] by (simp add: sees_def)

lemma cached_step_refines:
  assumes "sees s m" "step_ok ram x"
  shows "fst (cached_step ops x s) = fst (flat_step x m)" "sees (snd (cached_step ops x s)) (snd (flat_step x m))"
proof -
  have co: "coherent (cs_dcache s) (cs_bus s)"
    and v: "\<And>x. ram x \<Longrightarrow> dview (cs_dcache s) (peek (cs_bus s)) x = m x"
    using assms(1) by (auto simp: sees_def)
  have "fst (cached_step ops x s) = fst (flat_step x m) \<and> sees (snd (cached_step ops x s)) (snd (flat_step x m))"
  proof (cases x)
    case (MRead a w)
    obtain val dc st b where r: "cached_read ops a w (cs_dcache s, cs_stall s, cs_bus s) = (val, dc, st, b)"
      by (metis prod_cases4)
    have ok: "ram a" "in_line a w" using assms(2) MRead by simp_all
    note cr = cached_read_view[OF co ok r]
    have "ram (a + of_nat k)" if "k < w" for k
      using in_line_step(2)[OF ok(2) that] by (intro ram_same_line[OF ok(1)]) simp
    then have "val = be_value (map (\<lambda>k. m (a + of_nat k)) [0..<w])"
      unfolding cr(1) using v by (intro arg_cong[where f = be_value]) simp
    then show ?thesis using cr v by (simp add: MRead r sees_def)
  next
    case (MWrite a w val)
    obtain dc st b where r: "cached_write ops a w val (cs_dcache s, cs_stall s, cs_bus s) = (dc, st, b)"
      by (metis prod_cases3)
    have ok: "ram a" "in_line a w" using assms(2) MWrite by simp_all
    show ?thesis using cached_write_view[OF co ok r] v by (simp add: MWrite r sees_def store_bytes_def)
  next
    case (MCacheOp opn a)
    then consider "opn = 1" | "opn = 5" | "opn = 21" | "opn = 25" using assms(2) by auto
    then show ?thesis
    proof cases
      case 1
      then show ?thesis using flush_sees[OF assms(1), of True False a]
        by (simp add: MCacheOp cache_index_op_def Let_def case_prod_beta)
    next
      case 2
      then show ?thesis using assms(1) by (simp add: MCacheOp cache_index_op_def Let_def sees_def word_le_nat_alt)
    next
      case 3
      then show ?thesis using flush_sees[OF assms(1), of True False a] assms(1)
        by (simp add: MCacheOp cache_hit_op_def Let_def case_prod_beta)
    next
      case 4
      then show ?thesis using flush_sees[OF assms(1), of False True a] assms(1)
        by (simp add: MCacheOp cache_hit_op_def Let_def case_prod_beta)
    qed
  qed
  then show "fst (cached_step ops x s) = fst (flat_step x m)"
    "sees (snd (cached_step ops x s)) (snd (flat_step x m))" by blast+
qed

lemma cached_run_refines:
  assumes "sees s m" "\<forall>x \<in> set xs. step_ok ram x"
  shows "fst (cached_run ops xs s) = fst (flat_run xs m) \<and> sees (snd (cached_run ops xs s)) (snd (flat_run xs m))"
  using assms
proof (induction xs arbitrary: s m)
  case Nil
  then show ?case by simp
next
  case (Cons x xs)
  note st = cached_step_refines[OF Cons(2), of x]
  show ?case
    using Cons(1)[OF st(2)] Cons(3) st(1) by (simp add: case_prod_beta)
qed

end

end
