(* ===== verification/Bus_Memory.thy ===== *)
theory Bus_Memory
  imports Bus Cache_Coherence
begin

text \<open>
  The RDRAM window of the system bus is the memory the caches rely on: the laws of \<open>word_memory\<close> hold of
  the bus model, so the cache theory's results hold of the console's memory. The last section states
  the processor-side properties over the bus.
\<close>

definition bus_peek :: "bus \<Rightarrow> u32 \<Rightarrow> u8" where
  "bus_peek b a = rdram b (unat a)"

definition is_rdram :: "u32 \<Rightarrow> bool" where
  "is_rdram a \<longleftrightarrow> unat a < RDRAM_SIZE"

lemma rdram_offset_low: "is_rdram a \<Longrightarrow> rdram_offset a = Some (unat a)"
proof -
  assume a: "is_rdram a"
  have m: "(0x1FFFFFFF :: u32) = mask 29" by (simp add: mask_eq_exp_minus_1)
  have "a AND 0x1FFFFFFF = a"
    unfolding m using a by (intro and_mask_of_lt) (simp add: is_rdram_def RDRAM_SIZE_def)
  then show ?thesis using a by (simp add: rdram_offset_def is_rdram_def)
qed

lemma rdram_is_no_register:
  assumes "is_rdram a"
  shows "\<not> is_pi_bus a" "\<not> is_sp_register a" "\<not> is_mi_register a" "\<not> is_dp_register a" "\<not> is_vi_register a"
    "\<not> is_ai_register a" "\<not> is_ri_register a" "\<not> is_si_register a" "\<not> is_pif a" "\<not> is_isviewer a"
    "\<not> is_pi_register a" "\<not> is_spmem a" "\<not> is_rcp_internal a" "a AND NOT 3 \<noteq> SP_PC" "a \<noteq> ISVIEWER_WRITE_LEN"
proof -
  have lt: "a < 0x800000" using assms by (simp add: is_rdram_def RDRAM_SIZE_def word_less_nat_alt)
  have le: "a AND NOT 3 \<le> a" by (rule word_and_le2)
  show "\<not> is_pi_bus a" "\<not> is_sp_register a" "\<not> is_mi_register a" "\<not> is_dp_register a" "\<not> is_vi_register a"
    "\<not> is_ai_register a" "\<not> is_ri_register a" "\<not> is_si_register a" "\<not> is_pif a" "\<not> is_isviewer a"
    "\<not> is_pi_register a" "\<not> is_spmem a" "\<not> is_rcp_internal a" "a AND NOT 3 \<noteq> SP_PC" "a \<noteq> ISVIEWER_WRITE_LEN"
    using lt le by (auto simp: addr_map word_le_nat_alt word_less_nat_alt)
qed

lemma rdram_word_low:
  assumes "is_rdram a" "4 dvd unat a"
  shows "unat a + 4 \<le> RDRAM_SIZE" "unat (a + 1) = unat a + 1" "unat (a + 2) = unat a + 2" "unat (a + 3) = unat a + 3"
proof -
  have a: "unat a < 8388608" using assms(1) by (simp add: is_rdram_def RDRAM_SIZE_def)
  then show "unat a + 4 \<le> RDRAM_SIZE" using assms(2) unfolding RDRAM_SIZE_def by (auto elim!: dvdE)
  show "unat (a + 1) = unat a + 1" "unat (a + 2) = unat a + 2" "unat (a + 3) = unat a + 3"
    using a by (simp_all add: unat_word_ariths)
qed

lemma read_u32_rdram:
  assumes "is_rdram a" "4 dvd unat a"
  shows "read_u32 a b = (from_be_bytes [bus_peek b a, bus_peek b (a + 1), bus_peek b (a + 2), bus_peek b (a + 3)], b)"
  using rdram_is_no_register[OF assms(1)] rdram_offset_low[OF assms(1)] rdram_word_low[OF assms]
  by (simp add: read_u32_def rdram_word_def bus_peek_def)

lemma write_u32_rdram:
  assumes "is_rdram a" "4 dvd unat a"
  shows "write_u32 a v b = b\<lparr>rdram := (rdram b)(unat a := to_be_bytes v ! 0, unat a + 1 := to_be_bytes v ! 1,
    unat a + 2 := to_be_bytes v ! 2, unat a + 3 := to_be_bytes v ! 3)\<rparr>"
  using rdram_is_no_register[OF assms(1)] rdram_offset_low[OF assms(1)] rdram_word_low[OF assms]
  by (simp add: write_u32_def Let_def)

lemma bus_peek_write:
  assumes "is_rdram a" "4 dvd unat a"
  shows "bus_peek (write_u32 a v b) = (bus_peek b)(a := to_be_bytes v ! 0, a + 1 := to_be_bytes v ! 1,
    a + 2 := to_be_bytes v ! 2, a + 3 := to_be_bytes v ! 3)"
proof
  fix x :: u32
  have e: "unat x = unat a + k \<longleftrightarrow> x = y" if "unat y = unat a + k" for k and y :: u32
    using that by (metis word_unat_eq_iff)
  note s = rdram_word_low[OF assms]
  show "bus_peek (write_u32 a v b) x = ((bus_peek b)(a := to_be_bytes v ! 0, a + 1 := to_be_bytes v ! 1,
    a + 2 := to_be_bytes v ! 2, a + 3 := to_be_bytes v ! 3)) x"
    unfolding write_u32_rdram[OF assms] bus_peek_def
    using e[OF s(2)] e[OF s(3)] e[OF s(4)] by (simp add: word_unat_eq_iff)
qed

interpretation rdram: word_memory system_bus bus_peek is_rdram
proof
  fix a :: u32 and b :: bus and w :: u32
  assume r: "is_rdram a" "4 dvd unat a"
  show "fst (rd32 system_bus a b) = from_be_bytes [bus_peek b a, bus_peek b (a + 1), bus_peek b (a + 2), bus_peek b (a + 3)]"
    "bus_peek (snd (rd32 system_bus a b)) = bus_peek b"
    "bus_peek (wr32 system_bus a w b) = (bus_peek b)(a := to_be_bytes w ! 0, a + 1 := to_be_bytes w ! 1,
        a + 2 := to_be_bytes w ! 2, a + 3 := to_be_bytes w ! 3)"
    using r by (simp_all add: system_bus_def read_u32_rdram bus_peek_write)
next
  fix a c :: u32
  assume r: "is_rdram a" and d: "unat a div 32 = unat c div 32"
  have "unat a div 32 < 262144" using r by (simp add: is_rdram_def RDRAM_SIZE_def div_less_iff_less_mult)
  then have "unat c < 262144 * 32" unfolding d by (subst (asm) div_less_iff_less_mult) simp_all
  then show "is_rdram c" by (simp add: is_rdram_def RDRAM_SIZE_def)
qed


section \<open>The caches over the console's memory\<close>

lemma run_from_reset:
  assumes "cs_dcache s = dcache_new" "\<forall>x \<in> set xs. step_ok is_rdram x"
  shows "fst (cached_run system_bus xs s) = fst (flat_run xs (bus_peek (cs_bus s)))"
    "rdram.sees (snd (cached_run system_bus xs s)) (snd (flat_run xs (bus_peek (cs_bus s))))"
  using rdram.cached_run_refines[OF rdram.sees_reset[OF assms(1)] assms(2)] by blast+

text \<open>C5. The data cache is transparent: from reset, any sequence of aligned cached loads and stores to
  RDRAM, mixed with write-back and tag-load cache instructions at any address, returns the values a
  flat memory would and leaves the same contents in the program's view, whatever lines it hits,
  misses, fills or evicts on the way.\<close>

theorem dcache_refines_flat_memory:
  assumes "cs_dcache s = dcache_new" "\<forall>x \<in> set xs. step_ok is_rdram x"
  shows "fst (cached_run system_bus xs s) = fst (flat_run xs (bus_peek (cs_bus s))) \<and>
    (is_rdram a \<longrightarrow> dview (cs_dcache (snd (cached_run system_bus xs s))) (bus_peek (cs_bus (snd (cached_run system_bus xs s)))) a
       = snd (flat_run xs (bus_peek (cs_bus s))) a)"
  using run_from_reset[OF assms] by (simp add: rdram.sees_def)

definition reset_caches :: "bus cache_state" where
  "reset_caches = \<lparr>cs_icache = icache_new, cs_dcache = dcache_new, cs_cop0 = cop0_new, cs_stall = None, cs_bus = bus_new\<rparr>"

lemma dcache_refines_flat_memory_witness:
  "fst (cached_run system_bus [MWrite 0x1000 4 0xCAFE, MRead 0x1000 4] reset_caches)
    = fst (flat_run [MWrite 0x1000 4 0xCAFE, MRead 0x1000 4] (bus_peek bus_new))"
  using dcache_refines_flat_memory[of reset_caches "[MWrite 0x1000 4 0xCAFE, MRead 0x1000 4]"]
  by (simp add: reset_caches_def is_rdram_def RDRAM_SIZE_def in_line_def)

text \<open>C12. A write-back makes the program's stores reach memory: after any such sequence from reset, the
  index write-back-invalidate instruction at an address leaves RDRAM itself holding, at every address
  of the line it selects, what the program last stored there, and the line no longer hits.\<close>

theorem writeback_reaches_rdram:
  assumes "cs_dcache s = dcache_new" "\<forall>x \<in> set xs. step_ok is_rdram x"
    and "is_rdram x" "d_index x = d_index a"
  shows "bus_peek (cs_bus (cache_index_op system_bus 1 a (snd (cached_run system_bus xs s)))) x
      = snd (flat_run xs (bus_peek (cs_bus s))) x
    \<and> \<not> d_hits (cs_dcache (cache_index_op system_bus 1 a (snd (cached_run system_bus xs s)))) a"
proof -
  let ?t = "snd (cached_run system_bus xs s)"
  have co: "rdram.coherent (cs_dcache ?t) (cs_bus ?t)"
    and v: "dview (cs_dcache ?t) (bus_peek (cs_bus ?t)) x = snd (flat_run xs (bus_peek (cs_bus s))) x"
    using run_from_reset(2)[OF assms(1,2)] assms(3) by (simp_all add: rdram.sees_def)
  show ?thesis
    using rdram.flush_coherent(3)[OF co, where inval = True and clean = False and a = a and x = x]
      rdram.flush_coherent(4)[OF co, where inval = True and clean = False and a = a] assms(3,4) v
    by (simp add: cache_index_op_def Let_def case_prod_beta)
qed

lemma writeback_reaches_rdram_witness:
  "bus_peek (cs_bus (cache_index_op system_bus 1 0x1000 (snd (cached_run system_bus [MWrite 0x1000 4 0xCAFE] reset_caches)))) 0x1003
    = 0xFE"
proof -
  have "snd (flat_run [MWrite 0x1000 4 0xCAFE] (bus_peek bus_new)) 0x1003 = 0xFE"
    by (simp add: store_bytes_def)
  then show ?thesis
    using writeback_reaches_rdram[of reset_caches "[MWrite 0x1000 4 0xCAFE]" "0x1003" "0x1000"]
    by (simp add: reset_caches_def is_rdram_def RDRAM_SIZE_def in_line_def d_index_def DCACHE_LINE_def)
qed

end
