(* ===== verification/Pipe.thy ===== *)
theory Pipe
  imports Exec Tlb Addr Except Fpu Fpr Cache
begin

text \<open>
  The state of the five-stage pipeline, \<^verbatim>\<open>rustyn64-cpu/src/pipeline.rs\<close>: its latches, stall and
  pending exception, with the operations the stages share. A method over the pipeline and the bus
  takes and returns the pair of both; the commit census, compiled in only for profiling, is left out.
\<close>

section \<open>Latches and the pipeline\<close>

record latch =
  l_occupied :: bool
  l_pc :: u64
  l_word :: u32
  l_in_delay_slot :: bool
  l_abort :: "exn option"
  l_decoded :: decoded
  l_rs_val :: u64
  l_rt_val :: u64
  l_write_back :: write_back
  l_mem :: "mem_op option"
  l_cop0 :: "cop0_access option"

definition EMPTY_LATCH :: latch where
  "EMPTY_LATCH = \<lparr>l_occupied = False, l_pc = 0, l_word = 0, l_in_delay_slot = False, l_abort = None,
     l_decoded = \<lparr>d_op = Reserved, d_rs = 0, d_rt = 0, d_rd = 0, d_sa = 0, d_imm = 0, d_dest = 0,
       d_target = 0\<rparr>,
     l_rs_val = 0, l_rt_val = 0, l_write_back = NoWrite, l_mem = None, l_cop0 = None\<rparr>"

record pending =
  pe_exc :: exn
  pe_pc :: u64
  pe_in_delay_slot :: bool
  pe_bad_vaddr :: u64

record pipeline =
  pl_cop2_latch :: u64
  pl_ic_rf :: latch
  pl_rf_ex :: latch
  pl_ex_dc :: latch
  pl_dc_wb :: latch
  pl_stall :: "stall option"
  pl_prev_was_run :: bool
  pl_nmi_pending :: bool
  pl_flush_pending :: bool
  pl_retired :: u64
  pl_pending :: "pending option"
  pl_fault_vaddr :: u64
  pl_cop1 :: cop1_control
  pl_fpr :: fpr
  pl_tlb :: tlb
  pl_icache :: icache
  pl_idle_pc :: "u64 option"
  pl_dcache :: dcache
  pl_cop0 :: cop0
  pl_ll_bit :: bool

definition pipeline_new :: pipeline where
  "pipeline_new = \<lparr>pl_cop2_latch = 0, pl_ic_rf = EMPTY_LATCH, pl_rf_ex = EMPTY_LATCH,
     pl_ex_dc = EMPTY_LATCH, pl_dc_wb = EMPTY_LATCH, pl_stall = None, pl_prev_was_run = False,
     pl_nmi_pending = False, pl_flush_pending = False, pl_retired = 0, pl_pending = None,
     pl_fault_vaddr = 0, pl_cop1 = cop1_new, pl_fpr = fpr_new, pl_tlb = tlb_new,
     pl_icache = icache_new, pl_idle_pc = None, pl_dcache = dcache_new, pl_cop0 = cop0_new,
     pl_ll_bit = False\<rparr>"

definition load_interlocks :: "u8 \<Rightarrow> u8 \<Rightarrow> u8 \<Rightarrow> bool \<Rightarrow> bool" where
  "load_interlocks load_rt rs rt same_reg_file =
     (if load_rt = 0 then False
      else if \<not> same_reg_file then False
      else load_rt = rs \<or> load_rt = rt)"

definition FCSR_C :: u32 where "FCSR_C = shl 1 23"

definition status_of :: "pipeline \<Rightarrow> u64" where
  "status_of p = cop0_read (pl_cop0 p) r_STATUS"

definition fr_of :: "cop0 \<Rightarrow> bool" where
  "fr_of c = (cop0_read c r_STATUS AND shl 1 26 \<noteq> 0)"

definition stalled_by :: "pipeline \<Rightarrow> interlock option" where
  "stalled_by p = (case pl_stall p of Some s \<Rightarrow> Some (st_cause s) | None \<Rightarrow> None)"

definition ll_addr :: "pipeline \<Rightarrow> u64" where
  "ll_addr p = cop0_read (pl_cop0 p) 17"

definition stall_pipe :: "u32 \<Rightarrow> interlock \<Rightarrow> pipeline \<Rightarrow> pipeline" where
  "stall_pipe cycles cause p = p\<lparr>pl_stall := stall_for cycles cause (pl_stall p)\<rparr>"

definition signal_nmi :: "pipeline \<Rightarrow> pipeline" where
  "signal_nmi p = p\<lparr>pl_nmi_pending := True\<rparr>"

section \<open>Aborting\<close>

definition latch_at :: "stage \<Rightarrow> pipeline \<Rightarrow> latch" where
  "latch_at s p = (case s of Wb \<Rightarrow> pl_dc_wb p | Dc \<Rightarrow> pl_ex_dc p | Ex \<Rightarrow> pl_rf_ex p
     | Rf \<Rightarrow> pl_ic_rf p | Ic \<Rightarrow> pl_ic_rf p)"

definition mark :: "exn \<Rightarrow> latch \<Rightarrow> latch" where
  "mark e l = l\<lparr>l_abort := Some e\<rparr>"

definition abort_with :: "stage \<Rightarrow> exn \<Rightarrow> u64 \<Rightarrow> pipeline \<Rightarrow> pipeline" where
  "abort_with s e bad p =
     (let src = latch_at s p;
          p = (if pl_pending p = None
               then p\<lparr>pl_pending := Some \<lparr>pe_exc = e, pe_pc = l_pc src,
                 pe_in_delay_slot = l_in_delay_slot src, pe_bad_vaddr = bad\<rparr>\<rparr>
               else p);
          p = p\<lparr>pl_flush_pending := True\<rparr>
      in case s of
           Wb \<Rightarrow> p\<lparr>pl_dc_wb := mark e (pl_dc_wb p), pl_ex_dc := mark e (pl_ex_dc p),
             pl_rf_ex := mark e (pl_rf_ex p), pl_ic_rf := mark e (pl_ic_rf p)\<rparr>
         | Dc \<Rightarrow> p\<lparr>pl_ex_dc := mark e (pl_ex_dc p), pl_rf_ex := mark e (pl_rf_ex p),
             pl_ic_rf := mark e (pl_ic_rf p)\<rparr>
         | Ex \<Rightarrow> p\<lparr>pl_rf_ex := mark e (pl_rf_ex p), pl_ic_rf := mark e (pl_ic_rf p)\<rparr>
         | Rf \<Rightarrow> p\<lparr>pl_ic_rf := mark e (pl_ic_rf p)\<rparr>
         | Ic \<Rightarrow> p\<lparr>pl_ic_rf := mark e (pl_ic_rf p)\<rparr>)"

definition abort_from :: "stage \<Rightarrow> exn \<Rightarrow> pipeline \<Rightarrow> pipeline" where
  "abort_from s e p = abort_with s e 0 p"

section \<open>Privilege and addressing\<close>

definition STATUS_KSU :: u64 where "STATUS_KSU = shl 3 3"
definition EXL_OR_ERL :: u64 where "EXL_OR_ERL = 6"

definition pl_erl :: "pipeline \<Rightarrow> bool" where
  "pl_erl p = (status_of p AND shl 1 2 \<noteq> 0)"

definition access_mode :: "pipeline \<Rightarrow> access" where
  "access_mode p =
     (let status = status_of p;
          ksu = shr (status AND STATUS_KSU) 3;
          m = (if status AND EXL_OR_ERL \<noteq> 0 then Kernel
               else if ksu = 1 then Supervisor else if ksu = 2 then User else Kernel);
          w = (case m of User \<Rightarrow> status AND shl 1 5 \<noteq> 0
               | Supervisor \<Rightarrow> status AND shl 1 6 \<noteq> 0
               | Kernel \<Rightarrow> status AND shl 1 7 \<noteq> 0)
      in \<lparr>a_mode = m, a_wide = w, a_erl = pl_erl p\<rparr>)"

definition reverse_endian :: "pipeline \<Rightarrow> bool" where
  "reverse_endian p =
     (let status = status_of p
      in status AND shl 1 25 \<noteq> 0 \<and> status AND STATUS_KSU = shl 2 3 \<and> status AND EXL_OR_ERL = 0)"

definition re_swap :: "u64 \<Rightarrow> u32" where
  "re_swap width = (if width = 1 then 7 else if width = 2 then 6 else if width = 4 then 4 else 0)"

definition note_shutdown :: "pipeline \<Rightarrow> pipeline" where
  "note_shutdown p =
     (if shutdown (pl_tlb p)
      then p\<lparr>pl_cop0 := set_hardware r_STATUS (status_of p OR shl 1 21) (pl_cop0 p)\<rparr> else p)"

fun tlb_exception :: "tlb_fault \<Rightarrow> bool \<Rightarrow> bool \<Rightarrow> exn" where
  "tlb_exception Refill store wide = TlbRefill store wide"
| "tlb_exception Invalid store wide = TlbInvalid store"
| "tlb_exception Modified store wide = TlbModified"

definition asid_of :: "pipeline \<Rightarrow> u8" where
  "asid_of p = to_u8 (cop0_read (pl_cop0 p) r_ENTRY_HI AND 0xFF)"

definition translate_data :: "u64 \<Rightarrow> bool \<Rightarrow> pipeline \<Rightarrow> (exn + physical) \<times> pipeline" where
  "translate_data vaddr store p =
     (let ac = access_mode p
      in case translate_via (pl_tlb p) vaddr (asid_of p) store ac of
           (Inr x, t) \<Rightarrow> (Inr x, p\<lparr>pl_tlb := t\<rparr>)
         | (Inl e, t) \<Rightarrow>
             (Inl (case e of AddressFault \<Rightarrow> AddressError store
                   | TlbFaultOf f \<Rightarrow> tlb_exception f store (a_wide ac)),
              note_shutdown (p\<lparr>pl_tlb := t, pl_fault_vaddr := vaddr\<rparr>)))"

definition translate_re :: "u64 \<Rightarrow> bool \<Rightarrow> u64 \<Rightarrow> pipeline \<Rightarrow> (exn + physical) \<times> pipeline" where
  "translate_re vaddr store width p =
     (case translate_data vaddr store p of
        (Inl e, p) \<Rightarrow> (Inl e, p)
      | (Inr x, p) \<Rightarrow>
          (Inr (if reverse_endian p then x\<lparr>p_addr := p_addr x XOR re_swap width\<rparr> else x), p))"

section \<open>What an instruction may do\<close>

definition cop_unit :: "op \<Rightarrow> u8 option" where
  "cop_unit p =
     (if p \<in> {Cop0Op Mfc0, Cop0Op Dmfc0, Cop0Op Mtc0, Cop0Op Dmtc0, Cop0Op Tlbr, Cop0Op Tlbwi,
         Cop0Op Tlbwr, Cop0Op Tlbp, Cop0Op Eret} then Some 0
      else if p \<in> {Cop1Op Cfc1, Cop1Op Ctc1, Cop1Op Mfc1, Cop1Op Dmfc1, Cop1Op Mtc1, Cop1Op Dmtc1,
         Cop1Op Lwc1, Cop1Op Ldc1, Cop1Op Swc1, Cop1Op Sdc1, Cop1Op Cop1Unimplemented,
         Cop1Op Cop1ReservedControl, Cop1Op FpArith} then Some 1
      else if p \<in> {Cop2Op Cop2, Cop2Op Cop2ReservedControl, Cop2Op Mfc2, Cop2Op Dmfc2, Cop2Op Mtc2}
        then Some 2
      else None)"

definition unusable_coprocessor :: "decoded \<Rightarrow> pipeline \<Rightarrow> u8 option" where
  "unusable_coprocessor d p =
     (case cop_unit (d_op d) of
        None \<Rightarrow> None
      | Some u \<Rightarrow>
          let status = status_of p;
              kernel = (status AND STATUS_KSU = 0 \<or> status AND EXL_OR_ERL \<noteq> 0)
          in if u = 0 \<and> kernel then None
             else if status AND shl 1 (28 + unat u) = 0 then Some u
             else None)"

definition sixty_four_bit_is_reserved :: "pipeline \<Rightarrow> bool" where
  "sixty_four_bit_is_reserved p = (a_mode (access_mode p) \<noteq> Kernel \<and> \<not> a_wide (access_mode p))"

definition ex_gate :: "decoded \<Rightarrow> pipeline \<Rightarrow> exn option \<times> pipeline" where
  "ex_gate d p =
     (case unusable_coprocessor d p of
        Some u \<Rightarrow> (Some (CoprocessorUnusable u), p)
      | None \<Rightarrow>
          if is_64_bit (d_op d) \<and> sixty_four_bit_is_reserved p then (Some ReservedInstruction, p)
          else if d_op d = Cop2Op Cop2ReservedControl then (Some (CoprocessorReserved 2), p)
          else if d_op d = Cop1Op Cop1ReservedControl then
            (Some FloatingPoint,
             p\<lparr>pl_cop1 := ctc1 31 ((fcsr (pl_cop1 p) AND NOT CAUSE_MASK) OR CAUSE_UNIMPLEMENTED)
               (pl_cop1 p)\<rparr>)
          else (None, p))"

section \<open>Aborting keeps the first cause\<close>

lemma abort_pending:
  "pl_pending (abort_with s e bad p) = (case pl_pending p of Some q \<Rightarrow> Some q
     | None \<Rightarrow> Some \<lparr>pe_exc = e, pe_pc = l_pc (latch_at s p),
         pe_in_delay_slot = l_in_delay_slot (latch_at s p), pe_bad_vaddr = bad\<rparr>)"
  by (cases "pl_pending p"; cases s; simp add: abort_with_def Let_def)

lemma abort_flush [simp]: "pl_flush_pending (abort_with s e bad p)"
  by (cases s; simp add: abort_with_def Let_def)

lemma abort_frame [simp]:
  "pl_cop0 (abort_with s e bad p) = pl_cop0 p" "pl_cop1 (abort_with s e bad p) = pl_cop1 p"
  "pl_fpr (abort_with s e bad p) = pl_fpr p" "pl_tlb (abort_with s e bad p) = pl_tlb p"
  "pl_icache (abort_with s e bad p) = pl_icache p" "pl_dcache (abort_with s e bad p) = pl_dcache p"
  "pl_retired (abort_with s e bad p) = pl_retired p" "pl_stall (abort_with s e bad p) = pl_stall p"
  "pl_ll_bit (abort_with s e bad p) = pl_ll_bit p" "pl_idle_pc (abort_with s e bad p) = pl_idle_pc p"
  "pl_cop2_latch (abort_with s e bad p) = pl_cop2_latch p"
  "pl_nmi_pending (abort_with s e bad p) = pl_nmi_pending p"
  "pl_prev_was_run (abort_with s e bad p) = pl_prev_was_run p"
  "pl_fault_vaddr (abort_with s e bad p) = pl_fault_vaddr p"
  by (cases s; simp add: abort_with_def Let_def)+

end
