(* ===== verification/Pipe_Mem.thy ===== *)
theory Pipe_Mem
  imports Pipe
begin

text \<open>
  The memory side of the DC stage (\<^verbatim>\<open>access\<close>, \<^verbatim>\<open>access_unaligned\<close>, \<^verbatim>\<open>read_width\<close>, \<^verbatim>\<open>write_width\<close>,
  \<^verbatim>\<open>emux\<close> and \<^verbatim>\<open>cache_op\<close> of \<^verbatim>\<open>pipeline.rs\<close>): loads, stores, the linked pair, the unaligned
  halves, the floating-point ports and the CACHE instruction, over the caches and the bus.
\<close>

section \<open>Reads and writes of a width\<close>

definition M_RCP_REGISTER :: u32 where "M_RCP_REGISTER = 22"
definition M_RCP_REGISTER_LO :: u32 where "M_RCP_REGISTER_LO = 0x04000000"
definition M_RCP_REGISTER_HI :: u32 where "M_RCP_REGISTER_HI = 0x04FFFFFF"

definition is_rcp_mmio :: "u32 \<Rightarrow> bool" where
  "is_rcp_mmio a \<longleftrightarrow> M_RCP_REGISTER_LO \<le> a \<and> a \<le> M_RCP_REGISTER_HI"

definition uncached_read :: "'b bus_ops \<Rightarrow> u32 \<Rightarrow> u64 \<Rightarrow> 'b \<Rightarrow> u64 \<times> 'b" where
  "uncached_read ops a width b =
     (if width = 1 then let (x, b) = rd8 ops a b in (to_u64 x, b)
      else if width = 2 then
        let (x, b) = rd8 ops a b; (y, b) = rd8 ops (a + 1) b
        in (shl (to_u64 x) 8 OR to_u64 y, b)
      else if width = 4 then let (x, b) = rd32 ops a b in (to_u64 x, b)
      else if width = 8 then
        let (x, b) = rd32 ops a b; (y, b) = rd32 ops (a + 4) b
        in (shl (to_u64 x) 32 OR to_u64 y, b)
      else (0, b))"

definition read_width :: "'b bus_ops \<Rightarrow> physical \<Rightarrow> u64 \<Rightarrow> pipeline \<times> 'b \<Rightarrow> u64 \<times> pipeline \<times> 'b" where
  "read_width ops x width = (\<lambda>(p, b).
     let a = p_addr x
     in if p_cached x = CachedYes then
          let (v, dc, st, b) = cached_read ops a (unat width) (pl_dcache p, pl_stall p, b)
          in (v, p\<lparr>pl_dcache := dc, pl_stall := st\<rparr>, b)
        else
          let (v, b) = uncached_read ops a width b
          in (v, if is_rcp_mmio a then stall_pipe M_RCP_REGISTER Dcm p else p, b))"

definition write_width :: "'b bus_ops \<Rightarrow> physical \<Rightarrow> u64 \<Rightarrow> u64 \<Rightarrow> pipeline \<times> 'b \<Rightarrow> pipeline \<times> 'b" where
  "write_width ops x width v = (\<lambda>(p, b).
     let a = p_addr x
     in if p_cached x = CachedYes then
          let (dc, st, b) = cached_write ops a (unat width) v (pl_dcache p, pl_stall p, b)
          in (p\<lparr>pl_dcache := dc, pl_stall := st\<rparr>, b)
        else (p, wr_sized ops a width v b))"

section \<open>The unaligned instructions\<close>

definition is_unaligned_store :: "unaligned_op \<Rightarrow> bool" where
  "is_unaligned_store q \<longleftrightarrow> q \<in> {Swl, Swr, Sdl, Sdr}"

definition translate_for :: "u64 \<Rightarrow> u64 \<Rightarrow> bool \<Rightarrow> pipeline \<Rightarrow> (exn + physical) \<times> pipeline" where
  "translate_for addr a store p =
     (case translate_data a store p of
        (Inr x, p) \<Rightarrow> (Inr x, p)
      | (Inl e, p) \<Rightarrow> (Inl e, p\<lparr>pl_fault_vaddr := addr\<rparr>))"

definition unaligned_transfer :: "'b bus_ops \<Rightarrow> unaligned_op \<Rightarrow> physical \<Rightarrow> physical \<Rightarrow> u64 \<Rightarrow> u64 \<Rightarrow> u8 \<Rightarrow>
    pipeline \<times> 'b \<Rightarrow> write_back \<times> pipeline \<times> 'b" where
  "unaligned_transfer ops q word_addr dword_addr eaddr rt dest s =
     (let byte4 = eaddr AND 3; byte8 = eaddr AND 7
      in case q of
           Lwl \<Rightarrow> let (w, s) = read_width ops word_addr 4 s in (WbGpr dest (lwl rt (to_u32 w) byte4), s)
         | Lwr \<Rightarrow> let (w, s) = read_width ops word_addr 4 s in (WbGpr dest (lwr rt (to_u32 w) byte4), s)
         | Ldl \<Rightarrow> let (d, s) = read_width ops dword_addr 8 s in (WbGpr dest (ldl rt d byte8), s)
         | Ldr \<Rightarrow> let (d, s) = read_width ops dword_addr 8 s in (WbGpr dest (ldr rt d byte8), s)
         | Swl \<Rightarrow> let (w, s) = read_width ops word_addr 4 s
                  in (NoWrite, write_width ops word_addr 4 (to_u64 (swl rt (to_u32 w) byte4)) s)
         | Swr \<Rightarrow> let (w, s) = read_width ops word_addr 4 s
                  in (NoWrite, write_width ops word_addr 4 (to_u64 (swr rt (to_u32 w) byte4)) s)
         | Sdl \<Rightarrow> let (d, s) = read_width ops dword_addr 8 s
                  in (NoWrite, write_width ops dword_addr 8 (sdl rt d byte8) s)
         | Sdr \<Rightarrow> let (d, s) = read_width ops dword_addr 8 s
                  in (NoWrite, write_width ops dword_addr 8 (sdr rt d byte8) s))"

definition access_unaligned :: "'b bus_ops \<Rightarrow> unaligned_op \<Rightarrow> u64 \<Rightarrow> u64 \<Rightarrow> u8 \<Rightarrow> pipeline \<times> 'b \<Rightarrow>
    (exn + write_back) \<times> pipeline \<times> 'b" where
  "access_unaligned ops q addr rt dest = (\<lambda>(p, b).
     let store = is_unaligned_store q;
         eaddr = (if reverse_endian p then addr XOR 7 else addr)
     in case translate_for addr (eaddr AND NOT 3) store p of
          (Inl e, p) \<Rightarrow> (Inl e, p, b)
        | (Inr word_addr, p) \<Rightarrow>
           (case translate_for addr (eaddr AND NOT 7) store p of
              (Inl e, p) \<Rightarrow> (Inl e, p, b)
            | (Inr dword_addr, p) \<Rightarrow>
                let (wb, s) = unaligned_transfer ops q word_addr dword_addr eaddr rt dest (p, b)
                in (Inr wb, s)))"

section \<open>The EMUX extension\<close>

definition XDETECT :: u8 where "XDETECT = 32"
definition XLOG :: u8 where "XLOG = 37"
definition XIOCTL :: u8 where "XIOCTL = 44"
definition CODE_EXTENSIONS :: u16 where "CODE_EXTENSIONS = 1"
definition XIOCTL_EXIT :: u16 where "XIOCTL_EXIT = 1"
definition EMUX_MAX :: u64 where "EMUX_MAX = 4096"

text \<open>\<open>emux_bytes\<close> is the loop that collects the bytes to log; a fault leaves it at once.\<close>

fun emux_bytes :: "'b bus_ops \<Rightarrow> u64 \<Rightarrow> nat \<Rightarrow> nat \<Rightarrow> u8 list \<Rightarrow> pipeline \<times> 'b \<Rightarrow>
    (exn + u8 list) \<times> pipeline \<times> 'b" where
  "emux_bytes ops ptr i 0 buf s = (Inr buf, s)"
| "emux_bytes ops ptr i (Suc n) buf s =
     (case translate_data (ptr + of_nat i) False (fst s) of
        (Inl e, p) \<Rightarrow> (Inl e, p, snd s)
      | (Inr x, p) \<Rightarrow>
          let (v, s) = read_width ops x 1 (p, snd s)
          in emux_bytes ops ptr (Suc i) n (buf @ [to_u8 v]) s)"

definition emux :: "'b bus_ops \<Rightarrow> u8 \<Rightarrow> u16 \<Rightarrow> u64 \<Rightarrow> u64 \<Rightarrow> u8 \<Rightarrow> pipeline \<times> 'b \<Rightarrow>
    (exn + write_back) \<times> pipeline \<times> 'b" where
  "emux ops funct code ptr len dest s =
     (if \<not> emux_enabled ops (snd s) then (Inr NoWrite, s)
      else if funct = XDETECT \<and> code = CODE_EXTENSIONS then
        (Inr (WbGpr dest (shl 1 (unat (XLOG - XDETECT)) OR shl 1 (unat (XIOCTL - XDETECT)))), s)
      else if funct = XLOG then
        (case emux_bytes ops ptr 0 (unat (min len EMUX_MAX)) [] s of
           (Inl e, s) \<Rightarrow> (Inl e, s)
         | (Inr buf, p, b) \<Rightarrow> (Inr NoWrite, p, emux_log ops buf b))
      else if funct = XIOCTL \<and> code = XIOCTL_EXIT then
        (Inr NoWrite, fst s, emux_exit ops (snd s))
      else (Inr NoWrite, s))"

section \<open>The CACHE instruction\<close>

definition cache_view :: "pipeline \<times> 'b \<Rightarrow> 'b cache_state" where
  "cache_view s = \<lparr>cs_icache = pl_icache (fst s), cs_dcache = pl_dcache (fst s),
     cs_cop0 = pl_cop0 (fst s), cs_stall = pl_stall (fst s), cs_bus = snd s\<rparr>"

definition cache_update :: "pipeline \<Rightarrow> 'b cache_state \<Rightarrow> pipeline \<times> 'b" where
  "cache_update p c = (p\<lparr>pl_icache := cs_icache c, pl_dcache := cs_dcache c, pl_cop0 := cs_cop0 c,
     pl_stall := cs_stall c\<rparr>, cs_bus c)"

definition cache_op :: "'b bus_ops \<Rightarrow> u64 \<Rightarrow> u8 \<Rightarrow> pipeline \<times> 'b \<Rightarrow> (exn + write_back) \<times> pipeline \<times> 'b" where
  "cache_op ops addr opn = (\<lambda>(p, b).
     let p = p\<lparr>pl_idle_pc := None\<rparr>
     in if shr opn 2 \<ge> 3 then
          (case translate_data addr False p of
             (Inl e, p) \<Rightarrow> (Inl e, p, b)
           | (Inr x, p) \<Rightarrow> (Inr NoWrite, cache_update p (cache_hit_op ops opn (p_addr x) (cache_view (p, b)))))
        else (Inr NoWrite, cache_update p (cache_index_op ops opn (to_u32 addr) (cache_view (p, b)))))"

section \<open>Floating-point loads and stores\<close>

definition fp_access :: "'b bus_ops \<Rightarrow> cop1_op \<Rightarrow> u64 \<Rightarrow> u8 \<Rightarrow> pipeline \<times> 'b \<Rightarrow>
    (exn + write_back) \<times> pipeline \<times> 'b" where
  "fp_access ops q addr ft = (\<lambda>(p, b).
     let double = (q = Ldc1 \<or> q = Sdc1);
         store = (q = Swc1 \<or> q = Sdc1);
         align = (if double then 7 else 3)
     in if addr AND align \<noteq> 0 then (Inl (AddressError store), p\<lparr>pl_fault_vaddr := addr\<rparr>, b)
        else case translate_re addr store (if double then 8 else 4) p of
          (Inl e, p) \<Rightarrow> (Inl e, p, b)
        | (Inr x, p) \<Rightarrow>
            let fr = fr_of (pl_cop0 p)
            in if q = Lwc1 then
                 let (v, p, b) = read_width ops x 4 (p, b)
                 in (Inr NoWrite, p\<lparr>pl_fpr := write_s ft (fr_of (pl_cop0 p)) (to_u32 v) (pl_fpr p)\<rparr>, b)
               else if q = Ldc1 then
                 let (v, p, b) = read_width ops x 8 (p, b)
                 in (Inr NoWrite, p\<lparr>pl_fpr := write_d ft fr v (pl_fpr p)\<rparr>, b)
               else if q = Swc1 then
                 (Inr NoWrite, write_width ops x 4 (to_u64 (read_s (pl_fpr p) ft fr)) (p, b))
               else (Inr NoWrite, write_width ops x 8 (read_d (pl_fpr p) ft fr) (p, b)))"

section \<open>The memory operations\<close>

definition load_access :: "'b bus_ops \<Rightarrow> load_kind \<Rightarrow> u64 \<Rightarrow> u8 \<Rightarrow> pipeline \<times> 'b \<Rightarrow>
    (exn + physical \<times> write_back) \<times> pipeline \<times> 'b" where
  "load_access ops k addr dest = (\<lambda>(p, b).
     if \<not> load_is_aligned k addr then (Inl (AddressError False), p\<lparr>pl_fault_vaddr := addr\<rparr>, b)
     else case translate_re addr False (load_width k) p of
       (Inl e, p) \<Rightarrow> (Inl e, p, b)
     | (Inr x, p) \<Rightarrow>
         let (raw, s) = read_width ops x (load_width k) (p, b)
         in (Inr (x, WbGpr dest (shape k raw)), s))"

definition store_access :: "'b bus_ops \<Rightarrow> store_kind \<Rightarrow> u64 \<Rightarrow> u64 \<Rightarrow> pipeline \<times> 'b \<Rightarrow>
    (exn + unit) \<times> pipeline \<times> 'b" where
  "store_access ops k addr v = (\<lambda>(p, b).
     case translate_re addr True (store_width k) p of
       (Inl e, p) \<Rightarrow> (Inl e, p, b)
     | (Inr x, p) \<Rightarrow> (Inr (), write_width ops x (store_width k) v (p, b)))"

definition set_link :: "u32 \<Rightarrow> pipeline \<Rightarrow> pipeline" where
  "set_link a p = p\<lparr>pl_ll_bit := True, pl_cop0 := set_hardware 17 (to_u64 (shr a 4)) (pl_cop0 p)\<rparr>"

definition mem_access :: "'b bus_ops \<Rightarrow> mem_op \<Rightarrow> pipeline \<times> 'b \<Rightarrow> (exn + write_back) \<times> pipeline \<times> 'b" where
  "mem_access ops m s =
     (case m of
        MLoad k addr dest \<Rightarrow>
          (case load_access ops k addr dest s of
             (Inl e, s) \<Rightarrow> (Inl e, s) | (Inr (x, wb), s) \<Rightarrow> (Inr wb, s))
      | MStore k addr v \<Rightarrow>
          if \<not> store_is_aligned k addr
          then (Inl (AddressError True), (fst s)\<lparr>pl_fault_vaddr := addr\<rparr>, snd s)
          else (case store_access ops k addr v s of
             (Inl e, s) \<Rightarrow> (Inl e, s) | (Inr _, s) \<Rightarrow> (Inr NoWrite, s))
      | MLinkedLoad k addr dest \<Rightarrow>
          (case load_access ops k addr dest s of
             (Inl e, s) \<Rightarrow> (Inl e, s)
           | (Inr (x, wb), p, b) \<Rightarrow> (Inr wb, set_link (p_addr x) p, b))
      | MConditionalStore k addr v dest \<Rightarrow>
          if \<not> store_is_aligned k addr
          then (Inl (AddressError True), (fst s)\<lparr>pl_fault_vaddr := addr\<rparr>, snd s)
          else if pl_ll_bit (fst s) then
            (case store_access ops k addr v s of
               (Inl e, s) \<Rightarrow> (Inl e, s) | (Inr _, s) \<Rightarrow> (Inr (WbGpr dest 1), s))
          else (Inr (WbGpr dest 0), s)
      | MFp q addr ft \<Rightarrow> fp_access ops q addr ft s
      | MEmux funct code ptr len dest \<Rightarrow> emux ops funct code ptr len dest s
      | MCache addr opn \<Rightarrow> cache_op ops addr opn s
      | MUnaligned q addr rt dest \<Rightarrow> access_unaligned ops q addr rt dest s)"

end
