(* ===== verification/Pipe_Fp.thy ===== *)
theory Pipe_Fp
  imports Pipe
begin

text \<open>
  The floating-point side of the WB stage, \<^verbatim>\<open>fp_arith\<close> and its helpers in \<^verbatim>\<open>pipeline.rs\<close>: the
  result an operation would commit, its flags, and whether the hardware leaves it to software, then
  the commit or the trap. The helpers read registers and control and change neither.
\<close>

datatype fp_commit = CommitS u32 | CommitD u64 | CommitC bool

type_synonym fp_result = "fp_commit \<times> flags \<times> bool"

definition f64_abs_ge_2_53 :: "f64 \<Rightarrow> bool" where
  "f64_abs_ge_2_53 v = f64_le 0x4340000000000000 (fabs_bits v)"

definition fcsr_traps_now :: "pipeline \<Rightarrow> bool" where
  "fcsr_traps_now p =
     (let c = fcsr (pl_cop1 p)
      in c AND CAUSE_UNIMPLEMENTED \<noteq> 0 \<or> shr c 12 AND enables (pl_cop1 p) \<noteq> 0)"

definition underflow_traps :: "pipeline \<Rightarrow> bool" where
  "underflow_traps p = (enables (pl_cop1 p) AND 3 \<noteq> 0)"

section \<open>Results\<close>

definition subnormal_policy_s :: "pipeline \<Rightarrow> f32 outcome \<Rightarrow> rounding \<Rightarrow> fp_result" where
  "subnormal_policy_s p out m =
     (if \<not> is_subnormal_f32 (oc_value out) \<and> \<not> underflow (oc_flags out)
      then (CommitS (oc_value out), oc_flags out, False)
      else if \<not> flush_denorm_to_zero (pl_cop1 p) \<or> underflow_traps p
      then (CommitS 0, flags_none, True)
      else (CommitS (flush_subnormal_f32 (oc_value out) m),
            (oc_flags out)\<lparr>underflow := True, inexact := True\<rparr>, False))"

definition subnormal_policy_d :: "pipeline \<Rightarrow> f64 outcome \<Rightarrow> rounding \<Rightarrow> fp_result" where
  "subnormal_policy_d p out m =
     (if \<not> is_subnormal_f64 (oc_value out) \<and> \<not> underflow (oc_flags out)
      then (CommitD (oc_value out), oc_flags out, False)
      else if \<not> flush_denorm_to_zero (pl_cop1 p) \<or> underflow_traps p
      then (CommitD 0, flags_none, True)
      else (CommitD (flush_subnormal_f64 (oc_value out) m),
            (oc_flags out)\<lparr>underflow := True, inexact := True\<rparr>, False))"

definition fp_sqrt :: "pipeline \<Rightarrow> u8 \<Rightarrow> u8 \<Rightarrow> bool \<Rightarrow> rounding \<Rightarrow> fp_result" where
  "fp_sqrt p fm fs fr m =
     (if fm = 16 then
        let a = read_s_fs (pl_fpr p) fs fr
        in if is_subnormal_f32 a \<or> is_unimplemented_nan_f32 a then (CommitS 0, flags_none, True)
           else let r = sf_sqrt (to_u64 a) F32 m in (CommitS (to_u32 (r_bits r)), r_flags r, False)
      else
        let a = read_d_fs (pl_fpr p) fs fr
        in if is_subnormal_f64 a \<or> is_unimplemented_nan_f64 a then (CommitD 0, flags_none, True)
           else let r = sf_sqrt a F64 m in (CommitD (r_bits r), r_flags r, False))"

definition fp_binary :: "pipeline \<Rightarrow> u8 \<Rightarrow> u8 \<Rightarrow> u8 \<Rightarrow> u8 \<Rightarrow> bool \<Rightarrow> rounding \<Rightarrow> fp_result" where
  "fp_binary p fm funct ft fs fr m =
     (if fm = 16 then
        let a = read_s_fs (pl_fpr p) fs fr; b = read_s_ft (pl_fpr p) ft fr
        in if arith_unimplemented_s a b then (CommitS 0, flags_none, True)
           else subnormal_policy_s p
             (if funct = 0 then add_s a b m else if funct = 1 then sub_s a b m
              else if funct = 2 then mul_s a b m else div_s a b m) m
      else
        let a = read_d_fs (pl_fpr p) fs fr; b = read_d_ft (pl_fpr p) ft fr
        in if arith_unimplemented_d a b then (CommitD 0, flags_none, True)
           else subnormal_policy_d p
             (if funct = 0 then add_d a b m else if funct = 1 then sub_d a b m
              else if funct = 2 then mul_d a b m else div_d a b m) m)"

definition fp_source_as_f64 :: "pipeline \<Rightarrow> u8 \<Rightarrow> u8 \<Rightarrow> bool \<Rightarrow> f64" where
  "fp_source_as_f64 p fm fs fr =
     (if fm = 16 then f64_of_f32 (read_s_fs (pl_fpr p) fs fr) else read_d_fs (pl_fpr p) fs fr)"

definition integer_conversion_unimplemented :: "pipeline \<Rightarrow> u8 \<Rightarrow> u8 \<Rightarrow> bool \<Rightarrow> bool" where
  "integer_conversion_unimplemented p fm fs fr =
     (if fm \<noteq> 16 \<and> fm \<noteq> 17 then True
      else if fm = 16 then
        let a = read_s_fs (pl_fpr p) fs fr
        in is_subnormal_f32 a \<or> f64_abs_ge_2_53 (f64_of_f32 a)
      else
        let a = read_d_fs (pl_fpr p) fs fr
        in is_subnormal_f64 a \<or> f64_abs_ge_2_53 a)"

definition commit_i32 :: "u32 outcome \<Rightarrow> fp_result" where
  "commit_i32 out = (if invalid (oc_flags out) then (CommitS 0, flags_none, True)
     else (CommitS (oc_value out), oc_flags out, False))"

definition commit_i64 :: "u64 outcome \<Rightarrow> fp_result" where
  "commit_i64 out = (if invalid (oc_flags out) then (CommitD 0, flags_none, True)
     else (CommitD (oc_value out), oc_flags out, False))"

definition fp_to_integer :: "pipeline \<Rightarrow> u8 \<Rightarrow> u8 \<Rightarrow> u8 \<Rightarrow> bool \<Rightarrow> fp_result" where
  "fp_to_integer p fm funct fs fr =
     (let k = funct AND 3;
          m = (if k = 0 then Nearest else if k = 1 then TowardZero
               else if k = 2 then TowardPlusInf else TowardMinusInf)
      in if integer_conversion_unimplemented p fm fs fr then (CommitS 0, flags_none, True)
         else let v = fp_source_as_f64 p fm fs fr
              in if funct < 12 then commit_i64 (to_i64 v m) else commit_i32 (to_i32 v m))"

text \<open>A word read as a signed 32-bit integer, widened; the arms of \<^verbatim>\<open>cvt.s\<close> and \<^verbatim>\<open>cvt.d\<close>.\<close>

definition fp_cvt_s :: "pipeline \<Rightarrow> u8 \<Rightarrow> u8 \<Rightarrow> bool \<Rightarrow> rounding \<Rightarrow> fp_result" where
  "fp_cvt_s p fm fs fr m =
     (if fm = 17 then
        let a = read_d_fs (pl_fpr p) fs fr
        in if is_subnormal_f64 a \<or> is_unimplemented_nan_f64 a then (CommitS 0, flags_none, True)
           else let r = sf_convert a F64 F32 m
                in subnormal_policy_s p \<lparr>oc_value = to_u32 (r_bits r), oc_flags = r_flags r\<rparr> m
      else if fm = 20 then
        let r = from_int (scast (read_s_fs (pl_fpr p) fs fr)) F32 m
        in (CommitS (to_u32 (r_bits r)), r_flags r, False)
      else
        let v = read_d_fs (pl_fpr p) fs fr
        in if long_convertible v then
             let r = from_int v F32 m in (CommitS (to_u32 (r_bits r)), r_flags r, False)
           else (CommitS 0, flags_none, True))"

definition fp_cvt_d :: "pipeline \<Rightarrow> u8 \<Rightarrow> u8 \<Rightarrow> bool \<Rightarrow> rounding \<Rightarrow> fp_result" where
  "fp_cvt_d p fm fs fr m =
     (if fm = 16 then
        let a = read_s_fs (pl_fpr p) fs fr
        in if is_subnormal_f32 a \<or> is_unimplemented_nan_f32 a then (CommitD 0, flags_none, True)
           else let r = sf_convert (to_u64 a) F32 F64 m in (CommitD (r_bits r), r_flags r, False)
      else if fm = 20 then
        let r = from_int (scast (read_s_fs (pl_fpr p) fs fr)) F64 m
        in (CommitD (r_bits r), r_flags r, False)
      else
        let v = read_d_fs (pl_fpr p) fs fr
        in if long_convertible v then
             let r = from_int v F64 m in (CommitD (r_bits r), r_flags r, False)
           else (CommitD 0, flags_none, True))"

definition fp_convert :: "pipeline \<Rightarrow> u8 \<Rightarrow> u8 \<Rightarrow> u8 \<Rightarrow> bool \<Rightarrow> rounding \<Rightarrow> fp_result" where
  "fp_convert p fm funct fs fr m =
     (if funct = 32 then fp_cvt_s p fm fs fr m
      else if funct = 33 then fp_cvt_d p fm fs fr m
      else if funct = 36 then
        (if integer_conversion_unimplemented p fm fs fr then (CommitS 0, flags_none, True)
         else commit_i32 (to_i32 (fp_source_as_f64 p fm fs fr) m))
      else if integer_conversion_unimplemented p fm fs fr then (CommitD 0, flags_none, True)
      else commit_i64 (to_i64 (fp_source_as_f64 p fm fs fr) m))"

definition fp_compare :: "pipeline \<Rightarrow> u8 \<Rightarrow> u8 \<Rightarrow> u8 \<Rightarrow> u8 \<Rightarrow> bool \<Rightarrow> fp_result" where
  "fp_compare p fm cond ft fs fr =
     (let out = (if fm = 16
            then compare_s (read_s_fs (pl_fpr p) fs fr) (read_s_ft (pl_fpr p) ft fr) cond
            else compare_d (read_d_fs (pl_fpr p) fs fr) (read_d_ft (pl_fpr p) ft fr) cond)
      in (CommitC (oc_value out), oc_flags out, False))"

section \<open>Commit or trap\<close>

definition set_fcsr :: "u32 \<Rightarrow> pipeline \<Rightarrow> pipeline" where
  "set_fcsr v p = p\<lparr>pl_cop1 := ctc1 31 v (pl_cop1 p)\<rparr>"

definition fp_trap :: "u32 \<Rightarrow> u32 \<Rightarrow> pipeline \<Rightarrow> pipeline" where
  "fp_trap old raised p =
     abort_from Wb FloatingPoint (set_fcsr ((old AND NOT CAUSE_MASK) OR (raised AND CAUSE_MASK)) p)"

definition raised_bits :: "flags \<Rightarrow> bool \<Rightarrow> u32" where
  "raised_bits f unimplemented = to_fcsr_bits f OR (if unimplemented then CAUSE_UNIMPLEMENTED else 0)"

definition fp_sign_result :: "pipeline \<Rightarrow> u8 \<Rightarrow> u8 \<Rightarrow> u8 \<Rightarrow> bool \<Rightarrow> u64 \<times> flags \<times> bool" where
  "fp_sign_result p fm funct fs fr =
     (if fm = 16 then
        let a = read_s_fs (pl_fpr p) fs fr
        in if is_subnormal_f32 a \<or> is_unimplemented_nan_f32 a then (0, flags_none, True)
           else if is_snan_f32 a then (to_u64 (to_u32 (default_nan F32)), flags_invalid, False)
           else (to_u64 (if funct = 5 then abs_s a else neg_s a), flags_none, False)
      else
        let a = read_d_fs (pl_fpr p) fs fr
        in if is_subnormal_f64 a \<or> is_unimplemented_nan_f64 a then (0, flags_none, True)
           else if is_snan_f64 a then (default_nan F64, flags_invalid, False)
           else (if funct = 5 then abs_d a else neg_d a, flags_none, False))"

definition fp_sign_op :: "u8 \<Rightarrow> u8 \<Rightarrow> u8 \<Rightarrow> u8 \<Rightarrow> bool \<Rightarrow> pipeline \<Rightarrow> bool \<times> pipeline" where
  "fp_sign_op fm funct fs fd fr p =
     (let old = fcsr (pl_cop1 p);
          (v, fl, unimplemented) = fp_sign_result p fm funct fs fr;
          raised = raised_bits fl unimplemented
      in if unimplemented then (True, fp_trap old raised p)
         else if invalid fl \<and> enables (pl_cop1 p) AND shl 1 4 \<noteq> 0 then (True, fp_trap old raised p)
         else
           let p = p\<lparr>pl_fpr := (if fm = 16 then write_s_arith fd fr (to_u32 v) (pl_fpr p)
                 else write_d_arith fd fr v (pl_fpr p))\<rparr>
           in (False, set_fcsr ((old AND NOT CAUSE_MASK) OR raised) p))"

definition fp_result_of :: "pipeline \<Rightarrow> u8 \<Rightarrow> u8 \<Rightarrow> u8 \<Rightarrow> u8 \<Rightarrow> bool \<Rightarrow> fp_result" where
  "fp_result_of p fm funct ft fs fr =
     (let m = rounding_from_rm (rounding_mode (pl_cop1 p))
      in if funct \<le> 3 then fp_binary p fm funct ft fs fr m
         else if funct = 4 then fp_sqrt p fm fs fr m
         else if 8 \<le> funct \<and> funct \<le> 15 then fp_to_integer p fm funct fs fr
         else if funct = 32 \<or> funct = 33 \<or> funct = 36 \<or> funct = 37 then fp_convert p fm funct fs fr m
         else fp_compare p fm (funct AND 0xF) ft fs fr)"

text \<open>The boolean is true when the operation trapped and has not committed.\<close>

definition fp_arith :: "u8 \<Rightarrow> u8 \<Rightarrow> u8 \<Rightarrow> u8 \<Rightarrow> u8 \<Rightarrow> pipeline \<Rightarrow> bool \<times> pipeline" where
  "fp_arith fm funct ft fs fd p =
     (let fr = fr_of (pl_cop0 p)
      in if funct = 5 \<or> funct = 7 then fp_sign_op fm funct fs fd fr p
         else if funct = 6 then
           (False, p\<lparr>pl_fpr := write_d_arith fd fr (read_d_fs (pl_fpr p) fs fr) (pl_fpr p)\<rparr>)
         else
           let (commit, fl, unimplemented) = fp_result_of p fm funct ft fs fr;
               raised = raised_bits fl unimplemented;
               old = fcsr (pl_cop1 p)
           in if unimplemented \<or> shr raised 12 AND enables (pl_cop1 p) \<noteq> 0
              then (True, fp_trap old raised p)
              else case commit of
                CommitS v \<Rightarrow> (False, set_fcsr ((old AND NOT CAUSE_MASK) OR raised)
                  (p\<lparr>pl_fpr := write_s_arith fd fr v (pl_fpr p)\<rparr>))
              | CommitD v \<Rightarrow> (False, set_fcsr ((old AND NOT CAUSE_MASK) OR raised)
                  (p\<lparr>pl_fpr := write_d_arith fd fr v (pl_fpr p)\<rparr>))
              | CommitC c \<Rightarrow>
                  (False, set_fcsr (((old AND NOT CAUSE_MASK AND NOT FCSR_C) OR raised)
                     OR (if c then FCSR_C else 0)) p))"

end
