(* ===== verification/Pipeline.thy ===== *)
theory Pipeline
  imports Pipe_Mem Pipe_Fp Decode Regs
begin

text \<open>
  The five stages and the cycle, \<^verbatim>\<open>advance_at\<close> of \<^verbatim>\<open>pipeline.rs\<close>. Stages run from WB back to IC,
  so each consumes a latch before the stage behind it refills it. A method that also takes the
  registers or the next program counter by mutable reference returns them.
\<close>

section \<open>WB\<close>

definition wb_tlb :: "tlb_op \<Rightarrow> pipeline \<Rightarrow> pipeline" where
  "wb_tlb q p =
     (case q of
        TlbRead \<Rightarrow> p\<lparr>pl_cop0 := read_entry (unat (cop0_read (pl_cop0 p) 0 AND 0x3F)) (pl_tlb p) (pl_cop0 p)\<rparr>
      | TlbWriteIndexed \<Rightarrow> p\<lparr>pl_tlb := write_entry (unat (cop0_read (pl_cop0 p) 0 AND 0x3F)) (pl_cop0 p) (pl_tlb p)\<rparr>
      | TlbWriteRandom \<Rightarrow> p\<lparr>pl_tlb := write_entry (unat (cop0_read (pl_cop0 p) 1 AND 0x3F)) (pl_cop0 p) (pl_tlb p)\<rparr>
      | TlbProbe \<Rightarrow> p\<lparr>pl_cop0 := probe (pl_tlb p) (pl_cop0 p)\<rparr>)"

text \<open>The coprocessor access of the committing instruction; true when it trapped.\<close>

definition wb_cop0 :: "cop0_access option \<Rightarrow> pipeline \<Rightarrow> bool \<times> pipeline" where
  "wb_cop0 a p =
     (case a of
        Some (C0Cop1 (WriteFpr dest v wide)) \<Rightarrow>
          (False, p\<lparr>pl_fpr := (if wide then write_d dest (fr_of (pl_cop0 p)) v (pl_fpr p)
             else write_s dest (fr_of (pl_cop0 p)) (to_u32 v) (pl_fpr p))\<rparr>)
      | Some (C0Cop1 (WriteControl dest v)) \<Rightarrow>
          let p = p\<lparr>pl_cop1 := ctc1 dest v (pl_cop1 p)\<rparr>
          in if fcsr_traps_now p then (True, abort_from Wb FloatingPoint p) else (False, p)
      | Some (C0Cop1 (Arith fm funct ft fs fd)) \<Rightarrow>
          let (trapped, p) = fp_arith fm funct ft fs fd p
          in if trapped then (True, p) else (False, stall_pipe (fp_stall_cycles funct fm) Mci p)
      | Some (C0Tlb q) \<Rightarrow> (False, wb_tlb q p)
      | Some (C0Write dest v wide) \<Rightarrow>
          (False, p\<lparr>pl_cop0 := (if wide then dmtc0 dest v (pl_cop0 p) else mtc0 dest v (pl_cop0 p))\<rparr>)
      | _ \<Rightarrow> (False, p))"

definition wb_regs :: "write_back \<Rightarrow> regs \<Rightarrow> regs" where
  "wb_regs w r =
     (case w of NoWrite \<Rightarrow> r | WbGpr dest v \<Rightarrow> reg_write r dest v
      | WbHiLo h \<Rightarrow> r\<lparr>reg_hi := hl_hi h, reg_lo := hl_lo h\<rparr>
      | WbHi v \<Rightarrow> r\<lparr>reg_hi := v\<rparr> | WbLo v \<Rightarrow> r\<lparr>reg_lo := v\<rparr>)"

definition retire :: "pipeline \<Rightarrow> pipeline" where
  "retire p = p\<lparr>pl_retired := pl_retired p + 1, pl_cop0 := tick_random (pl_cop0 p)\<rparr>"

definition vacate_wb :: "pipeline \<Rightarrow> pipeline" where
  "vacate_wb p = p\<lparr>pl_dc_wb := (pl_dc_wb p)\<lparr>l_occupied := False\<rparr>\<rparr>"

definition live :: "latch \<Rightarrow> bool" where
  "live l \<longleftrightarrow> l_occupied l \<and> l_abort l = None"

definition wb_stage :: "regs \<times> pipeline \<Rightarrow> regs \<times> pipeline" where
  "wb_stage = (\<lambda>(r, p).
     if live (pl_dc_wb p) then
       let (trapped, p) = wb_cop0 (l_cop0 (pl_dc_wb p)) p
       in if trapped then (r, vacate_wb p)
          else (wb_regs (l_write_back (pl_dc_wb p)) r, vacate_wb (retire p))
     else (r, vacate_wb p))"

section \<open>DC\<close>

definition cop_read_value :: "pipeline \<Rightarrow> cop0_access option \<Rightarrow> (u8 \<times> u64) option" where
  "cop_read_value p a =
     (case a of
        Some (C0Cop1 (ReadFpr src dest wide)) \<Rightarrow>
          Some (dest, if wide then read_d (pl_fpr p) src (fr_of (pl_cop0 p))
            else sext32 (read_s (pl_fpr p) src (fr_of (pl_cop0 p))))
      | Some (C0Cop1 (ReadControl src dest)) \<Rightarrow> Some (dest, sext32 (cfc1 (pl_cop1 p) src))
      | Some (C0Read src dest wide) \<Rightarrow>
          Some (dest, if wide then dmfc0 (pl_cop0 p) src else mfc0 (pl_cop0 p) src)
      | _ \<Rightarrow> None)"

definition apply_cop0_read :: "pipeline \<Rightarrow> latch \<Rightarrow> latch" where
  "apply_cop0_read p l =
     (if live l then
        case cop_read_value p (l_cop0 l) of
          Some (dest, v) \<Rightarrow> l\<lparr>l_write_back := WbGpr dest v\<rparr>
        | None \<Rightarrow> l
      else l)"

definition sample_interrupt_lines :: "'b bus_ops \<Rightarrow> pipeline \<times> 'b \<Rightarrow> pipeline \<times> 'b" where
  "sample_interrupt_lines ops = (\<lambda>(p, b).
     let (irq, b) = poll_irq ops b;
         (edge, c) = timer_edge (set_ip 2 irq (pl_cop0 p))
     in (p\<lparr>pl_cop0 := (if edge then set_ip 7 True c else c)\<rparr>, b))"

definition interrupt_has_an_instruction_to_charge :: "pipeline \<Rightarrow> bool" where
  "interrupt_has_an_instruction_to_charge p =
     (l_occupied (pl_ex_dc p) \<and> l_cop0 (pl_ex_dc p) \<noteq> Some C0Eret)"

definition dc_interrupts :: "pipeline \<Rightarrow> pipeline" where
  "dc_interrupts p =
     (if pl_prev_was_run p \<and> pl_nmi_pending p then
        abort_from Dc Nmi (p\<lparr>pl_nmi_pending := False\<rparr>)
      else if pl_prev_was_run p \<and> interrupt_pending (pl_cop0 p) \<and>
          interrupt_has_an_instruction_to_charge p then abort_from Dc Interrupt p
      else p)"

definition dc_memory :: "'b bus_ops \<Rightarrow> pipeline \<times> 'b \<Rightarrow> latch \<times> pipeline \<times> 'b" where
  "dc_memory ops = (\<lambda>(p, b).
     let out = pl_ex_dc p
     in case l_mem out of
          Some m \<Rightarrow>
            if live out then
              case mem_access ops m (p, b) of
                (Inr wb, s) \<Rightarrow> (out\<lparr>l_write_back := wb\<rparr>, s)
              | (Inl e, p, b) \<Rightarrow>
                  let p = abort_with Dc e (pl_fault_vaddr p) p in (pl_ex_dc p, p, b)
            else (out, p, b)
        | None \<Rightarrow> (out, p, b))"

definition dc_stage :: "'b bus_ops \<Rightarrow> pipeline \<times> 'b \<Rightarrow> pipeline \<times> 'b" where
  "dc_stage ops s =
     (let (p, b) = sample_interrupt_lines ops s;
          (out, p, b) = dc_memory ops (dc_interrupts p, b)
      in (p\<lparr>pl_dc_wb := apply_cop0_read p out,
            pl_ex_dc := (pl_ex_dc p)\<lparr>l_occupied := False\<rparr>\<rparr>, b))"

section \<open>EX\<close>

definition bypass :: "pipeline \<Rightarrow> u8 \<Rightarrow> regs \<Rightarrow> u64" where
  "bypass p reg r =
     (case l_write_back (pl_dc_wb p) of
        WbGpr dest v \<Rightarrow>
          if reg \<noteq> 0 \<and> live (pl_dc_wb p) \<and> dest = reg then v else reg_read r reg
      | _ \<Rightarrow> reg_read r reg)"

definition bypass_hi_lo :: "pipeline \<Rightarrow> regs \<Rightarrow> hilo" where
  "bypass_hi_lo p r =
     (let plain = \<lparr>hl_hi = reg_hi r, hl_lo = reg_lo r\<rparr>
      in if live (pl_dc_wb p) then
           (case l_write_back (pl_dc_wb p) of
              WbHiLo h \<Rightarrow> h
            | WbHi v \<Rightarrow> \<lparr>hl_hi = v, hl_lo = reg_lo r\<rparr>
            | WbLo v \<Rightarrow> \<lparr>hl_hi = reg_hi r, hl_lo = v\<rparr>
            | _ \<Rightarrow> plain)
         else plain)"

definition resolve_branch_control :: "latch \<Rightarrow> u8 option \<Rightarrow> redirect option \<Rightarrow> u64 \<Rightarrow> pipeline \<Rightarrow>
    latch \<times> u64 \<times> pipeline" where
  "resolve_branch_control out lnk red next_pc p =
     (let faulted = (has_delay_slot (d_op (l_decoded out)) \<and> l_occupied (pl_ic_rf p) \<and>
            l_in_delay_slot (pl_ic_rf p) \<and> l_abort (pl_ic_rf p) \<noteq> None);
          out = (case lnk of
              Some dest \<Rightarrow> out\<lparr>l_write_back := WbGpr dest (if faulted then l_pc out + 8 else next_pc)\<rparr>
            | None \<Rightarrow> out)
      in case red of
           Some x \<Rightarrow>
             if faulted then (out, next_pc, p)
             else (out, rd_target x,
               if nullify_delay_slot x then p\<lparr>pl_ic_rf := EMPTY_LATCH\<rparr> else p)
         | None \<Rightarrow> (out, next_pc, p))"

text \<open>The condition a comparison still in flight would set; \<open>None\<close> when there is none, or when the
  comparison in flight would not commit.\<close>

definition compare_in :: "latch \<Rightarrow> (u8 \<times> u8 \<times> u8 \<times> u8) option" where
  "compare_in l =
     (if \<not> l_occupied l then None
      else case l_cop0 l of
        Some (C0Cop1 (Arith fm funct ft fs fd)) \<Rightarrow> if funct \<ge> 48 then Some (fm, funct, ft, fs) else None
      | _ \<Rightarrow> None)"

definition condition_of :: "pipeline \<Rightarrow> u8 \<times> u8 \<times> u8 \<times> u8 \<Rightarrow> bool option" where
  "condition_of p = (\<lambda>(fm, funct, ft, fs).
     case fp_compare p fm (funct AND 0xF) ft fs (fr_of (pl_cop0 p)) of
       (CommitC c, fl, False) \<Rightarrow> Some c
     | _ \<Rightarrow> None)"

definition pending_fp_condition :: "pipeline \<Rightarrow> bool option" where
  "pending_fp_condition p =
     (case compare_in (pl_ex_dc p) of
        Some q \<Rightarrow> condition_of p q
      | None \<Rightarrow> (case compare_in (pl_dc_wb p) of Some q \<Rightarrow> condition_of p q | None \<Rightarrow> None))"

definition cop2_result :: "decoded \<Rightarrow> u64 \<Rightarrow> write_back \<Rightarrow> pipeline \<Rightarrow> write_back \<times> pipeline" where
  "cop2_result d rt wb p =
     (if d_op d = Cop2Op Mtc2 then (wb, p\<lparr>pl_cop2_latch := rt\<rparr>)
      else if d_op d = Cop2Op Mfc2 then (WbGpr (d_dest d) (sext32 (to_u32 (pl_cop2_latch p))), p)
      else if d_op d = Cop2Op Dmfc2 then (WbGpr (d_dest d) (pl_cop2_latch p), p)
      else (wb, p))"

text \<open>What EX does with the result of an instruction that executed.\<close>

definition ex_commit :: "latch \<Rightarrow> executed \<Rightarrow> u64 \<times> pipeline \<Rightarrow> latch \<times> u64 \<times> pipeline" where
  "ex_commit out e = (\<lambda>(next_pc, p).
     let (wb, p) = cop2_result (l_decoded out) (l_rt_val out) (write_back e) p;
         out = out\<lparr>l_write_back := wb, l_mem := mem e, l_cop0 := cop0 e\<rparr>;
         (out, next_pc, p) = resolve_branch_control out (link e) (redirect e) next_pc p;
         p = (if stall_cycles e > 0 then stall_pipe (stall_cycles e) Mci p else p)
     in if cop0 e = Some C0Eret then
          let (target, c) = eret (pl_cop0 p)
          in (out, target, p\<lparr>pl_cop0 := c, pl_ll_bit := False, pl_ic_rf := EMPTY_LATCH\<rparr>)
        else (out, next_pc, p))"

definition vacate_rf_ex :: "pipeline \<Rightarrow> pipeline" where
  "vacate_rf_ex p = p\<lparr>pl_rf_ex := (pl_rf_ex p)\<lparr>l_occupied := False\<rparr>\<rparr>"

definition ex_stage :: "regs \<Rightarrow> u64 \<times> pipeline \<Rightarrow> u64 \<times> pipeline" where
  "ex_stage r = (\<lambda>(next_pc, p).
     let out = pl_rf_ex p
     in if \<not> live out then (next_pc, vacate_rf_ex (p\<lparr>pl_ex_dc := out\<rparr>))
        else
          let d = l_decoded out;
              out = out\<lparr>l_rs_val := bypass p (d_rs d) r, l_rt_val := bypass p (d_rt d) r\<rparr>;
              hilo = bypass_hi_lo p r
          in case ex_gate d p of
               (Some e, p) \<Rightarrow>
                 let p = abort_from Ex e p; out = pl_rf_ex p
                 in (next_pc, (vacate_rf_ex p)\<lparr>pl_ex_dc := out\<rparr>)
             | (None, p) \<Rightarrow>
                 let cond = (case pending_fp_condition p of Some c \<Rightarrow> c
                       | None \<Rightarrow> fcsr (pl_cop1 p) AND FCSR_C \<noteq> 0)
                 in case execute d (l_rs_val out) (l_rt_val out) hilo (l_pc out) cond of
                      Inr e \<Rightarrow>
                        let (out, next_pc, p) = ex_commit out e (next_pc, p)
                        in (next_pc, vacate_rf_ex (p\<lparr>pl_ex_dc := out\<rparr>))
                    | Inl e \<Rightarrow>
                        let p = abort_from Ex e p
                        in (next_pc, vacate_rf_ex (p\<lparr>pl_ex_dc := pl_rf_ex p\<rparr>)))"

section \<open>RF\<close>

definition rf_stage :: "regs \<Rightarrow> pipeline \<Rightarrow> pipeline" where
  "rf_stage r p =
     (let out = pl_ic_rf p;
          out = (if l_occupied out
                 then out\<lparr>l_rs_val := reg_read r (d_rs (l_decoded out)), l_rt_val := reg_read r (d_rt (l_decoded out))\<rparr>
                 else out);
          d = l_decoded (pl_ex_dc p); q = l_decoded out;
          p = (if l_occupied out \<and> l_occupied (pl_ex_dc p) \<and> is_load d \<and>
                  load_interlocks (d_dest d) (d_rs q) (d_rt q) (targets_fpr d = targets_fpr q)
               then stall_pipe 1 Ldi p else p)
      in p\<lparr>pl_rf_ex := out, pl_ic_rf := (pl_ic_rf p)\<lparr>l_occupied := False\<rparr>\<rparr>)"

section \<open>IC\<close>

text \<open>The physical address of a fetch and whether it is cached; a miss of the micro-TLB refills it
  and stalls.\<close>

definition fetch_mapped :: "u64 \<Rightarrow> pipeline \<Rightarrow> (exn + u32 \<times> cached) \<times> pipeline" where
  "fetch_mapped pc p =
     (let ac = access_mode p; asid = asid_of p;
          (hit, t) = itlb_probe pc asid (pl_tlb p);
          p = p\<lparr>pl_tlb := t\<rparr>;
          p = (if \<not> hit \<and> jtlb_has_match t pc asid
               then stall_pipe ITLB_MISS_PCYCLES Itm (p\<lparr>pl_tlb := itlb_fill pc asid t\<rparr>) else p)
      in case lookup (pl_tlb p) pc asid False of
           (Inr x, t) \<Rightarrow> (Inr (t_addr x, if t_uncached x then CachedNo else CachedYes), p\<lparr>pl_tlb := t\<rparr>)
         | (Inl f, t) \<Rightarrow> (Inl (tlb_exception f False (a_wide ac)), p\<lparr>pl_tlb := t\<rparr>))"

definition fetch_address :: "u64 \<Rightarrow> pipeline \<Rightarrow> (exn + u32 \<times> cached) \<times> pipeline" where
  "fetch_address pc p =
     (case segment_of pc (access_mode p) of
        Direct a c \<Rightarrow> (Inr (a, c), p)
      | InvalidSeg \<Rightarrow> (Inl (AddressError False), p)
      | Mapped \<Rightarrow> fetch_mapped pc p)"

definition fetch_cached :: "'b bus_ops \<Rightarrow> u32 \<Rightarrow> pipeline \<times> 'b \<Rightarrow> u32 \<times> pipeline \<times> 'b" where
  "fetch_cached ops a = (\<lambda>(p, b).
     let (ic, st, b) = (if \<not> i_hits (pl_icache p) a then icache_fill ops a (pl_icache p, pl_stall p, b)
           else (pl_icache p, pl_stall p, b))
     in (i_read_word ic a, p\<lparr>pl_icache := ic, pl_stall := st\<rparr>, b))"

definition fetch_word :: "'b bus_ops \<Rightarrow> u64 \<Rightarrow> pipeline \<times> 'b \<Rightarrow> (exn + u32) \<times> pipeline \<times> 'b" where
  "fetch_word ops pc = (\<lambda>(p, b).
     if pc mod 4 \<noteq> 0 then (Inl (AddressError False), p, b)
     else case fetch_address pc p of
       (Inl e, p) \<Rightarrow> (Inl e, p, b)
     | (Inr (a, c), p) \<Rightarrow>
         let a = (if reverse_endian p then a XOR re_swap 4 else a)
         in if c = CachedYes then let (w, s) = fetch_cached ops a (p, b) in (Inr w, s)
            else let (w, b) = rd32 ops a b in (Inr w, p, b))"

definition ic_stage :: "'b bus_ops \<Rightarrow> u64 \<times> pipeline \<times> 'b \<Rightarrow> u64 \<times> pipeline \<times> 'b" where
  "ic_stage ops = (\<lambda>(next_pc, p, b).
     if pl_flush_pending p then (next_pc, p\<lparr>pl_ic_rf := EMPTY_LATCH\<rparr>, b)
     else
       let pc = next_pc;
           in_delay_slot = (l_occupied (pl_rf_ex p) \<and> has_delay_slot (d_op (l_decoded (pl_rf_ex p))))
       in case fetch_word ops pc (p, b) of
            (Inl e, p, b) \<Rightarrow>
              (next_pc, abort_with Ic e pc
                (p\<lparr>pl_ic_rf := EMPTY_LATCH\<lparr>l_occupied := True, l_pc := pc,
                   l_in_delay_slot := in_delay_slot, l_abort := Some e\<rparr>\<rparr>), b)
          | (Inr w, p, b) \<Rightarrow>
              (pc + 4, p\<lparr>pl_ic_rf := \<lparr>l_occupied = True, l_pc = pc, l_word = w,
                 l_in_delay_slot = in_delay_slot, l_abort = None, l_decoded = decode w, l_rs_val = 0,
                 l_rt_val = 0, l_write_back = NoWrite, l_mem = None, l_cop0 = None\<rparr>\<rparr>, b))"

section \<open>The cycle\<close>

definition take_pending :: "u64 \<times> pipeline \<Rightarrow> u64 \<times> pipeline" where
  "take_pending = (\<lambda>(next_pc, p).
     case pl_pending p of
       None \<Rightarrow> (next_pc, p)
     | Some q \<Rightarrow>
         let (d, c) = dispatch (pe_exc q) (pe_pc q) (pe_in_delay_slot q) (pe_bad_vaddr q) (pl_cop0 p)
         in (dp_vector d, stall_pipe (dp_stall d) ExceptionIl (p\<lparr>pl_pending := None, pl_cop0 := c\<rparr>)))"

definition stall_cycle :: "stall \<Rightarrow> pipeline \<Rightarrow> pipeline" where
  "stall_cycle s p =
     (let n = (if st_cycles s = 0 then 0 else st_cycles s - 1)
      in p\<lparr>pl_stall := (if n = 0 then None else Some (s\<lparr>st_cycles := n\<rparr>)), pl_prev_was_run := False\<rparr>)"

definition run_stages :: "'b bus_ops \<Rightarrow> regs \<times> u64 \<times> pipeline \<times> 'b \<Rightarrow> regs \<times> u64 \<times> pipeline \<times> 'b" where
  "run_stages ops = (\<lambda>(r, next_pc, p, b).
     let (r, p) = wb_stage (r, p);
         (p, b) = dc_stage ops (p, b);
         (next_pc, p) = ex_stage r (next_pc, p);
         p = rf_stage r p;
         (next_pc, p, b) = ic_stage ops (next_pc, p, b);
         p = p\<lparr>pl_prev_was_run := True, pl_flush_pending := False\<rparr>;
         (next_pc, p) = take_pending (next_pc, p)
     in (r, next_pc, p, b))"

definition advance_at :: "'b bus_ops \<Rightarrow> u64 \<Rightarrow> regs \<times> u64 \<times> pipeline \<times> 'b \<Rightarrow> regs \<times> u64 \<times> pipeline \<times> 'b" where
  "advance_at ops count_now = (\<lambda>(r, next_pc, p, b).
     let p = p\<lparr>pl_cop0 := set_now count_now (pl_cop0 p)\<rparr>
     in case pl_stall p of
          Some s \<Rightarrow> (r, next_pc, stall_cycle s p, b)
        | None \<Rightarrow> run_stages ops (r, next_pc, p, b))"

definition advance :: "'b bus_ops \<Rightarrow> regs \<times> u64 \<times> pipeline \<times> 'b \<Rightarrow> regs \<times> u64 \<times> pipeline \<times> 'b" where
  "advance ops s = advance_at ops (now (pl_cop0 (fst (snd (snd s))))) s"

end
