(* ===== verification/Fast.thy ===== *)
theory Fast
  imports Pipeline
begin

text \<open>
  The instruction-level engine, \<^verbatim>\<open>pipeline/fastexec.rs\<close>, and the processor that owns registers,
  program counter and pipeline, \<^verbatim>\<open>Cpu\<close> of \<^verbatim>\<open>rustyn64-cpu/src/lib.rs\<close>. An instruction with its
  delay slots is one step; a branch in a delay slot chains to its target, so the loop of
  \<^verbatim>\<open>step_instruction\<close> need not end and is a \<open>partial_function\<close>: \<open>None\<close> is a step that never
  returns. The \<^verbatim>\<open>debug_assert\<close> on the length of such a chain exists in debug builds only.
\<close>

section \<open>One instruction\<close>

definition SELF_BRANCH :: u32 where "SELF_BRANCH = 0x1000FFFF"
definition SLOT_NOP :: u32 where "SLOT_NOP = 0"
definition IDLE_LOOP_PCYCLES :: u32 where "IDLE_LOOP_PCYCLES = 2"

datatype flow = FlNext | FlBranch (fl_target: u64) (fl_annul: bool) | FlRedirected

type_synonym 'b fast_state = "regs \<times> u64 \<times> pipeline \<times> 'b"

definition sat32_add :: "u32 \<Rightarrow> u32 \<Rightarrow> u32" where
  "sat32_add a b = (if unat a + unat b < 2 ^ 32 then a + b else 0xFFFFFFFF)"

definition take_stall_cost :: "pipeline \<Rightarrow> u32 \<times> pipeline" where
  "take_stall_cost p = (case pl_stall p of Some s \<Rightarrow> st_cycles s | None \<Rightarrow> 0, p\<lparr>pl_stall := None\<rparr>)"

definition vector_to :: "exn \<Rightarrow> u64 \<Rightarrow> bool \<Rightarrow> u64 \<Rightarrow> pipeline \<Rightarrow> u32 \<times> u64 \<times> pipeline" where
  "vector_to e pc in_delay_slot bad p =
     (let p = p\<lparr>pl_idle_pc := None\<rparr>;
          (d, c) = dispatch e pc in_delay_slot bad (pl_cop0 p)
      in (dp_stall d, dp_vector d, p\<lparr>pl_cop0 := c, pl_stall := None\<rparr>))"

definition recognize_idle_loop :: "'b bus_ops \<Rightarrow> u32 \<Rightarrow> u64 \<Rightarrow> bool \<Rightarrow> pipeline \<times> 'b \<Rightarrow> pipeline \<times> 'b" where
  "recognize_idle_loop ops w pc in_delay_slot s =
     (if w \<noteq> SELF_BRANCH \<or> in_delay_slot \<or> pl_idle_pc (fst s) \<noteq> None then s
      else
        let (x, p, b) = fetch_word ops (pc + 4) s;
            p = (if x = Inr SLOT_NOP then p\<lparr>pl_idle_pc := Some pc\<rparr> else p)
        in (snd (take_stall_cost p), b))"

definition flow_of :: "redirect option \<Rightarrow> flow" where
  "flow_of r = (case r of None \<Rightarrow> FlNext | Some x \<Rightarrow> FlBranch (rd_target x) (nullify_delay_slot x))"

text \<open>An exception raised by the instruction at \<open>pc\<close>: the cost of the step so far plus its entry.\<close>

definition redirect_to :: "exn \<Rightarrow> u64 \<Rightarrow> bool \<Rightarrow> u64 \<Rightarrow> u32 \<Rightarrow> regs \<Rightarrow> pipeline \<Rightarrow> 'b \<Rightarrow>
    (u32 \<times> flow) \<times> 'b fast_state" where
  "redirect_to e pc in_delay_slot bad cost r p b =
     (let (c, v, p) = vector_to e pc in_delay_slot bad p
      in ((sat32_add cost c, FlRedirected), r, v, p, b))"

text \<open>The short path: no coprocessor and no memory access, and at most one register to write.\<close>

definition finish_simple :: "write_back \<Rightarrow> executed \<Rightarrow> u32 \<Rightarrow> 'b fast_state \<Rightarrow>
    (u32 \<times> flow) \<times> 'b fast_state" where
  "finish_simple w e cost = (\<lambda>(r, next_pc, p, b).
     ((cost, flow_of (redirect e)), wb_regs w r, next_pc, retire p, b))"

text \<open>The long path runs the latch through the memory access, the coprocessor read and WB.\<close>

definition finish_latch :: "latch \<Rightarrow> executed \<Rightarrow> u32 \<Rightarrow> 'b fast_state \<Rightarrow>
    (u32 \<times> flow) \<times> 'b fast_state" where
  "finish_latch l e cost = (\<lambda>(r, next_pc, p, b).
     let (r, p) = wb_stage (r, p\<lparr>pl_dc_wb := apply_cop0_read p l\<rparr>)
     in case pl_pending p of
          Some q \<Rightarrow> redirect_to (pe_exc q) (pe_pc q) (pe_in_delay_slot q) (pe_bad_vaddr q) cost r
            (p\<lparr>pl_pending := None\<rparr>) b
        | None \<Rightarrow>
            let (c, p) = take_stall_cost p; cost = sat32_add cost c
            in if cop0 e = Some C0Eret then
                 let (target, c) = eret (pl_cop0 p)
                 in ((cost, FlRedirected), r, target, p\<lparr>pl_cop0 := c, pl_ll_bit := False\<rparr>, b)
               else ((cost, flow_of (redirect e)), r, next_pc, p, b))"

definition link_value :: "executed \<Rightarrow> u64 \<Rightarrow> write_back \<Rightarrow> write_back" where
  "link_value e lnk w = (case link e of Some dest \<Rightarrow> WbGpr dest lnk | None \<Rightarrow> w)"

definition finish_full :: "'b bus_ops \<Rightarrow> latch \<Rightarrow> executed \<Rightarrow> u64 \<Rightarrow> u32 \<Rightarrow> 'b fast_state \<Rightarrow>
    (u32 \<times> flow) \<times> 'b fast_state" where
  "finish_full ops l e lnk cost = (\<lambda>(r, next_pc, p, b).
     case l_mem l of
       None \<Rightarrow> finish_latch (l\<lparr>l_write_back := link_value e lnk (l_write_back l)\<rparr>) e cost (r, next_pc, p, b)
     | Some m \<Rightarrow>
         (case mem_access ops m (p, b) of
            (Inl x, p, b) \<Rightarrow>
              let (c, p) = take_stall_cost p
              in redirect_to x (l_pc l) (l_in_delay_slot l) (pl_fault_vaddr p) (sat32_add cost c) r p b
          | (Inr wb, p, b) \<Rightarrow>
              let (c, p) = take_stall_cost p
              in finish_latch (l\<lparr>l_write_back := link_value e lnk wb\<rparr>) e (sat32_add cost c)
                   (r, next_pc, p, b)))"

definition writes_one_gpr :: "write_back \<Rightarrow> bool" where
  "writes_one_gpr w = (case w of NoWrite \<Rightarrow> True | WbGpr _ _ \<Rightarrow> True | _ \<Rightarrow> False)"

definition finish :: "'b bus_ops \<Rightarrow> u64 \<Rightarrow> u32 \<Rightarrow> bool \<Rightarrow> u64 \<Rightarrow> executed \<Rightarrow> u32 \<Rightarrow> 'b fast_state \<Rightarrow>
    (u32 \<times> flow) \<times> 'b fast_state" where
  "finish ops pc w in_delay_slot lnk e cost = (\<lambda>(r, next_pc, p, b).
     let d = decode w; rs = reg_read r (d_rs d); rt = reg_read r (d_rt d);
         cost = sat32_add cost (stall_cycles e);
         (wb, p) = cop2_result d rt (write_back e) p
     in if cop0 e = None \<and> mem e = None \<and> writes_one_gpr (link_value e lnk wb)
        then finish_simple (link_value e lnk wb) e cost (r, next_pc, p, b)
        else finish_full ops \<lparr>l_occupied = True, l_pc = pc, l_word = w, l_in_delay_slot = in_delay_slot,
          l_abort = None, l_decoded = d, l_rs_val = rs, l_rt_val = rt, l_write_back = wb,
          l_mem = mem e, l_cop0 = cop0 e\<rparr> e lnk cost (r, next_pc, p, b))"

definition execute_word :: "'b bus_ops \<Rightarrow> u64 \<Rightarrow> u32 \<Rightarrow> bool \<Rightarrow> u64 \<Rightarrow> u32 \<Rightarrow> 'b fast_state \<Rightarrow>
    (u32 \<times> flow) \<times> 'b fast_state" where
  "execute_word ops pc w in_delay_slot lnk cost = (\<lambda>(r, next_pc, p, b).
     let d = decode w
     in case ex_gate d p of
          (Some e, p) \<Rightarrow> redirect_to e pc in_delay_slot 0 cost r p b
        | (None, p) \<Rightarrow>
            (case execute d (reg_read r (d_rs d)) (reg_read r (d_rt d))
                \<lparr>hl_hi = reg_hi r, hl_lo = reg_lo r\<rparr> pc (fcsr (pl_cop1 p) AND FCSR_C \<noteq> 0) of
               Inl e \<Rightarrow> redirect_to e pc in_delay_slot 0 cost r p b
             | Inr e \<Rightarrow> finish ops pc w in_delay_slot lnk e cost (r, next_pc, p, b)))"

definition execute_one :: "'b bus_ops \<Rightarrow> u64 \<Rightarrow> bool \<Rightarrow> u64 \<Rightarrow> 'b fast_state \<Rightarrow>
    (u32 \<times> flow) \<times> 'b fast_state" where
  "execute_one ops pc in_delay_slot lnk = (\<lambda>(r, next_pc, p, b).
     case fetch_word ops pc (p, b) of
       (Inl e, p, b) \<Rightarrow>
         let (c, p) = take_stall_cost p
         in redirect_to e pc in_delay_slot pc (sat32_add 1 c) r p b
     | (Inr w, p, b) \<Rightarrow>
         let (c, p) = take_stall_cost p;
             (p, b) = recognize_idle_loop ops w pc in_delay_slot (p, b)
         in execute_word ops pc w in_delay_slot lnk (sat32_add 1 c) (r, next_pc, p, b))"

section \<open>A step\<close>

record cursor =
  cu_pc :: u64
  cu_fall :: u64
  cu_link :: u64
  cu_in_delay_slot :: bool
  cu_cost :: u32

partial_function (option) step_loop :: "'b bus_ops \<Rightarrow> cursor \<Rightarrow> 'b fast_state \<Rightarrow>
    (u32 \<times> 'b fast_state) option" where
  "step_loop ops k s =
     (case execute_one ops (cu_pc k) (cu_in_delay_slot k) (cu_link k) s of
        ((c, fl), r, next_pc, p, b) \<Rightarrow>
          let cost = sat32_add (cu_cost k) c
          in (case fl of
                FlRedirected \<Rightarrow> Some (cost, r, next_pc, p, b)
              | FlNext \<Rightarrow> Some (cost, r, cu_fall k, p, b)
              | FlBranch target annul \<Rightarrow>
                  if annul then Some (cost, r, target, p, b)
                  else step_loop ops \<lparr>cu_pc = cu_fall k, cu_fall = target, cu_link = target + 4,
                    cu_in_delay_slot = True, cu_cost = cost\<rparr> (r, next_pc, p, b)))"

definition cursor_at :: "u64 \<Rightarrow> cursor" where
  "cursor_at pc = \<lparr>cu_pc = pc, cu_fall = pc + 4, cu_link = pc + 8, cu_in_delay_slot = False, cu_cost = 0\<rparr>"

definition idle_skip :: "pipeline \<Rightarrow> pipeline" where
  "idle_skip p = p\<lparr>pl_retired := pl_retired p + 2, pl_cop0 := tick_random (tick_random (pl_cop0 p))\<rparr>"

definition step_instruction :: "'b bus_ops \<Rightarrow> u64 \<Rightarrow> 'b fast_state \<Rightarrow> (u32 \<times> 'b fast_state) option" where
  "step_instruction ops count_now = (\<lambda>(r, next_pc, p, b).
     let (p, b) = sample_interrupt_lines ops (p\<lparr>pl_cop0 := set_now count_now (pl_cop0 p)\<rparr>, b)
     in if pl_nmi_pending p then
          let (c, v, p) = vector_to Nmi next_pc False 0 (p\<lparr>pl_nmi_pending := False\<rparr>)
          in Some (c, r, v, p, b)
        else if interrupt_pending (pl_cop0 p) then
          let (c, v, p) = vector_to Interrupt next_pc False 0 p in Some (c, r, v, p, b)
        else if pl_idle_pc p = Some next_pc then Some (IDLE_LOOP_PCYCLES, r, next_pc, idle_skip p, b)
        else step_loop ops (cursor_at next_pc) (r, next_pc, p, b))"

section \<open>The processor\<close>

record cpu =
  cpu_regs :: regs
  cpu_pc :: u64
  cpu_pipeline :: pipeline
  cpu_retired :: u64

definition cpu_new :: cpu where
  "cpu_new = \<lparr>cpu_regs = regs_new, cpu_pc = 0xFFFFFFFFBFC00000, cpu_pipeline = pipeline_new, cpu_retired = 0\<rparr>"

definition set_pc :: "u64 \<Rightarrow> cpu \<Rightarrow> cpu" where
  "set_pc pc c = c\<lparr>cpu_pc := pc\<rparr>"

definition cpu_put :: "regs \<times> u64 \<times> pipeline \<times> 'b \<Rightarrow> cpu \<times> 'b" where
  "cpu_put = (\<lambda>(r, pc, p, b).
     (\<lparr>cpu_regs = r, cpu_pc = pc, cpu_pipeline = p, cpu_retired = pl_retired p\<rparr>, b))"

definition cpu_tick_at :: "'b bus_ops \<Rightarrow> u64 \<Rightarrow> cpu \<times> 'b \<Rightarrow> cpu \<times> 'b" where
  "cpu_tick_at ops count_now = (\<lambda>(c, b).
     cpu_put (advance_at ops count_now (cpu_regs c, cpu_pc c, cpu_pipeline c, b)))"

definition cpu_tick :: "'b bus_ops \<Rightarrow> cpu \<times> 'b \<Rightarrow> cpu \<times> 'b" where
  "cpu_tick ops = (\<lambda>(c, b). cpu_put (advance ops (cpu_regs c, cpu_pc c, cpu_pipeline c, b)))"

definition is_parked_in_idle_loop :: "cpu \<Rightarrow> bool" where
  "is_parked_in_idle_loop c = (pl_idle_pc (cpu_pipeline c) = Some (cpu_pc c))"

definition cpu_ticks_until_timer_match :: "cpu \<Rightarrow> u64" where
  "cpu_ticks_until_timer_match c = count_ticks_until_timer_match (pl_cop0 (cpu_pipeline c))"

definition retire_idle_pairs :: "u64 \<Rightarrow> cpu \<Rightarrow> cpu" where
  "retire_idle_pairs pairs c =
     (let p = cpu_pipeline c;
          p = p\<lparr>pl_retired := pl_retired p + pairs * 2, pl_cop0 := tick_random_by (pairs * 2) (pl_cop0 p)\<rparr>
      in c\<lparr>cpu_pipeline := p, cpu_retired := pl_retired p\<rparr>)"

definition step_instruction_at :: "'b bus_ops \<Rightarrow> u64 \<Rightarrow> cpu \<times> 'b \<Rightarrow> (u32 \<times> cpu \<times> 'b) option" where
  "step_instruction_at ops count_now = (\<lambda>(c, b).
     case step_instruction ops count_now (cpu_regs c, cpu_pc c, cpu_pipeline c, b) of
       None \<Rightarrow> None
     | Some (cost, s) \<Rightarrow> Some (cost, cpu_put s))"

end
