(* ===== verification/Fast_Idle.thy ===== *)
theory Fast_Idle
  imports Fast
begin

text \<open>
  The idle-loop shortcut. Operating systems park the processor on a branch to itself with an empty
  delay slot; the emulator recognises the pair and, instead of executing it, adds two to the retired
  count and ticks \<open>Random\<close> twice (\<^verbatim>\<open>step_instruction\<close>), or does so for many pairs at once
  (\<^verbatim>\<open>retire_idle_pairs\<close>). \<open>parked\<close> says that both fetches hit without changing anything; fetching
  depends on coprocessor 0 only through \<open>Status\<close> and \<open>EntryHi\<close> (\<open>fetch_reindexed\<close>).
\<close>

section \<open>What a fetch depends on\<close>

definition reindexed :: "u64 \<Rightarrow> cop0 \<Rightarrow> pipeline \<Rightarrow> pipeline" where
  "reindexed n c p = p\<lparr>pl_retired := n, pl_cop0 := c\<rparr>"

definition same_fetch :: "cop0 \<Rightarrow> cop0 \<Rightarrow> bool" where
  "same_fetch c c' \<longleftrightarrow> cop0_read c r_STATUS = cop0_read c' r_STATUS \<and> cop0_read c r_ENTRY_HI = cop0_read c' r_ENTRY_HI"

lemma reindexed_sel [simp]:
  "pl_tlb (reindexed n c p) = pl_tlb p" "pl_icache (reindexed n c p) = pl_icache p"
  "pl_stall (reindexed n c p) = pl_stall p" "pl_cop0 (reindexed n c p) = c"
  "pl_idle_pc (reindexed n c p) = pl_idle_pc p" "pl_retired (reindexed n c p) = n"
  "pl_cop1 (reindexed n c p) = pl_cop1 p"
  by (simp_all add: reindexed_def)

lemma reindexed_upd:
  "(reindexed n c p)\<lparr>pl_tlb := t\<rparr> = reindexed n c (p\<lparr>pl_tlb := t\<rparr>)"
  "(reindexed n c p)\<lparr>pl_icache := i, pl_stall := s\<rparr> = reindexed n c (p\<lparr>pl_icache := i, pl_stall := s\<rparr>)"
  "stall_pipe k x (reindexed n c p) = reindexed n c (stall_pipe k x p)"
  by (simp_all add: reindexed_def stall_pipe_def)

lemma fetch_modes_reindexed:
  assumes "same_fetch c (pl_cop0 p)"
  shows "access_mode (reindexed n c p) = access_mode p" "asid_of (reindexed n c p) = asid_of p"
    "reverse_endian (reindexed n c p) = reverse_endian p"
  using assms by (simp_all add: reindexed_def access_mode_def asid_of_def status_of_def pl_erl_def
      same_fetch_def reverse_endian_def)

lemma fetch_mapped_reindexed:
  assumes "same_fetch c (pl_cop0 p)"
  shows "fetch_mapped a (reindexed n c p) = (case fetch_mapped a p of (x, q) \<Rightarrow> (x, reindexed n c q))"
proof -
  obtain hit t where i: "itlb_probe a (asid_of p) (pl_tlb p) = (hit, t)" by (metis surj_pair)
  define up where "up p' = (\<lambda>p. if \<not> hit \<and> jtlb_has_match t a (asid_of p')
      then stall_pipe ITLB_MISS_PCYCLES Itm (p\<lparr>pl_tlb := t\<rparr>\<lparr>pl_tlb := itlb_fill a (asid_of p') t\<rparr>)
      else p\<lparr>pl_tlb := t\<rparr>)" for p'
  have r: "up p (reindexed n c p) = reindexed n c (up p p)" by (simp add: up_def reindexed_upd)
  have "fetch_mapped a (reindexed n c p) =
      (case lookup (pl_tlb (up p (reindexed n c p))) a (asid_of p) False of
         (Inr x, t) \<Rightarrow> (Inr (t_addr x, if t_uncached x then CachedNo else CachedYes), (up p (reindexed n c p))\<lparr>pl_tlb := t\<rparr>)
       | (Inl f, t) \<Rightarrow> (Inl (tlb_exception f False (a_wide (access_mode p))), (up p (reindexed n c p))\<lparr>pl_tlb := t\<rparr>))"
    "fetch_mapped a p =
      (case lookup (pl_tlb (up p p)) a (asid_of p) False of
         (Inr x, t) \<Rightarrow> (Inr (t_addr x, if t_uncached x then CachedNo else CachedYes), (up p p)\<lparr>pl_tlb := t\<rparr>)
       | (Inl f, t) \<Rightarrow> (Inl (tlb_exception f False (a_wide (access_mode p))), (up p p)\<lparr>pl_tlb := t\<rparr>))"
    by (simp_all only: fetch_mapped_def Let_def fetch_modes_reindexed[OF assms] i prod.case reindexed_sel up_def)
  then show ?thesis by (simp add: r reindexed_upd split: sum.split prod.split)
qed

lemma fetch_mapped_cop0: "fetch_mapped a p = (x, q) \<Longrightarrow> pl_cop0 q = pl_cop0 p"
  by (auto simp: fetch_mapped_def Let_def stall_pipe_def split: sum.splits prod.splits if_splits)

lemma fetch_address_cop0: "fetch_address a p = (x, q) \<Longrightarrow> pl_cop0 q = pl_cop0 p"
  using fetch_mapped_cop0 by (auto simp: fetch_address_def split: segment.splits)

lemma fetch_address_reindexed:
  assumes "same_fetch c (pl_cop0 p)"
  shows "fetch_address a (reindexed n c p) = (case fetch_address a p of (x, q) \<Rightarrow> (x, reindexed n c q))"
  by (simp add: fetch_address_def fetch_modes_reindexed[OF assms] fetch_mapped_reindexed[OF assms] split: segment.split)

lemma fetch_cached_reindexed:
  "fetch_cached ops a (reindexed n c p, b) = (case fetch_cached ops a (p, b) of (w, q, b) \<Rightarrow> (w, reindexed n c q, b))"
  by (simp add: fetch_cached_def reindexed_upd split: prod.split)

lemma fetch_reindexed:
  assumes "same_fetch c (pl_cop0 p)"
  shows "fetch_word ops a (reindexed n c p, b) =
    (case fetch_word ops a (p, b) of (x, q, b') \<Rightarrow> (x, reindexed n c q, b'))"
proof (cases "fetch_address a p")
  case (Pair x q)
  then have "reverse_endian (reindexed n c q) = reverse_endian q"
    using assms by (intro fetch_modes_reindexed) (simp add: fetch_address_cop0)
  then show ?thesis
    by (simp add: fetch_word_def fetch_address_reindexed[OF assms] Pair Let_def fetch_cached_reindexed
        split: sum.split prod.split)
qed
section \<open>The pair\<close>

lemma decode_idle:
  "decode SELF_BRANCH = \<lparr>d_op = BranchOp Beq, d_rs = 0, d_rt = 0, d_rd = 31, d_sa = 31, d_imm = 0xFFFF, d_dest = 0, d_target = 0xFFFF\<rparr>"
  "decode SLOT_NOP = \<lparr>d_op = ShiftOp Sll, d_rs = 0, d_rt = 0, d_rd = 0, d_sa = 0, d_imm = 0, d_dest = 0, d_target = 0\<rparr>"
  by (simp_all add: decode_def decode_base_def SELF_BRANCH_def SLOT_NOP_def primary_table_def special_table_def decode_table_def)

lemma cop0_read_tick_random:
  "cop0_read (tick_random c) 12 = cop0_read c 12" "cop0_read (tick_random c) 10 = cop0_read c 10"
  by (simp_all add: cop0_read_def tick_random_def set_reg_def Let_def c0_index_def is_unused_def nth_list_update)

lemma retire_reindexed: "retire p = reindexed (pl_retired p + 1) (tick_random (pl_cop0 p)) p"
  by (simp add: retire_def reindexed_def)

lemma reg_write_0 [simp]: "reg_write r 0 v = r"
  by (simp add: reg_write_def)

lemma idle_gate:
  "ex_gate (decode SELF_BRANCH) p = (None, p)" "ex_gate (decode SLOT_NOP) p = (None, p)"
  by (simp_all add: decode_idle ex_gate_def unusable_coprocessor_def cop_unit_def is_64_bit_def)

lemma idle_execute:
  "execute (decode SELF_BRANCH) a a h pc c =
     Inr \<lparr>write_back = NoWrite, stall_cycles = 0, mem = None,
       redirect = Some \<lparr>rd_target = pc, nullify_delay_slot = False\<rparr>, cop0 = None, link = None\<rparr>"
  "execute (decode SLOT_NOP) a v h pc c = Inr (nothing\<lparr>write_back := WbGpr 0 (sll v 0)\<rparr>)"
proof -
  have m: "4 + NOT (mask 2) = (0 :: u64)" by (simp add: not_eq_complement mask_eq_exp_minus_1)
  show "execute (decode SELF_BRANCH) a a h pc c =
     Inr \<lparr>write_back = NoWrite, stall_cycles = 0, mem = None,
       redirect = Some \<lparr>rd_target = pc, nullify_delay_slot = False\<rparr>, cop0 = None, link = None\<rparr>"
    by (simp add: decode_idle execute_def branch_def control_def link_of_def sext_imm_def m)
qed (simp add: decode_idle execute_def gpr_result_def)

lemma idle_execute_word:
  "execute_word ops pc SELF_BRANCH ds lnk cost (r, next_pc, p, b) =
     ((cost, FlBranch pc False), r, next_pc, retire p, b)"
  "execute_word ops pc SLOT_NOP ds lnk cost (r, next_pc, p, b) =
     ((cost, FlNext), r, next_pc, retire p, b)"
proof -
  have z: "d_rs (decode SELF_BRANCH) = 0" "d_rt (decode SELF_BRANCH) = 0"
    and nc: "cop2_result (decode SELF_BRANCH) a w q = (w, q)" "cop2_result (decode SLOT_NOP) a w q = (w, q)" for a w q
    by (simp_all add: decode_idle cop2_result_def)
  have s: "sat32_add c 0 = c" for c using unsigned_less[where ?'a = nat, of c] by (simp add: sat32_add_def)
  show "execute_word ops pc SELF_BRANCH ds lnk cost (r, next_pc, p, b) =
     ((cost, FlBranch pc False), r, next_pc, retire p, b)"
    by (simp add: execute_word_def idle_gate idle_execute z finish_def Let_def nc link_value_def
        writes_one_gpr_def finish_simple_def flow_of_def wb_regs_def s)
  show "execute_word ops pc SLOT_NOP ds lnk cost (r, next_pc, p, b) =
     ((cost, FlNext), r, next_pc, retire p, b)"
    by (simp add: execute_word_def idle_gate idle_execute finish_def Let_def nc link_value_def nothing_def
        writes_one_gpr_def finish_simple_def flow_of_def wb_regs_def s)
qed

definition fetches :: "'b bus_ops \<Rightarrow> u64 \<Rightarrow> u32 \<Rightarrow> pipeline \<times> 'b \<Rightarrow> bool" where
  "fetches ops pc w s \<longleftrightarrow> fetch_word ops pc s = (Inr w, s)"

definition parked :: "'b bus_ops \<Rightarrow> u64 \<Rightarrow> pipeline \<times> 'b \<Rightarrow> bool" where
  "parked ops pc s \<longleftrightarrow> pl_idle_pc (fst s) = Some pc \<and> pl_stall (fst s) = None \<and>
     fetches ops pc SELF_BRANCH s \<and> fetches ops (pc + 4) SLOT_NOP s"

lemma parked_retire: "parked ops pc (p, b) \<Longrightarrow> parked ops pc (retire p, b)"
proof -
  have "same_fetch (tick_random (pl_cop0 p)) (pl_cop0 p)" by (simp add: same_fetch_def cop0_read_tick_random)
  then show "parked ops pc (p, b) \<Longrightarrow> parked ops pc (retire p, b)"
    by (simp add: parked_def fetches_def retire_reindexed fetch_reindexed)
qed

lemma no_stall: "pl_stall p = None \<Longrightarrow> p\<lparr>pl_stall := None\<rparr> = p"
  by (cases p) simp

lemma parked_execute_one:
  assumes "parked ops pc (p, b)"
  shows "execute_one ops pc ds lnk (r, next_pc, p, b) = ((1, FlBranch pc False), r, next_pc, retire p, b)"
    and "execute_one ops (pc + 4) ds lnk (r, next_pc, p, b) = ((1, FlNext), r, next_pc, retire p, b)"
proof -
  have "pl_stall p = None" using assms by (simp add: parked_def)
  then have n: "take_stall_cost p = (0, p)" by (simp add: take_stall_cost_def no_stall)
  show "execute_one ops pc ds lnk (r, next_pc, p, b) = ((1, FlBranch pc False), r, next_pc, retire p, b)"
    "execute_one ops (pc + 4) ds lnk (r, next_pc, p, b) = ((1, FlNext), r, next_pc, retire p, b)"
    using assms by (simp_all add: execute_one_def parked_def fetches_def n recognize_idle_loop_def
        idle_execute_word sat32_add_def)
qed

lemma parked_step:
  assumes "parked ops pc (p, b)"
  shows "step_loop ops (cursor_at pc) (r, pc, p, b) = Some (IDLE_LOOP_PCYCLES, r, pc, idle_skip p, b)"
proof -
  have i: "idle_skip p = retire (retire p)" by (simp add: idle_skip_def retire_def)
  show ?thesis
    using parked_execute_one(1)[OF assms] parked_execute_one(2)[OF parked_retire[OF assms]]
    by (subst step_loop.simps, simp add: cursor_at_def, subst step_loop.simps,
        simp add: i IDLE_LOOP_PCYCLES_def sat32_add_def)
qed
section \<open>Many pairs\<close>

fun run_steps :: "'b bus_ops \<Rightarrow> nat \<Rightarrow> 'b fast_state \<Rightarrow> (u32 list \<times> 'b fast_state) option" where
  "run_steps ops 0 s = Some ([], s)"
| "run_steps ops (Suc n) s =
     (case step_loop ops (cursor_at (fst (snd s))) s of
        None \<Rightarrow> None
      | Some (c, s) \<Rightarrow> (case run_steps ops n s of None \<Rightarrow> None | Some (cs, s) \<Rightarrow> Some (c # cs, s)))"

definition idle_after :: "nat \<Rightarrow> pipeline \<Rightarrow> pipeline" where
  "idle_after n p = p\<lparr>pl_retired := pl_retired p + of_nat (2 * n), pl_cop0 := (tick_random ^^ (2 * n)) (pl_cop0 p)\<rparr>"

lemma idle_after_retired: "pl_retired (idle_after n p) = pl_retired p + of_nat n * 2"
  by (simp add: idle_after_def)

lemma parked_skip: "parked ops pc (p, b) \<Longrightarrow> parked ops pc (idle_skip p, b)"
proof -
  have "idle_skip p = retire (retire p)" by (simp add: idle_skip_def retire_def)
  then show "parked ops pc (p, b) \<Longrightarrow> parked ops pc (idle_skip p, b)" by (simp add: parked_retire)
qed

lemma idle_after_Suc: "idle_after n (idle_skip p) = idle_after (Suc n) p"
  by (simp add: idle_after_def idle_skip_def funpow_swap1 algebra_simps)

lemma parked_run:
  "parked ops pc (p, b) \<Longrightarrow>
   run_steps ops n (r, pc, p, b) = Some (replicate n IDLE_LOOP_PCYCLES, r, pc, idle_after n p, b)"
proof (induction n arbitrary: p)
  case 0
  then show ?case by (simp add: idle_after_def)
next
  case (Suc n)
  then show ?case using parked_step[OF Suc.prems] parked_skip[OF Suc.prems] by (simp add: idle_after_Suc)
qed

lemma retire_idle_pairs_after:
  assumes "cop0_wf (pl_cop0 (cpu_pipeline c))" "2 * n < 2 ^ 64"
  shows "cpu_pipeline (retire_idle_pairs (of_nat n) c) = idle_after n (cpu_pipeline c)"
proof -
  have u: "unat (of_nat n * 2 :: u64) = 2 * n" using assms(2) by (simp add: unat_word_ariths unsigned_of_nat take_bit_nat_eq_self)
  have "tick_random_by (of_nat n * 2) (pl_cop0 (cpu_pipeline c)) = (tick_random ^^ (2 * n)) (pl_cop0 (cpu_pipeline c))"
    using assms(1) wf_random_lt[OF assms(1)] unfolding tick_random_by_eq u
    by (subst tick_random_funpow) (simp_all add: cop0_wf_def)
  then show ?thesis by (simp add: retire_idle_pairs_def Let_def idle_after_def mult.commute)
qed

text \<open>C7. The idle-loop shortcuts are exact. In a state parked in the two-instruction idle loop with no
  interrupt to take, the shortcut of \<open>step_instruction\<close> has the cost and the effect of executing
  both instructions, and \<open>retire_idle_pairs\<close> of any number of pairs is that many executions.\<close>

theorem idle_loop_shortcuts_are_execution:
  assumes "sample_interrupt_lines ops (p\<lparr>pl_cop0 := set_now t (pl_cop0 p)\<rparr>, b) = (q, b')"
    and "\<not> pl_nmi_pending q" "\<not> interrupt_pending (pl_cop0 q)"
    and "parked ops pc (q, b')" "cop0_wf (pl_cop0 q)" "2 * n < 2 ^ 64"
  shows "step_instruction ops t (r, pc, p, b) = step_loop ops (cursor_at pc) (r, pc, q, b') \<and>
    map_option (apsnd cpu_put) (run_steps ops n (r, pc, q, b')) =
      Some (replicate n IDLE_LOOP_PCYCLES, retire_idle_pairs (of_nat n) (fst (cpu_put (r, pc, q, b'))), b')"
proof
  show "step_instruction ops t (r, pc, p, b) = step_loop ops (cursor_at pc) (r, pc, q, b')"
    using assms(1-4) parked_step[OF assms(4)] by (simp add: step_instruction_def parked_def)
  have "cpu_put (r, pc, idle_after n q, b') = (retire_idle_pairs (of_nat n) (fst (cpu_put (r, pc, q, b'))), b')"
    using retire_idle_pairs_after[of "fst (cpu_put (r, pc, q, b'))" n] assms(5,6)
    by (simp add: cpu_put_def retire_idle_pairs_def Let_def idle_after_retired)
  then show "map_option (apsnd cpu_put) (run_steps ops n (r, pc, q, b')) =
      Some (replicate n IDLE_LOOP_PCYCLES, retire_idle_pairs (of_nat n) (fst (cpu_put (r, pc, q, b'))), b')"
    using parked_run[OF assms(4)] by simp
qed

text \<open>A read-only memory of words, uncached, for the witnesses.\<close>

definition rom_bus :: "(u32 \<Rightarrow> u32) \<Rightarrow> unit bus_ops" where
  "rom_bus rom = \<lparr>rd8 = (\<lambda>a s. (0, s)), wr8 = (\<lambda>a v s. s), rd32 = (\<lambda>a s. (rom a, s)), wr32 = (\<lambda>a v s. s),
     wr_sized = (\<lambda>a k v s. s), emux_enabled = (\<lambda>s. False), emux_log = (\<lambda>bs s. s), emux_exit = (\<lambda>s. s),
     poll_irq = (\<lambda>s. (False, s))\<rparr>"

definition idle_rom :: "u32 \<Rightarrow> u32" where
  "idle_rom a = (if a = 0 then SELF_BRANCH else SLOT_NOP)"

abbreviation (input) kseg1 :: u64 where "kseg1 \<equiv> 0xFFFFFFFFA0000000"

lemma rom_fetch:
  assumes "segment_of a (access_mode p) = Direct w CachedNo" "a mod 4 = 0" "\<not> reverse_endian p"
  shows "fetches (rom_bus rom) a (rom w) (p, ())"
  using assms by (simp add: fetches_def fetch_word_def fetch_address_def rom_bus_def)

lemma reset_status: "cop0_read cop0_new 12 = 0x400004"
  by (simp add: cop0_new_def cop0_read_def Let_def c0_index_def is_unused_def ARCH_MASK_def)

lemma reset_modes:
  assumes "status_of p = 0x400004"
  shows "access_mode p = \<lparr>a_mode = Kernel, a_wide = False, a_erl = True\<rparr>" "\<not> reverse_endian p"
  using assms by (simp_all add: access_mode_def pl_erl_def Let_def STATUS_KSU_def EXL_OR_ERL_def reverse_endian_def)

lemma idle_rom_parked:
  assumes "status_of p = 0x400004" "pl_idle_pc p = Some kseg1" "pl_stall p = None"
  shows "parked (rom_bus idle_rom) kseg1 (p, ())"
proof -
  have "fetches (rom_bus idle_rom) kseg1 (idle_rom 0) (p, ())"
    "fetches (rom_bus idle_rom) (kseg1 + 4) (idle_rom 4) (p, ())"
    by (intro rom_fetch; simp add: reset_modes[OF assms(1)] segment_of_def kernel_segment_def is_compat_def compat_kernel_segment_def)+
  then show ?thesis using assms by (simp add: parked_def idle_rom_def)
qed

lemma sampled_status:
  "cop0_read (snd (timer_edge c)) 12 = cop0_read c 12" "cop0_read (set_now t c) 12 = cop0_read c 12"
  "cop0_read (set_ip k v c) 12 = cop0_read c 12"
  by (simp_all add: cop0_read_def timer_edge_def set_now_def set_ip_def set_reg_def Let_def c0_index_def is_unused_def nth_list_update)

lemma sampled_status_reg:
  "c0_regs (snd (timer_edge c)) ! 12 = c0_regs c ! 12" "c0_regs (set_now t c) ! 12 = c0_regs c ! 12"
  "c0_regs (set_ip k v c) ! 12 = c0_regs c ! 12" "c0_regs cop0_new ! 12 = 0x400004"
  by (simp_all add: timer_edge_def set_now_def set_ip_def set_reg_def Let_def cop0_new_def nth_list_update)

lemma idle_loop_shortcuts_are_execution_witness:
  "\<exists>q. step_instruction (rom_bus idle_rom) 5 (regs_new, kseg1, pipeline_new\<lparr>pl_idle_pc := Some kseg1\<rparr>, ()) =
      step_loop (rom_bus idle_rom) (cursor_at kseg1) (regs_new, kseg1, q, ()) \<and>
    map_option (apsnd cpu_put) (run_steps (rom_bus idle_rom) 3 (regs_new, kseg1, q, ())) =
      Some ([2, 2, 2], retire_idle_pairs 3 (fst (cpu_put (regs_new, kseg1, q, ()))), ())"
proof -
  let ?p = "pipeline_new\<lparr>pl_idle_pc := Some kseg1\<rparr>"
  define q where "q = fst (sample_interrupt_lines (rom_bus idle_rom) (?p\<lparr>pl_cop0 := set_now 5 (pl_cop0 ?p)\<rparr>, ()))"
  have q: "sample_interrupt_lines (rom_bus idle_rom) (?p\<lparr>pl_cop0 := set_now 5 (pl_cop0 ?p)\<rparr>, ()) = (q, ())"
    by (simp add: q_def prod_eq_iff)
  have s: "status_of q = 0x400004"
    by (simp add: q_def sample_interrupt_lines_def rom_bus_def case_prod_beta status_of_def sampled_status pipeline_new_def reset_status)
  have f: "pl_idle_pc q = Some kseg1" "pl_stall q = None" "\<not> pl_nmi_pending q"
    by (simp_all add: q_def sample_interrupt_lines_def rom_bus_def case_prod_beta pipeline_new_def)
  have w: "cop0_wf (pl_cop0 q)"
    by (simp add: q_def sample_interrupt_lines_def rom_bus_def case_prod_beta pipeline_new_def clock_wf set_ip_wf cop0_new_wf)
  have i: "\<not> interrupt_pending (pl_cop0 q)"
    by (simp add: q_def sample_interrupt_lines_def rom_bus_def case_prod_beta pipeline_new_def
        interrupt_pending_def sampled_status_reg)
  show ?thesis using idle_loop_shortcuts_are_execution[OF q f(3) i idle_rom_parked[OF s f(1,2)] w, of 3 regs_new]
    by (intro exI[of _ q]) (simp add: numeral_3_eq_3 IDLE_LOOP_PCYCLES_def)
qed
end
