(* ===== verification/Fast_Steps.thy ===== *)
theory Fast_Steps
  imports Fast_Idle
begin

text \<open>
  When a step of the instruction-level engine returns. A branch is followed into its delay slot within
  the same step, so a step returns exactly when the chain of branches in delay slots ends (\<open>step_returns\<close>); a jump to
  itself whose delay slot is the same jump keeps the loop of \<^verbatim>\<open>step_instruction\<close> running for ever.
\<close>

section \<open>A step returns unless branches fill delay slots\<close>

lemma exec_no_redirect:
  assumes "execute d a b h pc c = Inr e" "\<not> has_delay_slot (d_op d)"
  shows "redirect e = None" "link e = None"
  using exec_effect[OF assms(1)] assms(2)
  by (cases "effect_of (d_op d)"; auto simp: has_delay_slot_effect nothing_def)+

definition flow_from :: "executed \<Rightarrow> flow \<Rightarrow> bool" where
  "flow_from e fl \<longleftrightarrow> fl = FlRedirected \<or> fl = flow_of (redirect e)"

lemma flow_from_simps [simp]: "flow_from e FlRedirected" "flow_from e (flow_of (redirect e))"
  by (simp_all add: flow_from_def)

lemma redirect_to_flow [simp]: "snd (fst (redirect_to x pc ds bad cost r p b)) = FlRedirected"
  by (simp add: redirect_to_def Let_def case_prod_beta)

lemma finish_latch_flow: "flow_from e (snd (fst (finish_latch l e cost s)))"
  by (cases s) (simp add: finish_latch_def Let_def case_prod_beta split: option.split)

lemma finish_full_flow: "flow_from e (snd (fst (finish_full ops l e lnk cost s)))"
  by (cases s) (simp add: finish_full_def Let_def case_prod_beta finish_latch_flow split: option.split sum.split)

lemma finish_flow: "flow_from e (snd (fst (finish ops pc w ds lnk e cost s)))"
  by (cases s) (simp add: finish_def finish_simple_def Let_def case_prod_beta finish_full_flow)

lemma execute_word_flow:
  assumes n: "\<not> has_delay_slot (d_op (decode w))"
  shows "snd (fst (execute_word ops pc w ds lnk cost s)) \<noteq> FlBranch t a"
proof -
  obtain r next_pc p b where s: "s = (r, next_pc, p, b)" by (cases s)
  have no: "snd (fst (finish ops pc w ds lnk e cost s)) \<noteq> FlBranch t a" if "execute (decode w) x y h pc c = Inr e" for x y h c e s
    using exec_no_redirect(1)[OF that n] finish_flow[of e ops pc w ds lnk cost s] by (auto simp: flow_from_def flow_of_def)
  obtain g q where g: "ex_gate (decode w) p = (g, q)" by (metis surj_pair)
  show ?thesis
  proof (cases g)
    case (Some e)
    then show ?thesis by (simp add: s execute_word_def g)
  next
    case None
    then show ?thesis
      using no by (simp add: s execute_word_def g Let_def split: sum.split)
  qed
qed

lemma execute_one_flow:
  assumes "snd (fst (execute_one ops pc ds lnk (r, next_pc, p, b))) = FlBranch t n"
  shows "\<exists>w s. fetch_word ops pc (p, b) = (Inr w, s) \<and> has_delay_slot (d_op (decode w))"
proof -
  obtain x q c where f: "fetch_word ops pc (p, b) = (x, q, c)" by (metis surj_pair)
  show ?thesis
  proof (cases x)
    case (Inl e)
    then show ?thesis using assms by (simp add: execute_one_def f case_prod_beta)
  next
    case (Inr w)
    then show ?thesis using assms execute_word_flow f by (fastforce simp: execute_one_def case_prod_beta)
  qed
qed

text \<open>One turn of the loop that does not end the step: a taken branch whose delay slot is not annulled.\<close>

definition branch_turn :: "'b bus_ops \<Rightarrow> cursor \<times> 'b fast_state \<Rightarrow> (cursor \<times> 'b fast_state) option" where
  "branch_turn ops = (\<lambda>(k, s).
     case execute_one ops (cu_pc k) (cu_in_delay_slot k) (cu_link k) s of
       ((c, FlBranch target annul), s') \<Rightarrow>
         if annul then None
         else Some (\<lparr>cu_pc = cu_fall k, cu_fall = target, cu_link = target + 4, cu_in_delay_slot = True,
           cu_cost = sat32_add (cu_cost k) c\<rparr>, s')
     | _ \<Rightarrow> None)"

fun branch_chain :: "'b bus_ops \<Rightarrow> nat \<Rightarrow> cursor \<times> 'b fast_state \<Rightarrow> (cursor \<times> 'b fast_state) option" where
  "branch_chain ops 0 x = Some x"
| "branch_chain ops (Suc n) x = Option.bind (branch_turn ops x) (branch_chain ops n)"

lemma step_loop_turn:
  assumes "branch_turn ops (k, s) = Some (k', s')"
  shows "step_loop ops k s = step_loop ops k' s'"
proof -
  obtain c fl r n p b where e: "execute_one ops (cu_pc k) (cu_in_delay_slot k) (cu_link k) s = ((c, fl), r, n, p, b)"
    by (metis surj_pair)
  show ?thesis
    using assms by (cases fl; subst step_loop.simps) (auto simp: e branch_turn_def Let_def split: if_splits)
qed

lemma step_loop_ends:
  assumes "branch_turn ops (k, s) = None"
  shows "step_loop ops k s \<noteq> None"
proof -
  obtain c fl r n p b where e: "execute_one ops (cu_pc k) (cu_in_delay_slot k) (cu_link k) s = ((c, fl), r, n, p, b)"
    by (metis surj_pair)
  show ?thesis
    using assms by (cases fl; subst step_loop.simps) (auto simp: e branch_turn_def Let_def split: if_splits)
qed

lemma step_loop_chain:
  assumes "step_loop ops k s = Some y"
  shows "\<exists>n. branch_chain ops n (k, s) = None"
proof (rule step_loop.raw_induct[where P = "\<lambda>ops k s y. \<exists>n. branch_chain ops n (k, s) = None", OF _ assms])
  fix loop :: "'b bus_ops \<Rightarrow> cursor \<Rightarrow> 'b fast_state \<Rightarrow> (u32 \<times> 'b fast_state) option"
    and ops :: "'b bus_ops" and k :: cursor and s :: "'b fast_state" and y
  assume ih: "\<And>ops k s y. loop ops k s = Some y \<Longrightarrow> \<exists>n. branch_chain ops n (k, s) = None"
    and body: "(case execute_one ops (cu_pc k) (cu_in_delay_slot k) (cu_link k) s of
        ((c, fl), r, next_pc, p, b) \<Rightarrow>
          let cost = sat32_add (cu_cost k) c
          in case fl of FlNext \<Rightarrow> Some (cost, r, cu_fall k, p, b)
             | FlBranch target annul \<Rightarrow>
                 if annul then Some (cost, r, target, p, b)
                 else loop ops \<lparr>cu_pc = cu_fall k, cu_fall = target, cu_link = target + 4,
                   cu_in_delay_slot = True, cu_cost = cost\<rparr> (r, next_pc, p, b)
             | FlRedirected \<Rightarrow> Some (cost, r, next_pc, p, b)) = Some y"
  show "\<exists>n. branch_chain ops n (k, s) = None"
  proof (cases "branch_turn ops (k, s)")
    case None
    then show ?thesis by (intro exI[of _ 1]) simp
  next
    case (Some x)
    obtain k' s' where x: "x = (k', s')" by (cases x)
    have "loop ops k' s' = Some y"
      using body Some unfolding x by (auto simp: branch_turn_def Let_def split: prod.splits flow.splits if_splits)
    then obtain n where "branch_chain ops n (k', s') = None" using ih by blast
    then show ?thesis using Some x by (intro exI[of _ "Suc n"]) simp
  qed
qed

lemma step_loop_returns:
  "step_loop ops k s \<noteq> None \<longleftrightarrow> (\<exists>n. branch_chain ops n (k, s) = None)"
proof
  assume "step_loop ops k s \<noteq> None"
  then show "\<exists>n. branch_chain ops n (k, s) = None" using step_loop_chain by blast
next
  assume "\<exists>n. branch_chain ops n (k, s) = None"
  then obtain n where "branch_chain ops n (k, s) = None" by blast
  then show "step_loop ops k s \<noteq> None"
  proof (induction n arbitrary: k s)
    case (Suc n)
    show ?case
    proof (cases "branch_turn ops (k, s)")
      case None
      then show ?thesis by (rule step_loop_ends)
    next
      case (Some x)
      obtain k' s' where x: "x = (k', s')" by (cases x)
      then have "branch_chain ops n (k', s') = None" using Suc.prems Some by simp
      then show ?thesis using Suc.IH step_loop_turn[OF Some[unfolded x]] by simp
    qed
  qed simp
qed

lemma branch_turn_fetches:
  assumes "branch_turn ops (k, r, n, p, b) = Some y"
  shows "\<exists>w s. fetch_word ops (cu_pc k) (p, b) = (Inr w, s) \<and> has_delay_slot (d_op (decode w))"
proof -
  obtain c fl s' where e: "execute_one ops (cu_pc k) (cu_in_delay_slot k) (cu_link k) (r, n, p, b) = ((c, fl), s')"
    by (metis surj_pair)
  then obtain t a where "fl = FlBranch t a" using assms by (cases fl) (auto simp: branch_turn_def)
  then show ?thesis using e execute_one_flow[of ops "cu_pc k" "cu_in_delay_slot k" "cu_link k" r n p b t a] by simp
qed

text \<open>C13. Exactly when a step of the instruction-level engine returns, whatever the processor's state and the
  bus: it fails to return if and only if no interrupt is taken, no idle loop is parked there, and the
  instruction and every delay slot after it is a taken branch whose slot is not annulled, for ever. In
  particular it returns whenever the word fetched from the delay slot, in the state the instruction has
  left, is no branch or jump, as the architecture requires of a delay slot.\<close>

theorem step_returns:
  "case sample_interrupt_lines ops (p\<lparr>pl_cop0 := set_now t (pl_cop0 p)\<rparr>, b) of (q, c) \<Rightarrow>
     (step_instruction ops t (r, pc, p, b) = None \<longleftrightarrow>
        \<not> pl_nmi_pending q \<and> \<not> interrupt_pending (pl_cop0 q) \<and> pl_idle_pc q \<noteq> Some pc \<and>
        (\<forall>n. branch_chain ops n (cursor_at pc, r, pc, q, c) \<noteq> None)) \<and>
     (step_instruction ops t (r, pc, p, b) = None \<longrightarrow>
        (\<exists>k r' n' q' c' w s. branch_turn ops (cursor_at pc, r, pc, q, c) = Some (k, r', n', q', c') \<and>
           fetch_word ops (pc + 4) (q', c') = (Inr w, s) \<and> has_delay_slot (d_op (decode w))))"
proof -
  obtain q c where qc: "sample_interrupt_lines ops (p\<lparr>pl_cop0 := set_now t (pl_cop0 p)\<rparr>, b) = (q, c)"
    by (metis surj_pair)
  let ?x = "(cursor_at pc, r, pc, q, c)"
  have iff: "step_instruction ops t (r, pc, p, b) = None \<longleftrightarrow>
      \<not> pl_nmi_pending q \<and> \<not> interrupt_pending (pl_cop0 q) \<and> pl_idle_pc q \<noteq> Some pc \<and>
      (\<forall>n. branch_chain ops n ?x \<noteq> None)"
  proof -
    have "step_loop ops (cursor_at pc) (r, pc, q, c) = None \<longleftrightarrow> (\<forall>n. branch_chain ops n ?x \<noteq> None)"
      using step_loop_returns[of ops "cursor_at pc" "(r, pc, q, c)"] by metis
    moreover obtain c1 v1 p1 where "vector_to Nmi pc False 0 (q\<lparr>pl_nmi_pending := False\<rparr>) = (c1, v1, p1)"
      by (metis surj_pair)
    moreover obtain c2 v2 p2 where "vector_to Interrupt pc False 0 q = (c2, v2, p2)" by (metis surj_pair)
    ultimately show ?thesis by (simp add: step_instruction_def qc)
  qed
  have "\<exists>k r' n' q' c' w s. branch_turn ops ?x = Some (k, r', n', q', c') \<and>
      fetch_word ops (pc + 4) (q', c') = (Inr w, s) \<and> has_delay_slot (d_op (decode w))"
    if "step_instruction ops t (r, pc, p, b) = None"
  proof -
    have "branch_chain ops 2 ?x \<noteq> None" using that iff by blast
    then obtain k r' n' q' c' y where 1: "branch_turn ops ?x = Some (k, r', n', q', c')"
      and 2: "branch_turn ops (k, r', n', q', c') = Some y"
      by (auto simp: numeral_2_eq_2 split: bind_splits)
    have "cu_pc k = pc + 4"
      using 1 by (auto simp: branch_turn_def cursor_at_def split: prod.splits flow.splits if_splits)
    then show ?thesis using 1 branch_turn_fetches[OF 2] by auto
  qed
  then show ?thesis unfolding qc using iff by auto
qed

definition jump_rom :: "u32 \<Rightarrow> u32" where
  "jump_rom a = 0x08000000"

lemma decode_jump: "decode 0x08000000 = \<lparr>d_op = JumpOp J, d_rs = 0, d_rt = 0, d_rd = 0, d_sa = 0, d_imm = 0, d_dest = 0, d_target = 0\<rparr>"
  by (simp add: decode_def decode_base_def primary_table_def special_table_def decode_table_def)

lemma jump_execute:
  assumes "pc = kseg1 \<or> pc = kseg1 + 4"
  shows "execute (decode 0x08000000) x y h pc c = Inr (nothing\<lparr>redirect := Some \<lparr>rd_target = kseg1, nullify_delay_slot = False\<rparr>\<rparr>)"
  using assms by (auto simp: decode_jump execute_def control_def nothing_def link_of_def jump_target_def)

definition jumping :: "cursor \<Rightarrow> unit fast_state \<Rightarrow> bool" where
  "jumping k s \<longleftrightarrow> (cu_pc k = kseg1 \<or> cu_pc k = kseg1 + 4) \<and> (cu_fall k = kseg1 \<or> cu_fall k = kseg1 + 4) \<and>
     status_of (fst (snd (snd s))) = 0x400004 \<and> pl_stall (fst (snd (snd s))) = None"

lemma jump_one:
  assumes "pc = kseg1 \<or> pc = kseg1 + 4" "status_of p = 0x400004" "pl_stall p = None"
  shows "execute_one (rom_bus jump_rom) pc ds lnk (r, n, p, ()) = ((1, FlBranch kseg1 False), r, n, retire p, ())"
proof -
  have "fetches (rom_bus jump_rom) pc (jump_rom (to_u32 pc - 0xA0000000)) (p, ())"
    using assms(1) by (intro rom_fetch; auto simp add: reset_modes[OF assms(2)] segment_of_def kernel_segment_def is_compat_def compat_kernel_segment_def)
  then have f: "fetch_word (rom_bus jump_rom) pc (p, ()) = (Inr 0x08000000, p, ())" by (simp add: fetches_def jump_rom_def)
  have t: "take_stall_cost p = (0, p)" using no_stall[OF assms(3)] assms(3) by (simp add: take_stall_cost_def)
  have g: "ex_gate (decode 0x08000000) p = (None, p)"
    by (simp add: decode_jump ex_gate_def unusable_coprocessor_def cop_unit_def is_64_bit_def)
  have c: "cop2_result (decode 0x08000000) a w q = (w, q)" for a w q by (simp add: decode_jump cop2_result_def)
  show ?thesis
    by (simp add: execute_one_def f t recognize_idle_loop_def SELF_BRANCH_def execute_word_def g jump_execute[OF assms(1)]
      finish_def nothing_def c link_value_def writes_one_gpr_def finish_simple_def flow_of_def wb_regs_def sat32_add_def)
qed

lemma retire_jumping: "status_of (retire p) = status_of p" "pl_stall (retire p) = pl_stall p"
  by (simp_all add: retire_def status_of_def cop0_read_tick_random)

lemma jumping_diverges:
  assumes "step_loop (rom_bus jump_rom) k s = Some y"
  shows "\<not> jumping k s"
proof -
  have "rom_bus jump_rom = rom_bus jump_rom \<longrightarrow> \<not> jumping k s"
  proof (rule step_loop.raw_induct[where P = "\<lambda>ops k s y. ops = rom_bus jump_rom \<longrightarrow> \<not> jumping k s", OF _ assms], intro impI notI)
    fix loop :: "unit bus_ops \<Rightarrow> cursor \<Rightarrow> unit fast_state \<Rightarrow> (u32 \<times> unit fast_state) option" and ops k s y
    assume ih: "\<And>ops k s y. loop ops k s = Some y \<Longrightarrow> ops = rom_bus jump_rom \<longrightarrow> \<not> jumping k s"
      and body: "(case execute_one ops (cu_pc k) (cu_in_delay_slot k) (cu_link k) s of
          ((c, fl), r, next_pc, p, b) \<Rightarrow>
            let cost = sat32_add (cu_cost k) c
            in case fl of FlNext \<Rightarrow> Some (cost, r, cu_fall k, p, b)
               | FlBranch target annul \<Rightarrow>
                   if annul then Some (cost, r, target, p, b)
                   else loop ops \<lparr>cu_pc = cu_fall k, cu_fall = target, cu_link = target + 4,
                     cu_in_delay_slot = True, cu_cost = cost\<rparr> (r, next_pc, p, b)
               | FlRedirected \<Rightarrow> Some (cost, r, next_pc, p, b)) = Some y"
      and o: "ops = rom_bus jump_rom" and j: "jumping k s"
    obtain r n p where s: "s = (r, n, p, ())" by (cases s) auto
    have "execute_one ops (cu_pc k) (cu_in_delay_slot k) (cu_link k) s = ((1, FlBranch kseg1 False), r, n, retire p, ())"
      unfolding s o using j by (intro jump_one) (simp_all add: jumping_def s)
    then have "loop ops \<lparr>cu_pc = cu_fall k, cu_fall = kseg1, cu_link = kseg1 + 4, cu_in_delay_slot = True,
        cu_cost = sat32_add (cu_cost k) 1\<rparr> (r, n, retire p, ()) = Some y"
      using body by (simp add: Let_def)
    then have "\<not> jumping \<lparr>cu_pc = cu_fall k, cu_fall = kseg1, cu_link = kseg1 + 4, cu_in_delay_slot = True,
        cu_cost = sat32_add (cu_cost k) 1\<rparr> (r, n, retire p, ())" using ih o by blast
    then show False using j by (simp add: jumping_def s retire_jumping)
  qed
  then show ?thesis by blast
qed

text \<open>C14. A step need not return: from reset, at the uncached segment over a memory in which every word
  is a jump to its start, each jump's delay slot is another jump, and the step never gives the
  machine back to the scheduler, so no interrupt and no other component ever runs again.\<close>

theorem delay_slot_jumps_hang:
  "step_instruction_at (rom_bus jump_rom) t (set_pc kseg1 cpu_new, ()) = None"
proof -
  let ?p = "pipeline_new\<lparr>pl_cop0 := set_now t cop0_new\<rparr>"
  define q where "q = fst (sample_interrupt_lines (rom_bus jump_rom) (?p, ()))"
  have q: "sample_interrupt_lines (rom_bus jump_rom) (?p, ()) = (q, ())"
    by (simp add: q_def prod_eq_iff)
  have f: "pl_idle_pc q = None" "pl_stall q = None" "\<not> pl_nmi_pending q" "status_of q = 0x400004"
    "\<not> interrupt_pending (pl_cop0 q)"
    by (simp_all add: q_def sample_interrupt_lines_def rom_bus_def case_prod_beta status_of_def sampled_status
        pipeline_new_def reset_status interrupt_pending_def sampled_status_reg)
  have "jumping (cursor_at kseg1) (regs_new, kseg1, q, ())" using f by (simp add: jumping_def cursor_at_def)
  then have "step_loop (rom_bus jump_rom) (cursor_at kseg1) (regs_new, kseg1, q, ()) = None"
    using jumping_diverges by (cases "step_loop (rom_bus jump_rom) (cursor_at kseg1) (regs_new, kseg1, q, ())") auto
  moreover have "pl_cop0 pipeline_new = cop0_new" by (simp add: pipeline_new_def)
  ultimately show ?thesis
    using f q by (simp add: step_instruction_at_def step_instruction_def set_pc_def cpu_new_def)
qed

lemma step_returns_witness:
  "step_instruction (rom_bus (\<lambda>a. 0)) 0 (regs_new, kseg1, pipeline_new, ()) \<noteq> None"
proof
  assume n: "step_instruction (rom_bus (\<lambda>a. 0)) 0 (regs_new, kseg1, pipeline_new, ()) = None"
  obtain q' c' w s where f: "fetch_word (rom_bus (\<lambda>a. 0)) (kseg1 + 4) (q' :: pipeline, c' :: unit) = (Inr w, s)"
    and b: "has_delay_slot (d_op (decode w))"
    using step_returns[where ops = "rom_bus (\<lambda>a. 0)" and p = pipeline_new and t = 0 and b = "()" and r = regs_new
        and pc = kseg1] n
    by (auto simp: case_prod_beta)
  have "segment_of (kseg1 + 4) (access_mode q') = Direct 4 CachedNo \<or> segment_of (kseg1 + 4) (access_mode q') = InvalidSeg"
    by (cases "a_mode (access_mode q')")
      (auto simp: segment_of_def user_segment_def supervisor_segment_def kernel_segment_def is_compat_def
        compat_kernel_segment_def XSEG_SIZE_def)
  then have "w = 0" using f by (auto simp: fetch_word_def fetch_address_def rom_bus_def)
  then show False using b decode_idle(2) by (simp add: SLOT_NOP_def has_delay_slot_def)
qed

end
