(* ===== verification/Machine_Shape.thy ===== *)
theory Machine_Shape
  imports Fast
begin

text \<open>
  The well-formedness of the processor's components taken together: every array at its length,
  coprocessor 0 and the TLB within their architectural fields, and every register number a latch carries below 32. Each operation of the
  pipeline keeps it; the next theory composes these lemmas into the invariant of the machine.
\<close>

section \<open>Cache arrays\<close>

definition dc_shape :: "dcache \<Rightarrow> bool" where
  "dc_shape c \<longleftrightarrow> length (d_lines c) = 512 \<and> (\<forall>l \<in> set (d_lines c). length (ln_data l) = 16)"

definition ic_shape :: "icache \<Rightarrow> bool" where
  "ic_shape c \<longleftrightarrow> length (i_lines c) = 512 \<and> (\<forall>l \<in> set (i_lines c). length (ln_data l) = 32)"

lemma d_index_range [simp]: "d_index a < 512" and i_index_range [simp]: "i_index a < 512"
  by (simp_all add: d_index_def i_index_def)

lemma shape_line:
  "dc_shape c \<Longrightarrow> i < 512 \<Longrightarrow> length (ln_data (d_lines c ! i)) = 16"
  "dc_shape c \<Longrightarrow> length (ln_data (d_line c a)) = 16"
  "ic_shape k \<Longrightarrow> length (ln_data (i_line k a)) = 32"
  by (simp_all add: dc_shape_def ic_shape_def d_line_def i_line_def)

lemma set_line_shape:
  "dc_shape c \<Longrightarrow> length (ln_data l) = 16 \<Longrightarrow> dc_shape (set_dline i l c)"
  "ic_shape k \<Longrightarrow> length (ln_data l) = 32 \<Longrightarrow> ic_shape (set_iline i l k)"
  using set_update_subset_insert by (fastforce simp: dc_shape_def ic_shape_def set_dline_def set_iline_def)+

lemma store_bytes_length:
  "length (foldl (\<lambda>xs k. xs[o' + k := f k]) bs ks) = length bs"
  by (induction ks arbitrary: bs) simp_all

lemma dcache_shape [invlib]:
  "dc_shape dcache_new"
  "dc_shape c \<Longrightarrow> dc_shape (d_write a len v c)"
  "dc_shape c \<Longrightarrow> length bytes = 16 \<Longrightarrow> dc_shape (d_install a bytes c)"
  "dc_shape c \<Longrightarrow> dc_shape (d_store_tag a t c)"
  "dc_shape c \<Longrightarrow> dc_shape (snd (flush_index a iv cl c))"
  "dc_shape c \<Longrightarrow> dc_shape (snd (create_dirty_exclusive a c))"
proof -
  show "dc_shape dcache_new" by (simp add: dc_shape_def dcache_new_def line_empty_def)
  assume c: "dc_shape c"
  show "dc_shape (d_write a len v c)"
    by (simp add: d_write_def Let_def set_line_shape c store_bytes_length shape_line)
  show "length bytes = 16 \<Longrightarrow> dc_shape (d_install a bytes c)" by (simp add: d_install_def set_line_shape c)
  show "dc_shape (d_store_tag a t c)"
    by (simp add: d_store_tag_def case_prod_beta set_line_shape c shape_line)
  have s: "dc_shape (d_invalidate_index (d_index a) c')" if "dc_shape c'" for c'
    using that by (simp add: d_invalidate_index_def set_line_shape shape_line)
  show "dc_shape (snd (flush_index a iv cl c))"
    by (simp add: flush_index_def Let_def s set_line_shape c shape_line)
  show "dc_shape (snd (create_dirty_exclusive a c))"
    by (simp add: create_dirty_exclusive_def Let_def set_line_shape c shape_line)
qed

lemma icache_shape [invlib]:
  "ic_shape icache_new"
  "ic_shape c \<Longrightarrow> length bytes = 32 \<Longrightarrow> ic_shape (i_install a bytes c)"
  "ic_shape c \<Longrightarrow> ic_shape (i_store_tag a t c)"
  "ic_shape c \<Longrightarrow> ic_shape (i_invalidate_index a c)"
  "ic_shape c \<Longrightarrow> ic_shape (i_hit_invalidate a c)"
proof -
  show "ic_shape icache_new" by (simp add: ic_shape_def icache_new_def line_empty_def)
  assume c: "ic_shape c"
  show "length bytes = 32 \<Longrightarrow> ic_shape (i_install a bytes c)" by (simp add: i_install_def set_line_shape c)
  show "ic_shape (i_store_tag a t c)"
    by (simp add: i_store_tag_def case_prod_beta set_line_shape c shape_line)
  show "ic_shape (i_invalidate_index a c)" "ic_shape (i_hit_invalidate a c)"
    by (simp_all add: i_hit_invalidate_def i_invalidate_index_def set_line_shape c shape_line)
qed

lemma pull_words_length: "length (fst (pull_words ops a k n b)) = 4 * n"
  by (induction n arbitrary: k b) (simp_all add: case_prod_beta)

lemma fill_shape:
  "ic_shape ic \<Longrightarrow> ic_shape (fst (icache_fill ops a (ic, st, b)))"
  "dc_shape dc \<Longrightarrow> dc_shape (fst (dcache_fill ops a (dc, st, b)))"
  by (simp_all add: icache_fill_def dcache_fill_def case_prod_beta Let_def invlib pull_line_def pull_words_length
      split: option.split)

lemma cached_shape:
  "dc_shape dc \<Longrightarrow> dc_shape (fst (snd (cached_read ops a w (dc, st, b))))"
  "dc_shape dc \<Longrightarrow> dc_shape (fst (cached_write ops a w v (dc, st, b)))"
  by (simp_all add: cached_read_def cached_write_def case_prod_beta invlib fill_shape)

definition cs_shape :: "'b cache_state \<Rightarrow> bool" where
  "cs_shape s \<longleftrightarrow> ic_shape (cs_icache s) \<and> dc_shape (cs_dcache s) \<and> cop0_wf (cs_cop0 s)"

lemma cache_instruction_shape:
  "cs_shape s \<Longrightarrow> cs_shape (cache_index_op ops opn a s)"
  "cs_shape s \<Longrightarrow> cs_shape (cache_hit_op ops opn a s)"
  by (simp_all add: cs_shape_def cache_index_op_def cache_hit_op_def Let_def case_prod_beta invlib set_hardware_wf fill_shape)

section \<open>The pipeline's components\<close>

definition parts_wf :: "pipeline \<Rightarrow> bool" where
  "parts_wf p \<longleftrightarrow> cop0_wf (pl_cop0 p) \<and> tlb_wf (pl_tlb p) \<and> fpr_wf (pl_fpr p) \<and>
     dc_shape (pl_dcache p) \<and> ic_shape (pl_icache p)"

text \<open>The latches are no part of it, so it is proved with the latches anything.\<close>

lemma parts_wf_latches [simp]:
  "parts_wf (p\<lparr>pl_ic_rf := l\<rparr>) = parts_wf p" "parts_wf (p\<lparr>pl_rf_ex := l\<rparr>) = parts_wf p"
  "parts_wf (p\<lparr>pl_ex_dc := l\<rparr>) = parts_wf p" "parts_wf (p\<lparr>pl_dc_wb := l\<rparr>) = parts_wf p"
  "parts_wf (p\<lparr>pl_stall := st\<rparr>) = parts_wf p" "parts_wf (p\<lparr>pl_fault_vaddr := v\<rparr>) = parts_wf p"
  "parts_wf (p\<lparr>pl_idle_pc := i\<rparr>) = parts_wf p" "parts_wf (p\<lparr>pl_pending := q\<rparr>) = parts_wf p"
  "parts_wf (p\<lparr>pl_nmi_pending := n\<rparr>) = parts_wf p" "parts_wf (p\<lparr>pl_prev_was_run := n\<rparr>) = parts_wf p"
  "parts_wf (p\<lparr>pl_flush_pending := n\<rparr>) = parts_wf p" "parts_wf (p\<lparr>pl_retired := v\<rparr>) = parts_wf p"
  "parts_wf (p\<lparr>pl_cop2_latch := v\<rparr>) = parts_wf p" "parts_wf (p\<lparr>pl_cop1 := c1\<rparr>) = parts_wf p"
  "parts_wf (p\<lparr>pl_ll_bit := n\<rparr>) = parts_wf p" "parts_wf (stall_pipe k x p) = parts_wf p"
  "parts_wf (abort_with sg e bad p) = parts_wf p" "parts_wf (abort_from sg e p) = parts_wf p"
  "parts_wf (set_fcsr f p) = parts_wf p"
  by (simp_all add: parts_wf_def stall_pipe_def abort_from_def set_fcsr_def)

lemma parts_wf_update [simp]:
  "parts_wf p \<Longrightarrow> cop0_wf c \<Longrightarrow> parts_wf (p\<lparr>pl_cop0 := c\<rparr>)"
  "parts_wf p \<Longrightarrow> tlb_wf t \<Longrightarrow> parts_wf (p\<lparr>pl_tlb := t\<rparr>)"
  "parts_wf p \<Longrightarrow> fpr_wf f \<Longrightarrow> parts_wf (p\<lparr>pl_fpr := f\<rparr>)"
  "parts_wf p \<Longrightarrow> dc_shape d \<Longrightarrow> parts_wf (p\<lparr>pl_dcache := d\<rparr>)"
  "parts_wf p \<Longrightarrow> ic_shape i \<Longrightarrow> parts_wf (p\<lparr>pl_icache := i\<rparr>)"
  by (simp_all add: parts_wf_def)

lemma parts_wf_parts:
  "parts_wf p \<Longrightarrow> cop0_wf (pl_cop0 p)" "parts_wf p \<Longrightarrow> tlb_wf (pl_tlb p)"
  "parts_wf p \<Longrightarrow> fpr_wf (pl_fpr p)" "parts_wf p \<Longrightarrow> dc_shape (pl_dcache p)" "parts_wf p \<Longrightarrow> ic_shape (pl_icache p)"
  by (simp_all add: parts_wf_def)

lemma reset_parts: "parts_wf pipeline_new"
  by (simp add: parts_wf_def pipeline_new_def cop0_new_wf tlb_new_wf invlib)

section \<open>Translation and memory\<close>

lemma translate_via_wf: "tlb_wf t \<Longrightarrow> tlb_wf (snd (translate_via t v a st ac))"
  using lookup_wf[of t v a st]
  by (auto simp: translate_via_def translate_with_def split: segment.split prod.split sum.split)

lemma translate_parts:
  assumes "parts_wf p"
  shows "parts_wf (snd (translate_data v st p))" "parts_wf (snd (translate_re v st w p))"
    "parts_wf (snd (translate_for addr v st p))"
proof -
  note w = parts_wf_parts[OF assms]
  have n: "parts_wf q \<Longrightarrow> parts_wf (note_shutdown q)" for q
    by (simp add: note_shutdown_def set_hardware_wf parts_wf_parts)
  show d: "parts_wf (snd (translate_data v st p))" for v st
    using translate_via_wf[OF w(2), of v "asid_of p" st "access_mode p"] assms
    by (auto simp: translate_data_def Let_def n split: prod.split sum.split)
  show "parts_wf (snd (translate_re v st w p))" "parts_wf (snd (translate_for addr v st p))"
    using d[of v st] by (auto simp: translate_re_def translate_for_def split: prod.split sum.split)
qed

lemma width_parts:
  assumes "parts_wf (fst s)"
  shows "parts_wf (fst (snd (read_width ops x w s)))" "parts_wf (fst (write_width ops x w v s))"
  using assms by (auto simp: read_width_def write_width_def Let_def case_prod_beta cached_shape parts_wf_parts)

text \<open>The same facts for a result taken apart by a case distinction.\<close>

lemma results_parts:
  "translate_data v st p = (x, q) \<Longrightarrow> parts_wf p \<Longrightarrow> parts_wf q"
  "translate_re v st w p = (x, q) \<Longrightarrow> parts_wf p \<Longrightarrow> parts_wf q"
  "translate_for addr v st p = (x, q) \<Longrightarrow> parts_wf p \<Longrightarrow> parts_wf q"
  "read_width ops y w (p, b) = (u, q, c) \<Longrightarrow> parts_wf p \<Longrightarrow> parts_wf q"
  "write_width ops y w v (p, b) = (q, c) \<Longrightarrow> parts_wf p \<Longrightarrow> parts_wf q"
  by (metis translate_parts snd_conv width_parts fst_conv)+

lemma load_store_parts:
  "load_access ops k a r (p, b) = (x, q, c) \<Longrightarrow> parts_wf p \<Longrightarrow> parts_wf q"
  "store_access ops sk a v (p, b) = (y, q, c) \<Longrightarrow> parts_wf p \<Longrightarrow> parts_wf q"
  by (auto simp: load_access_def store_access_def Let_def dest!: results_parts split: if_splits prod.splits sum.splits)

lemma fp_access_parts:
  "fp_access ops i a r (p, b) = (x, q, c) \<Longrightarrow> parts_wf p \<Longrightarrow> parts_wf q"
  by (auto simp: fp_access_def Let_def invlib parts_wf_parts dest!: results_parts split: if_splits prod.splits sum.splits)

lemma unaligned_parts:
  "access_unaligned ops u a v r (p, b) = (x, q, c) \<Longrightarrow> parts_wf p \<Longrightarrow> parts_wf q"
proof -
  have t: "unaligned_transfer ops u wa da ea rt r (p, b) = (w, q, c) \<Longrightarrow> parts_wf p \<Longrightarrow> parts_wf q" for wa da ea rt w p b q c
    by (cases u) (auto simp: unaligned_transfer_def Let_def dest!: results_parts split: prod.splits)
  show "access_unaligned ops u a v r (p, b) = (x, q, c) \<Longrightarrow> parts_wf p \<Longrightarrow> parts_wf q"
    by (auto simp: access_unaligned_def Let_def dest!: results_parts t split: prod.splits sum.splits)
qed

lemma emux_bytes_parts:
  "parts_wf (fst s) \<Longrightarrow> parts_wf (fst (snd (emux_bytes ops pt i n buf s)))"
proof (induction n arbitrary: i buf s)
  case (Suc n)
  obtain x p where t: "translate_data (pt + of_nat i) False (fst s) = (x, p)" by (metis surj_pair)
  then have p: "parts_wf p" using results_parts(1) Suc.prems by blast
  show ?case
  proof (cases x)
    case (Inl e)
    then show ?thesis using p by (simp add: t)
  next
    case (Inr y)
    obtain v s' where r: "read_width ops y 1 (p, snd s) = (v, s')" by (metis surj_pair)
    have "parts_wf (fst s')" using width_parts(1)[of "(p, snd s)" ops y 1] p r by simp
    then show ?thesis using Suc.IH by (simp add: Inr t r Let_def)
  qed
qed simp

lemma emux_parts:
  "emux ops f cd pt n r (p, b) = (x, q, c) \<Longrightarrow> parts_wf p \<Longrightarrow> parts_wf q"
  using emux_bytes_parts[of "(p, b)" ops pt 0 "unat (min n EMUX_MAX)" "[]"]
  by (auto simp: emux_def split: if_splits prod.splits sum.splits)

lemma cache_op_parts:
  assumes "cache_op ops a opn (p, b) = (x, q, c)" "parts_wf p"
  shows "parts_wf q"
proof -
  have v: "cs_shape (cache_view (p, b))" if "parts_wf p" for p b
    using that by (simp add: cs_shape_def cache_view_def parts_wf_parts)
  have u: "parts_wf (fst (cache_update p s))" if "parts_wf p" "cs_shape s" for p s
    using that by (simp add: cs_shape_def cache_update_def)
  have k: "cache_update p (cache_index_op ops opn e (cache_view (p, b))) = (q, c) \<Longrightarrow> parts_wf p \<Longrightarrow> parts_wf q"
    "cache_update p (cache_hit_op ops opn e (cache_view (p, b))) = (q, c) \<Longrightarrow> parts_wf p \<Longrightarrow> parts_wf q" for e p b
    by (metis u v cache_instruction_shape fst_conv)+
  show ?thesis
    using assms by (auto simp: cache_op_def Let_def dest!: results_parts k split: if_splits prod.splits sum.splits)
qed

lemma mem_access_parts:
  "mem_access ops m (p, b) = (x, q, c) \<Longrightarrow> parts_wf p \<Longrightarrow> parts_wf q"
proof -
  have l: "parts_wf (set_link a p)" if "parts_wf p" for a p
    using that by (simp add: set_link_def set_hardware_wf parts_wf_parts)
  show "mem_access ops m (p, b) = (x, q, c) \<Longrightarrow> parts_wf p \<Longrightarrow> parts_wf q"
    by (cases m)
      (auto simp: mem_access_def l dest!: load_store_parts
         dest: fp_access_parts unaligned_parts emux_parts cache_op_parts split: if_splits prod.splits sum.splits)
qed
end
