(* ===== verification/Machine_Inv.thy ===== *)
theory Machine_Inv
  imports Machine_Shape Fast_Idle
begin

text \<open>
  The invariant of the whole processor. Each stage of the cycle and each path of the instruction-level
  engine keeps the components well formed (\<open>advance_parts\<close>, \<open>step_instruction_wf\<close>); \<open>machine_reachable\<close>
  closes them under everything that drives the processor.
\<close>

section \<open>The stages keep the components\<close>

lemma fp_parts:
  assumes "parts_wf p"
  shows "parts_wf (snd (fp_sign_op fm funct fs fd fr p))" "parts_wf (snd (fp_arith fm funct ft fs fd p))"
proof -
  have t: "parts_wf (fp_trap old raised p)" for old raised using assms by (simp add: fp_trap_def)
  show s: "parts_wf (snd (fp_sign_op fm funct fs fd fr p))" for fr
    using assms by (simp add: fp_sign_op_def Let_def case_prod_beta t invlib parts_wf_parts)
  obtain cm fl un where r: "fp_result_of p fm funct ft fs (fr_of (pl_cop0 p)) = (cm, fl, un)" by (metis prod_cases3)
  show "parts_wf (snd (fp_arith fm funct ft fs fd p))"
    using assms by (cases cm) (simp_all add: fp_arith_def Let_def t s r invlib parts_wf_parts)
qed

lemma read_entry_keeps: "cop0_wf c \<Longrightarrow> cop0_wf (read_entry i t c)" "cop0_wf c \<Longrightarrow> cop0_wf (probe t c)"
  by (simp_all add: read_entry_def probe_def Let_def set_hardware_wf split: option.split)

lemma wb_cop0_parts: "parts_wf p \<Longrightarrow> parts_wf (snd (wb_cop0 a p))"
  using fp_parts(2)[of p]
  by (auto simp: wb_cop0_def wb_tlb_def Let_def case_prod_beta invlib parts_wf_parts read_entry_keeps
      write_entry_wf mtc0_wf split: option.split cop0_access.split cop1_access.split tlb_op.split)

lemma wb_regs_wf: "regs_wf r \<Longrightarrow> regs_wf (wb_regs w r)"
  by (cases w) (simp_all add: wb_regs_def invlib, simp_all add: regs_wf_def)

lemma wb_stage_parts:
  assumes "parts_wf p" "regs_wf r"
  shows "parts_wf (snd (wb_stage (r, p)))" "regs_wf (fst (wb_stage (r, p)))"
  using assms wb_cop0_parts[OF assms(1), of "l_cop0 (pl_dc_wb p)"]
  by (auto simp: wb_stage_def vacate_wb_def retire_def Let_def case_prod_beta tick_random_wf parts_wf_parts wb_regs_wf)

lemma sample_parts: "parts_wf p \<Longrightarrow> parts_wf (fst (sample_interrupt_lines ops (p, b)))"
  by (simp add: sample_interrupt_lines_def case_prod_beta set_ip_wf clock_wf parts_wf_parts)

lemma dc_stage_parts:
  assumes "parts_wf p"
  shows "parts_wf (fst (dc_stage ops (p, b)))"
proof -
  obtain q c where s: "sample_interrupt_lines ops (p, b) = (q, c)" by (metis surj_pair)
  have q: "parts_wf (dc_interrupts q)" using sample_parts[OF assms, of ops b] s by (simp add: dc_interrupts_def)
  have "parts_wf (fst (snd (dc_memory ops (dc_interrupts q, c))))"
    using q by (auto simp: dc_memory_def Let_def dest!: mem_access_parts split: option.split prod.split sum.split)
  then show ?thesis by (simp add: dc_stage_def s Let_def case_prod_beta)
qed

lemma cop2_result_parts [simp]: "parts_wf (snd (cop2_result d rt w p)) = parts_wf p"
  by (simp add: cop2_result_def)

lemma ex_gate_parts: "parts_wf p \<Longrightarrow> parts_wf (snd (ex_gate d p))"
  by (simp add: ex_gate_def split: option.split)

lemma resolve_parts: "parts_wf p \<Longrightarrow> parts_wf (snd (snd (resolve_branch_control out lk rd n p)))"
  by (simp add: resolve_branch_control_def Let_def split: option.split)

lemma ex_commit_parts: "parts_wf p \<Longrightarrow> parts_wf (snd (snd (ex_commit out e (n, p))))"
  using eret_wf
  by (simp add: ex_commit_def Let_def case_prod_beta resolve_parts parts_wf_parts)

lemma ex_stage_parts:
  assumes "parts_wf p"
  shows "parts_wf (snd (ex_stage r (n, p)))"
proof -
  obtain g q where g: "ex_gate (l_decoded (pl_rf_ex p)) p = (g, q)" by (metis surj_pair)
  have q: "parts_wf q" using ex_gate_parts[OF assms, of "l_decoded (pl_rf_ex p)"] g by simp
  show ?thesis
    using assms q ex_commit_parts[OF q]
    by (cases g) (simp_all add: ex_stage_def Let_def vacate_rf_ex_def g case_prod_beta split: sum.split)
qed

lemma rf_stage_parts [simp]: "parts_wf (rf_stage r p) = parts_wf p"
  by (simp add: rf_stage_def Let_def)

lemma fetch_parts:
  assumes "parts_wf p"
  shows "parts_wf (fst (snd (fetch_word ops pc (p, b))))"
proof -
  have "parts_wf (snd (fetch_mapped pc p))"
    using assms itlb_probe_wf[of "pl_tlb p" pc "asid_of p"] lookup_wf itlb_fill_wf
    by (auto simp: fetch_mapped_def Let_def parts_wf_parts stall_pipe_def case_prod_beta split: sum.split prod.split)
  then have "parts_wf (snd (fetch_address pc p))"
    using assms by (simp add: fetch_address_def split: segment.split)
  then have a: "parts_wf (snd (fetch_address pc p))" .
  have c: "parts_wf (fst (snd (fetch_cached ops x (q, b))))" if "parts_wf q" for x q b
    using that by (simp add: fetch_cached_def case_prod_beta parts_wf_parts fill_shape)
  obtain x q where f: "fetch_address pc p = (x, q)" by (metis surj_pair)
  show ?thesis
    using assms a c by (cases x) (simp_all add: fetch_word_def f Let_def case_prod_beta)
qed

lemma ic_stage_parts: "parts_wf p \<Longrightarrow> parts_wf (fst (snd (ic_stage ops (n, p, b))))"
  using fetch_parts[of p ops n b]
  by (auto simp: ic_stage_def Let_def split: prod.split sum.split)

lemma take_pending_parts: "parts_wf p \<Longrightarrow> parts_wf (snd (take_pending (n, p)))"
  using dispatch_wf by (auto simp: take_pending_def case_prod_beta parts_wf_parts split: option.split)

lemma advance_parts:
  assumes "parts_wf p" "regs_wf r" "advance_at ops t (r, n, p, b) = (r', n', p', b')"
  shows "parts_wf p' \<and> regs_wf r'"
proof (cases "pl_stall p")
  case (Some s)
  then show ?thesis using assms by (auto simp: advance_at_def stall_cycle_def Let_def clock_wf parts_wf_parts)
next
  case None
  define q where "q = p\<lparr>pl_cop0 := set_now t (pl_cop0 p)\<rparr>"
  have q: "parts_wf q" using assms(1) by (simp add: q_def clock_wf parts_wf_parts)
  obtain r1 p1 where 1: "wb_stage (r, q) = (r1, p1)" by (metis surj_pair)
  obtain p2 b2 where 2: "dc_stage ops (p1, b) = (p2, b2)" by (metis surj_pair)
  obtain n3 p3 where 3: "ex_stage r1 (n, p2) = (n3, p3)" by (metis surj_pair)
  obtain n4 p4 b4 where 4: "ic_stage ops (n3, rf_stage r1 p3, b2) = (n4, p4, b4)" by (metis prod_cases3)
  obtain n5 p5 where 5: "take_pending (n4, p4\<lparr>pl_prev_was_run := True, pl_flush_pending := False\<rparr>) = (n5, p5)" by (metis surj_pair)
  have "run_stages ops (r, n, q, b) = (r1, n5, p5, b4)" by (simp add: run_stages_def 1 2 3 4 5 Let_def)
  then have e: "p' = p5" "r' = r1" using assms(3) None by (simp_all add: advance_at_def q_def)
  have "parts_wf p1" "regs_wf r1" using wb_stage_parts[OF q assms(2)] 1 by simp_all
  moreover from this have "parts_wf p2" using dc_stage_parts[of p1 ops b] 2 by simp
  moreover from this have "parts_wf p3" using ex_stage_parts[of p2 r1 n] 3 by simp
  moreover from this have "parts_wf p4" using ic_stage_parts[of "rf_stage r1 p3" ops n3 b2] 4 by simp
  moreover from this have "parts_wf p5" using take_pending_parts[of "p4\<lparr>pl_prev_was_run := True, pl_flush_pending := False\<rparr>" n4] 5 by simp
  ultimately show ?thesis by (simp add: e)
qed

section \<open>The instruction-level engine keeps the components\<close>

definition state_wf :: "'b fast_state \<Rightarrow> bool" where
  "state_wf s \<longleftrightarrow> regs_wf (fst s) \<and> parts_wf (fst (snd (snd s)))"

lemma state_wf_simp [simp]: "state_wf (r, n, p, b) \<longleftrightarrow> regs_wf r \<and> parts_wf p"
  by (simp add: state_wf_def)

lemma take_stall_cost_parts [simp]: "parts_wf (snd (take_stall_cost p)) = parts_wf p"
  by (simp add: take_stall_cost_def)

lemma vector_to_parts: "parts_wf p \<Longrightarrow> parts_wf (snd (snd (vector_to e pc ds bad p)))"
  using dispatch_wf by (simp add: vector_to_def Let_def case_prod_beta parts_wf_parts)

lemma redirect_to_wf: "regs_wf r \<Longrightarrow> parts_wf p \<Longrightarrow> state_wf (snd (redirect_to e pc ds bad cost r p b))"
  using vector_to_parts by (simp add: redirect_to_def Let_def case_prod_beta)

lemma recognize_parts: "parts_wf p \<Longrightarrow> parts_wf (fst (recognize_idle_loop ops w pc ds (p, b)))"
  by (simp add: recognize_idle_loop_def Let_def case_prod_beta fetch_parts)

lemma retire_parts: "parts_wf p \<Longrightarrow> parts_wf (retire p)"
  by (simp add: retire_def tick_random_wf parts_wf_parts)

lemma finish_latch_wf: "state_wf s \<Longrightarrow> state_wf (snd (finish_latch l e cost s))"
proof -
  obtain r n p b where s: "s = (r, n, p, b)" by (cases s)
  obtain r' q where w: "wb_stage (r, p\<lparr>pl_dc_wb := apply_cop0_read p l\<rparr>) = (r', q)" by (metis surj_pair)
  have e: "cop0_wf (snd (eret (pl_cop0 q)))" if "parts_wf q" using that by (simp add: eret_wf parts_wf_parts)
  assume "state_wf s"
  then have "parts_wf q" "regs_wf r'"
    using wb_stage_parts[of "p\<lparr>pl_dc_wb := apply_cop0_read p l\<rparr>" r] w by (simp_all add: s)
  moreover have "pl_cop0 (snd (take_stall_cost q)) = pl_cop0 q" by (simp add: take_stall_cost_def)
  ultimately show "state_wf (snd (finish_latch l e cost s))"
    using e by (simp add: s finish_latch_def w Let_def case_prod_beta redirect_to_wf split: option.split)
qed

lemma finish_full_wf:
  assumes "state_wf s"
  shows "state_wf (snd (finish_full ops l e lnk cost s))"
proof -
  obtain r n p b where s: "s = (r, n, p, b)" by (cases s)
  show ?thesis
  proof (cases "l_mem l")
    case None
    then show ?thesis using assms by (simp add: s finish_full_def finish_latch_wf)
  next
    case (Some m)
    obtain x q c where m: "mem_access ops m (p, b) = (x, q, c)" by (metis prod_cases3)
    have "parts_wf q" using mem_access_parts[OF m] assms by (simp add: s)
    then show ?thesis
      using assms by (cases x) (simp_all add: s finish_full_def Some m Let_def case_prod_beta finish_latch_wf redirect_to_wf)
  qed
qed

lemma execute_word_wf: "state_wf s \<Longrightarrow> state_wf (snd (execute_word ops pc w ds lnk cost s))"
proof -
  have f: "state_wf s \<Longrightarrow> state_wf (snd (finish ops pc w ds lnk e cost s))" for e s
    by (cases s) (simp add: finish_def finish_simple_def Let_def case_prod_beta finish_full_wf retire_parts wb_regs_wf)
  obtain r n p b where s: "s = (r, n, p, b)" by (cases s)
  obtain g q where g: "ex_gate (decode w) p = (g, q)" by (metis surj_pair)
  assume "state_wf s"
  then have "regs_wf r" "parts_wf q" using ex_gate_parts[of p "decode w"] g by (simp_all add: s)
  then show "state_wf (snd (execute_word ops pc w ds lnk cost s))"
    using f by (cases g) (simp_all add: s execute_word_def g Let_def redirect_to_wf split: sum.split)
qed

lemma execute_one_wf:
  assumes "state_wf s"
  shows "state_wf (snd (execute_one ops pc ds lnk s))"
proof -
  obtain r n p b where s: "s = (r, n, p, b)" by (cases s)
  obtain x q c where f: "fetch_word ops pc (p, b) = (x, q, c)" by (metis prod_cases3)
  have q: "regs_wf r" "parts_wf q" using assms fetch_parts[of p ops pc b] f by (simp_all add: s)
  show ?thesis
  proof (cases x)
    case (Inl e)
    then show ?thesis using q by (simp add: s execute_one_def f case_prod_beta redirect_to_wf)
  next
    case (Inr w)
    obtain p' b' where i: "recognize_idle_loop ops w pc ds (snd (take_stall_cost q), c) = (p', b')" by (metis surj_pair)
    have "parts_wf p'" using recognize_parts[of "snd (take_stall_cost q)" ops w pc ds c] q i by simp
    then show ?thesis using q by (simp add: s execute_one_def f Inr case_prod_beta i execute_word_wf)
  qed
qed

lemma step_loop_wf:
  assumes "step_loop ops k s = Some (cost, s')" "state_wf s"
  shows "state_wf s'"
proof -
  have "state_wf s \<longrightarrow> state_wf (snd y)" if "step_loop ops k s = Some y" for y
  proof (rule step_loop.raw_induct[where P = "\<lambda>ops k s y. state_wf s \<longrightarrow> state_wf (snd y)", OF _ that], intro impI)
    fix loop :: "'b bus_ops \<Rightarrow> cursor \<Rightarrow> 'b fast_state \<Rightarrow> (u32 \<times> 'b fast_state) option" and ops k s y
    assume ih: "\<And>ops k s y. loop ops k s = Some y \<Longrightarrow> state_wf s \<longrightarrow> state_wf (snd y)"
      and body: "(case execute_one ops (cu_pc k) (cu_in_delay_slot k) (cu_link k) s of
          ((c, fl), r, next_pc, p, b) \<Rightarrow>
            let cost = sat32_add (cu_cost k) c
            in case fl of FlNext \<Rightarrow> Some (cost, r, cu_fall k, p, b)
               | FlBranch target annul \<Rightarrow>
                   if annul then Some (cost, r, target, p, b)
                   else loop ops \<lparr>cu_pc = cu_fall k, cu_fall = target, cu_link = target + 4,
                     cu_in_delay_slot = True, cu_cost = cost\<rparr> (r, next_pc, p, b)
               | FlRedirected \<Rightarrow> Some (cost, r, next_pc, p, b)) = Some y"
      and w: "state_wf s"
    obtain c fl r n p b where e: "execute_one ops (cu_pc k) (cu_in_delay_slot k) (cu_link k) s = ((c, fl), r, n, p, b)"
      by (metis surj_pair)
    have "state_wf (r, n, p, b)" using execute_one_wf[OF w, of ops "cu_pc k" "cu_in_delay_slot k" "cu_link k"] e by simp
    then show "state_wf (snd y)"
    proof (cases fl)
      case (FlBranch target annul)
      then show ?thesis
        using body ih[of ops "\<lparr>cu_pc = cu_fall k, cu_fall = target, cu_link = target + 4,
          cu_in_delay_slot = True, cu_cost = sat32_add (cu_cost k) c\<rparr>" "(r, n, p, b)" y] \<open>state_wf (r, n, p, b)\<close>
        by (cases annul) (auto simp: e Let_def)
    qed (use body in \<open>auto simp: e Let_def\<close>)
  qed
  then show ?thesis using assms by fastforce
qed

lemma step_instruction_wf:
  assumes "step_instruction ops t (r, n, p, b) = Some (cost, s)" "regs_wf r" "parts_wf p"
  shows "state_wf s"
proof -
  obtain q c where q: "sample_interrupt_lines ops (p\<lparr>pl_cop0 := set_now t (pl_cop0 p)\<rparr>, b) = (q, c)" by (metis surj_pair)
  have w: "parts_wf q"
    using sample_parts[of "p\<lparr>pl_cop0 := set_now t (pl_cop0 p)\<rparr>" ops b] assms(3)
    by (simp add: q clock_wf parts_wf_parts)
  have i: "parts_wf (idle_skip q)" using w by (simp add: idle_skip_def tick_random_wf parts_wf_parts)
  show ?thesis
    using assms(1) w i assms(2) step_loop_wf[of ops "cursor_at n" "(r, n, q, c)" cost s]
      vector_to_parts[of "q\<lparr>pl_nmi_pending := False\<rparr>" Nmi n False 0] vector_to_parts[of q Interrupt n False 0]
    by (auto simp: step_instruction_def q Let_def case_prod_beta split: if_splits)
qed

section \<open>Reachable machines\<close>

text \<open>Everything that drives the processor: cycles, instruction steps, batches of idle pairs, the
  entry point set by the loader, the NMI line, and the rest of the machine changing the bus.\<close>

inductive machine_reachable :: "'b bus_ops \<Rightarrow> cpu \<times> 'b \<Rightarrow> bool" for ops where
  Reset: "machine_reachable ops (cpu_new, b)"
| Tick: "machine_reachable ops s \<Longrightarrow> machine_reachable ops (cpu_tick_at ops t s)"
| Step: "machine_reachable ops s \<Longrightarrow> step_instruction_at ops t s = Some (cost, s') \<Longrightarrow> machine_reachable ops s'"
| Idle: "machine_reachable ops (c, b) \<Longrightarrow> machine_reachable ops (retire_idle_pairs n c, b)"
| Entry: "machine_reachable ops (c, b) \<Longrightarrow> machine_reachable ops (set_pc v c, b)"
| Line: "machine_reachable ops (c, b) \<Longrightarrow> machine_reachable ops (c\<lparr>cpu_pipeline := signal_nmi (cpu_pipeline c)\<rparr>, b)"
| Rest: "machine_reachable ops (c, b) \<Longrightarrow> machine_reachable ops (c, b')"

definition cpu_wf :: "cpu \<Rightarrow> bool" where
  "cpu_wf c \<longleftrightarrow> regs_wf (cpu_regs c) \<and> parts_wf (cpu_pipeline c)"

lemma cpu_put_wf: "state_wf s \<Longrightarrow> cpu_wf (fst (cpu_put s))"
  by (cases s) (simp add: cpu_put_def cpu_wf_def)

lemma reachable_cpu_wf: "machine_reachable ops s \<Longrightarrow> cpu_wf (fst s)"
proof (induction rule: machine_reachable.induct)
  case (Reset b)
  then show ?case by (simp add: cpu_wf_def cpu_new_def reset_parts invlib)
next
  case (Tick s t)
  obtain c b where s: "s = (c, b)" by (cases s)
  obtain r' n' p' b' where a: "advance_at ops t (cpu_regs c, cpu_pc c, cpu_pipeline c, b) = (r', n', p', b')"
    by (rule prod_cases4)
  have "state_wf (r', n', p', b')" using advance_parts[OF _ _ a] Tick.IH by (simp add: s cpu_wf_def)
  then have "cpu_wf (fst (cpu_put (r', n', p', b')))" by (rule cpu_put_wf)
  then show ?case by (simp add: s cpu_tick_at_def a)
next
  case (Step s t cost s')
  obtain c b where s: "s = (c, b)" by (cases s)
  obtain x where x: "step_instruction ops t (cpu_regs c, cpu_pc c, cpu_pipeline c, b) = Some (cost, x)" "s' = cpu_put x"
    using Step.hyps(2) by (auto simp: s step_instruction_at_def split: option.splits)
  have "state_wf x" using step_instruction_wf[OF x(1)] Step.IH by (simp add: s cpu_wf_def)
  then show ?case using cpu_put_wf by (simp add: x(2))
qed (simp_all add: cpu_wf_def retire_idle_pairs_def Let_def tick_random_by_wf parts_wf_parts set_pc_def signal_nmi_def)

text \<open>In every state the processor can reach, by cycles, instruction steps and idle batches in any order
  and over any bus, the state keeps its shape and no register holds bits it does not have: the general and floating-point files have 32 entries, coprocessor 0 only architectural
  bits, the TLB well-formed entries and a micro-TLB that points into it, and both caches 512 full lines.\<close>

lemma reachable_machine_well_formed:
  assumes "machine_reachable ops s" "p = cpu_pipeline (fst s)"
  shows "length (gpr (cpu_regs (fst s))) = 32 \<and> length (fgr (pl_fpr p)) = 32 \<and>
    length (c0_regs (pl_cop0 p)) = 32 \<and> (\<forall>i < 32. c0_regs (pl_cop0 p) ! i AND NOT (ARCH_MASK ! i) = 0) \<and>
    length (entries (pl_tlb p)) = 32 \<and> (\<forall>e \<in> set (entries (pl_tlb p)). entry_wf e) \<and>
    (\<forall>i. Some i \<in> set (itlb (pl_tlb p)) \<longrightarrow> i < 32) \<and>
    length (d_lines (pl_dcache p)) = 512 \<and> (\<forall>l \<in> set (d_lines (pl_dcache p)). length (ln_data l) = 16) \<and>
    length (i_lines (pl_icache p)) = 512 \<and> (\<forall>l \<in> set (i_lines (pl_icache p)). length (ln_data l) = 32)"
  using reachable_cpu_wf[OF assms(1)] unfolding assms(2)
  by (simp add: cpu_wf_def regs_wf_def parts_wf_def cop0_wf_def tlb_wf_def fpr_wf_def dc_shape_def ic_shape_def)

lemma reachable_machine_well_formed_witness:
  "length (d_lines (pl_dcache (cpu_pipeline (fst (cpu_tick_at (rom_bus idle_rom) 7
     (cpu_tick_at (rom_bus idle_rom) 6 (cpu_new, ()))))))) = 512"
  using reachable_machine_well_formed[OF Tick[OF Tick[OF Reset[of "rom_bus idle_rom" "()"], of 6], of 7] refl]
  by (elim conjE)

end
