(* ===== verification/Pipeline_Refines.thy ===== *)
theory Pipeline_Refines
  imports Machine_Inv Fast_Idle
begin

text \<open>
  The pipeline against the instruction set. \<open>flushed\<close> completes the instructions in flight: the two
  that have executed write their results, the two behind them execute on what that leaves. The
  commuting diagram says that a cycle and a flush are a flush and the one instruction fetched; its
  core is that the bypass delivers the value the register will hold (\<open>bypass_reads_done\<close>). It covers
  the register-to-register instructions: loads, branches, coprocessor moves and exceptions are not
  \<open>simple\<close>, and a cycle in which one of them is in flight is outside its hypotheses.
\<close>

section \<open>The instruction set on registers\<close>

definition simple :: "op \<Rightarrow> bool" where
  "simple q \<longleftrightarrow> (case q of RegArith _ \<Rightarrow> True | RegLogic _ \<Rightarrow> True | ImmOp _ \<Rightarrow> True | ShiftOp _ \<Rightarrow> True
     | ShiftVOp _ \<Rightarrow> True | HiLoOp _ \<Rightarrow> True | _ \<Rightarrow> False)"

definition isa :: "decoded \<Rightarrow> regs \<Rightarrow> executed exn_result" where
  "isa d r = execute d (reg_read r (d_rs d)) (reg_read r (d_rt d)) \<lparr>hl_hi = reg_hi r, hl_lo = reg_lo r\<rparr> 0 False"

definition isa_regs :: "decoded \<Rightarrow> regs \<Rightarrow> regs" where
  "isa_regs d r = (case isa d r of Inr e \<Rightarrow> wb_regs (write_back e) r | Inl x \<Rightarrow> r)"

lemma simple_pc: "simple (d_op d) \<Longrightarrow> execute d a b h pc c = execute d a b h 0 False"
  by (cases "d_op d") (simp_all add: simple_def execute_def)

lemma simple_result:
  assumes "simple (d_op d)" "execute d a b h pc c = Inr e"
  shows "mem e = None" "cop0 e = None" "link e = None" "redirect e = None"
    "unat (d_dest d) < 32 \<Longrightarrow> \<forall>r v. write_back e = WbGpr r v \<longrightarrow> unat r < 32"
proof -
  have "effect_of (d_op d) \<in> {EffGpr, EffHiLo}"
    using assms(1) by (cases "d_op d") (auto simp: simple_def)
  then show "mem e = None" "cop0 e = None" "link e = None" "redirect e = None"
    "unat (d_dest d) < 32 \<Longrightarrow> \<forall>r v. write_back e = WbGpr r v \<longrightarrow> unat r < 32"
    using exec_effect[OF assms(2)] by (auto simp: nothing_def)
qed

lemma simple_gate:
  assumes "simple (d_op d)" "\<not> sixty_four_bit_is_reserved p"
  shows "ex_gate d p = (None, p)" "cop2_result d rt w p = (w, p)"
proof -
  have "cop_unit (d_op d) = None" "d_op d \<noteq> Cop2Op z" "d_op d \<noteq> Cop1Op y" for z y
    using assms(1) by (auto simp: simple_def cop_unit_def)
  then show "ex_gate d p = (None, p)" "cop2_result d rt w p = (w, p)"
    using assms(2) by (simp_all add: ex_gate_def unusable_coprocessor_def cop2_result_def)
qed

section \<open>The flushed registers\<close>

definition done_wb :: "latch \<Rightarrow> regs \<Rightarrow> regs" where
  "done_wb l r = (if live l then wb_regs (l_write_back l) r else r)"

definition todo :: "latch \<Rightarrow> regs \<Rightarrow> regs" where
  "todo l r = (if live l then isa_regs (l_decoded l) r else r)"

definition flushed :: "regs \<Rightarrow> pipeline \<Rightarrow> regs" where
  "flushed r p = todo (pl_ic_rf p) (todo (pl_rf_ex p) (done_wb (pl_ex_dc p) (done_wb (pl_dc_wb p) r)))"

definition done_ok :: "latch \<Rightarrow> bool" where
  "done_ok l \<longleftrightarrow> (live l \<longrightarrow> l_mem l = None \<and> l_cop0 l = None \<and>
     (\<forall>r v. l_write_back l = WbGpr r v \<longrightarrow> unat r < 32))"

definition todo_ok :: "latch \<Rightarrow> bool" where
  "todo_ok l \<longleftrightarrow> (live l \<longrightarrow> simple (d_op (l_decoded l)) \<and>
     unat (d_rs (l_decoded l)) < 32 \<and> unat (d_rt (l_decoded l)) < 32 \<and> unat (d_dest (l_decoded l)) < 32)"

definition flight_ok :: "pipeline \<Rightarrow> bool" where
  "flight_ok p \<longleftrightarrow> done_ok (pl_dc_wb p) \<and> done_ok (pl_ex_dc p) \<and> todo_ok (pl_rf_ex p) \<and> todo_ok (pl_ic_rf p)"

section \<open>Forwarding\<close>

lemma reg_slot_small: "unat (x :: u8) < 32 \<Longrightarrow> reg_slot x = unat x"
  by (simp add: reg_slot_def)

text \<open>What the bypass delivers is what the register will hold once the older instruction has committed.\<close>

lemma bypass_reads_done:
  assumes "regs_wf r" "done_ok (pl_dc_wb p)" "unat k < 32"
  shows "bypass p k r = reg_read (done_wb (pl_dc_wb p) r) k"
proof (cases "l_write_back (pl_dc_wb p)")
  case (WbGpr d v)
  show ?thesis
  proof (cases "live (pl_dc_wb p)")
    case True
    then have d: "unat d < 32" using assms(2) WbGpr by (simp add: done_ok_def)
    have i: "reg_slot d = reg_slot k \<longleftrightarrow> d = k" "reg_slot d = 0 \<longleftrightarrow> d = 0"
      by (simp_all only: reg_slot_small[OF d] reg_slot_small[OF assms(3)] word_unat_eq_iff unat_0)
    have "reg_read (reg_write r d v) k = (if k \<noteq> 0 \<and> d = k then v else reg_read r k)"
      unfolding reg_read_write[OF assms(1)] i by auto
    then show ?thesis using True by (simp add: bypass_def WbGpr done_wb_def wb_regs_def)
  qed (simp add: bypass_def WbGpr done_wb_def)
qed (simp_all add: bypass_def done_wb_def wb_regs_def reg_read_def Let_def)

lemma bypass_hi_lo_done:
  assumes "live (pl_dc_wb p)"
  shows "bypass_hi_lo p r = \<lparr>hl_hi = reg_hi (done_wb (pl_dc_wb p) r), hl_lo = reg_lo (done_wb (pl_dc_wb p) r)\<rparr>"
  using assms
  by (cases "l_write_back (pl_dc_wb p)") (simp_all add: bypass_hi_lo_def done_wb_def wb_regs_def Let_def reg_write_def)


section \<open>One stage at a time\<close>

lemma executed_latch:
  assumes "live l" "todo_ok l" "isa (l_decoded l) r = Inr e"
  shows "done_wb (l\<lparr>l_rs_val := a, l_rt_val := b, l_write_back := write_back e, l_mem := mem e, l_cop0 := cop0 e\<rparr>) r = todo l r"
    "done_ok (l\<lparr>l_rs_val := a, l_rt_val := b, l_write_back := write_back e, l_mem := mem e, l_cop0 := cop0 e\<rparr>)"
  using assms simple_result[of "l_decoded l"]
  by (auto simp: done_wb_def todo_def isa_regs_def live_def todo_ok_def done_ok_def isa_def)

text \<open>EX leaves in \<open>ex_dc\<close> a latch whose write is what the instruction does to the registers the older
  one leaves behind.\<close>

lemma ex_stage_flushes:
  assumes "regs_wf r" "done_ok (pl_dc_wb p)" "todo_ok (pl_rf_ex p)" "\<not> sixty_four_bit_is_reserved p"
    and "live (pl_rf_ex p) \<Longrightarrow> \<exists>e. isa (l_decoded (pl_rf_ex p)) (done_wb (pl_dc_wb p) r) = Inr e"
    and "ex_stage r (n, p) = (n', q)"
  shows "done_wb (pl_ex_dc q) (done_wb (pl_dc_wb p) r) = todo (pl_rf_ex p) (done_wb (pl_dc_wb p) r)"
    and "done_ok (pl_ex_dc q)" "n' = n"
    and "\<exists>x st. q = p\<lparr>pl_ex_dc := x, pl_stall := st, pl_rf_ex := (pl_rf_ex p)\<lparr>l_occupied := False\<rparr>\<rparr>"
proof -
  have "done_wb (pl_ex_dc q) (done_wb (pl_dc_wb p) r) = todo (pl_rf_ex p) (done_wb (pl_dc_wb p) r) \<and>
    done_ok (pl_ex_dc q) \<and> n' = n \<and>
    (\<exists>x st. q = p\<lparr>pl_ex_dc := x, pl_stall := st, pl_rf_ex := (pl_rf_ex p)\<lparr>l_occupied := False\<rparr>\<rparr>)"
  proof (cases "live (pl_rf_ex p)")
    case False
    then have "q = p\<lparr>pl_ex_dc := pl_rf_ex p, pl_rf_ex := (pl_rf_ex p)\<lparr>l_occupied := False\<rparr>\<rparr>" "n' = n"
      using assms(6) by (simp_all add: ex_stage_def vacate_rf_ex_def Let_def)
    then show ?thesis
      using False by (intro conjI exI[of _ "pl_rf_ex p"] exI[of _ "pl_stall p"]) (simp_all add: done_wb_def todo_def done_ok_def)
  next
    case True
    let ?d = "l_decoded (pl_rf_ex p)" and ?r = "done_wb (pl_dc_wb p) r"
    obtain e where e: "isa ?d ?r = Inr e" using assms(5) True by blast
    have d: "simple (d_op ?d)" "unat (d_rs ?d) < 32" "unat (d_rt ?d) < 32" "unat (d_dest ?d) < 32"
      using assms(3) True by (simp_all add: todo_ok_def)
    have x: "execute ?d (bypass p (d_rs ?d) r) (bypass p (d_rt ?d) r) (bypass_hi_lo p r) pc c = Inr e" for pc c
    proof -
      have h: "bypass_hi_lo p r = \<lparr>hl_hi = reg_hi ?r, hl_lo = reg_lo ?r\<rparr>"
      proof (cases "live (pl_dc_wb p)")
        case False
        then show ?thesis by (simp add: bypass_hi_lo_def done_wb_def)
      qed (rule bypass_hi_lo_done)
      have "execute ?d (bypass p (d_rs ?d) r) (bypass p (d_rt ?d) r) (bypass_hi_lo p r) pc c =
          execute ?d (bypass p (d_rs ?d) r) (bypass p (d_rt ?d) r) (bypass_hi_lo p r) 0 False"
        by (rule simple_pc[OF d(1)])
      also have "\<dots> = isa ?d ?r"
        by (simp only: isa_def h bypass_reads_done[OF assms(1,2) d(2)] bypass_reads_done[OF assms(1,2) d(3)])
      finally show ?thesis by (simp only: e)
    qed
    have res: "mem e = None" "cop0 e = None" "link e = None" "redirect e = None"
      using simple_result[OF d(1) x] by simp_all
    define l where "l = (pl_rf_ex p)\<lparr>l_rs_val := bypass p (d_rs ?d) r, l_rt_val := bypass p (d_rt ?d) r,
      l_write_back := write_back e, l_mem := mem e, l_cop0 := cop0 e\<rparr>"
    have "ex_stage r (n, p) = (n, vacate_rf_ex ((if stall_cycles e > 0 then stall_pipe (stall_cycles e) Mci p else p)\<lparr>pl_ex_dc := l\<rparr>))"
      using True
      by (simp add: ex_stage_def Let_def simple_gate[OF d(1) assms(4)] x ex_commit_def resolve_branch_control_def res l_def)
    then have q: "n' = n" "q = vacate_rf_ex ((if stall_cycles e > 0 then stall_pipe (stall_cycles e) Mci p else p)\<lparr>pl_ex_dc := l\<rparr>)"
      using assms(6) by simp_all
    have "pl_ex_dc q = l" by (simp add: q vacate_rf_ex_def)
    then have "done_wb (pl_ex_dc q) ?r = todo (pl_rf_ex p) ?r" "done_ok (pl_ex_dc q)"
      using executed_latch[OF True assms(3) e] by (simp_all add: l_def)
    moreover have "q = p\<lparr>pl_ex_dc := l, pl_stall := pl_stall q, pl_rf_ex := (pl_rf_ex p)\<lparr>l_occupied := False\<rparr>\<rparr>"
      by (cases p) (simp add: q vacate_rf_ex_def stall_pipe_def)
    ultimately show ?thesis using q(1) by blast
  qed
  then show "done_wb (pl_ex_dc q) (done_wb (pl_dc_wb p) r) = todo (pl_rf_ex p) (done_wb (pl_dc_wb p) r)"
    "done_ok (pl_ex_dc q)" "n' = n"
    "\<exists>x st. q = p\<lparr>pl_ex_dc := x, pl_stall := st, pl_rf_ex := (pl_rf_ex p)\<lparr>l_occupied := False\<rparr>\<rparr>" by blast+
qed


text \<open>A fetch leaves latches and bookkeeping alone.\<close>

definition same_latches :: "pipeline \<Rightarrow> pipeline \<Rightarrow> bool" where
  "same_latches p q \<longleftrightarrow> pl_ic_rf q = pl_ic_rf p \<and> pl_rf_ex q = pl_rf_ex p \<and> pl_ex_dc q = pl_ex_dc p \<and>
     pl_dc_wb q = pl_dc_wb p \<and> pl_pending q = pl_pending p \<and> pl_flush_pending q = pl_flush_pending p \<and>
     pl_retired q = pl_retired p"

lemma fetch_same_latches:
  assumes "fetch_word ops pc (p, b) = (x, q, c)"
  shows "same_latches p q"
proof -
  have m: "same_latches p (snd (fetch_mapped pc p))"
    by (simp add: same_latches_def fetch_mapped_def Let_def case_prod_beta stall_pipe_def split: sum.split prod.split)
  have "same_latches p (snd (fetch_address pc p))"
    using m by (simp add: fetch_address_def same_latches_def split: segment.split)
  moreover have k: "same_latches q (fst (snd (fetch_cached ops a (q, b))))" for a q b
    by (simp add: fetch_cached_def case_prod_beta same_latches_def)
  have t: "same_latches p q'" if "same_latches p q" "same_latches q q'" for q q'
    using that by (simp add: same_latches_def)
  obtain y u where f: "fetch_address pc p = (y, u)" by (metis surj_pair)
  moreover have "same_latches p p" by (simp add: same_latches_def)
  ultimately show ?thesis
    using assms k[of u] t[of u]
    by (cases y) (auto simp: fetch_word_def Let_def split: if_splits prod.splits, (metis fst_conv snd_conv)+)
qed

lemma ic_stage_fetches:
  assumes "ic_stage ops (n, p, b) = (n', q, c)" "\<not> pl_flush_pending p" "pl_pending p = None"
  shows "pl_rf_ex q = pl_rf_ex p" "pl_ex_dc q = pl_ex_dc p" "pl_dc_wb q = pl_dc_wb p" "pl_retired q = pl_retired p"
    "live (pl_ic_rf q) \<Longrightarrow> l_pc (pl_ic_rf q) = n \<and> n' = n + 4 \<and> pl_pending q = None \<and>
       l_decoded (pl_ic_rf q) = decode (l_word (pl_ic_rf q))"
    "\<not> live (pl_ic_rf q) \<Longrightarrow> pl_pending q \<noteq> None"
proof -
  obtain x q' c' where f: "fetch_word ops n (p, b) = (x, q', c')" by (metis prod_cases3)
  have s: "same_latches p q'" by (rule fetch_same_latches[OF f])
  have "pl_rf_ex q = pl_rf_ex p \<and> pl_ex_dc q = pl_ex_dc p \<and> pl_dc_wb q = pl_dc_wb p \<and> pl_retired q = pl_retired p \<and>
    (live (pl_ic_rf q) \<longrightarrow> l_pc (pl_ic_rf q) = n \<and> n' = n + 4 \<and> pl_pending q = None \<and>
       l_decoded (pl_ic_rf q) = decode (l_word (pl_ic_rf q))) \<and>
    (\<not> live (pl_ic_rf q) \<longrightarrow> pl_pending q \<noteq> None)"
  proof (cases x)
    case (Inl e)
    then show ?thesis
      using assms s
      by (auto simp: ic_stage_def f Let_def same_latches_def live_def abort_pending abort_with_def mark_def latch_at_def)
  next
    case (Inr w)
    then show ?thesis using assms s by (auto simp: ic_stage_def f Let_def same_latches_def live_def)
  qed
  then show "pl_rf_ex q = pl_rf_ex p" "pl_ex_dc q = pl_ex_dc p" "pl_dc_wb q = pl_dc_wb p" "pl_retired q = pl_retired p"
    "live (pl_ic_rf q) \<Longrightarrow> l_pc (pl_ic_rf q) = n \<and> n' = n + 4 \<and> pl_pending q = None \<and>
       l_decoded (pl_ic_rf q) = decode (l_word (pl_ic_rf q))"
    "\<not> live (pl_ic_rf q) \<Longrightarrow> pl_pending q \<noteq> None" by blast+
qed

lemma wb_stage_done:
  assumes "done_ok (pl_dc_wb p)"
  shows "wb_stage (r, p) = (done_wb (pl_dc_wb p) r, vacate_wb (if live (pl_dc_wb p) then retire p else p))"
  using assms by (simp add: wb_stage_def done_ok_def done_wb_def wb_cop0_def retire_def)

lemma dc_stage_moves:
  assumes "done_ok (pl_ex_dc p)" "sample_interrupt_lines ops (p, b) = (q, c)" "\<not> pl_nmi_pending p" "\<not> interrupt_pending (pl_cop0 q)"
  shows "dc_stage ops (p, b) = (p\<lparr>pl_cop0 := pl_cop0 q, pl_dc_wb := pl_ex_dc p, pl_ex_dc := (pl_ex_dc p)\<lparr>l_occupied := False\<rparr>\<rparr>, c)"
proof -
  obtain d where q: "q = p\<lparr>pl_cop0 := d\<rparr>" using assms(2) by (auto simp: sample_interrupt_lines_def case_prod_beta)
  then have f: "pl_ex_dc q = pl_ex_dc p" "pl_nmi_pending q = pl_nmi_pending p" by simp_all
  have i: "dc_interrupts q = q" using assms f by (simp add: dc_interrupts_def)
  have m: "dc_memory ops (q, c) = (pl_ex_dc p, q, c)"
    using assms(1) by (simp add: dc_memory_def f done_ok_def Let_def split: option.split)
  have r: "apply_cop0_read q (pl_ex_dc p) = pl_ex_dc p"
    using assms(1) by (simp add: apply_cop0_read_def done_ok_def cop_read_value_def)
  show ?thesis by (simp add: dc_stage_def assms(2) i m r f) (simp add: q)
qed


section \<open>The cycle\<close>

definition sampled :: "'b bus_ops \<Rightarrow> u64 \<Rightarrow> pipeline \<times> 'b \<Rightarrow> pipeline" where
  "sampled ops t = (\<lambda>(p, b).
     fst (sample_interrupt_lines ops
       (vacate_wb (if live (pl_dc_wb p) then retire (p\<lparr>pl_cop0 := set_now t (pl_cop0 p)\<rparr>)
          else p\<lparr>pl_cop0 := set_now t (pl_cop0 p)\<rparr>), b)))"

lemma take_pending_frame:
  assumes "take_pending (n, p) = (n', q)"
  shows "pl_ic_rf q = pl_ic_rf p" "pl_rf_ex q = pl_rf_ex p" "pl_ex_dc q = pl_ex_dc p" "pl_dc_wb q = pl_dc_wb p"
    "pl_retired q = pl_retired p" "pl_pending q = None" "pl_pending p = None \<Longrightarrow> n' = n"
  using assms by (auto simp: take_pending_def stall_pipe_def case_prod_beta split: option.splits)

lemma reserved_sampled:
  assumes "status_of q = status_of p"
  shows "sixty_four_bit_is_reserved q = sixty_four_bit_is_reserved p"
  using assms by (simp add: sixty_four_bit_is_reserved_def access_mode_def pl_erl_def)

text \<open>The instruction-level engine does the same to the registers.\<close>

lemma execute_word_regs:
  assumes "simple (d_op (decode w))" "\<not> sixty_four_bit_is_reserved q"
  shows "fst (snd (execute_word ops pc w ds lnk cost (r, m, q, c))) = isa_regs (decode w) r"
proof -
  let ?d = "decode w"
  have x: "execute ?d (reg_read r (d_rs ?d)) (reg_read r (d_rt ?d)) \<lparr>hl_hi = reg_hi r, hl_lo = reg_lo r\<rparr> pc
      (fcsr (pl_cop1 q) AND FCSR_C \<noteq> 0) = isa ?d r"
    unfolding isa_def by (rule simple_pc[OF assms(1)])
  note g = simple_gate[OF assms]
  show ?thesis
  proof (cases "isa ?d r")
    case (Inl e)
    then show ?thesis by (simp add: execute_word_def g x Let_def isa_regs_def redirect_to_def case_prod_beta)
  next
    case (Inr e)
    have res: "mem e = None" "cop0 e = None" "link e = None" "redirect e = None"
      using simple_result[OF assms(1) Inr[unfolded isa_def]] by simp_all
    have w: "fst (wb_stage (r, p\<lparr>pl_dc_wb := apply_cop0_read p l\<rparr>)) = wb_regs (write_back e) r"
      if "live l" "l_cop0 l = None" "l_write_back l = write_back e" for l p
      using that by (simp add: apply_cop0_read_def cop_read_value_def wb_stage_def wb_cop0_def retire_def)
    have f: "fst (snd (finish_latch l e k (r, m, p, c))) = wb_regs (write_back e) r"
      if "live l" "l_cop0 l = None" "l_write_back l = write_back e" for l k p
      using w[OF that, of p] res(2)
      by (cases "wb_stage (r, p\<lparr>pl_dc_wb := apply_cop0_read p l\<rparr>)")
        (simp add: finish_latch_def Let_def case_prod_beta redirect_to_def split: option.split)
    show ?thesis
      by (simp add: execute_word_def g x Inr Let_def finish_def res link_value_def finish_simple_def finish_full_def f live_def isa_regs_def)
  qed
qed

section \<open>Properties\<close>

text \<open>C3. A cycle executes exactly one instruction. With register-to-register instructions in flight and
  none of them raising an exception, the registers after a cycle, with the pipeline flushed, are
  those before it with the newly fetched instruction executed on them, and are what the
  instruction-level engine makes of the same word; a failed fetch changes nothing, and the retired
  count grows by the one instruction that left WB.\<close>

theorem cycle_executes_one_instruction:
  assumes "flight_ok p" "regs_wf r" "pl_stall p = None" "\<not> pl_flush_pending p" "pl_pending p = None"
    and "\<not> pl_nmi_pending p" "\<not> interrupt_pending (pl_cop0 (sampled ops t (p, b)))"
    and "\<not> sixty_four_bit_is_reserved p"
    and "live (pl_rf_ex p) \<Longrightarrow> \<exists>e. isa (l_decoded (pl_rf_ex p)) (done_wb (pl_ex_dc p) (done_wb (pl_dc_wb p) r)) = Inr e"
    and "advance_at ops t (r, n, p, b) = (r', n', p', b')"
  shows "flushed r' p' = todo (pl_ic_rf p') (flushed r p) \<and>
    pl_retired p' = pl_retired p + of_bool (live (pl_dc_wb p)) \<and>
    done_ok (pl_dc_wb p') \<and> done_ok (pl_ex_dc p') \<and> todo_ok (pl_rf_ex p') \<and>
    (live (pl_ic_rf p') \<longrightarrow> l_pc (pl_ic_rf p') = n \<and> n' = n + 4 \<and> 
      l_decoded (pl_ic_rf p') = decode (l_word (pl_ic_rf p')) \<and>
      (simple (d_op (l_decoded (pl_ic_rf p'))) \<longrightarrow> (\<forall>pc ds lnk cost m q c. \<not> sixty_four_bit_is_reserved q \<longrightarrow>
         fst (snd (execute_word ops pc (l_word (pl_ic_rf p')) ds lnk cost (flushed r p, m, q, c))) = flushed r' p')))"
proof -
  define p0 where "p0 = p\<lparr>pl_cop0 := set_now t (pl_cop0 p)\<rparr>"
  define r1 where "r1 = done_wb (pl_dc_wb p) r"
  define p1 where "p1 = vacate_wb (if live (pl_dc_wb p) then retire p0 else p0)"
  have 1: "wb_stage (r, p0) = (r1, p1)"
    using wb_stage_done[of p0 r] assms(1) by (simp add: p0_def p1_def r1_def flight_ok_def)
  have f1: "pl_ex_dc p1 = pl_ex_dc p" "pl_rf_ex p1 = pl_rf_ex p" "pl_ic_rf p1 = pl_ic_rf p" "pl_nmi_pending p1 = pl_nmi_pending p"
    "pl_flush_pending p1 = pl_flush_pending p" "pl_pending p1 = pl_pending p" "status_of p1 = status_of p"
    "pl_retired p1 = pl_retired p + of_bool (live (pl_dc_wb p))"
    by (simp_all add: p1_def p0_def vacate_wb_def retire_def status_of_def cop0_read_tick_random sampled_status)
  obtain q c where s: "sample_interrupt_lines ops (p1, b) = (q, c)" by (metis surj_pair)
  have "pl_cop0 q = pl_cop0 (sampled ops t (p, b))" using s unfolding sampled_def p1_def p0_def by simp
  define p2 where "p2 = p1\<lparr>pl_cop0 := pl_cop0 q, pl_dc_wb := pl_ex_dc p, pl_ex_dc := (pl_ex_dc p)\<lparr>l_occupied := False\<rparr>\<rparr>"
  have 2: "dc_stage ops (p1, b) = (p2, c)"
    using dc_stage_moves[OF _ s] assms(1,6,7) \<open>pl_cop0 q = _\<close> by (simp add: p2_def f1 flight_ok_def)
  have st: "cop0_read (pl_cop0 q) 12 = cop0_read (pl_cop0 p1) 12"
    using s by (auto simp: sample_interrupt_lines_def case_prod_beta sampled_status)
  have "status_of p2 = status_of p" using st f1(7) by (simp add: p2_def status_of_def)
  then have res: "\<not> sixty_four_bit_is_reserved p2" using assms(8) reserved_sampled by blast
  obtain n3 p3 where 3: "ex_stage r1 (n, p2) = (n3, p3)" by (metis surj_pair)
  have r1: "regs_wf r1" using assms(2) by (simp add: r1_def done_wb_def wb_regs_wf)
  have d2: "pl_dc_wb p2 = pl_ex_dc p" "pl_rf_ex p2 = pl_rf_ex p" by (simp_all add: p2_def f1)
  have e: "done_wb (pl_ex_dc p3) (done_wb (pl_ex_dc p) r1) = todo (pl_rf_ex p) (done_wb (pl_ex_dc p) r1)"
    "done_ok (pl_ex_dc p3)" "n3 = n"
    "\<exists>x st. p3 = p2\<lparr>pl_ex_dc := x, pl_stall := st, pl_rf_ex := (pl_rf_ex p)\<lparr>l_occupied := False\<rparr>\<rparr>"
    using ex_stage_flushes[OF r1 _ _ res _ 3] assms(1,9) by (simp_all add: d2 flight_ok_def r1_def)
  define p4 where "p4 = rf_stage r1 p3"
  have f4: "pl_ex_dc p4 = pl_ex_dc p3" "pl_dc_wb p4 = pl_ex_dc p" "pl_pending p4 = None" "\<not> pl_flush_pending p4"
    "pl_retired p4 = pl_retired p1" "todo (pl_rf_ex p4) = todo (pl_ic_rf p)" "todo_ok (pl_rf_ex p4) = todo_ok (pl_ic_rf p)"
    using e(4) assms(4,5) f1
    by (auto simp: p4_def rf_stage_def Let_def p2_def stall_pipe_def todo_def todo_ok_def live_def fun_eq_iff)
  obtain n5 p5 b5 where 5: "ic_stage ops (n, p4, c) = (n5, p5, b5)" by (metis prod_cases3)
  note f5 = ic_stage_fetches[OF 5 f4(4,3)]
  obtain n6 p6 where 6: "take_pending (n5, p5\<lparr>pl_prev_was_run := True, pl_flush_pending := False\<rparr>) = (n6, p6)" by (metis surj_pair)
  note f6 = take_pending_frame[OF 6]
  have "run_stages ops (r, n, p0, b) = (r1, n6, p6, b5)"
    using 5 by (simp add: run_stages_def 1 2 3 e(3) p4_def[symmetric] 6 Let_def)
  then have o: "r' = r1" "n' = n6" "p' = p6" using assms(3,10) by (simp_all add: advance_at_def p0_def)
  have fl: "flushed r p = todo (pl_ic_rf p) (todo (pl_rf_ex p) (done_wb (pl_ex_dc p) r1))"
    by (simp add: flushed_def r1_def)
  have "flushed r' p' = todo (pl_ic_rf p5) (flushed r p)"
    unfolding fl by (simp add: flushed_def o f6 f5 f4 e)
  moreover have "pl_ic_rf p' = pl_ic_rf p5" by (simp add: o f6)
  moreover have "pl_retired p' = pl_retired p + of_bool (live (pl_dc_wb p))" by (simp add: o f6 f5 f4 f1)
  moreover have "done_ok (pl_dc_wb p') \<and> done_ok (pl_ex_dc p') \<and> todo_ok (pl_rf_ex p')"
    using assms(1) e(2) by (simp add: o f6 f5 f4 flight_ok_def)
  moreover have "live (pl_ic_rf p5) \<longrightarrow> n' = n5" using f5(5) f6(7) by (simp add: o)
  ultimately show ?thesis using f5(5) by (simp add: todo_def execute_word_regs)
qed

definition add_rom :: "u32 \<Rightarrow> u32" where
  "add_rom a = 0x24220007"

lemma cycle_executes_one_instruction_witness:
  "\<exists>r' n' p'. advance_at (rom_bus add_rom) 0 (regs_new, kseg1, pipeline_new\<lparr>pl_rf_ex :=
       EMPTY_LATCH\<lparr>l_occupied := True, l_decoded := decode 0x24010005\<rparr>\<rparr>, ()) = (r', n', p', ()) \<and>
     flushed r' p' = todo (pl_ic_rf p') (flushed regs_new (pipeline_new\<lparr>pl_rf_ex :=
       EMPTY_LATCH\<lparr>l_occupied := True, l_decoded := decode 0x24010005\<rparr>\<rparr>))"
proof -
  let ?p = "pipeline_new\<lparr>pl_rf_ex := EMPTY_LATCH\<lparr>l_occupied := True, l_decoded := decode 0x24010005\<rparr>\<rparr>"
  have d: "decode 0x24010005 = \<lparr>d_op = ImmOp Addiu, d_rs = 0, d_rt = 1, d_rd = 0, d_sa = 0, d_imm = 5, d_dest = 1, d_target = 0x10005\<rparr>"
    by (simp add: decode_def decode_base_def primary_table_def special_table_def decode_table_def)
  have l: "flight_ok ?p" by (simp add: flight_ok_def pipeline_new_def EMPTY_LATCH_def done_ok_def todo_ok_def live_def simple_def d)
  have i: "\<not> interrupt_pending (pl_cop0 (sampled (rom_bus add_rom) 0 (?p, ())))"
    by (simp add: sampled_def live_def pipeline_new_def EMPTY_LATCH_def vacate_wb_def sample_interrupt_lines_def rom_bus_def
        case_prod_beta interrupt_pending_def sampled_status_reg)
  have k: "\<not> sixty_four_bit_is_reserved ?p"
    by (simp add: sixty_four_bit_is_reserved_def reset_modes(1) status_of_def pipeline_new_def reset_status)
  have e: "\<exists>e. isa (l_decoded (pl_rf_ex ?p)) r = Inr e" for r
    by (simp add: d isa_def execute_def gpr_result_def)
  have p: "pl_stall ?p = None" "\<not> pl_flush_pending ?p" "pl_pending ?p = None" "\<not> pl_nmi_pending ?p"
    by (simp_all add: pipeline_new_def)
  obtain r' n' p' b' where a: "advance_at (rom_bus add_rom) 0 (regs_new, kseg1, ?p, ()) = (r', n', p', b')"
    by (rule prod_cases4)
  have u: "b' = ()" by simp
  show ?thesis
    by (intro exI conjI, rule a[unfolded u],
        rule conjunct1[OF cycle_executes_one_instruction[OF l regs_new_wf p i k e a]])
qed

end
