(* ===== verification/Vu.thy ===== *)
theory Vu
  imports Rsp
begin

text \<open>
  The vector unit's arithmetic: \<^verbatim>\<open>rustyn64-rsp/src/vu.rs\<close>. Register and lane numbers are \<open>nat\<close> with the
  code's masks written as \<open>mod\<close>; the code's \<^verbatim>\<open>i64\<close> intermediates are \<open>int\<close>, which no operation
  takes beyond 2 to the 49. An operation on all lanes is a fold over the lanes 0 to 7.
\<close>

section \<open>Registers\<close>

definition su_r :: "rsp \<Rightarrow> nat \<Rightarrow> u32" where
  "su_r r i = (if i = 0 then 0 else su_regs r ! i)"

definition set_su :: "nat \<Rightarrow> u32 \<Rightarrow> rsp \<Rightarrow> rsp" where
  "set_su i v r = (if i \<noteq> 0 then r\<lparr>su_regs := (su_regs r)[i := v]\<rparr> else r)"

definition vlane :: "rsp \<Rightarrow> nat \<Rightarrow> nat \<Rightarrow> u16" where
  "vlane r reg n = vu_regs r ! (reg mod 32) ! n"

definition set_vlane :: "nat \<Rightarrow> nat \<Rightarrow> u16 \<Rightarrow> rsp \<Rightarrow> rsp" where
  "set_vlane reg n v r =
     r\<lparr>vu_regs := (vu_regs r)[reg mod 32 := (vu_regs r ! (reg mod 32))[n := v]]\<rparr>"

definition vu_byte :: "rsp \<Rightarrow> nat \<Rightarrow> nat \<Rightarrow> u8" where
  "vu_byte r reg k =
     (let l = vlane r reg ((k mod 16) div 2)
      in if k mod 2 = 0 then to_u8 (shr l 8) else to_u8 l)"

definition set_vu_byte :: "nat \<Rightarrow> nat \<Rightarrow> u8 \<Rightarrow> rsp \<Rightarrow> rsp" where
  "set_vu_byte reg k v r =
     (let n = (k mod 16) div 2; l = vlane r reg n
      in set_vlane reg n
           (if k mod 2 = 0 then (l AND 0x00FF) OR shl (to_u16 v) 8 else (l AND 0xFF00) OR to_u16 v) r)"

definition mfc2 :: "nat \<Rightarrow> nat \<Rightarrow> nat \<Rightarrow> rsp \<Rightarrow> u32 \<times> rsp" where
  "mfc2 rt vs elem r =
     (let h = vu_byte r vs elem; l = vu_byte r vs ((elem + 1) mod 16);
          v = shl (to_u16 h) 8 OR to_u16 l;
          x = scast v
      in (x, set_su rt x r))"

definition mtc2 :: "u32 \<Rightarrow> nat \<Rightarrow> nat \<Rightarrow> rsp \<Rightarrow> rsp" where
  "mtc2 v vs elem r =
     (let r = set_vu_byte vs elem (to_u8 (shr v 8)) r
      in if elem \<noteq> 15 then set_vu_byte vs (elem + 1) (to_u8 v) r else r)"

definition control_index :: "u32 \<Rightarrow> u32" where
  "control_index vs = vs AND 3"

definition cfc2 :: "nat \<Rightarrow> u32 \<Rightarrow> rsp \<Rightarrow> u32 \<times> rsp" where
  "cfc2 rt vs r =
     (let v = (if control_index vs = 0 then vco (vu_ctrl r) else if control_index vs = 1 then vcc (vu_ctrl r)
            else to_u16 (vce (vu_ctrl r)));
          x = scast v
      in (x, set_su rt x r))"

definition ctc2 :: "u32 \<Rightarrow> u32 \<Rightarrow> rsp \<Rightarrow> rsp" where
  "ctc2 value vs r =
     (let v = to_u16 value
      in r\<lparr>vu_ctrl := (if control_index vs = 0 then (vu_ctrl r)\<lparr>vco := v\<rparr>
           else if control_index vs = 1 then (vu_ctrl r)\<lparr>vcc := v\<rparr> else (vu_ctrl r)\<lparr>vce := to_u8 v\<rparr>)\<rparr>)"

section \<open>Lanes, clamping, the accumulator\<close>

definition vt_lane :: "rsp \<Rightarrow> nat \<Rightarrow> nat \<Rightarrow> nat \<Rightarrow> u16" where
  "vt_lane r vt element n =
     (let src = (if element \<le> 1 then n
            else if element = 2 then 2 * (n div 2)
            else if element = 3 then 2 * (n div 2) + 1
            else if element \<le> 7 then 4 * (n div 4) + (element - 4)
            else element - 8)
      in vlane r vt (src mod 8))"

definition clamp_signed :: "int \<Rightarrow> u16" where
  "clamp_signed v = (if v < -32768 then 0x8000 else if v > 32767 then 0x7FFF else word_of_int v)"

definition clamp_unsigned :: "int \<Rightarrow> u16" where
  "clamp_unsigned v = (if v < 0 then 0 else if v > 32767 then 0xFFFF else word_of_int v)"

definition extract_low :: "int \<Rightarrow> u16" where
  "extract_low acc =
     (let mid = acc div 2 ^ 16
      in if mid > 32767 then 0xFFFF else if mid < -32768 then 0 else word_of_int acc)"

definition ACC_MASK :: u64 where "ACC_MASK = 0xFFFFFFFFFFFF"

definition acc_signed :: "rsp \<Rightarrow> nat \<Rightarrow> int" where
  "acc_signed r n = sint (sar (shl (vu_acc r ! n AND ACC_MASK) 16) 16)"

definition set_acc :: "nat \<Rightarrow> int \<Rightarrow> rsp \<Rightarrow> rsp" where
  "set_acc n v r = r\<lparr>vu_acc := (vu_acc r)[n := word_of_int v AND ACC_MASK]\<rparr>"

definition set_acc_low :: "nat \<Rightarrow> u16 \<Rightarrow> rsp \<Rightarrow> rsp" where
  "set_acc_low n v r = r\<lparr>vu_acc := (vu_acc r)[n := (vu_acc r ! n AND 0xFFFFFFFF0000) OR to_u64 v]\<rparr>"

definition sclip48 :: "int \<Rightarrow> int" where
  "sclip48 v = sint (sar (shl (word_of_int v :: u64) 16) 16)"

section \<open>Multiplies\<close>

definition multiply_lane :: "nat \<Rightarrow> nat \<Rightarrow> u16 \<Rightarrow> u16 \<Rightarrow> rsp \<Rightarrow> u16 \<times> rsp" where
  "multiply_lane opn n s t r =
     (let ss = sint s; ts = sint t; su = uint s; tu = uint t
      in if opn = 0 \<or> opn = 1 then
           let r = set_acc n (ss * ts * 2 + 0x8000) r; x = acc_signed r n div 2 ^ 16
           in (if opn = 0 then clamp_signed x else clamp_unsigned x, r)
         else if opn = 4 then let a = su * tu div 2 ^ 16 in (word_of_int a, set_acc n a r)
         else if opn = 5 then let a = ss * tu in (word_of_int (a div 2 ^ 16), set_acc n a r)
         else if opn = 6 then let a = su * ts in (word_of_int a, set_acc n a r)
         else if opn = 7 then
           let r = set_acc n (ss * ts * 2 ^ 16) r in (clamp_signed (acc_signed r n div 2 ^ 16), r)
         else if opn = 3 then
           let product = (if ss * ts < 0 then ss * ts + 31 else ss * ts)
           in (clamp_signed (product div 2) AND NOT 15, set_acc n (product * 2 ^ 16) r)
         else if opn = 8 \<or> opn = 9 then
           let r = set_acc n (acc_signed r n + ss * ts * 2) r; x = acc_signed r n div 2 ^ 16
           in (if opn = 8 then clamp_signed x else clamp_unsigned x, r)
         else if opn = 12 then
           let r = set_acc n (acc_signed r n + su * tu div 2 ^ 16) r in (extract_low (acc_signed r n), r)
         else if opn = 13 then
           let r = set_acc n (acc_signed r n + ss * tu) r in (clamp_signed (acc_signed r n div 2 ^ 16), r)
         else if opn = 14 then
           let r = set_acc n (acc_signed r n + su * ts) r in (extract_low (acc_signed r n), r)
         else if opn = 15 then
           let r = set_acc n (acc_signed r n + ss * ts * 2 ^ 16) r
           in (clamp_signed (acc_signed r n div 2 ^ 16), r)
         else (0, r))"

section \<open>Add, absolute value, compare\<close>

definition vabs_lane :: "nat \<Rightarrow> u16 \<Rightarrow> u16 \<Rightarrow> rsp \<Rightarrow> u16 \<times> rsp" where
  "vabs_lane n s t r =
     (if sint s < 0 then
        (if sint t = -32768 then (0x7FFF, set_acc_low n 0x8000 r)
         else let neg = word_of_int (- sint t) in (neg, set_acc_low n neg r))
      else if sint s > 0 then (t, set_acc_low n t r)
      else (0, set_acc_low n 0 r))"

definition compare_lane :: "rsp \<Rightarrow> nat \<Rightarrow> nat \<Rightarrow> u16 \<Rightarrow> u16 \<Rightarrow> u16 \<times> bool option" where
  "compare_lane r opn n s t =
     (let ss = sint s; ts = sint t;
          carry = (shr (vco (vu_ctrl r)) n AND 1 \<noteq> 0);
          non_zero = (shr (vco (vu_ctrl r)) (n + 8) AND 1 \<noteq> 0)
      in if opn = 0x27 then (if shr (vcc (vu_ctrl r)) n AND 1 \<noteq> 0 then s else t, None)
         else
           let cond = (if opn = 0x20 then ss < ts \<or> (ss = ts \<and> carry \<and> non_zero)
                 else if opn = 0x21 then \<not> non_zero \<and> s = t
                 else if opn = 0x22 then s \<noteq> t \<or> non_zero
                 else ss > ts \<or> (ss = ts \<and> (\<not> carry \<or> \<not> non_zero)))
           in (if cond then s else t, Some cond))"

section \<open>Clip\<close>

definition set_bit_to :: "nat \<Rightarrow> bool \<Rightarrow> 'a::len word \<Rightarrow> 'a word" where
  "set_bit_to k v w = (if v then w OR shl 1 k else w AND NOT (shl 1 k))"

definition set_vcc :: "nat \<Rightarrow> bool \<Rightarrow> rsp \<Rightarrow> rsp" where
  "set_vcc k v r = r\<lparr>vu_ctrl := (vu_ctrl r)\<lparr>vcc := set_bit_to k v (vcc (vu_ctrl r))\<rparr>\<rparr>"

definition set_vco :: "nat \<Rightarrow> bool \<Rightarrow> rsp \<Rightarrow> rsp" where
  "set_vco k v r = r\<lparr>vu_ctrl := (vu_ctrl r)\<lparr>vco := set_bit_to k v (vco (vu_ctrl r))\<rparr>\<rparr>"

definition set_vce :: "nat \<Rightarrow> bool \<Rightarrow> rsp \<Rightarrow> rsp" where
  "set_vce k v r = r\<lparr>vu_ctrl := (vu_ctrl r)\<lparr>vce := set_bit_to k v (vce (vu_ctrl r))\<rparr>\<rparr>"

definition vco_l :: "rsp \<Rightarrow> nat \<Rightarrow> bool" where "vco_l r n = (shr (vco (vu_ctrl r)) n AND 1 \<noteq> 0)"
definition vco_h :: "rsp \<Rightarrow> nat \<Rightarrow> bool" where "vco_h r n = (shr (vco (vu_ctrl r)) (n + 8) AND 1 \<noteq> 0)"
definition vcc_l :: "rsp \<Rightarrow> nat \<Rightarrow> bool" where "vcc_l r n = (shr (vcc (vu_ctrl r)) n AND 1 \<noteq> 0)"
definition vcc_h :: "rsp \<Rightarrow> nat \<Rightarrow> bool" where "vcc_h r n = (shr (vcc (vu_ctrl r)) (n + 8) AND 1 \<noteq> 0)"
definition vce_bit :: "rsp \<Rightarrow> nat \<Rightarrow> bool" where "vce_bit r n = (shr (vce (vu_ctrl r)) n AND 1 \<noteq> 0)"

definition vch_lane :: "nat \<Rightarrow> u16 \<Rightarrow> u16 \<Rightarrow> rsp \<Rightarrow> u16 \<times> rsp" where
  "vch_lane n s t r =
     (if sint (s XOR t) < 0 then
        let x = sint (s + t);
            r = set_vcc n (x \<le> 0) r;
            r = set_vcc (n + 8) (sint t < 0) r;
            r = set_vco n True r;
            r = set_vco (n + 8) (x \<noteq> 0 \<and> s \<noteq> t XOR 0xFFFF) r;
            r = set_vce n (x = -1) r
        in (if x \<le> 0 then - t else s, r)
      else
        let x = sint (s - t);
            r = set_vcc n (sint t < 0) r;
            r = set_vcc (n + 8) (x \<ge> 0) r;
            r = set_vco n False r;
            r = set_vco (n + 8) (x \<noteq> 0) r;
            r = set_vce n False r
        in (if x \<ge> 0 then t else s, r))"

definition vcl_lane :: "nat \<Rightarrow> u16 \<Rightarrow> u16 \<Rightarrow> rsp \<Rightarrow> u16 \<times> rsp" where
  "vcl_lane n s t r =
     (if vco_l r n then
        (if vco_h r n then (if vcc_l r n then - t else s, r)
         else
           let sum = s + t;
               carry = (uint s + uint t \<noteq> uint sum);
               v = (if vce_bit r n then sum = 0 \<or> \<not> carry else sum = 0 \<and> \<not> carry)
           in (if v then - t else s, set_vcc n v r))
      else if vco_h r n then (if vcc_h r n then t else s, r)
      else
        let v = (uint s - uint t \<ge> 0) in (if v then t else s, set_vcc (n + 8) v r))"

definition vcr_lane :: "nat \<Rightarrow> u16 \<Rightarrow> u16 \<Rightarrow> rsp \<Rightarrow> u16 \<times> rsp" where
  "vcr_lane n s t r =
     (if sint (s XOR t) < 0 then
        let r = set_vcc (n + 8) (sint t < 0) r; v = (sint s + sint t < 0); r = set_vcc n v r
        in (if v then NOT t else s, r)
      else
        let r = set_vcc n (sint t < 0) r; v = (sint s - sint t \<ge> 0); r = set_vcc (n + 8) v r
        in (if v then t else s, r))"

section \<open>Operations on every lane\<close>

text \<open>The sources are read before the first lane is written, so an operation may write a source.\<close>

definition vs_lanes :: "rsp \<Rightarrow> nat \<Rightarrow> u16 list" where
  "vs_lanes r vs = map (vlane r vs) [0..<8]"

definition vt_lanes :: "rsp \<Rightarrow> nat \<Rightarrow> nat \<Rightarrow> u16 list" where
  "vt_lanes r vt element = map (vt_lane r vt element) [0..<8]"

definition vrnd :: "bool \<Rightarrow> nat \<Rightarrow> nat \<Rightarrow> nat \<Rightarrow> nat \<Rightarrow> rsp \<Rightarrow> rsp" where
  "vrnd positive element vs_field vt vd r =
     (let tv = vt_lanes r vt element
      in foldl (\<lambda>r n.
           let product = (if odd vs_field then sint (tv ! n) * 2 ^ 16 else sint (tv ! n));
               acc = acc_signed r n;
               acc = (if (positive \<and> acc \<ge> 0) \<or> (\<not> positive \<and> acc < 0) then sclip48 (acc + product) else acc)
           in set_vlane vd n (clamp_signed (acc div 2 ^ 16)) (set_acc n acc r)) r [0..<8])"

definition vzero :: "nat \<Rightarrow> nat \<Rightarrow> nat \<Rightarrow> nat \<Rightarrow> rsp \<Rightarrow> rsp" where
  "vzero element vs vt vd r =
     (let sv = vs_lanes r vs; tv = vt_lanes r vt element
      in foldl (\<lambda>r n. set_vlane vd n 0 (set_acc_low n (sv ! n + tv ! n) r)) r [0..<8])"

definition clip :: "nat \<Rightarrow> nat \<Rightarrow> nat \<Rightarrow> nat \<Rightarrow> nat \<Rightarrow> rsp \<Rightarrow> rsp" where
  "clip opn element vs vt vd r =
     (let sv = vs_lanes r vs; tv = vt_lanes r vt element;
          r = foldl (\<lambda>r n.
            let (out, r) = (if opn = 0x25 then vch_lane n (sv ! n) (tv ! n) r
                  else if opn = 0x26 then vcr_lane n (sv ! n) (tv ! n) r
                  else vcl_lane n (sv ! n) (tv ! n) r)
            in set_vlane vd n out (set_acc_low n out r)) r [0..<8]
      in if opn \<noteq> 0x25 then r\<lparr>vu_ctrl := (vu_ctrl r)\<lparr>vco := 0, vce := 0\<rparr>\<rparr> else r)"

definition macq_result :: "int \<Rightarrow> u16" where
  "macq_result out =
     (if out < 0 then (if (- out - 1) div 2 ^ 32 \<noteq> 0 then 0x8000 else word_of_int (out div 2 ^ 17))
      else if out div 2 ^ 32 \<noteq> 0 then 0x7FFF else word_of_int (out div 2 ^ 17))"

definition vmacq :: "nat \<Rightarrow> rsp \<Rightarrow> rsp" where
  "vmacq vd r =
     foldl (\<lambda>r n.
       let acc = acc_signed r n; hi_part = acc div 2 ^ 22;
           out = (if (word_of_int acc :: u64) AND 0x200000 = 0
                  then (if hi_part < 0 then acc + 0x200000 else if hi_part > 0 then acc - 0x200000 else acc)
                  else acc)
       in set_vlane vd n (macq_result out AND 0xFFF0) (set_acc n out r)) r [0..<8]"

definition vu_whole_instruction :: "nat \<Rightarrow> nat \<Rightarrow> nat \<Rightarrow> nat \<Rightarrow> nat \<Rightarrow> rsp \<Rightarrow> bool \<times> rsp" where
  "vu_whole_instruction opn element vs vt vd r =
     (if opn = 0x02 \<or> opn = 0x0A then (True, vrnd (opn = 0x02) element vs vt vd r)
      else if opn = 0x0B then (True, vmacq vd r)
      else if 0x24 \<le> opn \<and> opn \<le> 0x26 then (True, clip opn element vs vt vd r)
      else if opn = 0x12 \<or> (0x16 \<le> opn \<and> opn \<le> 0x1C) \<or> opn = 0x1E \<or> opn = 0x1F \<or> opn = 0x2E \<or> opn = 0x2F
          \<or> (0x38 \<le> opn \<and> opn \<le> 0x3E) then (True, vzero element vs vt vd r)
      else (False, r))"

text \<open>What the lanes of one instruction decide about the flags, applied after the last lane.\<close>

record lane_flags =
  lf_clear_vco :: bool
  lf_set_vco :: bool
  lf_new_vco :: u16
  lf_wrote_vcc :: bool
  lf_compare :: u16

definition lane_flags_none :: lane_flags where
  "lane_flags_none = \<lparr>lf_clear_vco = False, lf_set_vco = False, lf_new_vco = 0, lf_wrote_vcc = False, lf_compare = 0\<rparr>"

text \<open>One lane: the value for \<open>vd\<close>, or \<open>None\<close> for an operation the unit does not have.\<close>

definition add_lane :: "nat \<Rightarrow> nat \<Rightarrow> u16 \<Rightarrow> u16 \<Rightarrow> lane_flags \<times> rsp \<Rightarrow> u16 \<times> lane_flags \<times> rsp" where
  "add_lane opn n s t = (\<lambda>(f, r).
     let carry = uint (shr (vco (vu_ctrl r)) n AND 1);
         x = (if opn = 0x10 then sint s + sint t + carry else sint s - sint t - carry)
     in (clamp_signed x, f\<lparr>lf_clear_vco := True\<rparr>, set_acc_low n (word_of_int x) r))"

definition carry_lane :: "nat \<Rightarrow> nat \<Rightarrow> u16 \<Rightarrow> u16 \<Rightarrow> lane_flags \<times> rsp \<Rightarrow> u16 \<times> lane_flags \<times> rsp" where
  "carry_lane opn n s t = (\<lambda>(f, r).
     let x = (if opn = 0x14 then uint s + uint t else uint s - uint t);
         low = word_of_int x;
         f = (if x div 2 ^ 16 mod 2 \<noteq> 0 then f\<lparr>lf_new_vco := lf_new_vco f OR shl 1 n\<rparr> else f);
         f = (if opn = 0x15 \<and> low \<noteq> 0 then f\<lparr>lf_new_vco := lf_new_vco f OR shl 1 (n + 8)\<rparr> else f)
     in (low, f\<lparr>lf_set_vco := True\<rparr>, set_acc_low n low r))"

definition select_lane :: "nat \<Rightarrow> nat \<Rightarrow> u16 \<Rightarrow> u16 \<Rightarrow> lane_flags \<times> rsp \<Rightarrow> u16 \<times> lane_flags \<times> rsp" where
  "select_lane opn n s t = (\<lambda>(f, r).
     let (picked, flag) = compare_lane r opn n s t;
         f = (case flag of None \<Rightarrow> f
            | Some v \<Rightarrow> f\<lparr>lf_compare := (if v then lf_compare f OR shl 1 n else lf_compare f), lf_wrote_vcc := True\<rparr>)
     in (picked, f\<lparr>lf_clear_vco := True\<rparr>, set_acc_low n picked r))"

definition logic_op :: "nat \<Rightarrow> u16 \<Rightarrow> u16 \<Rightarrow> u16" where
  "logic_op opn s t =
     (if opn = 0x28 then s AND t else if opn = 0x29 then NOT (s AND t)
      else if opn = 0x2A then s OR t else if opn = 0x2B then NOT (s OR t)
      else if opn = 0x2C then s XOR t else NOT (s XOR t))"

definition vsar :: "nat \<Rightarrow> nat \<Rightarrow> rsp \<Rightarrow> u16" where
  "vsar element n r =
     (let acc = vu_acc r ! n
      in if element = 8 then to_u16 (shr acc 32) else if element = 9 then to_u16 (shr acc 16)
         else if element = 10 then to_u16 acc else 0)"

definition compute_lane :: "nat \<Rightarrow> nat \<Rightarrow> nat \<Rightarrow> u16 \<Rightarrow> u16 \<Rightarrow> lane_flags \<times> rsp \<Rightarrow>
    (u16 \<times> lane_flags \<times> rsp) option" where
  "compute_lane opn element n s t = (\<lambda>(f, r).
     if opn \<le> 0x0F then let (x, r) = multiply_lane opn n s t r in Some (x, f, r)
     else if opn = 0x10 \<or> opn = 0x11 then Some (add_lane opn n s t (f, r))
     else if opn = 0x13 then let (x, r) = vabs_lane n s t r in Some (x, f, r)
     else if opn = 0x14 \<or> opn = 0x15 then Some (carry_lane opn n s t (f, r))
     else if (0x20 \<le> opn \<and> opn \<le> 0x23) \<or> opn = 0x27 then Some (select_lane opn n s t (f, r))
     else if opn = 0x1D then Some (vsar element n r, f, r)
     else if 0x28 \<le> opn \<and> opn \<le> 0x2D then
       Some (logic_op opn s t, f, set_acc_low n (logic_op opn s t) r)
     else None)"

definition apply_flags :: "lane_flags \<Rightarrow> rsp \<Rightarrow> rsp" where
  "apply_flags f r =
     (let r = (if lf_wrote_vcc f then r\<lparr>vu_ctrl := (vu_ctrl r)\<lparr>vcc := lf_compare f\<rparr>\<rparr> else r)
      in if lf_clear_vco f then r\<lparr>vu_ctrl := (vu_ctrl r)\<lparr>vco := 0\<rparr>\<rparr>
         else if lf_set_vco f then r\<lparr>vu_ctrl := (vu_ctrl r)\<lparr>vco := lf_new_vco f\<rparr>\<rparr>
         else r)"

fun compute_lanes :: "nat \<Rightarrow> nat \<Rightarrow> u16 list \<Rightarrow> u16 list \<Rightarrow> nat \<Rightarrow> nat list \<Rightarrow> lane_flags \<times> rsp \<Rightarrow> bool \<times> rsp" where
  "compute_lanes opn element sv tv vd [] (f, r) = (True, apply_flags f r)"
| "compute_lanes opn element sv tv vd (n # ns) (f, r) =
     (case compute_lane opn element n (sv ! n) (tv ! n) (f, r) of
        None \<Rightarrow> (False, r)
      | Some (out, f, r) \<Rightarrow> compute_lanes opn element sv tv vd ns (f, set_vlane vd n out r))"

definition vu_compute :: "nat \<Rightarrow> nat \<Rightarrow> nat \<Rightarrow> nat \<Rightarrow> nat \<Rightarrow> rsp \<Rightarrow> bool \<times> rsp" where
  "vu_compute opn element vs vt vd r =
     (let (done', r) = vu_whole_instruction opn element vs vt vd r
      in if done' then (True, r)
         else compute_lanes opn element (vs_lanes r vs) (vt_lanes r vt element) vd [0..<8] (lane_flags_none, r))"

end
