(* ===== verification/Vu_Mem.thy ===== *)
theory Vu_Mem
  imports Vu
begin

text \<open>
  The vector unit's loads and stores: the third block of \<^verbatim>\<open>rustyn64-rsp/src/vu.rs\<close>. Every access to the
  data memory is a byte at an address of 12 bits; a transfer of several bytes is a fold over its byte
  numbers in the code's order. Addresses are \<open>u32\<close> and their additions wrap; in \<open>sfv\<close> and \<open>ltv\<close> the
  code adds with \<open>+\<close>, which a build with overflow checks would stop for an address within 16 bytes of
  the end of the 32-bit space.
\<close>

definition dmem_read :: "rsp \<Rightarrow> u32 \<Rightarrow> u8" where
  "dmem_read r a = dmem r (unat (a AND 0xFFF))"

definition dmem_write :: "u32 \<Rightarrow> u8 \<Rightarrow> rsp \<Rightarrow> rsp" where
  "dmem_write a v r = r\<lparr>dmem := (dmem r)(unat (a AND 0xFFF) := v)\<rparr>"

definition sext7 :: "u32 \<Rightarrow> u32" where
  "sext7 offset = sar (shl (offset AND 0x7F) 25) 25"

definition base_16 :: "u32 \<Rightarrow> u32 \<Rightarrow> u32" where
  "base_16 rs offset = rs + sext7 offset * 16"

section \<open>Runs of bytes\<close>

text \<open>\<open>store_bytes at reg src ks r\<close> writes, for each byte number \<open>k\<close> of \<open>ks\<close> in order, byte \<open>src k\<close> of a
  register to the memory byte \<open>at k\<close>; \<open>load_bytes\<close> is the other direction.\<close>

definition store_bytes :: "(nat \<Rightarrow> u32) \<Rightarrow> nat \<Rightarrow> (nat \<Rightarrow> nat) \<Rightarrow> nat list \<Rightarrow> rsp \<Rightarrow> rsp" where
  "store_bytes addr reg src ks r = foldl (\<lambda>r k. dmem_write (addr k) (vu_byte r reg (src k)) r) r ks"

definition load_bytes :: "(nat \<Rightarrow> u32) \<Rightarrow> nat \<Rightarrow> (nat \<Rightarrow> nat) \<Rightarrow> nat list \<Rightarrow> rsp \<Rightarrow> rsp" where
  "load_bytes addr reg dst ks r = foldl (\<lambda>r k. set_vu_byte reg (dst k) (dmem_read r (addr k)) r) r ks"

section \<open>Scalar, quad and rest\<close>

definition scalar_mem :: "bool \<Rightarrow> nat \<Rightarrow> u32 \<Rightarrow> nat \<Rightarrow> nat \<Rightarrow> u32 \<Rightarrow> rsp \<Rightarrow> rsp" where
  "scalar_mem st opn rs vt element offset r =
     (let size = 2 ^ opn; a = rs + sext7 offset * of_nat size
      in if st then store_bytes (\<lambda>i. a + of_nat i) vt (\<lambda>i. (element + i) mod 16) [0..<size] r
         else load_bytes (\<lambda>i. a + of_nat i) vt (\<lambda>i. element + i) [0..<min size (16 - element)] r)"

definition quad_mem :: "bool \<Rightarrow> u32 \<Rightarrow> nat \<Rightarrow> nat \<Rightarrow> u32 \<Rightarrow> rsp \<Rightarrow> rsp" where
  "quad_mem st rs vt element offset r =
     (let a = rs + sext7 offset * 16; final = a OR 15;
          size = (if st then unat (final - a) else min (unat (final - a)) (15 - element))
      in if st then store_bytes (\<lambda>i. a + of_nat i) vt (\<lambda>i. (element + i) mod 16) [0..<size + 1] r
         else load_bytes (\<lambda>i. a + of_nat i) vt (\<lambda>i. (element + i) mod 16) [0..<size + 1] r)"

definition rest_mem :: "bool \<Rightarrow> u32 \<Rightarrow> nat \<Rightarrow> nat \<Rightarrow> u32 \<Rightarrow> rsp \<Rightarrow> rsp" where
  "rest_mem st rs vt element offset r =
     (let final = rs + sext7 offset * 16; a = final AND NOT 15; n = unat (final AND 15)
      in if st then store_bytes (\<lambda>i. a + of_nat i) vt (\<lambda>i. (element + 16 - n + i) mod 16) [0..<n] r
         else if element < n then
           load_bytes (\<lambda>i. a + of_nat i) vt (\<lambda>i. 16 - n + element + i) [0..<n - element] r
         else r)"

section \<open>Packed and strided\<close>

definition packed_store :: "nat \<Rightarrow> u32 \<Rightarrow> nat \<Rightarrow> bool \<Rightarrow> rsp \<Rightarrow> rsp" where
  "packed_store vt a element suv r =
     foldl (\<lambda>r i.
       let off = element + i; lane = off mod 8; first_half = (off mod 16 < 8);
           high_byte = (first_half \<noteq> suv);
           b = (if high_byte then vu_byte r vt (2 * lane) else to_u8 (shr (vlane r vt lane) 7))
       in dmem_write (a + of_nat i) b r) r [0..<8]"

definition packed_mem :: "bool \<Rightarrow> bool \<Rightarrow> u32 \<Rightarrow> nat \<Rightarrow> nat \<Rightarrow> u32 \<Rightarrow> rsp \<Rightarrow> rsp" where
  "packed_mem st low rs vt element offset r =
     (let base = rs + sext7 offset * 8; index = (base AND 7) - of_nat element
      in if st then packed_store vt base element low r
         else
           let a = base AND NOT 7
           in foldl (\<lambda>r lane.
                let v = to_u16 (dmem_read r (a + ((index + of_nat lane) AND 15)))
                in set_vlane vt lane (shl v (if low then 7 else 8)) r) r [0..<8])"

definition strided_mem :: "bool \<Rightarrow> u32 \<Rightarrow> nat \<Rightarrow> nat \<Rightarrow> u32 \<Rightarrow> rsp \<Rightarrow> rsp" where
  "strided_mem st rs vt element offset r =
     (let base = rs + sext7 offset * 16; a = base AND NOT 7
      in if st then
           let index = base AND 7
           in foldl (\<lambda>r lane.
                let k = element + lane * 2;
                    h = to_u16 (vu_byte r vt (k mod 16)); l = to_u16 (vu_byte r vt ((k + 1) mod 16));
                    v = to_u8 (shl h 1 OR shr l 7)
                in dmem_write (a + ((index + of_nat (lane * 2)) AND 15)) v r) r [0..<8]
         else
           let index = (base AND 7) - of_nat element
           in foldl (\<lambda>r lane.
                let v = to_u16 (dmem_read r (a + ((index + of_nat (lane * 2)) AND 15)))
                in set_vlane vt lane (shl v 7) r) r [0..<8])"

definition vector_mem_packed :: "bool \<Rightarrow> nat \<Rightarrow> u32 \<Rightarrow> nat \<Rightarrow> nat \<Rightarrow> u32 \<Rightarrow> rsp \<Rightarrow> bool \<times> rsp" where
  "vector_mem_packed st opn rs vt element offset r =
     (if opn = 6 \<or> opn = 7 then (True, packed_mem st (opn = 7) rs vt element offset r)
      else if opn = 8 then (True, strided_mem st rs vt element offset r)
      else (False, r))"

section \<open>Fractional, wrapped and transposed\<close>

definition lfv :: "u32 \<Rightarrow> nat \<Rightarrow> nat \<Rightarrow> rsp \<Rightarrow> rsp" where
  "lfv address vt element r =
     (let aligned = address AND NOT 7; mis = uint (address AND 7); e = int element;
          fetch = (\<lambda>k. shl (to_u16 (dmem_read r (aligned + word_of_int ((mis + k) mod 16)))) 7);
          temp = [fetch e, fetch (4 - e), fetch (8 - e), fetch (12 - e),
                  fetch (8 - e), fetch (12 - e), fetch (- e), fetch (4 - e)];
          bytes = concat (map (\<lambda>v. [to_u8 (shr v 8), to_u8 v]) temp);
          len = min 8 (16 - element)
      in foldl (\<lambda>r i. set_vu_byte vt i (bytes ! i) r) r [element..<element + len])"

definition sfv_lanes :: "nat \<Rightarrow> nat list option" where
  "sfv_lanes element =
     (if element = 0 \<or> element = 15 then Some [0, 1, 2, 3]
      else if element = 1 then Some [6, 7, 4, 5]
      else if element = 4 then Some [1, 2, 3, 0]
      else if element = 5 then Some [7, 4, 5, 6]
      else if element = 8 then Some [4, 5, 6, 7]
      else if element = 11 then Some [3, 0, 1, 2]
      else if element = 12 then Some [5, 6, 7, 4]
      else None)"

definition sfv :: "u32 \<Rightarrow> nat \<Rightarrow> nat \<Rightarrow> rsp \<Rightarrow> rsp" where
  "sfv address vt element r =
     (let a = address AND 7; b = address AND NOT 7
      in foldl (\<lambda>r i.
           let v = (case sfv_lanes element of None \<Rightarrow> 0 | Some l \<Rightarrow> to_u8 (shr (vlane r vt (l ! i)) 7))
           in dmem_write (b + ((a + shl (of_nat i) 2) AND 15)) v r) r [0..<4])"

definition swv :: "u32 \<Rightarrow> nat \<Rightarrow> nat \<Rightarrow> rsp \<Rightarrow> rsp" where
  "swv ea vt element r =
     (let base = ea AND NOT 7; mis = ea AND 7
      in store_bytes (\<lambda>i. base + ((mis + of_nat i) AND 15)) vt (\<lambda>i. (element + i) mod 16) [0..<16] r)"

text \<open>The transposed load keeps a read pointer that wraps at the end of its 16-byte window, and moves to
  the next register of the group after two bytes.\<close>

definition ltv_step :: "u32 \<Rightarrow> nat \<Rightarrow> u32 \<times> nat \<times> rsp \<Rightarrow> nat \<Rightarrow> u32 \<times> nat \<times> rsp" where
  "ltv_step begin' vtbase = (\<lambda>(ptr, vtoff, r) i.
     let one = (\<lambda>(ptr, r) half.
           let r = set_vu_byte (vtbase + vtoff) (i * 2 + half) (dmem_read r ptr) r; ptr = ptr + 1
           in (if ptr = begin' + 16 then begin' else ptr, r));
         (ptr, r) = foldl one (ptr, r) [0..<2]
     in (ptr, (vtoff + 1) mod 8, r))"

definition ltv :: "u32 \<Rightarrow> nat \<Rightarrow> nat \<Rightarrow> rsp \<Rightarrow> rsp" where
  "ltv address vt element r =
     (let begin' = address AND NOT 7;
          ptr = begin' + ((of_nat element + (address AND 8)) AND 15);
          vtbase = 8 * (vt div 8);
          (ptr, vtoff, r) = foldl (ltv_step begin' vtbase) (ptr, element div 2, r) [0..<8]
      in r)"

definition stv_step :: "u32 \<Rightarrow> nat \<times> u32 \<times> rsp \<Rightarrow> nat \<Rightarrow> nat \<times> u32 \<times> rsp" where
  "stv_step a = (\<lambda>(elem, base, r) reg.
     let r = dmem_write (a + (base AND 15)) (vu_byte r reg (elem mod 16)) r; base = base + 1; elem = elem + 1;
         r = dmem_write (a + (base AND 15)) (vu_byte r reg (elem mod 16)) r; base = base + 1; elem = elem + 1
     in (elem, base, r))"

definition stv :: "u32 \<Rightarrow> nat \<Rightarrow> nat \<Rightarrow> rsp \<Rightarrow> rsp" where
  "stv address vt element r =
     (let start = 8 * (vt div 8);
          elem = 16 - 2 * (element div 2);
          base = (address AND 7) - of_nat (2 * (element div 2));
          a = address AND NOT 7;
          (elem, base, r) = foldl (stv_step a) (elem, base, r) [start..<start + 8]
      in r)"

section \<open>Dispatch\<close>

definition vector_mem :: "bool \<Rightarrow> nat \<Rightarrow> nat \<Rightarrow> nat \<Rightarrow> nat \<Rightarrow> u32 \<Rightarrow> rsp \<Rightarrow> bool \<times> rsp" where
  "vector_mem st opn base vt element offset r =
     (let rs = su_r r base
      in if opn \<le> 3 then (True, scalar_mem st opn rs vt element offset r)
         else if opn = 4 then (True, quad_mem st rs vt element offset r)
         else if opn = 5 then (True, rest_mem st rs vt element offset r)
         else if 6 \<le> opn \<and> opn \<le> 8 then vector_mem_packed st opn rs vt element offset r
         else if opn = 0x0B then
           (True, if st then stv (base_16 rs offset) vt element r else ltv (base_16 rs offset) vt element r)
         else if opn = 9 \<and> \<not> st then (True, lfv (base_16 rs offset) vt element r)
         else if opn = 9 then (True, sfv (base_16 rs offset) vt element r)
         else if opn = 0x0A \<and> st then (True, swv (rs + sext7 offset * 16) vt element r)
         else (False, r))"

end
