(* ===== verification/Vu_Single.thy ===== *)
theory Vu_Single
  imports Vu
begin

text \<open>
  The reciprocal group: the two lookup tables and the single-lane instructions of
  \<^verbatim>\<open>rustyn64-rsp/src/vu.rs\<close>. The tables are built by the code's own generators; the bisection that
  builds the second one is shown to return the least root it looks for.
\<close>

section \<open>The tables\<close>

definition build_reciprocal :: "u16 list" where
  "build_reciprocal = 0xFFFF # map (\<lambda>index. of_nat ((2 ^ 34 div (index + 512) + 1) div 2 ^ 8)) [1..<512]"

text \<open>The bisection's range halves at every step.\<close>

definition root_found :: "nat \<Rightarrow> nat \<Rightarrow> bool" where
  "root_found a b = (a * (b + 1) * (b + 1) \<ge> 2 ^ 44)"

function bisect :: "nat \<Rightarrow> nat \<Rightarrow> nat \<Rightarrow> nat" where
  "bisect a from to' =
     (if from < to' then
        let mid = (from + to') div 2
        in if root_found a mid then bisect a from mid else bisect a (mid + 1) to'
      else from)"
  by pat_completeness auto
termination by (relation "measure (\<lambda>(a, from, to'). to' - from)") auto

declare bisect.simps [simp del]

definition sqrt_operand :: "nat \<Rightarrow> nat" where
  "sqrt_operand index = (index + 512) div 2 ^ (if index mod 2 = 1 then 1 else 0)"

definition build_inverse_square_root :: "u16 list" where
  "build_inverse_square_root =
     map (\<lambda>index. of_nat (bisect (sqrt_operand index) (2 ^ 17) (2 ^ 19) div 2)) [0..<512]"

definition reciprocal :: "nat \<Rightarrow> u16" where
  "reciprocal index = build_reciprocal ! (index mod 512)"

definition inverse_square_root :: "nat \<Rightarrow> u16" where
  "inverse_square_root index = build_inverse_square_root ! (index mod 512)"

section \<open>The single-lane instructions\<close>

definition acc_low_from_broadcast :: "nat \<Rightarrow> nat \<Rightarrow> rsp \<Rightarrow> rsp" where
  "acc_low_from_broadcast element vt r =
     foldl (\<lambda>r n. set_acc_low n (vt_lane r vt element n) r) r [0..<8]"

definition set_vd_lane :: "nat \<Rightarrow> u16 \<Rightarrow> rsp \<Rightarrow> rsp" where
  "set_vd_lane de v r = r\<lparr>pending_vd_lane := Some (de, v)\<rparr>"

definition reciprocal_of :: "u32 \<Rightarrow> bool \<Rightarrow> u32" where
  "reciprocal_of input sqrt' =
     (let m = sar input 31;
          d = input XOR m;
          d = (if sint input > -32768 then d - m else d)
      in if d = 0 then 0x7FFFFFFF
         else if sint input = -32768 then 0xFFFF0000
         else
           let sh = leading_zeros d;
               index = unat (shr (shl (to_u64 d) sh AND 0x7FC00000) 22);
               entry = (if sqrt' then inverse_square_root (index div 2 * 2 mod 512 + sh mod 2)
                  else reciprocal index);
               x = shl (0x10000 OR to_u32 entry) 14;
               undo = (if sqrt' then (31 - sh) div 2 else 31 - sh)
           in sar x undo XOR m)"

definition reciprocal_core :: "nat \<Rightarrow> nat \<Rightarrow> nat \<Rightarrow> bool \<Rightarrow> bool \<Rightarrow> rsp \<Rightarrow> rsp" where
  "reciprocal_core element vt de long sqrt' r =
     (let l = vt_lane r vt element (element mod 8);
          input = (if long \<and> div_pending (vu_div r) then shl (to_u32 (div_input (vu_div r))) 16 OR to_u32 l
             else scast l);
          result = reciprocal_of input sqrt';
          r = r\<lparr>vu_div := (vu_div r)\<lparr>div_pending := False, div_output := to_u16 (shr result 16)\<rparr>\<rparr>;
          r = acc_low_from_broadcast element vt r
      in set_vd_lane de (to_u16 result) r)"

definition take_vd_lane :: "nat \<Rightarrow> rsp \<Rightarrow> rsp" where
  "take_vd_lane vd r =
     (case pending_vd_lane r of
        None \<Rightarrow> r
      | Some (n, v) \<Rightarrow> set_vlane vd n v (r\<lparr>pending_vd_lane := None\<rparr>))"

definition vu_single_lane :: "nat \<Rightarrow> nat \<Rightarrow> nat \<Rightarrow> nat \<Rightarrow> nat \<Rightarrow> rsp \<Rightarrow> bool \<times> rsp" where
  "vu_single_lane opn element vt de vd r =
     (let de = de mod 8
      in if opn = 0x30 \<or> opn = 0x31 \<or> opn = 0x34 \<or> opn = 0x35 then
           (True, take_vd_lane vd
              (reciprocal_core element vt de (opn = 0x31 \<or> opn = 0x35) (opn \<ge> 0x34) r))
         else if opn = 0x32 \<or> opn = 0x36 then
           let r = acc_low_from_broadcast element vt r;
               r = r\<lparr>vu_div := (vu_div r)\<lparr>div_input := vt_lane r vt element (element mod 8), div_pending := True\<rparr>\<rparr>
           in (True, take_vd_lane vd (r\<lparr>pending_vd_lane := Some (de, div_output (vu_div r))\<rparr>))
         else if opn = 0x33 then
           let r = acc_low_from_broadcast element vt r
           in (True, take_vd_lane vd (r\<lparr>pending_vd_lane := Some (de, vt_lane r vt element de)\<rparr>))
         else if opn = 0x37 \<or> opn = 0x3F then (True, r)
         else (False, r))"

section \<open>The bisection finds the least root\<close>

lemma root_found_mono: "root_found a b \<Longrightarrow> b \<le> c \<Longrightarrow> root_found a c"
  unfolding root_found_def by (meson add_le_mono1 le_trans mult_le_mono mult_le_mono1 order_refl)

lemma bisect_least:
  assumes "root_found a to'" "from \<le> to'"
  shows "from \<le> bisect a from to' \<and> bisect a from to' \<le> to' \<and> root_found a (bisect a from to') \<and>
    (\<forall>b. from \<le> b \<longrightarrow> root_found a b \<longrightarrow> bisect a from to' \<le> b)"
  using assms
proof (induction a "from" to' rule: bisect.induct)
  case (1 a "from" to')
  show ?case
  proof (cases "from < to'")
    case False
    then show ?thesis using "1.prems" by (subst (1 2 3 4) bisect.simps) auto
  next
    case True
    define mid where "mid = (from + to') div 2"
    have m: "from \<le> mid" "mid < to'" using True by (auto simp: mid_def)
    show ?thesis
    proof (cases "root_found a mid")
      case found: True
      have "bisect a from to' = bisect a from mid" using True found by (simp add: bisect.simps[of a "from" to'] mid_def)
      then show ?thesis using "1.IH"(1)[OF True mid_def found found m(1)] m by auto
    next
      case lost: False
      have e: "bisect a from to' = bisect a (mid + 1) to'" using True lost by (simp add: bisect.simps[of a "from" to'] mid_def)
      have n: "root_found a b \<Longrightarrow> mid + 1 \<le> b" for b
        using lost root_found_mono[of a b mid] by (cases "b \<le> mid") auto
      show ?thesis
        using "1.IH"(2)[OF True mid_def lost "1.prems"(1)] m n by (auto simp: e)
    qed
  qed
qed

text \<open>Both tables hold 16 bits of a number between \<open>2 ^ 16\<close> and \<open>2 ^ 17\<close>; the instruction puts the leading one back.\<close>

lemma leading_one:
  assumes "2 ^ 16 \<le> v" "v < 2 ^ 17"
  shows "unat ((0x10000 :: u32) OR to_u32 (of_nat v :: u16)) = v"
proof -
  have t: "take_bit 16 v = v - 65536" using assms by (simp add: take_bit_eq_mod mod_if)
  have "unat (of_nat v :: u16) = v - 65536" using t by (simp add: unsigned_of_nat)
  then have u: "unat (to_u32 (of_nat v :: u16)) = v - 65536" by simp
  have c: "(0x10000 :: u32) = shl 1 16" by simp
  have "(0x10000 :: u32) AND to_u32 w = 0" for w :: u16
    unfolding c using bit_imp_le_length[of w] by (intro bit_word_eqI) (auto simp: bit_simps bit_shl_1 simp del: push_bit_of_1)
  then have "(0x10000 :: u32) OR to_u32 (of_nat v :: u16) = 0x10000 + to_u32 (of_nat v :: u16)"
    by (simp add: disjunctive_add_eq_or)
  moreover have "unat ((0x10000 :: u32) + to_u32 (of_nat v :: u16)) = 65536 + (v - 65536)"
    using u assms by (subst unat_add_lem[THEN iffD1]) simp_all
  ultimately show ?thesis using assms by simp
qed

lemma sqrt_operand_range: "index < 512 \<Longrightarrow> 256 \<le> sqrt_operand index \<and> sqrt_operand index \<le> 1023"
  by (auto simp: sqrt_operand_def)

lemma root_in_range:
  assumes "256 \<le> a" "a \<le> 1023"
  shows "root_found a (2 ^ 18 - 1)"
proof -
  have "256 * 2 ^ 18 * 2 ^ 18 \<le> a * 2 ^ 18 * (2 ^ 18 :: nat)" using assms by (intro mult_le_mono) simp_all
  then show ?thesis by (simp add: root_found_def)
qed

lemma reciprocal_entry:
  fixes a :: nat
  assumes "512 \<le> a" "a < 1024"
  defines "e \<equiv> (2 ^ 34 div a + 1) div 2 ^ 8"
  shows "e = (2 ^ 26 + a div 2 ^ 8) div a \<and> e * a \<le> 2 ^ 26 + 3 \<and> 2 ^ 26 < (e + 1) * a"
proof -
  have "2 ^ 34 div a + 1 = (2 ^ 34 + a) div a" using assms(1) by (subst div_add_self2) simp_all
  then have "e = (2 ^ 34 + a) div 2 ^ 8 div a"
    by (simp only: e_def div_mult2_eq [symmetric] mult.commute)
  moreover have "(2 ^ 34 + a) div 2 ^ 8 = 2 ^ 26 + a div 2 ^ 8" using div_mult_self1[of "2 ^ 8" a "2 ^ 26"] by simp
  ultimately have e: "e = (2 ^ 26 + a div 2 ^ 8) div a" by simp
  have "a div 2 ^ 8 \<le> 3" using assms(2) by simp
  moreover have "e * a \<le> 2 ^ 26 + a div 2 ^ 8" unfolding e by (rule div_times_less_eq_dividend)
  moreover have "2 ^ 26 + a div 2 ^ 8 < e * a + a"
    unfolding e using dividend_less_div_times[of a "2 ^ 26 + a div 2 ^ 8"] assms(1) by (simp add: add.commute)
  ultimately have "e * a \<le> 2 ^ 26 + 3" "2 ^ 26 < (e + 1) * a" by simp_all
  with e show ?thesis by blast
qed

text \<open>C40. Both lookup tables of the reciprocal unit hold the values their definitions name, in every entry and
  without losing a bit to the 16-bit entries. With the leading one put back, an entry of the reciprocal
  table, for the operand \<open>a\<close> between 513 and 1023, is the quotient by \<open>a\<close>, truncated, of \<open>2 ^ 26\<close> plus a
  256th of \<open>a\<close> (so its product with \<open>a\<close> is at most 3 above \<open>2 ^ 26\<close> and the next number's is above it);
  the first entry is the pinned 0xFFFF. An entry of the inverse-square-root table is half the least \<open>b\<close>
  from \<open>2 ^ 17\<close> on with \<open>a * (b + 1) ^ 2 >= 2 ^ 44\<close>, the number a linear search would find.\<close>

theorem reciprocal_tables:
  "(let a = k mod 512 + 512; e = unat (0x10000 OR to_u32 (reciprocal k))
    in if k mod 512 = 0 then e = 0x1FFFF
       else e = (2 ^ 26 + a div 2 ^ 8) div a \<and> e * a \<le> 2 ^ 26 + 3 \<and> 2 ^ 26 < (e + 1) * a) \<and>
   (\<exists>b. unat (0x10000 OR to_u32 (inverse_square_root k)) = b div 2 \<and> 2 ^ 17 \<le> b \<and>
     root_found (sqrt_operand (k mod 512)) b \<and>
     (\<forall>c \<ge> 2 ^ 17. root_found (sqrt_operand (k mod 512)) c \<longrightarrow> b \<le> c))"
proof (rule conjI)
  define i where "i = k mod 512"
  have i: "i < 512" by (simp add: i_def)
  have entry: "unat (0x10000 OR to_u32 (reciprocal k)) =
     (if i = 0 then 0x1FFFF else (2 ^ 34 div (i + 512) + 1) div 2 ^ 8)"
  proof (cases "i = 0")
    case True
    then show ?thesis by (simp add: reciprocal_def build_reciprocal_def flip: i_def)
  next
    case False
    define q where "q = (2 :: nat) ^ 34 div (i + 512)"
    have "(2 :: nat) ^ 34 div 1023 \<le> q" unfolding q_def using i by (intro div_le_mono2) simp_all
    moreover have "q \<le> (2 :: nat) ^ 34 div 513" unfolding q_def using False by (intro div_le_mono2) simp_all
    ultimately have q: "16793616 \<le> q" "q \<le> 33489023" by simp_all
    have r: "2 ^ 16 \<le> (q + 1) div 2 ^ 8" "(q + 1) div 2 ^ 8 < 2 ^ 17"
      using div_le_mono[of 16793616 "q + 1" 256] div_le_mono[of "q + 1" 33489024 256] q by simp_all
    have "[1..<512] ! (i - 1) = i" using nth_upt[of 1 "i - 1" 512] False i by simp
    then have "reciprocal k = of_nat ((q + 1) div 2 ^ 8)"
      using False i unfolding reciprocal_def build_reciprocal_def i_def[symmetric] q_def
      by (simp add: nth_Cons' del: upt_Suc)
    then show ?thesis using leading_one[OF r] False by (simp flip: i_def add: q_def)
  qed
  show "let a = k mod 512 + 512; e = unat (0x10000 OR to_u32 (reciprocal k))
    in if k mod 512 = 0 then e = 0x1FFFF
       else e = (2 ^ 26 + a div 2 ^ 8) div a \<and> e * a \<le> 2 ^ 26 + 3 \<and> 2 ^ 26 < (e + 1) * a"
  proof (cases "i = 0")
    case False
    show ?thesis
      unfolding Let_def i_def [symmetric] entry if_not_P[OF False] using i by (intro reciprocal_entry) simp_all
  qed (simp add: entry flip: i_def)
  let ?a = "sqrt_operand i"
  define b where "b = bisect ?a (2 ^ 17) (2 ^ 19)"
  have a: "256 \<le> ?a" "?a \<le> 1023" using sqrt_operand_range[OF i] by simp_all
  have f: "root_found ?a (2 ^ 18 - 1)" by (rule root_in_range[OF a])
  have "root_found ?a (2 ^ 19)" using root_found_mono[OF f] by simp
  then have least: "2 ^ 17 \<le> b" "root_found ?a b" "\<And>c. 2 ^ 17 \<le> c \<Longrightarrow> root_found ?a c \<Longrightarrow> b \<le> c"
    using bisect_least[of ?a "2 ^ 19" "2 ^ 17"] unfolding b_def by simp_all
  have "b \<le> 2 ^ 18 - 1" using least(3)[OF _ f] by simp
  then have r: "2 ^ 16 \<le> b div 2" "b div 2 < 2 ^ 17"
    using div_le_mono[OF least(1), of 2] div_le_mono[of b "2 ^ 18 - 1" 2] by simp_all
  have "inverse_square_root k = of_nat (b div 2)"
    using i unfolding inverse_square_root_def build_inverse_square_root_def i_def[symmetric] b_def by simp
  then show "\<exists>b. unat (0x10000 OR to_u32 (inverse_square_root k)) = b div 2 \<and> 2 ^ 17 \<le> b \<and>
     root_found (sqrt_operand (k mod 512)) b \<and>
     (\<forall>c \<ge> 2 ^ 17. root_found (sqrt_operand (k mod 512)) c \<longrightarrow> b \<le> c)"
    using least leading_one[OF r] by (intro exI[of _ b]) (simp flip: i_def)
qed

lemma reciprocal_tables_witness: "unat (0x10000 OR to_u32 (reciprocal 0)) = 0x1FFFF"
  using reciprocal_tables[of 0] by simp

end
