(* ===== verification/Su.thy ===== *)
theory Su
  imports Vu_Mem Vu_Single
begin

text \<open>
  The signal processor's scalar unit: \<^verbatim>\<open>rustyn64-rsp/src/su.rs\<close>. One step fetches a word of the
  instruction memory, takes the branch target the previous instruction left, executes, and moves the
  program counter; what the rest of the machine must do is returned. The opcode numbers are written in
  hexadecimal where the code has them in octal.
\<close>

record step_result =
  sr_dma :: "dma option"
  sr_interrupt :: "bool option"
  sr_dp_write :: "(u8 \<times> u32) option"

definition step_result_none :: step_result where
  "step_result_none = \<lparr>sr_dma = None, sr_interrupt = None, sr_dp_write = None\<rparr>"

record fields =
  f_op :: nat
  f_rs :: nat
  f_rt :: nat
  f_rd :: nat
  f_sa :: nat
  f_funct :: nat
  f_imm :: u32
  f_target :: u32

definition decode_fields :: "u32 \<Rightarrow> fields" where
  "decode_fields word' = \<lparr>f_op = unat (shr word' 26), f_rs = unat (shr word' 21 AND 31),
     f_rt = unat (shr word' 16 AND 31), f_rd = unat (shr word' 11 AND 31), f_sa = unat (shr word' 6 AND 31),
     f_funct = unat (word' AND 63), f_imm = word' AND 0xFFFF, f_target = word' AND 0x03FFFFFF\<rparr>"

definition su_sext :: "u32 \<Rightarrow> u32" where
  "su_sext imm = scast (to_u16 imm)"

definition branch_target :: "u32 \<Rightarrow> u32 \<Rightarrow> u32" where
  "branch_target sequential imm = (sequential + shl (su_sext imm) 2) AND 0xFFC"

section \<open>Memory\<close>

fun load_from :: "rsp \<Rightarrow> u32 \<Rightarrow> nat list \<Rightarrow> u32 \<Rightarrow> u32" where
  "load_from r a [] v = v"
| "load_from r a (i # is') v = load_from r a is' (shl v 8 OR to_u32 (dmem_read r (a + of_nat i)))"

definition dmem_load :: "rsp \<Rightarrow> u32 \<Rightarrow> nat \<Rightarrow> u32" where
  "dmem_load r a n = load_from r a [0..<n] 0"

definition dmem_store :: "u32 \<Rightarrow> nat \<Rightarrow> u32 \<Rightarrow> rsp \<Rightarrow> rsp" where
  "dmem_store a n v r = foldl (\<lambda>r i. dmem_write (a + of_nat i) (to_u8 (shr v (8 * (n - 1 - i)))) r) r [0..<n]"

definition imem_word :: "rsp \<Rightarrow> u32 \<Rightarrow> u32" where
  "imem_word r pc =
     (let base = unat (pc AND 0xFFF); b = (\<lambda>k. to_u32 (imem r ((base + k) mod 0x1000)))
      in shl (b 0) 24 OR shl (b 1) 16 OR shl (b 2) 8 OR b 3)"

definition su_addr :: "rsp \<Rightarrow> fields \<Rightarrow> u32" where
  "su_addr r d = (su_r r (f_rs d) + su_sext (f_imm d)) AND 0xFFF"

definition su_load :: "rsp \<Rightarrow> fields \<Rightarrow> nat \<Rightarrow> u32" where
  "su_load r d n = dmem_load r (su_addr r d) n"

definition su_store :: "fields \<Rightarrow> nat \<Rightarrow> rsp \<Rightarrow> rsp" where
  "su_store d n r = dmem_store (su_addr r d) n (su_r r (f_rt d)) r"

section \<open>Coprocessors\<close>

definition cop0_read :: "nat \<Rightarrow> rsp \<Rightarrow> u32 \<times> rsp" where
  "cop0_read index r =
     (if index \<le> 7 then let (v, s) = sp_read (of_nat index) (rsp_sp r) in (v, r\<lparr>rsp_sp := s\<rparr>)
      else if index \<le> 15 then (rsp_dp r ! (index - 8), r)
      else (0, r))"

definition cop0_write :: "nat \<Rightarrow> u32 \<Rightarrow> rsp \<Rightarrow> step_result \<times> rsp" where
  "cop0_write index v r =
     (if 8 \<le> index \<and> index \<le> 15 then
        (step_result_none\<lparr>sr_dp_write := Some (of_nat (index - 8), v)\<rparr>, r\<lparr>rsp_dp := (rsp_dp r)[index - 8 := v]\<rparr>)
      else if 16 \<le> index then (step_result_none, r)
      else
        let out = (if index = 4 then step_result_none\<lparr>sr_interrupt := interrupt_change v\<rparr> else step_result_none);
            (d, s) = sp_write (of_nat index) v (rsp_sp r)
        in (out\<lparr>sr_dma := d\<rparr>, r\<lparr>rsp_sp := s\<rparr>))"

definition vector_memory :: "fields \<Rightarrow> rsp \<Rightarrow> rsp" where
  "vector_memory d r =
     snd (vector_mem (f_op d = 0x3A) (f_rd d) (f_rs d) (f_rt d) (f_sa d div 2 mod 16) (f_imm d AND 0x7F) r)"

definition cop2 :: "fields \<Rightarrow> rsp \<Rightarrow> rsp" where
  "cop2 d r =
     (if f_rs d \<ge> 16 then
        let element = f_rs d mod 16;
            (single, r) = vu_single_lane (f_funct d) element (f_rt d) (f_rd d) (f_sa d) r
        in if single then r else snd (vu_compute (f_funct d) element (f_rd d) (f_rt d) (f_sa d) r)
      else
        let elem = f_sa d div 2 mod 16
        in if f_rs d = 0 then snd (mfc2 (f_rt d) (f_rd d) elem r)
           else if f_rs d = 2 then snd (cfc2 (f_rt d) (of_nat (f_rd d)) r)
           else if f_rs d = 4 then mtc2 (su_r r (f_rt d)) (f_rd d) elem r
           else if f_rs d = 6 then ctc2 (su_r r (f_rt d)) (of_nat (f_rd d)) r
           else r)"

section \<open>Execution\<close>

definition branch_if :: "bool \<Rightarrow> u32 \<Rightarrow> rsp \<Rightarrow> rsp" where
  "branch_if c target r = (if c then r\<lparr>su_branch := Some target\<rparr> else r)"

definition special :: "fields \<Rightarrow> u32 \<Rightarrow> rsp \<Rightarrow> u32 option \<times> rsp" where
  "special d sequential r =
     (let s = su_r r (f_rs d); t = su_r r (f_rt d); fn = f_funct d;
          wr = (\<lambda>v. (None, set_su (f_rd d) v r))
      in if fn = 0x00 then wr (shl t (f_sa d))
         else if fn = 0x02 then wr (shr t (f_sa d))
         else if fn = 0x03 then wr (sar t (f_sa d))
         else if fn = 0x04 then wr (shl t (unat (s AND 31)))
         else if fn = 0x06 then wr (shr t (unat (s AND 31)))
         else if fn = 0x07 then wr (sar t (unat (s AND 31)))
         else if fn = 0x08 then (None, r\<lparr>su_branch := Some (s AND 0xFFC)\<rparr>)
         else if fn = 0x09 then
           (None, (set_su (f_rd d) ((sequential + 4) AND 0xFFC) r)\<lparr>su_branch := Some (s AND 0xFFC)\<rparr>)
         else if fn = 0x0D then (Some sequential, r)
         else if fn = 0x20 \<or> fn = 0x21 then wr (s + t)
         else if fn = 0x22 \<or> fn = 0x23 then wr (s - t)
         else if fn = 0x24 then wr (s AND t)
         else if fn = 0x25 then wr (s OR t)
         else if fn = 0x26 then wr (s XOR t)
         else if fn = 0x27 then wr (NOT (s OR t))
         else if fn = 0x2A then wr (b2w (s <s t))
         else if fn = 0x2B then wr (b2w (s < t))
         else (None, r))"

definition regimm :: "fields \<Rightarrow> u32 \<Rightarrow> rsp \<Rightarrow> rsp" where
  "regimm d sequential r =
     (let v = su_r r (f_rs d);
          taken = (if f_rt d = 0x00 \<or> f_rt d = 0x10 then v <s 0
             else if f_rt d = 0x01 \<or> f_rt d = 0x11 then 0 \<le>s v else False);
          r = (if f_rt d \<ge> 16 then set_su 31 ((sequential + 4) AND 0xFFC) r else r)
      in branch_if taken (branch_target sequential (f_imm d)) r)"

definition immediate :: "fields \<Rightarrow> rsp \<Rightarrow> rsp" where
  "immediate d r =
     (let s = su_r r (f_rs d); imm = f_imm d; wr = (\<lambda>v. set_su (f_rt d) v r)
      in if f_op d = 0x08 \<or> f_op d = 0x09 then wr (s + su_sext imm)
         else if f_op d = 0x0A then wr (b2w (s <s su_sext imm))
         else if f_op d = 0x0B then wr (b2w (s < su_sext imm))
         else if f_op d = 0x0C then wr (s AND imm)
         else if f_op d = 0x0D then wr (s OR imm)
         else if f_op d = 0x0E then wr (s XOR imm)
         else wr (shl imm 16))"

definition branches :: "fields \<Rightarrow> u32 \<Rightarrow> rsp \<Rightarrow> rsp" where
  "branches d sequential r =
     (let s = su_r r (f_rs d); t = su_r r (f_rt d);
          target = branch_target sequential (f_imm d); jump = shl (f_target d) 2 AND 0xFFC
      in if f_op d = 2 then r\<lparr>su_branch := Some jump\<rparr>
         else if f_op d = 3 then (set_su 31 ((sequential + 4) AND 0xFFC) r)\<lparr>su_branch := Some jump\<rparr>
         else if f_op d = 4 then branch_if (s = t) target r
         else if f_op d = 5 then branch_if (s \<noteq> t) target r
         else if f_op d = 6 then branch_if (s \<le>s 0) target r
         else branch_if (0 <s s) target r)"

definition loads_stores :: "fields \<Rightarrow> rsp \<Rightarrow> rsp" where
  "loads_stores d r =
     (let wr = (\<lambda>v. set_su (f_rt d) v r)
      in if f_op d = 0x20 then wr (scast (to_u8 (su_load r d 1)))
         else if f_op d = 0x21 then wr (scast (to_u16 (su_load r d 2)))
         else if f_op d = 0x23 \<or> f_op d = 0x27 then wr (su_load r d 4)
         else if f_op d = 0x24 then wr (su_load r d 1)
         else if f_op d = 0x25 then wr (su_load r d 2)
         else if f_op d = 0x28 then su_store d 1 r
         else if f_op d = 0x29 then su_store d 2 r
         else if f_op d = 0x2B then su_store d 4 r
         else r)"

definition su_cop0 :: "fields \<Rightarrow> rsp \<Rightarrow> step_result \<times> rsp" where
  "su_cop0 d r =
     (if f_rs d = 0 then let (v, r) = cop0_read (f_rd d) r in (step_result_none, set_su (f_rt d) v r)
      else if f_rs d = 4 then cop0_write (f_rd d) (su_r r (f_rt d)) r
      else (step_result_none, r))"

definition su_execute :: "fields \<Rightarrow> u32 \<Rightarrow> rsp \<Rightarrow> u32 option \<times> step_result \<times> rsp" where
  "su_execute d sequential r =
     (let opn = f_op d; quiet = (\<lambda>r. (None, step_result_none, r))
      in if opn = 0 then let (h, r) = special d sequential r in (h, step_result_none, r)
         else if opn = 1 then quiet (regimm d sequential r)
         else if opn \<le> 7 then quiet (branches d sequential r)
         else if opn \<le> 15 then quiet (immediate d r)
         else if opn = 0x10 then let (out, r) = su_cop0 d r in (None, out, r)
         else if opn = 0x12 then quiet (cop2 d r)
         else if opn = 0x32 \<or> opn = 0x3A then quiet (vector_memory d r)
         else if opn \<ge> 0x20 then quiet (loads_stores d r)
         else quiet r)"

definition su_step :: "rsp \<Rightarrow> step_result \<times> rsp" where
  "su_step r =
     (if sp_halted (rsp_sp r) then (step_result_none, r)
      else
        let pc = sp_pc (rsp_sp r);
            word' = imem_word r pc;
            after_delay = su_branch r;
            r = r\<lparr>su_branch := None\<rparr>;
            sequential = (pc + 4) AND 0xFFC;
            (halt_at, out, r) = su_execute (decode_fields word') sequential r;
            r = r\<lparr>su_regs := (su_regs r)[0 := 0]\<rparr>
        in case halt_at of
             Some next' \<Rightarrow>
               let s = sp_set_pc (case after_delay of Some t \<Rightarrow> t | None \<Rightarrow> next') (rsp_sp r);
                   s = sp_set_broke True (sp_set_halted True s);
                   out = (if sp_status s AND SP_INTBREAK \<noteq> 0 then out\<lparr>sr_interrupt := Some True\<rparr> else out)
               in (out, r\<lparr>rsp_sp := s\<rparr>)
           | None \<Rightarrow>
               (out, r\<lparr>rsp_sp := sp_set_pc (case after_delay of Some t \<Rightarrow> t | None \<Rightarrow> sequential) (rsp_sp r)\<rparr>))"

definition rsp_tick_one :: "rsp \<Rightarrow> step_result \<times> rsp" where
  "rsp_tick_one r = su_step r"

end
