(* ===== verification/Rsp_Inv.thy ===== *)
theory Rsp_Inv
  imports Su
begin

text \<open>
  The signal processor's invariant. The register files, the accumulator and the command-register shadow
  keep the lengths of the code's arrays; an accumulator lane holds 48 bits; register 0 is zero; no lane
  write is left pending; the program counter and a latched branch target are word addresses of the 4 KiB
  instruction memory. (A list keeps its length whatever the index of an update, so the invariant says
  nothing of the indices the code computes.)
\<close>

named_theorems rsplib \<open>operations that keep the shape of the signal processor\<close>

definition word_pc :: "u32 \<Rightarrow> bool" where
  "word_pc a = (a AND 0xFFC = a)"

definition rsp_ok :: "rsp \<Rightarrow> bool" where
  "rsp_ok r = (length (su_regs r) = 32 \<and> su_regs r ! 0 = 0 \<and> length (vu_regs r) = 32 \<and>
     (\<forall>v \<in> set (vu_regs r). length v = 8) \<and>
     length (vu_acc r) = 8 \<and> (\<forall>a \<in> set (vu_acc r). a AND ACC_MASK = a) \<and> length (rsp_dp r) = 8 \<and>
     word_pc (sp_pc (rsp_sp r)) \<and> (\<forall>t. su_branch r = Some t \<longrightarrow> word_pc t) \<and> pending_vd_lane r = None)"

lemma word_pc_and [rsplib]: "word_pc (a AND 0xFFC)" by (simp add: word_pc_def and.assoc)

lemma foldl_keeps:
  assumes "\<And>r x. P r \<Longrightarrow> P (f r x)" "P r"
  shows "P (foldl f r xs)"
  using assms by (induction xs arbitrary: r) auto

section \<open>Primitive updates\<close>

lemma shape_set_su [rsplib]: "rsp_ok r \<Longrightarrow> rsp_ok (set_su i v r)"
  by (simp add: rsp_ok_def set_su_def)

lemma shape_set_vlane [rsplib]: "rsp_ok r \<Longrightarrow> rsp_ok (set_vlane reg n v r)"
  by (auto simp: rsp_ok_def set_vlane_def dest!: set_update_subset_insert[THEN subsetD])

lemma shape_set_vu_byte [rsplib]: "rsp_ok r \<Longrightarrow> rsp_ok (set_vu_byte reg k v r)"
  by (simp add: set_vu_byte_def Let_def shape_set_vlane)

lemma shape_ctrl [rsplib]: "rsp_ok r \<Longrightarrow> rsp_ok (r\<lparr>vu_ctrl := c\<rparr>)" by (simp add: rsp_ok_def)
lemma shape_div [rsplib]: "rsp_ok r \<Longrightarrow> rsp_ok (r\<lparr>vu_div := d\<rparr>)" by (simp add: rsp_ok_def)

lemma shape_acc:
  assumes "rsp_ok r" "a AND ACC_MASK = a"
  shows "rsp_ok (r\<lparr>vu_acc := (vu_acc r)[n := a]\<rparr>)"
  using assms by (auto simp: rsp_ok_def dest!: set_update_subset_insert[THEN subsetD])

lemma shape_set_acc [rsplib]: "rsp_ok r \<Longrightarrow> rsp_ok (set_acc n v r)"
  unfolding set_acc_def by (rule shape_acc) (simp_all add: and.assoc)

lemma ACC_MASK_eq: "ACC_MASK = mask 48" by (simp add: ACC_MASK_def mask_eq_exp_minus_1)

lemma acc_low_mask: "((a AND 0xFFFFFFFF0000) OR to_u64 (v :: u16)) AND ACC_MASK = (a AND 0xFFFFFFFF0000) OR to_u64 v"
proof -
  have c: "(a AND 0xFFFFFFFF0000) AND ACC_MASK = a AND 0xFFFFFFFF0000"
    by (simp add: ACC_MASK_def and.assoc)
  have v: "to_u64 v AND ACC_MASK = to_u64 v"
    unfolding ACC_MASK_eq
  proof (rule and_mask_of_lt)
    have "unat v < 2 ^ LENGTH(16)" by (rule unsigned_less)
    then show "unat (to_u64 v) < 2 ^ 48" by simp
  qed
  show ?thesis unfolding bit.conj_disj_distrib2 c v ..
qed

lemma shape_set_acc_low [rsplib]: "rsp_ok r \<Longrightarrow> rsp_ok (set_acc_low n v r)"
  unfolding set_acc_low_def by (rule shape_acc) (simp_all add: acc_low_mask)

lemma shape_dmem_write [rsplib]: "rsp_ok r \<Longrightarrow> rsp_ok (dmem_write a v r)"
  by (simp add: rsp_ok_def dmem_write_def)

lemma shape_branch [rsplib]: "rsp_ok r \<Longrightarrow> word_pc t \<Longrightarrow> rsp_ok (r\<lparr>su_branch := Some t\<rparr>)"
  by (simp add: rsp_ok_def)

section \<open>Scalar and memory operations\<close>

lemma shape_mfc2 [rsplib]: "rsp_ok r \<Longrightarrow> rsp_ok (snd (mfc2 rt vs e r))"
  by (simp add: mfc2_def Let_def shape_set_su)

lemma shape_cfc2 [rsplib]: "rsp_ok r \<Longrightarrow> rsp_ok (snd (cfc2 rt vs r))"
  by (simp add: cfc2_def Let_def shape_set_su)

lemma shape_mtc2 [rsplib]: "rsp_ok r \<Longrightarrow> rsp_ok (mtc2 v vs e r)"
  by (simp add: mtc2_def Let_def shape_set_vu_byte)

lemma shape_ctc2 [rsplib]: "rsp_ok r \<Longrightarrow> rsp_ok (ctc2 v vs r)"
  by (simp add: ctc2_def Let_def shape_ctrl)

lemma shape_store_bytes [rsplib]: "rsp_ok r \<Longrightarrow> rsp_ok (store_bytes a reg src ks r)"
  unfolding store_bytes_def by (rule foldl_keeps) (simp_all add: shape_dmem_write)

lemma shape_load_bytes [rsplib]: "rsp_ok r \<Longrightarrow> rsp_ok (load_bytes a reg dst ks r)"
  unfolding load_bytes_def by (rule foldl_keeps) (simp_all add: shape_set_vu_byte)

lemma shape_dmem_store [rsplib]: "rsp_ok r \<Longrightarrow> rsp_ok (dmem_store a n v r)"
  unfolding dmem_store_def by (rule foldl_keeps) (simp_all add: shape_dmem_write)

lemma shape_ltv: "rsp_ok r \<Longrightarrow> rsp_ok (ltv a vt e r)"
proof -
  assume r: "rsp_ok r"
  have one: "rsp_ok (snd (snd (ltv_step b' vb s i)))" if "rsp_ok (snd (snd s))" for b' vb s i
  proof -
    obtain ptr off q where s: "s = (ptr, off, q)" by (rule prod_cases3)
    show ?thesis
      using that unfolding s ltv_step_def Let_def split_beta fst_conv snd_conv
      by (intro foldl_keeps[where P = "\<lambda>s. rsp_ok (snd s)"]) (auto simp: shape_set_vu_byte)
  qed
  have "rsp_ok (snd (snd (foldl (ltv_step b' vb) s xs)))" if "rsp_ok (snd (snd s))" for b' vb s xs
    using foldl_keeps[where P = "\<lambda>s. rsp_ok (snd (snd s))", OF one that] .
  from this[of "(_, _, r)"] r show ?thesis by (simp add: ltv_def Let_def split_beta)
qed

lemma shape_stv: "rsp_ok r \<Longrightarrow> rsp_ok (stv a vt e r)"
proof -
  assume r: "rsp_ok r"
  have one: "rsp_ok (snd (snd (stv_step a' s i)))" if "rsp_ok (snd (snd s))" for a' s i
    using that by (cases s) (simp add: stv_step_def Let_def shape_dmem_write)
  have "rsp_ok (snd (snd (foldl (stv_step a') s xs)))" if "rsp_ok (snd (snd s))" for a' s xs
    using foldl_keeps[where P = "\<lambda>s. rsp_ok (snd (snd s))", OF one that] .
  from this[of "(_, _, r)"] r show ?thesis by (simp add: stv_def Let_def split_beta)
qed

lemma shape_sfv: "rsp_ok r \<Longrightarrow> rsp_ok (sfv a vt e r)"
  unfolding sfv_def Let_def by (rule foldl_keeps) (simp_all add: shape_dmem_write)

lemma shape_lfv: "rsp_ok r \<Longrightarrow> rsp_ok (lfv a vt e r)"
  unfolding lfv_def Let_def by (rule foldl_keeps) (simp_all add: shape_set_vu_byte)

lemma shape_packed: "rsp_ok r \<Longrightarrow> rsp_ok (packed_mem st low rs vt e off r)"
  unfolding packed_mem_def packed_store_def Let_def
  by (cases st) (auto intro!: foldl_keeps[where P = rsp_ok] shape_dmem_write shape_set_vlane)

lemma shape_strided: "rsp_ok r \<Longrightarrow> rsp_ok (strided_mem st rs vt e off r)"
  unfolding strided_mem_def Let_def
  by (cases st) (auto intro!: foldl_keeps[where P = rsp_ok] shape_dmem_write shape_set_vlane)

lemma shape_vector_memory [rsplib]: "rsp_ok r \<Longrightarrow> rsp_ok (vector_memory d r)"
  by (simp add: vector_memory_def vector_mem_def vector_mem_packed_def scalar_mem_def quad_mem_def rest_mem_def
      swv_def Let_def shape_store_bytes shape_load_bytes shape_ltv shape_stv shape_lfv shape_sfv shape_packed shape_strided)

section \<open>Vector arithmetic\<close>

lemma shape_multiply: "rsp_ok r \<Longrightarrow> rsp_ok (snd (multiply_lane opn n s t r))"
  by (simp add: multiply_lane_def Let_def shape_set_acc)

lemma shape_vabs: "rsp_ok r \<Longrightarrow> rsp_ok (snd (vabs_lane n s t r))"
  by (simp add: vabs_lane_def Let_def shape_set_acc_low)

lemma shape_flags [rsplib]:
  "rsp_ok r \<Longrightarrow> rsp_ok (set_vcc k v r)" "rsp_ok r \<Longrightarrow> rsp_ok (set_vco k v r)"
  "rsp_ok r \<Longrightarrow> rsp_ok (set_vce k v r)"
  by (simp_all add: set_vcc_def set_vco_def set_vce_def shape_ctrl)

lemma shape_clips:
  "rsp_ok r \<Longrightarrow> rsp_ok (snd (vch_lane n s t r))" "rsp_ok r \<Longrightarrow> rsp_ok (snd (vcl_lane n s t r))"
  "rsp_ok r \<Longrightarrow> rsp_ok (snd (vcr_lane n s t r))"
  by (simp_all add: vch_lane_def vcl_lane_def vcr_lane_def Let_def shape_flags)

lemma shape_clip: "rsp_ok r \<Longrightarrow> rsp_ok (clip opn e vs vt vd r)"
proof -
  assume r: "rsp_ok r"
  define f where "f r0 = (\<lambda>r n. let (out, r) = (if opn = 0x25 then vch_lane n (vs_lanes r0 vs ! n) (vt_lanes r0 vt e ! n) r
                  else if opn = 0x26 then vcr_lane n (vs_lanes r0 vs ! n) (vt_lanes r0 vt e ! n) r
                  else vcl_lane n (vs_lanes r0 vs ! n) (vt_lanes r0 vt e ! n) r)
            in set_vlane vd n out (set_acc_low n out r))" for r0
  have "rsp_ok (f r0 q n)" if "rsp_ok q" for r0 q n
    using shape_clips[OF that] by (auto simp: f_def Let_def split_beta shape_set_vlane shape_set_acc_low)
  then have "rsp_ok (foldl (f r0) r xs)" for r0 xs using r by (rule foldl_keeps)
  then have k: "rsp_ok (foldl (f r) r [0..<8])" .
  have "clip opn e vs vt vd r =
      (if opn \<noteq> 0x25 then (foldl (f r) r [0..<8])\<lparr>vu_ctrl := (vu_ctrl (foldl (f r) r [0..<8]))\<lparr>vco := 0, vce := 0\<rparr>\<rparr>
       else foldl (f r) r [0..<8])"
    by (simp only: clip_def f_def Let_def)
  then show ?thesis using k shape_ctrl[OF k] by simp
qed

lemma shape_whole: "rsp_ok r \<Longrightarrow> rsp_ok (snd (vu_whole_instruction opn e vs vt vd r))"
  unfolding vu_whole_instruction_def vrnd_def vmacq_def vzero_def Let_def
  by (auto intro!: foldl_keeps[where P = rsp_ok] shape_clip shape_set_vlane shape_set_acc shape_set_acc_low)

lemma shape_compute_lane:
  assumes "rsp_ok r" "compute_lane opn e n s t (f, r) = Some (x, f', r')"
  shows "rsp_ok r'"
  using assms shape_multiply[OF assms(1), of opn n s t] shape_vabs[OF assms(1), of n s t]
  by (auto simp: compute_lane_def add_lane_def carry_lane_def select_lane_def Let_def split_beta shape_set_acc_low
      split: if_splits)

lemma shape_compute_lanes: "rsp_ok r \<Longrightarrow> rsp_ok (snd (compute_lanes opn e sv tv vd ns (f, r)))"
proof (induction ns arbitrary: f r)
  case Nil
  then show ?case by (simp add: apply_flags_def Let_def shape_ctrl)
next
  case (Cons n ns)
  then show ?case
    by (auto simp: shape_set_vlane dest: shape_compute_lane split: option.split)
qed

lemma shape_vu_compute: "rsp_ok r \<Longrightarrow> rsp_ok (snd (vu_compute opn e vs vt vd r))"
  using shape_whole[of r opn e vs vt vd]
  by (simp add: vu_compute_def Let_def split_beta shape_compute_lanes)

lemma shape_broadcast: "rsp_ok r \<Longrightarrow> rsp_ok (acc_low_from_broadcast e vt r)"
  unfolding acc_low_from_broadcast_def by (rule foldl_keeps) (simp_all add: shape_set_acc_low)

lemma take_pending: "rsp_ok r \<Longrightarrow> take_vd_lane vd (r\<lparr>pending_vd_lane := Some (n, v)\<rparr>) = set_vlane vd n v r"
  by (cases r) (simp add: take_vd_lane_def rsp_ok_def)

lemma shape_single: "rsp_ok r \<Longrightarrow> rsp_ok (snd (vu_single_lane opn e vt de vd r))"
  by (simp add: vu_single_lane_def reciprocal_core_def set_vd_lane_def Let_def take_pending shape_set_vlane
      shape_broadcast shape_div)

lemma shape_cop2 [rsplib]: "rsp_ok r \<Longrightarrow> rsp_ok (cop2 d r)"
  by (auto simp: cop2_def Let_def split_beta shape_single shape_vu_compute shape_mfc2 shape_cfc2 shape_mtc2 shape_ctc2)

section \<open>Scalar instructions\<close>

lemma shape_branch_if: "rsp_ok r \<Longrightarrow> word_pc t \<Longrightarrow> rsp_ok (branch_if c t r)"
  by (simp add: branch_if_def shape_branch)

lemma word_pc_target: "word_pc (branch_target s i)" by (simp add: branch_target_def word_pc_and)

lemma shape_special: "rsp_ok r \<Longrightarrow> rsp_ok (snd (special d s r))"
  by (simp add: special_def Let_def shape_set_su shape_branch word_pc_and)

lemma shape_scalar [rsplib]:
  "rsp_ok r \<Longrightarrow> rsp_ok (regimm d s r)" "rsp_ok r \<Longrightarrow> rsp_ok (branches d s r)"
  "rsp_ok r \<Longrightarrow> rsp_ok (immediate d r)" "rsp_ok r \<Longrightarrow> rsp_ok (loads_stores d r)"
  by (simp_all add: regimm_def branches_def immediate_def loads_stores_def su_store_def Let_def shape_set_su
      shape_branch_if shape_branch word_pc_target word_pc_and shape_dmem_store)

lemma sp_pc_read: "sp_pc (snd (sp_read i s)) = sp_pc s" by (simp add: sp_read_def Let_def)

lemma sp_pc_write: "sp_pc (snd (sp_write i v s)) = sp_pc s"
proof -
  have "sp_pc (write_status v s) = sp_pc s" by (subst write_status_frame) simp
  then show ?thesis by (simp add: sp_write_def start_dma_def Let_def)
qed

lemma shape_sp: "rsp_ok r \<Longrightarrow> word_pc (sp_pc s) \<Longrightarrow> rsp_ok (r\<lparr>rsp_sp := s\<rparr>)"
  by (simp add: rsp_ok_def)

lemma shape_cop0 [rsplib]:
  assumes "rsp_ok r"
  shows "rsp_ok (snd (su_cop0 d r))"
proof -
  have "word_pc (sp_pc (rsp_sp r))" using assms by (simp add: rsp_ok_def)
  moreover have "rsp_ok (r\<lparr>rsp_dp := (rsp_dp r)[k := v]\<rparr>)" for k v using assms by (simp add: rsp_ok_def)
  ultimately show ?thesis
    using assms by (simp add: su_cop0_def cop0_read_def cop0_write_def Let_def split_beta shape_set_su shape_sp
        sp_pc_read sp_pc_write)
qed

lemma shape_execute: "rsp_ok r \<Longrightarrow> rsp_ok (snd (snd (su_execute d s r)))"
  by (simp add: su_execute_def Let_def split_beta shape_special shape_scalar shape_cop0 shape_cop2 shape_vector_memory)

section \<open>The step\<close>

lemma ok_rsp_new: "rsp_ok rsp_new"
  by (simp add: rsp_ok_def rsp_new_def sp_new_def word_pc_def)

text \<open>The signal processor's state keeps its shape: from any well-formed state a step, whatever the
  instruction, keeps the lengths of the register files and command registers, leaves register 0 zero, the accumulator lanes within 48 bits and no lane write pending, and moves the
  program counter to a word address of the instruction memory; so does every run from reset.\<close>

lemma rsp_step_well_formed:
  assumes "rsp_ok r"
  shows "rsp_ok (snd (su_step r)) \<and> rsp_ok (((\<lambda>r. snd (su_step r)) ^^ n) rsp_new)"
proof -
  have step: "rsp_ok (snd (su_step r))" if r: "rsp_ok r" for r
  proof (cases "sp_halted (rsp_sp r)")
    case True
    then show ?thesis using r by (simp add: su_step_def)
  next
    case False
    obtain h out q where e: "su_execute (decode_fields (imem_word r (sp_pc (rsp_sp r))))
        ((sp_pc (rsp_sp r) + 4) AND 0xFFC) (r\<lparr>su_branch := None\<rparr>) = (h, out, q)"
      by (rule prod_cases3)
    have "rsp_ok (r\<lparr>su_branch := None\<rparr>)" using r by (simp add: rsp_ok_def)
    from shape_execute[OF this] have q: "rsp_ok q" using e by (metis snd_conv)
    then have q0: "q\<lparr>su_regs := (su_regs q)[0 := 0]\<rparr> = q"
      by (simp add: rsp_ok_def) (metis list_update_id rsp.surjective rsp.update_convs(1))
    have pc: "word_pc (sp_pc (sp_set_pc t s))" for t s by (simp add: sp_set_pc_def word_pc_and)
    have flags: "sp_pc (sp_set_broke True (sp_set_halted True s)) = sp_pc s" for s
      by (simp add: sp_set_broke_def sp_set_halted_def)
    show ?thesis
      using False q unfolding su_step_def Let_def by (simp add: e q0 shape_sp pc flags split: option.split)
  qed
  have "rsp_ok (((\<lambda>r. snd (su_step r)) ^^ n) rsp_new)"
    by (induction n) (simp_all add: ok_rsp_new step)
  then show ?thesis using step assms by simp
qed

lemma rsp_step_well_formed_witness: "rsp_ok (snd (su_step rsp_new))"
  using rsp_step_well_formed[OF ok_rsp_new] by simp

end
