(* ===== verification/Vu_Unaligned.thy ===== *)
theory Vu_Unaligned
  imports Rsp_Inv
begin

text \<open>
  Unaligned vectors: what the quad and rest transfers do byte by byte, and that the pair of them moves
  sixteen bytes at any address.
\<close>

section \<open>Bytes of a vector register\<close>

lemma vlane_set:
  assumes "rsp_ok r" "n < 8"
  shows "vlane (set_vlane g n x r) g' m = (if g mod 32 = g' mod 32 \<and> m = n then x else vlane r g' m)"
proof -
  have "g mod 32 < length (vu_regs r)" "vu_regs r ! (g mod 32) \<in> set (vu_regs r)"
    using assms(1) by (auto simp: rsp_ok_def)
  moreover have "length (vu_regs r ! (g mod 32)) = 8" using calculation(2) assms(1) by (simp add: rsp_ok_def)
  ultimately show ?thesis using assms(2) by (auto simp: vlane_def set_vlane_def nth_list_update)
qed

lemma join_bytes:
  "to_u8 (shr (((l :: u16) AND 0x00FF) OR shl (to_u16 (v :: u8)) 8) 8) = v"
  "to_u8 ((l AND 0x00FF) OR shl (to_u16 v) 8) = to_u8 l"
  "to_u8 (shr ((l AND 0xFF00) OR to_u16 v) 8) = to_u8 (shr l 8)"
  "to_u8 ((l AND 0xFF00) OR to_u16 v) = v"
proof -
  have c: "(0x00FF :: u16) = mask 8" "(0xFF00 :: u16) = shl (mask 8) 8" by (simp_all add: mask_eq_exp_minus_1)
  have b: "bit v k \<Longrightarrow> k < 8" for k by (rule bit_imp_le_length[where 'a=8, simplified])
  show "to_u8 (shr ((l AND 0x00FF) OR shl (to_u16 v) 8) 8) = v"
    "to_u8 ((l AND 0x00FF) OR shl (to_u16 v) 8) = to_u8 l"
    "to_u8 (shr ((l AND 0xFF00) OR to_u16 v) 8) = to_u8 (shr l 8)"
    "to_u8 ((l AND 0xFF00) OR to_u16 v) = v"
    unfolding c by (rule bit_word_eqI, auto simp: bit_word_simps dest: b)+
qed

definition byte_of :: "nat \<Rightarrow> u16 \<Rightarrow> u8" where
  "byte_of k l = (if k mod 2 = 0 then to_u8 (shr l 8) else to_u8 l)"

definition with_byte :: "nat \<Rightarrow> u8 \<Rightarrow> u16 \<Rightarrow> u16" where
  "with_byte k v l = (if k mod 2 = 0 then (l AND 0x00FF) OR shl (to_u16 v) 8 else (l AND 0xFF00) OR to_u16 v)"

lemma byte_of_with_byte: "byte_of b (with_byte k v l) = (if b mod 2 = k mod 2 then v else byte_of b l)"
  unfolding byte_of_def with_byte_def using join_bytes[of l v] by (cases "k mod 2 = 0"; cases "b mod 2 = 0") (simp_all only: if_True if_False refl, simp_all)

lemma vu_byte_alt: "vu_byte r g k = byte_of k (vlane r g ((k mod 16) div 2))"
  by (simp only: vu_byte_def byte_of_def Let_def)

lemma set_vu_byte_alt:
  "set_vu_byte g k v r = set_vlane g ((k mod 16) div 2) (with_byte k v (vlane r g ((k mod 16) div 2))) r"
  by (simp only: set_vu_byte_def with_byte_def Let_def)

lemma vu_byte_set:
  assumes r: "rsp_ok r" and "b < 16" "k < 16"
  shows "vu_byte (set_vu_byte g k v r) g' b = (if g mod 32 = g' mod 32 \<and> b = k then v else vu_byte r g' b)"
proof (cases "g mod 32 = g' mod 32 \<and> b div 2 = k div 2")
  case False
  then have "b \<noteq> k \<or> g mod 32 \<noteq> g' mod 32" by auto
  then show ?thesis
    using assms False by (auto simp: vu_byte_alt set_vu_byte_alt vlane_set)
next
  case True
  have v: "vlane r g' (k div 2) = vlane r g (k div 2)" using True by (simp add: vlane_def)
  have "b = k \<longleftrightarrow> b mod 2 = k mod 2" using True by (metis div_mult_mod_eq)
  then show ?thesis
    using assms True v by (simp add: vu_byte_alt set_vu_byte_alt vlane_set byte_of_with_byte)
qed

lemma dmem_read_write: "dmem_read (dmem_write a v r) b = (if a AND 0xFFF = b AND 0xFFF then v else dmem_read r b)"
proof -
  have "(unat (b AND 0xFFF) = unat (a AND 0xFFF)) = (a AND 0xFFF = b AND 0xFFF)" by (metis unsigned_word_eqI)
  then show ?thesis by (simp add: dmem_read_def dmem_write_def)
qed

lemma dmem_read_set_byte [simp]: "dmem_read (set_vu_byte g k v r) a = dmem_read r a"
  by (simp add: dmem_read_def set_vu_byte_def set_vlane_def Let_def)

lemma vu_byte_dmem_write [simp]: "vu_byte (dmem_write a v r) g k = vu_byte r g k"
  by (simp add: vu_byte_def vlane_def dmem_write_def)

section \<open>Runs of bytes\<close>

lemma load_bytes_Suc:
  "load_bytes a g d [0..<Suc m] r = set_vu_byte g (d m) (dmem_read (load_bytes a g d [0..<m] r) (a m)) (load_bytes a g d [0..<m] r)"
  by (simp add: load_bytes_def)

lemma store_bytes_Suc:
  "store_bytes a g s [0..<Suc m] r = dmem_write (a m) (vu_byte (store_bytes a g s [0..<m] r) g (s m)) (store_bytes a g s [0..<m] r)"
  by (simp add: store_bytes_def)

lemma load_bytes_run:
  assumes "rsp_ok r" "c + m \<le> 16"
  shows "dmem_read (load_bytes a g (\<lambda>i. c + i) [0..<m] r) w = dmem_read r w \<and>
    (b < 16 \<longrightarrow> vu_byte (load_bytes a g (\<lambda>i. c + i) [0..<m] r) g' b =
      (if g mod 32 = g' mod 32 \<and> c \<le> b \<and> b < c + m then dmem_read r (a (b - c)) else vu_byte r g' b))"
  using assms(2)
proof (induction m arbitrary: w)
  case 0
  then show ?case by (auto simp: load_bytes_def)
next
  case (Suc m)
  let ?q = "load_bytes a g (\<lambda>i. c + i) [0..<m] r"
  have q: "rsp_ok ?q" by (rule shape_load_bytes[OF assms(1)])
  have IH: "dmem_read ?q w = dmem_read r w" for w using Suc by simp
  show ?case
    unfolding load_bytes_Suc using Suc by (auto simp: vu_byte_set[OF q] IH less_Suc_eq)
qed

lemmas load_run_mem = load_bytes_run[THEN conjunct1]
lemmas load_run_byte = load_bytes_run[THEN conjunct2, rule_format]

lemma load_bytes_cong: "(\<And>i. i \<in> set ks \<Longrightarrow> d i = d' i \<and> a i = a' i) \<Longrightarrow> load_bytes a g d ks r = load_bytes a' g d' ks r"
  unfolding load_bytes_def by (rule foldl_cong) auto

lemma store_bytes_cong: "(\<And>i. i \<in> set ks \<Longrightarrow> d i = d' i \<and> a i = a' i) \<Longrightarrow> store_bytes a g d ks r = store_bytes a' g d' ks r"
  unfolding store_bytes_def by (rule foldl_cong) auto

lemma store_bytes_run:
  "vu_byte (store_bytes a g s [0..<m] r) g' b = vu_byte r g' b \<and>
   dmem_read (store_bytes a g s [0..<m] r) w =
     (if \<exists>i<m. a i AND 0xFFF = w AND 0xFFF
      then vu_byte r g (s (GREATEST i. i < m \<and> a i AND 0xFFF = w AND 0xFFF)) else dmem_read r w)"
proof (induction m arbitrary: b g')
  case 0
  then show ?case by (simp add: store_bytes_def)
next
  case (Suc m)
  let ?q = "store_bytes a g s [0..<m] r"
  have IH: "vu_byte ?q g' b = vu_byte r g' b" for g' b using Suc by simp
  have mem: "dmem_read ?q w = (if \<exists>i<m. a i AND 0xFFF = w AND 0xFFF
      then vu_byte r g (s (GREATEST i. i < m \<and> a i AND 0xFFF = w AND 0xFFF)) else dmem_read r w)" using Suc by blast
  show ?case
  proof (cases "a m AND 0xFFF = w AND 0xFFF")
    case True
    have "(GREATEST i. i < Suc m \<and> a i AND 0xFFF = w AND 0xFFF) = m" using True by (intro Greatest_equality) auto
    then show ?thesis unfolding store_bytes_Suc using True by (auto simp: dmem_read_write IH)
  next
    case False
    then have "(i < Suc m \<and> a i AND 0xFFF = w AND 0xFFF) = (i < m \<and> a i AND 0xFFF = w AND 0xFFF)" for i
      by (auto simp: less_Suc_eq)
    then show ?thesis unfolding store_bytes_Suc using False by (simp only: dmem_read_write vu_byte_dmem_write IH mem if_False simp_thms)
  qed
qed

lemmas store_run_mem = store_bytes_run[THEN conjunct2]

text \<open>Sixteen consecutive addresses are distinct in the data memory.\<close>

lemma window_inj:
  assumes "(A + of_nat i) AND (0xFFF :: u32) = (A + of_nat j) AND 0xFFF" "i < 4096" "j < 4096"
  shows "i = j"
proof -
  have m: "(0xFFF :: u32) = mask 12" by (simp add: mask_eq_exp_minus_1)
  have "unat (A + of_nat i) mod 4096 = unat (A + of_nat j) mod 4096"
    using arg_cong[OF assms(1), of unat] unfolding m unat_and_mask by simp
  moreover have u: "unat (A + of_nat k) mod 4096 = (unat A + k) mod 4096" for k
    by (simp add: unat_word_ariths unat_of_nat mod_mod_cancel mod_add_right_eq)
  ultimately have "(unat A + i) mod 4096 = (unat A + j) mod 4096" by simp
  then have "i mod 4096 = j mod 4096" unfolding nat_mod_eq_iff by (simp add: add.assoc)
  then show ?thesis using assms by simp
qed

section \<open>The unaligned pairs\<close>

lemma word_split_mask: "(x AND NOT m) + (x AND m) = (x :: 'a::len word)"
proof -
  have "(x AND NOT m) AND (x AND m) = 0" by (rule bit_word_eqI) (auto simp: bit_word_simps)
  then have "(x AND NOT m) + (x AND m) = (x AND NOT m) OR (x AND m)" by (rule disjunctive_add_eq_or)
  also have "\<dots> = x" by (rule bit_word_eqI) (auto simp: bit_word_simps)
  finally show ?thesis .
qed

lemma rest_of_window:
  fixes A :: u32
  shows "(A + 16) AND NOT 15 = A + of_nat (16 - unat A mod 16)" "unat ((A + 16) AND 15) = unat A mod 16"
    "unat ((A OR 15) - A) = 15 - unat A mod 16"
proof -
  have m: "(15 :: u32) = mask 4" by (simp add: mask_eq_exp_minus_1)
  have n: "unat (A AND 15) = unat A mod 16" unfolding m unat_and_mask by simp
  show n': "unat ((A + 16) AND 15) = unat A mod 16"
    unfolding m unat_and_mask by (simp add: unat_word_ariths mod_mod_cancel)
  then have e: "(A + 16) AND 15 = A AND 15" using n by (metis unsigned_word_eqI)
  have a: "of_nat (unat A mod 16) = A AND 15" by (simp flip: n)
  have "A + 16 = ((A + 16) AND NOT 15) + (A AND 15)"
    using word_split_mask[of "A + 16" 15] by (simp add: e)
  then have "(A + 16) AND NOT 15 = A + (16 - (A AND 15))" by (simp add: algebra_simps)
  also have "16 - (A AND 15) = of_nat (16 - unat A mod 16)"
    by (simp add: of_nat_diff a)
  finally show "(A + 16) AND NOT 15 = A + of_nat (16 - unat A mod 16)" .
  have "A OR 15 = (A AND NOT 15) OR 15" by (rule bit_word_eqI) (auto simp: bit_word_simps m)
  also have "\<dots> = (A AND NOT 15) + 15"
    by (rule disjunctive_add_eq_or[symmetric]) (simp add: and.assoc)
  finally have "(A OR 15) - A = 15 - (A AND 15)"
    using word_split_mask[of A 15] by (simp add: algebra_simps)
  then show "unat ((A OR 15) - A) = 15 - unat A mod 16"
    using n by (simp add: unat_sub word_le_nat_alt)
qed

lemma quad_mem_bytes:
  fixes A :: u32
  assumes "rsp_ok r" and A: "A = rs + sext7 off * 16" and b: "b < 16"
  shows "vu_byte (quad_mem False rs vt 0 off r) g b =
      (if vt mod 32 = g mod 32 \<and> b < 16 - unat A mod 16 then dmem_read r (A + of_nat b) else vu_byte r g b)"
    "dmem_read (quad_mem False rs vt 0 off r) w = dmem_read r w"
proof -
  have n: "16 - unat A mod 16 = Suc (15 - unat A mod 16)" by (simp add: Suc_diff_le)
  have e: "quad_mem False rs vt 0 off r = load_bytes (\<lambda>i. A + of_nat i) vt (\<lambda>i. 0 + i) [0..<16 - unat A mod 16] r"
    unfolding quad_mem_def Let_def A[symmetric] rest_of_window n
    by (simp del: upt_Suc) (rule load_bytes_cong, auto)
  show "vu_byte (quad_mem False rs vt 0 off r) g b =
      (if vt mod 32 = g mod 32 \<and> b < 16 - unat A mod 16 then dmem_read r (A + of_nat b) else vu_byte r g b)"
    "dmem_read (quad_mem False rs vt 0 off r) w = dmem_read r w"
    unfolding e by (subst load_run_byte[OF assms(1) _ b], simp_all) (subst load_run_mem[OF assms(1)], simp_all)
qed

lemma rest_mem_bytes:
  fixes A :: u32
  assumes "rsp_ok r" and A: "A + 16 = rs + sext7 off * 16" and b: "b < 16"
  shows "vu_byte (rest_mem False rs vt 0 off r) g b =
      (if vt mod 32 = g mod 32 \<and> 16 - unat A mod 16 \<le> b then dmem_read r (A + of_nat b) else vu_byte r g b)"
proof -
  define n where "n = unat A mod 16"
  have n: "n < 16" by (simp add: n_def)
  have e: "rest_mem False rs vt 0 off r =
      load_bytes (\<lambda>i. A + of_nat (16 - n) + of_nat i) vt (\<lambda>i. (16 - n) + i) [0..<n] r"
  proof (cases "n = 0")
    case True
    then show ?thesis unfolding rest_mem_def Let_def A[symmetric] rest_of_window
      by (simp add: n_def[symmetric] load_bytes_def)
  next
    case False
    then show ?thesis unfolding rest_mem_def Let_def A[symmetric] rest_of_window
      by (simp only: n_def[symmetric] if_False simp_thms) simp
  qed
  have "vu_byte (rest_mem False rs vt 0 off r) g b =
      (if vt mod 32 = g mod 32 \<and> 16 - n \<le> b \<and> b < 16 - n + n
       then dmem_read r (A + of_nat (16 - n) + of_nat (b - (16 - n))) else vu_byte r g b)"
    unfolding e by (rule load_run_byte[OF assms(1) _ b]) (use n in simp)
  moreover have "A + of_nat (16 - n) + of_nat (b - (16 - n)) = A + of_nat b" if "16 - n \<le> b"
  proof -
    have "of_nat (16 - n) + of_nat (b - (16 - n)) = (of_nat b :: u32)" using that by (metis of_nat_add le_add_diff_inverse)
    then show ?thesis by (simp add: add.assoc)
  qed
  ultimately show ?thesis using b n by (auto simp: n_def[symmetric])
qed

text \<open>The stores: byte \<open>k\<close> of the window takes byte \<open>element + k\<close> of the register, wrapped.\<close>

lemma store_window:
  fixes A :: u32
  assumes "lo + m \<le> 16"
  shows "dmem_read (store_bytes (\<lambda>i. A + of_nat lo + of_nat i) vt (\<lambda>i. (e + lo + i) mod 16) [0..<m] r) w =
    (if \<exists>k<16. lo \<le> k \<and> k < lo + m \<and> (A + of_nat k) AND 0xFFF = w AND 0xFFF
     then vu_byte r vt ((e + (THE k. k < 16 \<and> (A + of_nat k) AND 0xFFF = w AND 0xFFF)) mod 16)
     else dmem_read r w)"
proof -
  let ?a = "\<lambda>i. A + of_nat lo + of_nat i"
  have at: "?a i = A + of_nat (lo + i)" for i by (simp add: add.assoc)
  show ?thesis
  proof (cases "\<exists>k<16. lo \<le> k \<and> k < lo + m \<and> (A + of_nat k) AND 0xFFF = w AND 0xFFF")
    case True
    then obtain k where k: "k < 16" "lo \<le> k" "k < lo + m" "(A + of_nat k) AND 0xFFF = w AND 0xFFF" by blast
    have u: "i = k" if "(A + of_nat i) AND 0xFFF = w AND 0xFFF" "i < 4096" for i
      using window_inj[of A i k] that k by simp
    have ex: "\<exists>i<m. ?a i AND 0xFFF = w AND 0xFFF" using k by (intro exI[of _ "k - lo"]) (simp add: at)
    have g: "(GREATEST i. i < m \<and> ?a i AND 0xFFF = w AND 0xFFF) = k - lo"
    proof (rule Greatest_equality)
      show "k - lo < m \<and> ?a (k - lo) AND 0xFFF = w AND 0xFFF" using k by (auto simp: at)
    next
      fix i assume "i < m \<and> ?a i AND 0xFFF = w AND 0xFFF"
      then have "lo + i = k" using u[of "lo + i"] assms by (simp add: at)
      then show "i \<le> k - lo" by simp
    qed
    have t: "(THE k. k < 16 \<and> (A + of_nat k) AND 0xFFF = w AND 0xFFF) = k"
    proof (rule the_equality)
      show "k < 16 \<and> (A + of_nat k) AND 0xFFF = w AND 0xFFF" using k by blast
    next
      fix i assume h: "i < 16 \<and> (A + of_nat i) AND 0xFFF = w AND 0xFFF"
      show "i = k" by (rule u) (use h in blast, use h in linarith)
    qed
    have "e + lo + (k - lo) = e + k" using k(2) by simp
    then show ?thesis unfolding store_run_mem if_P[OF ex] if_P[OF True] g t by (simp only:)
  next
    case False
    have "\<not> (\<exists>i<m. ?a i AND 0xFFF = w AND 0xFFF)"
    proof
      assume "\<exists>i<m. ?a i AND 0xFFF = w AND 0xFFF"
      then obtain i where "i < m" "(A + of_nat (lo + i)) AND 0xFFF = w AND 0xFFF" unfolding at by blast
      moreover from this(1) have "lo \<le> lo + i" "lo + i < lo + m" "lo + i < 16" using assms by simp_all
      ultimately show False using False by blast
    qed
    then show ?thesis unfolding store_run_mem if_not_P[OF False] by (rule if_not_P)
  qed
qed

lemma quad_mem_store:
  fixes A :: u32
  assumes "A = rs + sext7 off * 16"
  shows "quad_mem True rs vt e off r =
    store_bytes (\<lambda>i. A + of_nat 0 + of_nat i) vt (\<lambda>i. (e + 0 + i) mod 16) [0..<16 - unat A mod 16] r"
proof -
  have n: "16 - unat A mod 16 = Suc (15 - unat A mod 16)" by (simp add: Suc_diff_le)
  show ?thesis
    unfolding quad_mem_def Let_def assms[symmetric] rest_of_window n by (simp del: upt_Suc)
qed

lemma rest_mem_store:
  fixes A :: u32
  assumes "A + 16 = rs + sext7 off * 16"
  shows "rest_mem True rs vt e off r =
    store_bytes (\<lambda>i. A + of_nat (16 - unat A mod 16) + of_nat i) vt
      (\<lambda>i. (e + (16 - unat A mod 16) + i) mod 16) [0..<unat A mod 16] r"
proof -
  have "e + 16 - unat A mod 16 + i = e + (16 - unat A mod 16) + i" for i
    using mod_less_divisor[of 16 "unat A"] by linarith
  then show ?thesis
    unfolding rest_mem_def Let_def assms[symmetric] rest_of_window by simp
qed

lemma vector_mem_quad: "snd (vector_mem st 4 base vt e off r) = quad_mem st (su_r r base) vt e off r"
  by (simp add: vector_mem_def)

lemma vector_mem_rest: "snd (vector_mem st 5 base vt e off r) = rest_mem st (su_r r base) vt e off r"
  by (simp add: vector_mem_def)

lemma su_r_load_bytes: "su_r (load_bytes a g d ks r) i = su_r r i"
  unfolding load_bytes_def
  by (induction ks arbitrary: r) (simp_all add: su_r_def set_vu_byte_def set_vlane_def Let_def)

lemma su_r_store_bytes: "su_r (store_bytes a g d ks r) i = su_r r i"
  unfolding store_bytes_def by (induction ks arbitrary: r) (simp_all add: su_r_def dmem_write_def)

text \<open>C38. At every address, aligned or not, the pair LQV at the address and LRV sixteen bytes further loads
  the sixteen bytes that start there (modulo the 4 KiB of the data memory) into the vector register, byte
  for byte, and changes no other register; the pair SQV and SRV stores the register, rotated by the
  element, to those sixteen bytes and changes no other byte of the memory.\<close>

theorem vector_unaligned_pairs:
  assumes ok: "rsp_ok r" and next': "sext7 off' = sext7 off + 1" and b: "b < 16"
    and A: "A = su_r r base + sext7 off * 16"
  shows "vu_byte (snd (vector_mem False 5 base vt 0 off' (snd (vector_mem False 4 base vt 0 off r)))) g b =
      (if g mod 32 = vt mod 32 then dmem_read r (A + of_nat b) else vu_byte r g b) \<and>
    dmem_read (snd (vector_mem True 5 base vt e off' (snd (vector_mem True 4 base vt e off r)))) (A + of_nat b) =
      vu_byte r vt ((e + b) mod 16) \<and>
    ((\<forall>k<16. (A + of_nat k) AND 0xFFF \<noteq> w AND 0xFFF) \<longrightarrow>
     dmem_read (snd (vector_mem True 5 base vt e off' (snd (vector_mem True 4 base vt e off r)))) w = dmem_read r w)"
proof -
  have A16: "A + 16 = su_r r base + sext7 off' * 16" by (simp add: A next' algebra_simps)
  let ?q = "quad_mem False (su_r r base) vt 0 off r"
  have q: "rsp_ok ?q" by (simp add: quad_mem_def Let_def ok shape_load_bytes)
  have s: "su_r ?q base = su_r r base" by (simp add: quad_mem_def Let_def su_r_load_bytes)
  have ld: "vu_byte (snd (vector_mem False 5 base vt 0 off' (snd (vector_mem False 4 base vt 0 off r)))) g b =
      (if g mod 32 = vt mod 32 then dmem_read r (A + of_nat b) else vu_byte r g b)"
    unfolding vector_mem_quad vector_mem_rest s rest_mem_bytes[OF q A16 b]
      quad_mem_bytes[OF ok A b] quad_mem_bytes(2)[OF ok A b] by auto
  let ?p = "quad_mem True (su_r r base) vt e off r"
  let ?n = "unat A mod 16"
  have n: "?n < 16" by simp
  have sp: "su_r ?p base = su_r r base" by (simp add: quad_mem_def Let_def su_r_store_bytes)
  have pb: "vu_byte ?p g' b' = vu_byte r g' b'" for g' b'
    unfolding quad_mem_store[OF A] by (rule store_bytes_run[THEN conjunct1])
  define hit where "hit w k = ((A + of_nat k) AND 0xFFF = w AND 0xFFF)" for w k
  have pm: "dmem_read ?p w = (if \<exists>k<16. 0 \<le> k \<and> k < 0 + (16 - ?n) \<and> hit w k
     then vu_byte r vt ((e + (THE k. k < 16 \<and> hit w k)) mod 16) else dmem_read r w)" for w
    unfolding quad_mem_store[OF A] hit_def by (rule store_window) simp
  have rm: "dmem_read (snd (vector_mem True 5 base vt e off' (snd (vector_mem True 4 base vt e off r)))) w =
    (if \<exists>k<16. 16 - ?n \<le> k \<and> k < 16 - ?n + ?n \<and> hit w k
     then vu_byte r vt ((e + (THE k. k < 16 \<and> hit w k)) mod 16) else dmem_read ?p w)" for w
    unfolding vector_mem_quad vector_mem_rest sp rest_mem_store[OF A16] hit_def pb[symmetric]
    by (rule store_window) (use n in simp)
  have st: "dmem_read (snd (vector_mem True 5 base vt e off' (snd (vector_mem True 4 base vt e off r)))) (A + of_nat b) =
      vu_byte r vt ((e + b) mod 16)"
  proof -
    have h: "hit (A + of_nat b) b" by (simp only: hit_def)
    have t: "(THE k. k < 16 \<and> hit (A + of_nat b) k) = b"
    proof (rule the_equality)
      show "b < 16 \<and> hit (A + of_nat b) b" using b h by simp
    next
      fix i assume i: "i < 16 \<and> hit (A + of_nat b) i"
      then show "i = b" using window_inj[of A i b] b unfolding hit_def by linarith
    qed
    show ?thesis
    proof (cases "b < 16 - ?n")
      case True
      then have "\<exists>k<16. 0 \<le> k \<and> k < 0 + (16 - ?n) \<and> hit (A + of_nat b) k" using b h by auto
      then show ?thesis unfolding rm pm t by (simp only: if_True if_cancel)
    next
      case False
      then have "16 - ?n \<le> b" "b < 16 - ?n + ?n" using b n by linarith+
      then have "\<exists>k<16. 16 - ?n \<le> k \<and> k < 16 - ?n + ?n \<and> hit (A + of_nat b) k" using b h by blast
      then show ?thesis unfolding rm t by (simp only: if_True)
    qed
  qed
  have "dmem_read (snd (vector_mem True 5 base vt e off' (snd (vector_mem True 4 base vt e off r)))) w = dmem_read r w"
    if "\<forall>k<16. \<not> hit w k"
  proof -
    have "\<not> (\<exists>k<16. lo \<le> k \<and> k < hi' \<and> hit w k)" for lo hi' using that by blast
    then show ?thesis unfolding rm pm by (simp only: if_False)
  qed
  then show ?thesis using ld st unfolding hit_def by blast
qed

lemma vector_unaligned_pairs_witness:
  "vu_byte (snd (vector_mem False 5 0 2 0 1 (snd (vector_mem False 4 0 2 0 0 rsp_new)))) 2 3 =
    dmem_read rsp_new (su_r rsp_new 0 + sext7 0 * 16 + of_nat 3)"
proof -
  have "sext7 1 = sext7 0 + 1" by (simp add: sext7_def)
  from vector_unaligned_pairs[OF ok_rsp_new this _ refl, of 3 0 2 2] show ?thesis by simp
qed

end
