(* ===== verification/Vu_Fixed.thy ===== *)
theory Vu_Fixed
  imports Vu_Unaligned
begin

text \<open>
  Multi-precision multiplication on the vector unit: the accumulator as a signed 48-bit integer, what a
  multiply instruction does to each lane, and that the four partial products of two 32-bit fixed-point
  numbers add up to their exact product.
\<close>

section \<open>The accumulator\<close>

lemma acc_signed_eq: "acc_signed r n = signed_take_bit 47 (uint (vu_acc r ! n))"
proof -
  let ?w = "vu_acc r ! n"
  have top: "k = 47" if "47 \<le> k" "\<not> 48 \<le> k" for k :: nat using that by simp
  have "sar (shl (?w AND ACC_MASK) 16) 16 = word_of_int (signed_take_bit 47 (uint ?w))"
    unfolding ACC_MASK_eq
    by (rule bit_word_eqI) (auto simp: bit_word_simps bit_signed_take_bit_iff bit_uint_iff bit_word_of_int_iff min_def
        bit_signed_drop_bit_iff dest: top)
  then have "acc_signed r n = signed_take_bit 63 (signed_take_bit 47 (uint ?w))"
    by (simp add: acc_signed_def sint_sbintrunc')
  then show ?thesis by (simp add: signed_take_bit_signed_take_bit)
qed

lemma acc_signed_set: "n < length (vu_acc r) \<Longrightarrow> acc_signed (set_acc n v r) m =
    (if m = n then signed_take_bit 47 v else acc_signed r m)"
proof -
  assume n: "n < length (vu_acc r)"
  have "uint (word_of_int v AND ACC_MASK) = take_bit 48 v"
    unfolding ACC_MASK_eq uint_and_mask by (simp add: uint_word_of_int take_bit_eq_mod mod_mod_cancel)
  then have "signed_take_bit 47 (uint (word_of_int v AND ACC_MASK)) = signed_take_bit 47 v"
    by (simp add: signed_take_bit_take_bit)
  then show ?thesis using n unfolding acc_signed_eq by (simp add: set_acc_def nth_list_update)
qed

lemma wrap48_add: "signed_take_bit 47 (signed_take_bit 47 a + b) = signed_take_bit 47 (a + b :: int)"
  by (metis signed_take_bit_add signed_take_bit_signed_take_bit min.idem)

lemma wrap48_small: "- (2 ^ 47) \<le> a \<Longrightarrow> a < 2 ^ 47 \<Longrightarrow> signed_take_bit 47 a = (a :: int)"
  by (rule signed_take_bit_int_eq_self) simp_all

section \<open>The four partial products\<close>

definition partial_product :: "nat \<Rightarrow> u16 \<Rightarrow> u16 \<Rightarrow> int" where
  "partial_product opn s t =
     (if opn = 4 then uint s * uint t div 2 ^ 16 else if opn = 13 then sint s * uint t
      else if opn = 14 then uint s * sint t else sint s * sint t * 2 ^ 16)"

definition new_acc :: "nat \<Rightarrow> int \<Rightarrow> u16 \<Rightarrow> u16 \<Rightarrow> int" where
  "new_acc opn acc s t = signed_take_bit 47 ((if opn = 4 then 0 else acc) + partial_product opn s t)"

lemma new_acc_simps:
  "new_acc 4 a s t = signed_take_bit 47 (partial_product 4 s t)"
  "new_acc 13 a s t = signed_take_bit 47 (a + partial_product 13 s t)"
  "new_acc 14 a s t = signed_take_bit 47 (a + partial_product 14 s t)"
  "new_acc 15 a s t = signed_take_bit 47 (a + partial_product 15 s t)"
  by (simp_all add: new_acc_def)

definition mul_out :: "nat \<Rightarrow> int \<Rightarrow> u16 \<Rightarrow> u16 \<Rightarrow> u16" where
  "mul_out opn acc s t =
     (if opn = 4 then word_of_int (partial_product opn s t) else if opn = 14 then extract_low acc
      else clamp_signed (acc div 2 ^ 16))"

definition mac_op :: "nat \<Rightarrow> bool" where
  "mac_op opn = (opn = 4 \<or> opn = 13 \<or> opn = 14 \<or> opn = 15)"

lemma multiply_lane_mac:
  assumes "mac_op opn" "n < length (vu_acc r)"
  shows "multiply_lane opn n s t r =
    (mul_out opn (new_acc opn (acc_signed r n) s t) s t,
     set_acc n ((if opn = 4 then 0 else acc_signed r n) + partial_product opn s t) r)"
  using assms by (auto simp: mac_op_def multiply_lane_def Let_def new_acc_def mul_out_def partial_product_def acc_signed_set)

lemma acc_signed_set_vlane [simp]: "acc_signed (set_vlane g n x r) m = acc_signed r m"
  by (simp add: acc_signed_eq set_vlane_def)

lemma vlane_set_acc [simp]: "vlane (set_acc n a r) g m = vlane r g m"
  by (simp add: vlane_def set_acc_def)

lemma compute_lanes_mac:
  assumes "mac_op opn" "rsp_ok r" "distinct ns" "set ns \<subseteq> {0..<8}" "m < 8"
  shows "acc_signed (snd (compute_lanes opn e sv tv vd ns (lane_flags_none, r))) m =
      (if m \<in> set ns then new_acc opn (acc_signed r m) (sv ! m) (tv ! m) else acc_signed r m) \<and>
    vlane (snd (compute_lanes opn e sv tv vd ns (lane_flags_none, r))) g m =
      (if g mod 32 = vd mod 32 \<and> m \<in> set ns
       then mul_out opn (new_acc opn (acc_signed r m) (sv ! m) (tv ! m)) (sv ! m) (tv ! m) else vlane r g m)"
  using assms(2-4)
proof (induction ns arbitrary: r)
  case Nil
  then show ?case by (simp add: apply_flags_def lane_flags_none_def)
next
  case (Cons n ns)
  let ?s = "sv ! n" and ?t = "tv ! n"
  have n: "n < 8" "n < length (vu_acc r)" using Cons.prems by (auto simp: rsp_ok_def)
  let ?a = "set_acc n ((if opn = 4 then 0 else acc_signed r n) + partial_product opn ?s ?t) r"
  let ?q = "set_vlane vd n (mul_out opn (new_acc opn (acc_signed r n) ?s ?t) ?s ?t) ?a"
  have a: "rsp_ok ?a" by (rule shape_set_acc[OF Cons.prems(1)])
  have q: "rsp_ok ?q" by (rule shape_set_vlane[OF a])
  have "compute_lanes opn e sv tv vd (n # ns) (lane_flags_none, r) = compute_lanes opn e sv tv vd ns (lane_flags_none, ?q)"
    using assms(1) multiply_lane_mac[OF assms(1) n(2), of ?s ?t]
    by (auto simp: compute_lane_def mac_op_def)
  then show ?case
    using Cons.IH[OF q] Cons.prems(2,3) vlane_set[OF a n(1)] acc_signed_set[OF n(2)] new_acc_def
    by auto
qed

text \<open>One multiply instruction, lane by lane.\<close>

lemma vu_compute_mac:
  assumes "mac_op opn" "rsp_ok r" "m < 8"
  shows "acc_signed (snd (vu_compute opn e vs vt vd r)) m =
      new_acc opn (acc_signed r m) (vlane r vs m) (vt_lane r vt e m)"
    "vlane (snd (vu_compute opn e vs vt vd r)) g m =
      (if g mod 32 = vd mod 32
       then mul_out opn (new_acc opn (acc_signed r m) (vlane r vs m) (vt_lane r vt e m)) (vlane r vs m) (vt_lane r vt e m)
       else vlane r g m)"
    "rsp_ok (snd (vu_compute opn e vs vt vd r))"
proof -
  have w: "vu_whole_instruction opn e vs vt vd r = (False, r)"
    using assms(1) by (auto simp: vu_whole_instruction_def mac_op_def)
  have l: "vs_lanes r vs ! m = vlane r vs m" "vt_lanes r vt e ! m = vt_lane r vt e m"
    using assms(3) by (simp_all add: vs_lanes_def vt_lanes_def)
  have m: "m \<in> set [0..<8]" using assms(3) by simp
  show "acc_signed (snd (vu_compute opn e vs vt vd r)) m =
      new_acc opn (acc_signed r m) (vlane r vs m) (vt_lane r vt e m)"
    "vlane (snd (vu_compute opn e vs vt vd r)) g m =
      (if g mod 32 = vd mod 32
       then mul_out opn (new_acc opn (acc_signed r m) (vlane r vs m) (vt_lane r vt e m)) (vlane r vs m) (vt_lane r vt e m)
       else vlane r g m)"
    using compute_lanes_mac[OF assms(1,2) distinct_upt, of 0 8 m e "vs_lanes r vs" "vt_lanes r vt e" vd g] assms(3) m
    by (simp_all add: vu_compute_def w l del: upt_Suc)
  show "rsp_ok (snd (vu_compute opn e vs vt vd r))" by (rule shape_vu_compute[OF assms(2)])
qed

section \<open>The exact product\<close>

lemma partial_products:
  fixes a b c d :: int
  shows "b * d div 2 ^ 16 + a * d + b * c + a * c * 2 ^ 16 = (a * 2 ^ 16 + b) * (c * 2 ^ 16 + d) div 2 ^ 16"
proof -
  have "(a * 2 ^ 16 + b) * (c * 2 ^ 16 + d) = b * d + (a * d + b * c + a * c * 2 ^ 16) * 2 ^ 16"
    by (simp add: algebra_simps)
  then show ?thesis by simp
qed

definition fixed :: "u16 \<Rightarrow> u16 \<Rightarrow> int" where
  "fixed h l = sint h * 2 ^ 16 + uint l"

lemma fixed_range: "- (2 ^ 31) \<le> fixed h l" "fixed h l < 2 ^ 31"
proof -
  have "- 32768 \<le> sint h" "sint h < 32768" using sint_range_size[of h] by (simp_all add: word_size)
  moreover have "0 \<le> uint l" "uint l < 65536" using uint_lt2p[of l] by simp_all
  moreover have "fixed h l = sint h * 65536 + uint l" by (simp add: fixed_def)
  ultimately have "- 2147483648 \<le> fixed h l" "fixed h l < 2147483648" by linarith+
  then show "- (2 ^ 31) \<le> fixed h l" "fixed h l < 2 ^ 31" by simp_all
qed

lemma fixed_product_range:
  "- (2 ^ 47) \<le> fixed a b * fixed c d div 2 ^ 16" "fixed a b * fixed c d div 2 ^ 16 < 2 ^ 47"
proof -
  have abs: "\<bar>fixed h l\<bar> \<le> 2 ^ 31" for h l using fixed_range[of h l] by linarith
  have "\<bar>fixed a b * fixed c d\<bar> \<le> 2 ^ 31 * 2 ^ 31" unfolding abs_mult by (intro mult_mono abs) simp_all
  then have p: "- (2 ^ 62) \<le> fixed a b * fixed c d" "fixed a b * fixed c d \<le> 2 ^ 62" by simp_all
  show "- (2 ^ 47) \<le> fixed a b * fixed c d div 2 ^ 16"
    using zdiv_mono1[OF p(1), of "2 ^ 16"] by simp
  show "fixed a b * fixed c d div 2 ^ 16 < 2 ^ 47"
    using zdiv_mono1[OF p(2), of "2 ^ 16"] by simp
qed

text \<open>C39. The four partial products VMUDL, VMADM, VMADN, VMADH of two registers of 32-bit fixed-point numbers,
  held as high and low halves, leave in every accumulator lane the exact product of the two numbers
  without its 16 lowest bits, for all operands and every broadcast of the second one: no carry between
  the halves and no wrap-around of the accumulator is lost, and the last instruction writes the upper
  half of the product, clamped to 16 bits, to its destination.\<close>

theorem vector_fixed_point_product:
  assumes ok: "rsp_ok r" and n: "n < 8"
    and apart: "\<forall>d \<in> {d1, d2, d3}. \<forall>s \<in> {shi, slo, thi, tlo}. d mod 32 \<noteq> s mod 32"
    and r1: "r1 = snd (vu_compute 0x04 e slo tlo d1 r)" and r2: "r2 = snd (vu_compute 0x0D e shi tlo d2 r1)"
    and r3: "r3 = snd (vu_compute 0x0E e slo thi d3 r2)" and r4: "r4 = snd (vu_compute 0x0F e shi thi d4 r3)"
    and S: "S = fixed (vlane r shi n) (vlane r slo n)" and T: "T = fixed (vt_lane r thi e n) (vt_lane r tlo e n)"
  shows "acc_signed r4 n = S * T div 2 ^ 16 \<and> vlane r4 d4 n = clamp_signed (S * T div 2 ^ 32)"
proof -
  have mac: "mac_op 4" "mac_op 13" "mac_op 14" "mac_op 15" by (simp_all add: mac_op_def)
  have k1: "rsp_ok r1" unfolding r1 using mac(1) ok n by (rule vu_compute_mac(3))
  have k2: "rsp_ok r2" unfolding r2 using mac(2) k1 n by (rule vu_compute_mac(3))
  have k3: "rsp_ok r3" unfolding r3 using mac(3) k2 n by (rule vu_compute_mac(3))
  have nd: "(s mod 32 = d mod 32) = False" if "d \<in> {d1, d2, d3}" "s \<in> {shi, slo, thi, tlo}" for d s
    using bspec[OF bspec[OF apart that(1)] that(2)] by metis
  have v1: "vlane r1 s m = vlane r s m" if s: "s \<in> {shi, slo, thi, tlo}" and m: "m < 8" for s m
    unfolding r1 vu_compute_mac(2)[OF mac(1) ok m] by (simp only: nd[OF _ s, of d1] insertI1 if_False)
  have v2: "vlane r2 s m = vlane r s m" if s: "s \<in> {shi, slo, thi, tlo}" and m: "m < 8" for s m
    unfolding v1[OF s m, symmetric] r2 vu_compute_mac(2)[OF mac(2) k1 m]
    by (simp only: nd[OF _ s, of d2] insert_iff simp_thms if_False)
  have v3: "vlane r3 s m = vlane r s m" if s: "s \<in> {shi, slo, thi, tlo}" and m: "m < 8" for s m
    unfolding v2[OF s m, symmetric] r3 vu_compute_mac(2)[OF mac(3) k2 m]
    by (simp only: nd[OF _ s, of d3] insert_iff simp_thms if_False)
  have t: "vt_lane r1 s e n = vt_lane r s e n" "vt_lane r2 s e n = vt_lane r s e n" "vt_lane r3 s e n = vt_lane r s e n"
    if "s \<in> {shi, slo, thi, tlo}" for s
    unfolding vt_lane_def Let_def by (rule v1[OF that] v2[OF that] v3[OF that]; simp)+
  define p1 where "p1 = partial_product 4 (vlane r slo n) (vt_lane r tlo e n)"
  define p2 where "p2 = partial_product 13 (vlane r shi n) (vt_lane r tlo e n)"
  define p3 where "p3 = partial_product 14 (vlane r slo n) (vt_lane r thi e n)"
  define p4 where "p4 = partial_product 15 (vlane r shi n) (vt_lane r thi e n)"
  have p: "S * T div 2 ^ 16 = p1 + p2 + p3 + p4"
    unfolding S T fixed_def partial_products[symmetric] p1_def p2_def p3_def p4_def partial_product_def by simp
  have a1: "acc_signed r1 n = signed_take_bit 47 p1"
    unfolding r1 vu_compute_mac(1)[OF mac(1) ok n] new_acc_simps p1_def ..
  have l2: "vlane r1 shi n = vlane r shi n" by (rule v1) (simp_all add: n)
  have l3: "vlane r2 slo n = vlane r slo n" by (rule v2) (simp_all add: n)
  have l4: "vlane r3 shi n = vlane r shi n" by (rule v3) (simp_all add: n)
  have t2: "vt_lane r1 tlo e n = vt_lane r tlo e n" by (rule t) simp
  have t3: "vt_lane r2 thi e n = vt_lane r thi e n" by (rule t) simp
  have t4: "vt_lane r3 thi e n = vt_lane r thi e n" by (rule t) simp
  have a2: "acc_signed r2 n = signed_take_bit 47 (acc_signed r1 n + p2)"
    by (subst r2) (simp only: vu_compute_mac(1)[OF mac(2) k1 n] l2 t2 new_acc_simps p2_def)
  have a3: "acc_signed r3 n = signed_take_bit 47 (acc_signed r2 n + p3)"
    by (subst r3) (simp only: vu_compute_mac(1)[OF mac(3) k2 n] l3 t3 new_acc_simps p3_def)
  have a4: "acc_signed r4 n = signed_take_bit 47 (acc_signed r3 n + p4)"
    by (subst r4) (simp only: vu_compute_mac(1)[OF mac(4) k3 n] l4 t4 new_acc_simps p4_def)
  have "acc_signed r4 n = signed_take_bit 47 (S * T div 2 ^ 16)"
    unfolding a4 a3 a2 a1 p by (simp only: wrap48_add)
  also have "\<dots> = S * T div 2 ^ 16"
    unfolding S T by (rule wrap48_small[OF fixed_product_range])
  finally have acc: "acc_signed r4 n = S * T div 2 ^ 16" .
  have "vlane r4 d4 n = clamp_signed (acc_signed r4 n div 2 ^ 16)"
    unfolding r4 vu_compute_mac(1)[OF mac(4) k3 n] by (subst vu_compute_mac(2)[OF mac(4) k3 n]) (simp add: mul_out_def)
  also have "acc_signed r4 n div 2 ^ 16 = S * T div 2 ^ 32"
    unfolding acc by (simp flip: zdiv_zmult2_eq)
  finally show ?thesis using acc by simp
qed

lemma vector_fixed_point_product_witness:
  "acc_signed (snd (vu_compute 0x0F 0 1 3 5 (snd (vu_compute 0x0E 0 2 3 6 (snd (vu_compute 0x0D 0 1 4 6
     (snd (vu_compute 0x04 0 2 4 6 rsp_new)))))))) 0 = 0"
  using vector_fixed_point_product[OF ok_rsp_new _ _ refl refl refl refl refl refl, of 0 6 6 6 1 2 3 4 0 5]
  by (simp add: rsp_new_def vlane_def vt_lane_def fixed_def)

end
