(* ===== verification/Rdp_Math.thy ===== *)
theory Rdp_Math
  imports Dpc
begin

text \<open>
  The display processor's arithmetic: the pure functions at the head of \<^verbatim>\<open>rustyn64-rdp/src/lib.rs\<close>. The code's
  \<^verbatim>\<open>i16\<close>, \<^verbatim>\<open>i32\<close> and \<^verbatim>\<open>i64\<close> are words read as signed: a cast to a wider signed type is \<open>scast\<close>, to a narrower
  type \<open>ucast\<close>, a right shift \<open>sar\<close>, a comparison \<open><s\<close>; additions wrap, as in the code's
  release build. An array of four channels is a list.
\<close>

type_synonym i16 = "16 word"
type_synonym i32 = "32 word"
type_synonym i64 = "64 word"

abbreviation to_i16 :: "'a::len word \<Rightarrow> i16" where "to_i16 \<equiv> ucast"
abbreviation as_i32 :: "'a::len word \<Rightarrow> i32" where "as_i32 \<equiv> ucast"
abbreviation of_i16 :: "i16 \<Rightarrow> i32" where "of_i16 \<equiv> scast"
abbreviation ext_i64 :: "i32 \<Rightarrow> i64" where "ext_i64 \<equiv> scast"

definition smax :: "'a::len word \<Rightarrow> 'a word \<Rightarrow> 'a word" where
  "smax a b = (if a <s b then b else a)"

definition smin :: "'a::len word \<Rightarrow> 'a word \<Rightarrow> 'a word" where
  "smin a b = (if b <s a then b else a)"

definition sclamp :: "'a::len word \<Rightarrow> 'a word \<Rightarrow> 'a word \<Rightarrow> 'a word" where
  "sclamp v low high = (if v <s low then low else if high <s v then high else v)"

section \<open>Sign extension and bits\<close>

definition sext16 :: "u32 \<Rightarrow> i32" where
  "sext16 v = of_i16 (to_i16 v)"

definition sext :: "u32 \<Rightarrow> nat \<Rightarrow> i32" where
  "sext v bits = sar (shl v (32 - bits)) (32 - bits)"

definition sext9 :: "i32 \<Rightarrow> i32" where
  "sext9 x = sar (shl x 23) 23"

definition find_msb :: "i32 \<Rightarrow> i32" where
  "find_msb x = (if x \<le>s 0 then -1 else 31 - of_nat (leading_zeros x))"

section \<open>Depth\<close>

definition z_decompress :: "u16 \<Rightarrow> i32" where
  "z_decompress z =
     (let z = to_u32 z; expo = sar z 11; mant = z AND 0x7FF;
          sh = smax (6 - expo) 0; base = 0x40000 - sar 0x40000 (unat expo)
      in shl mant (unat sh) + base)"

definition z_compress :: "i32 \<Rightarrow> u16" where
  "z_compress z =
     (let z = sclamp z 0 0x3FFFF;
          inv_z = smax (0x3FFFF - z) 1;
          expo = sclamp (17 - find_msb inv_z) 0 7;
          sh = smax (6 - expo) 0;
          mant = sar z (unat sh) AND 0x7FF
      in to_u16 (shl expo 11 + mant))"

definition dz_decompress :: "i32 \<Rightarrow> i32" where
  "dz_decompress dz = shl 1 (unat dz)"

definition dz_compress :: "i32 \<Rightarrow> i32" where
  "dz_compress dz = (if find_msb dz <s 0 then 0 else find_msb dz)"

definition combine_dz :: "i32 \<Rightarrow> i32" where
  "combine_dz dz = (if 0 \<le>s find_msb dz then shl 1 (unat (find_msb dz)) else 0)"

definition interpolate_z :: "i32 \<Rightarrow> i32 \<Rightarrow> i32 \<Rightarrow> i64 \<Rightarrow> i32 \<Rightarrow> i32 \<Rightarrow> i32 \<Rightarrow> i32" where
  "interpolate_z z_base dzdx dzde major_x y y_base x =
     (let base_x = as_i32 (sar major_x 16);
          xfrac = as_i32 (sar major_x 8 AND 0xFF);
          z = z_base + dzde * (y - y_base);
          z = ((z AND NOT 0x1FF) - xfrac * (sar dzdx 8 AND NOT 1)) AND NOT 0x3FF;
          z = z + dzdx * (x - base_x);
          snapped = sar (shl (sar z 10) 2) 5
      in sclamp snapped 0 0x3FFFF)"

section \<open>Colour combiner channels\<close>

definition special_expand :: "i32 \<Rightarrow> i32" where
  "special_expand v = sext9 (v - 0x80) + 0x80"

definition combine_channel :: "i32 \<Rightarrow> i32 \<Rightarrow> i32 \<Rightarrow> i32 \<Rightarrow> i32" where
  "combine_channel a b c d =
     (let color = (special_expand a - special_expand b) * sext9 c + 0x80
      in sar color 8 + special_expand d)"

definition clamp_9bit :: "i32 \<Rightarrow> u8" where
  "clamp_9bit color = to_u8 (sclamp (special_expand color) 0 0xFF)"

definition combine_channel_17bit :: "i32 \<Rightarrow> i32 \<Rightarrow> i32 \<Rightarrow> i32 \<Rightarrow> i32" where
  "combine_channel_17bit a b c d =
     ((special_expand a - special_expand b) * sext9 c + shl (special_expand d) 8 + 0x80) AND 0x1FFFF"

definition chroma_key_min :: "i32 list \<Rightarrow> u16 list \<Rightarrow> u8" where
  "chroma_key_min col17 width =
     to_u8 (sclamp (foldl (\<lambda>keyalpha ch.
        let k = sar (shl (col17 ! ch AND 0x1FFFF) 15) 15;
            k = (if 0 <s k then (if k AND 0xF = 8 then - k + 0x10 else - k) else k);
            k = k + shl (to_u32 (width ! ch)) 4
        in smin keyalpha k) 0x7FFFFFFF [0..<3]) 0 0xFF)"

section \<open>Attributes along a span\<close>

definition interpolate_shade :: "i32 list \<Rightarrow> i32 list \<Rightarrow> i32 list \<Rightarrow> i64 \<Rightarrow> i32 \<Rightarrow> i32 \<Rightarrow> i32 \<Rightarrow> u8 list" where
  "interpolate_shade base dx de major_x y y_base x =
     (let base_x = as_i32 (sar major_x 16)
      in map (\<lambda>c.
           let scan = base ! c + de ! c * (y - y_base);
               v = scan + (dx ! c AND NOT 0x1F) * (x - base_x);
               snapped = of_i16 (sar (shl (to_i16 (sar v 14)) 2) 4)
           in clamp_9bit snapped) [0..<4])"

text \<open>The texture coefficients of a triangle, each of \<open>s\<close>, \<open>t\<close> and \<open>w\<close>.\<close>

record tex_setup =
  tx_base :: "i32 list"
  tx_dx :: "i32 list"
  tx_de :: "i32 list"
  tx_dy :: "i32 list"

definition interpolate_stw_raw :: "tex_setup \<Rightarrow> i64 \<Rightarrow> i32 \<Rightarrow> i32 \<Rightarrow> i32 \<Rightarrow> i32 list" where
  "interpolate_stw_raw tex major_x y y_base x =
     (let base_x = as_i32 (sar major_x 16)
      in map (\<lambda>c.
           let scan = tx_base tex ! c + tx_de tex ! c * (y - y_base)
           in scan + (tx_dx tex ! c AND NOT 0x1F) * (x - base_x)) [0..<3])"

section \<open>Perspective division\<close>

definition PERSPECTIVE_TABLE :: "(i32 \<times> i32) list" where
  "PERSPECTIVE_TABLE = [
    (0x4000, -252 * 4), (0x3F04, -244 * 4), (0x3E10, -238 * 4), (0x3D22, -230 * 4),
    (0x3C3C, -223 * 4), (0x3B5D, -218 * 4), (0x3A83, -210 * 4), (0x39B1, -205 * 4),
    (0x38E4, -200 * 4), (0x381C, -194 * 4), (0x375A, -189 * 4), (0x369D, -184 * 4),
    (0x35E5, -179 * 4), (0x3532, -175 * 4), (0x3483, -170 * 4), (0x33D9, -166 * 4),
    (0x3333, -162 * 4), (0x3291, -157 * 4), (0x31F4, -155 * 4), (0x3159, -150 * 4),
    (0x30C3, -147 * 4), (0x3030, -143 * 4), (0x2FA1, -140 * 4), (0x2F15, -137 * 4),
    (0x2E8C, -134 * 4), (0x2E06, -131 * 4), (0x2D83, -128 * 4), (0x2D03, -125 * 4),
    (0x2C86, -123 * 4), (0x2C0B, -120 * 4), (0x2B93, -117 * 4), (0x2B1E, -115 * 4),
    (0x2AAB, -113 * 4), (0x2A3A, -110 * 4), (0x29CC, -108 * 4), (0x2960, -106 * 4),
    (0x28F6, -104 * 4), (0x288E, -102 * 4), (0x2828, -100 * 4), (0x27C4, -98 * 4),
    (0x2762, -96 * 4), (0x2702, -94 * 4), (0x26A4, -92 * 4), (0x2648, -91 * 4),
    (0x25ED, -89 * 4), (0x2594, -87 * 4), (0x253D, -86 * 4), (0x24E7, -85 * 4),
    (0x2492, -83 * 4), (0x243F, -81 * 4), (0x23EE, -80 * 4), (0x239E, -79 * 4),
    (0x234F, -77 * 4), (0x2302, -76 * 4), (0x22B6, -74 * 4), (0x226C, -74 * 4),
    (0x2222, -72 * 4), (0x21DA, -71 * 4), (0x2193, -70 * 4), (0x214D, -69 * 4),
    (0x2108, -67 * 4), (0x20C5, -67 * 4), (0x2082, -65 * 4), (0x2041, -65 * 4)]"

definition perspective_get_lut :: "i32 \<Rightarrow> i32 \<times> i32" where
  "perspective_get_lut w =
     (let sh = smin (14 - find_msb w) 14;
          normout = shl w (unat sh) AND 0x3FFF;
          wnorm = normout AND 0xFF;
          (base, slope) = PERSPECTIVE_TABLE ! unat (sar normout 8);
          rcp = sar (slope * wnorm) 10 + base
      in (rcp, sh))"

definition perspective_divide :: "i32 \<Rightarrow> i32 \<Rightarrow> i32 \<Rightarrow> i32 \<times> i32" where
  "perspective_divide s t w =
     (let w_carry = w \<le>s 0;
          w = w AND 0x7FFF;
          (rcp, sh) = perspective_get_lut w;
          prod0 = [s * rcp, t * rcp];
          temp_mask = (shl 1 30 - 1) AND - sar (shl 1 29) (unat sh);
          oob = map (\<lambda>p. p AND temp_mask) prod0;
          temp = (if sh = 14 then map (\<lambda>p. shl p 1) prod0 else map (\<lambda>p. sar p (unat (13 - sh))) prod0);
          prod = (if sh = 14 then prod0 else temp);
          temp = (if oob \<noteq> [0, 0]
            then map (\<lambda>c. if oob ! c \<noteq> temp_mask \<and> oob ! c \<noteq> 0
                   then (if prod ! c AND shl 1 29 = 0 then 0x7FFF else -0x8000) else temp ! c) [0..<2]
            else temp);
          temp = (if w_carry then [0x7FFF, 0x7FFF] else temp)
      in (sclamp (temp ! 0) (-0x10000) 0xFFFF, sclamp (temp ! 1) (-0x10000) 0xFFFF))"

definition divide_stw :: "i32 list \<Rightarrow> bool \<Rightarrow> i32 \<times> i32" where
  "divide_stw stw persp =
     (let s = sar (stw ! 0) 16; t = sar (stw ! 1) 16; w = sar (stw ! 2) 16
      in if persp then perspective_divide s t w else (s, t))"

section \<open>Texture coordinates\<close>

definition tile_shift :: "i32 \<Rightarrow> u8 \<Rightarrow> i32" where
  "tile_shift coord shft =
     (let shft = min shft 15
      in if shft < 11 then sar (of_i16 (to_i16 coord)) (unat shft)
         else of_i16 (shl (to_i16 coord) (unat (16 - shft))))"

definition mask_coupled :: "i32 \<Rightarrow> u8 \<Rightarrow> bool \<Rightarrow> bool \<Rightarrow> i32 \<times> i32" where
  "mask_coupled s msk mirror is_t =
     (let msk = unat (min msk 10)
      in if msk = 0 then (s, 1)
         else
           let maskbits = shl 1 msk - 1
           in if mirror then
                let wrap = sar s msk AND 1;
                    s = (s XOR - wrap) AND maskbits;
                    diff = (if (s - wrap) AND maskbits = maskbits then 0 else 1 - shl wrap 1)
                in (s, diff)
              else
                let s = s AND maskbits;
                    diff = (if s = maskbits then (if is_t then - (s AND 0xFF) else - s) else 1)
                in (s, diff))"

definition sample_axis :: "i32 \<Rightarrow> u8 \<Rightarrow> u8 \<Rightarrow> bool \<Rightarrow> bool \<Rightarrow> u16 \<Rightarrow> u16 \<Rightarrow> bool \<Rightarrow> i32 \<times> u32 \<times> i32" where
  "sample_axis coord shft msk mirror clamp_en low high is_t =
     (let shifted = tile_shift coord shft;
          over_max = (to_u32 high \<le>s sar shifted 3);
          rel = shifted - shl (to_u32 low) 3;
          fr = rel AND 0x1F;
          (base, fr) = (if clamp_en \<or> msk = 0 then
              (if over_max then ((sar (to_u32 high) 2 - sar (to_u32 low) 2) AND 0x3FF, 0)
               else if rel AND 0x10000 = 0 then (sar rel 5, fr)
               else (0, 0))
            else (sar rel 5, fr));
          (masked, diff) = mask_coupled base msk mirror is_t
      in (masked, fr, diff))"

definition sample_coord :: "i32 \<Rightarrow> u8 \<Rightarrow> u8 \<Rightarrow> bool \<Rightarrow> bool \<Rightarrow> u16 \<Rightarrow> u16 \<Rightarrow> u32" where
  "sample_coord coord shft msk mirror clamp_en low high =
     fst (sample_axis coord shft msk mirror clamp_en low high False)"

definition wrap_coord :: "i32 \<Rightarrow> u8 \<Rightarrow> u8 \<Rightarrow> bool \<Rightarrow> u16 \<Rightarrow> i32" where
  "wrap_coord coord shft msk mirror low =
     (let shft = min shft 15;
          c = sclamp coord (-0x8000) 0x7FFF;
          shifted = (if shft \<le> 10 then sar c (unat shft) else of_i16 (shl (to_i16 c) (unat (16 - shft))));
          s = sar (shifted - shl (to_u32 low) 3) 5;
          msk = min msk 10
      in if msk \<noteq> 0 then
           let m = shl 1 (unat msk); s = (if mirror \<and> s AND m \<noteq> 0 then s XOR (m - 1) else s)
           in s AND (m - 1)
         else s)"

definition bilinear_3point :: "u8 list \<Rightarrow> u8 list \<Rightarrow> u8 list \<Rightarrow> u8 list \<Rightarrow> u32 \<Rightarrow> u32 \<Rightarrow> bool \<Rightarrow> u8 list" where
  "bilinear_3point t0 t1 t2 t3 sf tf mid =
     (let upper = ((sf + tf) AND 0x20 \<noteq> 0); center = (mid \<and> sf = 0x10 \<and> tf = 0x10)
      in map (\<lambda>x.
           let c0 = to_u32 (t0 ! x); c1 = to_u32 (t1 ! x); c2 = to_u32 (t2 ! x); c3 = to_u32 (t3 ! x);
               v = (if center then c3 + sar (shl (c1 + c2) 6 - shl c3 7 + shl (NOT c3 + c0) 6 + 0xC0) 8
                  else if upper then c3 + sar ((0x20 - sf) * (c2 - c3) + (0x20 - tf) * (c1 - c3) + 0x10) 5
                  else c0 + sar (sf * (c1 - c0) + tf * (c2 - c0) + 0x10) 5)
           in to_u8 v) [0..<4])"

section \<open>Level of detail\<close>

definition lod_fold :: "i32 \<Rightarrow> i32 \<Rightarrow> i32" where
  "lod_fold next' cur =
     (let d = sext (next' AND 0x1FFFF) 17 - sext (cur AND 0x1FFFF) 17
      in if d AND 0x20000 \<noteq> 0 then NOT d AND 0x1FFFF else d)"

definition lod_delta :: "i32 \<Rightarrow> i32 \<Rightarrow> i32 \<Rightarrow> i32 \<Rightarrow> i32 \<Rightarrow> i32" where
  "lod_delta scurr snext tcurr tnext previous =
     (let d = smax (smax (lod_fold snext scurr) (lod_fold tnext tcurr)) previous;
          lod = d AND 0x7FFF
      in if d AND 0x1C000 \<noteq> 0 then lod OR 0x4000 else lod)"

definition lod_log2 :: "u32 \<Rightarrow> u32" where
  "lod_log2 i = (if i < 2 then 0 else 31 - of_nat (leading_zeros i))"

record lod_signals =
  ls_frac :: i16
  ls_l_tile :: u32
  ls_magnify :: bool
  ls_distant :: bool

definition lod_signals_of :: "bool \<Rightarrow> i32 \<Rightarrow> u8 \<Rightarrow> u8 \<Rightarrow> bool \<Rightarrow> bool \<Rightarrow> lod_signals" where
  "lod_signals_of lodclamp lod min_lv max_lv sharpen detail =
     (let ml = to_u32 min_lv; plain = (\<not> sharpen \<and> \<not> detail)
      in if lod AND 0x4000 \<noteq> 0 \<or> lodclamp then
           \<lparr>ls_frac = 0xFF, ls_l_tile = 0, ls_magnify = False, ls_distant = True\<rparr>
         else if lod <s ml \<or> lod <s 32 then
           let distant = (max_lv = 0);
               fr = (if plain then (if distant then 0xFF else 0)
                  else let lf = shl (if lod <s ml then ml else lod) 3
                       in to_i16 (if sharpen then lf OR 0x100 else lf))
           in \<lparr>ls_frac = fr, ls_l_tile = 0, ls_magnify = True, ls_distant = distant\<rparr>
         else
           let l_tile = lod_log2 (sar lod 5 AND 0xFF);
               distant = (max_lv = 0 \<or> lod AND 0x6000 \<noteq> 0 \<or> to_u32 max_lv \<le> l_tile);
               fr = (if plain \<and> distant then 0xFF else to_i16 (sar (shl lod 3) (unat l_tile) AND 0xFF))
           in \<lparr>ls_frac = fr, ls_l_tile = l_tile, ls_magnify = False, ls_distant = distant\<rparr>)"

definition lod_mip_tiles :: "nat \<Rightarrow> lod_signals \<Rightarrow> u8 \<Rightarrow> bool \<Rightarrow> bool \<Rightarrow> nat \<times> nat" where
  "lod_mip_tiles base_tile sig max_lv sharpen detail =
     (let level = (if ls_distant sig then unat max_lv else unat (ls_l_tile sig))
      in if detail then
           let finer = (if ls_magnify sig then 0 else 1)
           in ((base_tile + level + finer) mod 8,
               if \<not> ls_distant sig \<and> \<not> ls_magnify sig then (base_tile + level + 2) mod 8
               else (base_tile + level + 1) mod 8)
         else
           let t1 = (base_tile + level) mod 8
           in (t1, if ls_distant sig \<or> (\<not> sharpen \<and> ls_magnify sig) then t1 else (t1 + 1) mod 8))"

section \<open>Pixel formats\<close>

definition widen5 :: "u32 \<Rightarrow> u8" where "widen5 v = to_u8 (shl v 3 OR shr v 2)"
definition widen4 :: "u32 \<Rightarrow> u8" where "widen4 v = to_u8 (shl v 4 OR v)"
definition widen3 :: "u32 \<Rightarrow> u8" where "widen3 v = to_u8 (shl v 5 OR shl v 2 OR shr v 1)"

definition decode_rgba16 :: "u32 \<Rightarrow> u8 list" where
  "decode_rgba16 w =
     [widen5 (shr w 11 AND 0x1F), widen5 (shr w 6 AND 0x1F), widen5 (shr w 1 AND 0x1F),
      if w AND 1 \<noteq> 0 then 0xFF else 0]"

definition bytes_per_texel :: "u8 \<Rightarrow> u32 option" where
  "bytes_per_texel size' = (if size' = 1 then Some 1 else if size' = 2 then Some 2 else if size' = 3 then Some 4 else None)"

definition unpack_rgba :: "u32 \<Rightarrow> u8 list" where
  "unpack_rgba w = [to_u8 (shr w 24), to_u8 (shr w 16), to_u8 (shr w 8), to_u8 w]"

definition pack_rgba5551 :: "u8 list \<Rightarrow> u16" where
  "pack_rgba5551 c =
     shl (shr (to_u16 (c ! 0)) 3) 11 OR shl (shr (to_u16 (c ! 1)) 3) 6 OR shl (shr (to_u16 (c ! 2)) 3) 1
     OR shr (to_u16 (c ! 3)) 7"

definition unpack_rgba5551 :: "u16 \<Rightarrow> u8 list" where
  "unpack_rgba5551 p =
     (let r = shr p 11 AND 0x1F; g = shr p 6 AND 0x1F; b = shr p 1 AND 0x1F
      in [to_u8 (shl r 3 OR shr r 2), to_u8 (shl g 3 OR shr g 2), to_u8 (shl b 3 OR shr b 2),
          if p AND 1 \<noteq> 0 then 0xFF else 0])"

section \<open>Coverage and dither\<close>

definition quantize_x :: "i32 \<Rightarrow> i32" where
  "quantize_x x = sar x 13 OR b2w (x AND 0x1FFF \<noteq> 0)"

definition min4 :: "i32 list \<Rightarrow> i32" where "min4 v = smin (smin (smin (v ! 0) (v ! 1)) (v ! 2)) (v ! 3)"
definition max4 :: "i32 list \<Rightarrow> i32" where "max4 v = smax (smax (smax (v ! 0) (v ! 1)) (v ! 2)) (v ! 3)"

definition compute_coverage :: "i32 list \<Rightarrow> i32 list \<Rightarrow> i32 \<Rightarrow> u8" where
  "compute_coverage xleft xright x =
     (let base = shl x 3;
          xshift = [base, base + 4, base + 2, base + 6];
          ysub_lo = [0, 0, 1, 1]; ysub_hi = [2, 2, 3, 3];
          clip = foldl (\<lambda>clip lane.
            let l = ysub_lo ! lane; h = ysub_hi ! lane; p = xshift ! lane;
                clip = (if p <s xleft ! l \<or> xright ! l \<le>s p then clip OR shl 1 lane else clip)
            in if p <s xleft ! h \<or> xright ! h \<le>s p then clip OR shl 1 (lane + 4) else clip) (0 :: u8) [0..<4]
      in NOT clip)"

definition DITHER_MAGIC :: "u8 list" where
  "DITHER_MAGIC = [0, 6, 1, 7, 4, 2, 5, 3, 3, 5, 2, 4, 7, 1, 6, 0]"

definition DITHER_BAYER :: "u8 list" where
  "DITHER_BAYER = [0, 4, 1, 5, 4, 0, 5, 1, 3, 7, 2, 6, 7, 3, 6, 2]"

definition rgb_dither_value :: "u8 \<Rightarrow> u32 \<Rightarrow> u32 \<Rightarrow> i32" where
  "rgb_dither_value mode x y =
     (let idx = unat ((y AND 3) * 4 + (x AND 3))
      in if mode = 0 \<or> mode = 2 then to_u32 (DITHER_MAGIC ! idx)
         else if mode = 1 then to_u32 (DITHER_BAYER ! idx)
         else 7)"

definition dither_channel :: "i32 \<Rightarrow> u8 \<Rightarrow> u8" where
  "dither_channel dith c =
     (let c = to_u32 c;
          rounded = (if 247 <s c then 255 else (c AND 0xF8) + 8);
          replacesign = sar (dith - (c AND 7)) 31
      in to_u8 (c + ((rounded - c) AND replacesign)))"

definition apply_rgb_dither :: "u8 list \<Rightarrow> i32 \<Rightarrow> u8 list" where
  "apply_rgb_dither rgb dith =
     [dither_channel dith (rgb ! 0), dither_channel dith (rgb ! 1), dither_channel dith (rgb ! 2), rgb ! 3]"

end
