(* ===== verification/Rdp_State.thy ===== *)
theory Rdp_State
  imports Rdp_Math
begin

text \<open>
  The display processor's rendering state: the fields of \<^verbatim>\<open>Rdp\<close> in \<^verbatim>\<open>rustyn64-rdp/src/lib.rs\<close> that drawing
  reads (those of the command interface are the record of \<^verbatim>\<open>Dpc\<close>), the texture memory, and the commands
  that only set state. The texture memory is a function of the byte offset, zero where the code has not
  allocated it yet.
\<close>

record blend_cycle =
  bc_p :: u8
  bc_a :: u8
  bc_m :: u8
  bc_b :: u8

record other_modes =
  om_cycle_type :: u8
  om_blend0 :: blend_cycle
  om_blend1 :: blend_cycle
  om_force_blend :: bool
  om_image_read_en :: bool
  om_cvg_dest :: u8
  om_z_compare_en :: bool
  om_z_update_en :: bool
  om_z_mode :: u8
  om_alpha_compare_en :: bool
  om_key_en :: bool
  om_persp_tex_en :: bool
  om_aa_enable :: bool
  om_rgb_dither_mode :: u8
  om_sample_type :: bool
  om_tex_lod_en :: bool
  om_sharpen_tex_en :: bool
  om_detail_tex_en :: bool
  om_tlut_en :: bool
  om_tlut_type :: bool
  om_mid_texel :: bool

record combine_cycle_cfg =
  cc_rgb_a :: u8
  cc_rgb_b :: u8
  cc_rgb_c :: u8
  cc_rgb_d :: u8
  cc_a_a :: u8
  cc_a_b :: u8
  cc_a_c :: u8
  cc_a_d :: u8

record tile_descriptor =
  td_format :: u8
  td_size :: u8
  td_line :: u16
  td_tmem_addr :: u16
  td_palette :: u8
  td_clamp_t :: bool
  td_mirror_t :: bool
  td_mask_t :: u8
  td_shift_t :: u8
  td_clamp_s :: bool
  td_mirror_s :: bool
  td_mask_s :: u8
  td_shift_s :: u8
  td_sl :: u16
  td_tl :: u16
  td_sh :: u16
  td_th :: u16

record rdp =
  color_image :: u32
  color_image_size :: u8
  color_image_format :: u8
  color_image_width :: u16
  z_image :: u32
  prim_z :: u16
  prim_dz :: u16
  fill_color :: u32
  scissor_ulx :: u16
  scissor_uly :: u16
  scissor_lrx :: u16
  scissor_lry :: u16
  tex_image_format :: u8
  tex_image_size :: u8
  tex_image_width :: u16
  tex_image_addr :: u32
  tiles :: "tile_descriptor list"
  combine_cyc0 :: combine_cycle_cfg
  combine_cyc1 :: combine_cycle_cfg
  other_modes_of :: other_modes
  prim_color :: u32
  rdp_prim_lod_frac :: u8
  min_level :: u8
  max_level :: u8
  rdp_k4 :: i16
  rdp_k5 :: i16
  rdp_key_center :: "u8 list"
  rdp_key_scale :: "u8 list"
  key_width :: "u16 list"
  env_color :: u32
  blend_color :: u32
  fog_color :: u32
  tmem :: "nat \<Rightarrow> u8"

definition rdp_new :: rdp where
  "rdp_new = (let bc = \<lparr>bc_p = 0, bc_a = 0, bc_m = 0, bc_b = 0\<rparr>;
       cc = \<lparr>cc_rgb_a = 0, cc_rgb_b = 0, cc_rgb_c = 0, cc_rgb_d = 0, cc_a_a = 0, cc_a_b = 0, cc_a_c = 0, cc_a_d = 0\<rparr>;
       td = \<lparr>td_format = 0, td_size = 0, td_line = 0, td_tmem_addr = 0, td_palette = 0, td_clamp_t = False,
             td_mirror_t = False, td_mask_t = 0, td_shift_t = 0, td_clamp_s = False, td_mirror_s = False,
             td_mask_s = 0, td_shift_s = 0, td_sl = 0, td_tl = 0, td_sh = 0, td_th = 0\<rparr>
     in \<lparr>color_image = 0, color_image_size = 0, color_image_format = 0, color_image_width = 0, z_image = 0,
         prim_z = 0, prim_dz = 0, fill_color = 0, scissor_ulx = 0, scissor_uly = 0, scissor_lrx = 0, scissor_lry = 0,
         tex_image_format = 0, tex_image_size = 0, tex_image_width = 0, tex_image_addr = 0, tiles = replicate 8 td,
         combine_cyc0 = cc, combine_cyc1 = cc,
         other_modes_of = \<lparr>om_cycle_type = 0, om_blend0 = bc, om_blend1 = bc, om_force_blend = False,
           om_image_read_en = False, om_cvg_dest = 0, om_z_compare_en = False, om_z_update_en = False, om_z_mode = 0,
           om_alpha_compare_en = False, om_key_en = False, om_persp_tex_en = False, om_aa_enable = False,
           om_rgb_dither_mode = 0, om_sample_type = False, om_tex_lod_en = False, om_sharpen_tex_en = False,
           om_detail_tex_en = False, om_tlut_en = False, om_tlut_type = False, om_mid_texel = False\<rparr>,
         prim_color = 0, rdp_prim_lod_frac = 0, min_level = 0, max_level = 0, rdp_k4 = 0, rdp_k5 = 0,
         rdp_key_center = [0, 0, 0], rdp_key_scale = [0, 0, 0], key_width = [0, 0, 0], env_color = 0,
         blend_color = 0, fog_color = 0, tmem = (\<lambda>_. 0)\<rparr>)"

section \<open>Commands that set state\<close>

definition bit_set :: "u32 \<Rightarrow> nat \<Rightarrow> bool" where
  "bit_set v n = (shr v n AND 1 \<noteq> 0)"

definition set_other_modes :: "u32 \<Rightarrow> u32 \<Rightarrow> rdp \<Rightarrow> rdp" where
  "set_other_modes hi lo r = r\<lparr>other_modes_of :=
     \<lparr>om_cycle_type = to_u8 (shr hi 20 AND 3),
      om_blend0 = \<lparr>bc_p = to_u8 (shr lo 30 AND 3), bc_a = to_u8 (shr lo 26 AND 3),
                   bc_m = to_u8 (shr lo 22 AND 3), bc_b = to_u8 (shr lo 18 AND 3)\<rparr>,
      om_blend1 = \<lparr>bc_p = to_u8 (shr lo 28 AND 3), bc_a = to_u8 (shr lo 24 AND 3),
                   bc_m = to_u8 (shr lo 20 AND 3), bc_b = to_u8 (shr lo 16 AND 3)\<rparr>,
      om_force_blend = bit_set lo 14, om_image_read_en = bit_set lo 6, om_cvg_dest = to_u8 (shr lo 8 AND 3),
      om_z_compare_en = bit_set lo 4, om_z_update_en = bit_set lo 5, om_z_mode = to_u8 (shr lo 10 AND 3),
      om_alpha_compare_en = bit_set lo 0, om_key_en = bit_set hi 8, om_persp_tex_en = bit_set hi 19,
      om_aa_enable = bit_set lo 3, om_rgb_dither_mode = to_u8 (shr hi 6 AND 3), om_sample_type = bit_set hi 13,
      om_tex_lod_en = bit_set hi 16, om_sharpen_tex_en = bit_set hi 17, om_detail_tex_en = bit_set hi 18,
      om_tlut_en = bit_set hi 15, om_tlut_type = bit_set hi 14, om_mid_texel = bit_set hi 12\<rparr>\<rparr>"

definition set_combine_mode :: "u32 \<Rightarrow> u32 \<Rightarrow> rdp \<Rightarrow> rdp" where
  "set_combine_mode hi lo r = r\<lparr>
     combine_cyc0 := \<lparr>cc_rgb_a = to_u8 (shr hi 20 AND 0xF), cc_rgb_b = to_u8 (shr lo 28 AND 0xF),
       cc_rgb_c = to_u8 (shr hi 15 AND 0x1F), cc_rgb_d = to_u8 (shr lo 15 AND 7),
       cc_a_a = to_u8 (shr hi 12 AND 7), cc_a_b = to_u8 (shr lo 12 AND 7),
       cc_a_c = to_u8 (shr hi 9 AND 7), cc_a_d = to_u8 (shr lo 9 AND 7)\<rparr>,
     combine_cyc1 := \<lparr>cc_rgb_a = to_u8 (shr hi 5 AND 0xF), cc_rgb_b = to_u8 (shr lo 24 AND 0xF),
       cc_rgb_c = to_u8 (hi AND 0x1F), cc_rgb_d = to_u8 (shr lo 6 AND 7),
       cc_a_a = to_u8 (shr lo 21 AND 7), cc_a_b = to_u8 (shr lo 3 AND 7),
       cc_a_c = to_u8 (shr lo 18 AND 7), cc_a_d = to_u8 (lo AND 7)\<rparr>\<rparr>"

definition tile_index :: "u32 \<Rightarrow> nat" where
  "tile_index lo = unat (shr lo 24 AND 7)"

definition set_tile :: "u32 \<Rightarrow> u32 \<Rightarrow> rdp \<Rightarrow> rdp" where
  "set_tile hi lo r =
     (let i = tile_index lo; old = tiles r ! i
      in r\<lparr>tiles := (tiles r)[i := old\<lparr>td_format := to_u8 (shr hi 21 AND 7), td_size := to_u8 (shr hi 19 AND 3),
           td_line := to_u16 (shr hi 9 AND 0x1FF), td_tmem_addr := to_u16 (hi AND 0x1FF),
           td_palette := to_u8 (shr lo 20 AND 0xF), td_clamp_t := bit_set lo 19, td_mirror_t := bit_set lo 18,
           td_mask_t := to_u8 (shr lo 14 AND 0xF), td_shift_t := to_u8 (shr lo 10 AND 0xF),
           td_clamp_s := bit_set lo 9, td_mirror_s := bit_set lo 8, td_mask_s := to_u8 (shr lo 4 AND 0xF),
           td_shift_s := to_u8 (lo AND 0xF)\<rparr>]\<rparr>)"

definition set_tile_size :: "u32 \<Rightarrow> u32 \<Rightarrow> rdp \<Rightarrow> rdp" where
  "set_tile_size hi lo r =
     (let i = tile_index lo
      in r\<lparr>tiles := (tiles r)[i := (tiles r ! i)\<lparr>td_sl := to_u16 (shr hi 12 AND 0xFFF), td_tl := to_u16 (hi AND 0xFFF),
           td_sh := to_u16 (shr lo 12 AND 0xFFF), td_th := to_u16 (lo AND 0xFFF)\<rparr>]\<rparr>)"

definition color_image_bpp :: "rdp \<Rightarrow> u32 option" where
  "color_image_bpp r = (if color_image_size r = 1 then Some 1 else if color_image_size r = 2 then Some 2
     else if color_image_size r = 3 then Some 4 else None)"

section \<open>Texture memory\<close>

definition TMEM_SIZE :: nat where "TMEM_SIZE = 4096"
definition TMEM_HIGH :: u32 where "TMEM_HIGH = 0x800"

definition tmem_write :: "u32 \<Rightarrow> u8 \<Rightarrow> rdp \<Rightarrow> rdp" where
  "tmem_write offset b r = r\<lparr>tmem := (tmem r)(unat offset mod TMEM_SIZE := b)\<rparr>"

definition tmem_byte :: "rdp \<Rightarrow> u32 \<Rightarrow> u8" where
  "tmem_byte r offset = tmem r (unat offset mod TMEM_SIZE)"

definition tmem_u16 :: "rdp \<Rightarrow> u32 \<Rightarrow> u32" where
  "tmem_u16 r b = shl (to_u32 (tmem_byte r b)) 8 OR to_u32 (tmem_byte r (b + 1))"

definition nibble_at :: "rdp \<Rightarrow> u32 \<Rightarrow> u32 \<Rightarrow> u8" where
  "nibble_at r off s = shr (tmem_byte r off) (unat ((NOT s AND 1) * 4)) AND 0xF"

definition tlut_lookup :: "rdp \<Rightarrow> u32 \<Rightarrow> u8 list" where
  "tlut_lookup r ci = decode_rgba16 (tmem_u16 r (TMEM_HIGH + ci * 8))"

definition fetch_texel :: "rdp \<Rightarrow> tile_descriptor \<Rightarrow> u32 \<Rightarrow> u32 \<Rightarrow> u8 list" where
  "fetch_texel r tile s t =
     (let swap = shl (t AND 1) 2;
          base = to_u32 (td_tmem_addr tile) * 8 + to_u32 (td_line tile) * 8 * t;
          off16 = base + s * 2; off8 = base + s; off4 = base + shr s 1;
          f = td_format tile; z = td_size tile
      in if f = 0 \<and> z = 2 then decode_rgba16 (tmem_u16 r (off16 XOR swap))
         else if f = 0 \<and> z = 3 then
           let bo = (off16 AND 0x7FF) XOR swap
           in [tmem_byte r bo, tmem_byte r (bo + 1), tmem_byte r (bo + TMEM_HIGH), tmem_byte r (bo + (TMEM_HIGH + 1))]
         else if f = 3 \<and> z = 2 then
           let w = tmem_u16 r (off16 XOR swap); i = to_u8 (shr w 8) in [i, i, i, to_u8 (w AND 0xFF)]
         else if f = 3 \<and> z = 1 then
           let b = to_u32 (tmem_byte r (off8 XOR swap)); i = widen4 (shr b 4) in [i, i, i, widen4 (b AND 0xF)]
         else if f = 3 \<and> z = 0 then
           let nib = nibble_at r (off4 XOR swap) s; i = widen3 (shr (to_u32 nib) 1)
           in [i, i, i, if nib AND 1 \<noteq> 0 then 0xFF else 0]
         else if f = 4 \<and> z = 1 then let v = tmem_byte r (off8 XOR swap) in [v, v, v, v]
         else if f = 4 \<and> z = 0 then let v = widen4 (to_u32 (nibble_at r (off4 XOR swap) s)) in [v, v, v, v]
         else if f = 2 \<and> \<not> om_tlut_en (other_modes_of r) then [0, 0, 0, 0]
         else if f = 2 \<and> z = 1 then
           tlut_lookup r (to_u32 (tmem_byte r ((off8 AND 0x7FF) XOR swap)))
         else if f = 2 \<and> z = 0 then
           tlut_lookup r (to_u32 (nibble_at r ((off4 AND 0x7FF) XOR swap) s) OR shl (to_u32 (td_palette tile AND 0xF)) 4)
         else [0, 0, 0, 0])"

definition sample_texel :: "rdp \<Rightarrow> tile_descriptor \<Rightarrow> i32 \<Rightarrow> i32 \<Rightarrow> u8 list" where
  "sample_texel r tile s105 t105 =
     (if \<not> om_sample_type (other_modes_of r) then
        fetch_texel r tile
          (sample_coord s105 (td_shift_s tile) (td_mask_s tile) (td_mirror_s tile) (td_clamp_s tile) (td_sl tile) (td_sh tile))
          (sample_coord t105 (td_shift_t tile) (td_mask_t tile) (td_mirror_t tile) (td_clamp_t tile) (td_tl tile) (td_th tile))
      else
        let (s0, sf, sdiff) = sample_axis s105 (td_shift_s tile) (td_mask_s tile) (td_mirror_s tile) (td_clamp_s tile)
              (td_sl tile) (td_sh tile) False;
            (t0, tf, tdiff) = sample_axis t105 (td_shift_t tile) (td_mask_t tile) (td_mirror_t tile) (td_clamp_t tile)
              (td_tl tile) (td_th tile) True;
            s1 = s0 + sdiff; t1 = t0 + tdiff
        in bilinear_3point (fetch_texel r tile s0 t0) (fetch_texel r tile s1 t0) (fetch_texel r tile s0 t1)
             (fetch_texel r tile s1 t1) sf tf (om_mid_texel (other_modes_of r)))"

end
