(* ===== verification/Rdp_Pixel.thy ===== *)
theory Rdp_Pixel
  imports Rdp_State
begin

text \<open>
  What the display processor computes for one pixel: the colour combiner, the blender, the depth test,
  coverage, the alpha test and the dither, over the state of \<^verbatim>\<open>rustyn64-rdp/src/lib.rs\<close>. The unit's random
  noise input reads as zero in the code.
\<close>

section \<open>Colour combiner\<close>

record combiner_inputs =
  ci_combined :: "u8 list"
  ci_texel0 :: "u8 list"
  ci_texel1 :: "u8 list"
  ci_prim :: "u8 list"
  ci_shade :: "u8 list"
  ci_env :: "u8 list"
  ci_prim_lod_frac :: i16
  ci_lod_frac :: i16
  ci_k4 :: i16
  ci_k5 :: i16
  ci_key_center :: "u8 list"
  ci_key_scale :: "u8 list"

definition COMBINER_ONE :: i16 where "COMBINER_ONE = 0x100"
definition LOD_FRAC_ALPHA_MUL_SELECT :: u8 where "LOD_FRAC_ALPHA_MUL_SELECT = 0"
definition CYCLE_TYPE_2CYCLE :: u8 where "CYCLE_TYPE_2CYCLE = 1"
definition CYCLE_TYPE_COPY :: u8 where "CYCLE_TYPE_COPY = 2"
definition CYCLE_TYPE_FILL :: u8 where "CYCLE_TYPE_FILL = 3"

definition rgb_input_a :: "u8 \<Rightarrow> combiner_inputs \<Rightarrow> nat \<Rightarrow> i16" where
  "rgb_input_a sel inp ch =
     (if sel = 0 then to_i16 (ci_combined inp ! ch) else if sel = 1 then to_i16 (ci_texel0 inp ! ch)
      else if sel = 2 then to_i16 (ci_texel1 inp ! ch) else if sel = 3 then to_i16 (ci_prim inp ! ch)
      else if sel = 4 then to_i16 (ci_shade inp ! ch) else if sel = 5 then to_i16 (ci_env inp ! ch)
      else if sel = 6 then COMBINER_ONE else 0)"

definition rgb_input_b :: "u8 \<Rightarrow> combiner_inputs \<Rightarrow> nat \<Rightarrow> i16" where
  "rgb_input_b sel inp ch =
     (if sel = 0 then to_i16 (ci_combined inp ! ch) else if sel = 1 then to_i16 (ci_texel0 inp ! ch)
      else if sel = 2 then to_i16 (ci_texel1 inp ! ch) else if sel = 3 then to_i16 (ci_prim inp ! ch)
      else if sel = 4 then to_i16 (ci_shade inp ! ch) else if sel = 5 then to_i16 (ci_env inp ! ch)
      else if sel = 6 then to_i16 (ci_key_center inp ! ch) else if sel = 7 then ci_k4 inp else 0)"

definition rgb_input_c :: "u8 \<Rightarrow> combiner_inputs \<Rightarrow> nat \<Rightarrow> i16" where
  "rgb_input_c sel inp ch =
     (if sel = 0 then to_i16 (ci_combined inp ! ch) else if sel = 1 then to_i16 (ci_texel0 inp ! ch)
      else if sel = 2 then to_i16 (ci_texel1 inp ! ch) else if sel = 3 then to_i16 (ci_prim inp ! ch)
      else if sel = 4 then to_i16 (ci_shade inp ! ch) else if sel = 5 then to_i16 (ci_env inp ! ch)
      else if sel = 7 then to_i16 (ci_combined inp ! 3) else if sel = 8 then to_i16 (ci_texel0 inp ! 3)
      else if sel = 9 then to_i16 (ci_texel1 inp ! 3) else if sel = 10 then to_i16 (ci_prim inp ! 3)
      else if sel = 11 then to_i16 (ci_shade inp ! 3) else if sel = 12 then to_i16 (ci_env inp ! 3)
      else if sel = 6 then to_i16 (ci_key_scale inp ! ch) else if sel = 13 then ci_lod_frac inp
      else if sel = 14 then ci_prim_lod_frac inp else if sel = 15 then ci_k5 inp else 0)"

definition rgb_input_d :: "u8 \<Rightarrow> combiner_inputs \<Rightarrow> nat \<Rightarrow> i16" where
  "rgb_input_d sel inp ch =
     (if sel = 0 then to_i16 (ci_combined inp ! ch) else if sel = 1 then to_i16 (ci_texel0 inp ! ch)
      else if sel = 2 then to_i16 (ci_texel1 inp ! ch) else if sel = 3 then to_i16 (ci_prim inp ! ch)
      else if sel = 4 then to_i16 (ci_shade inp ! ch) else if sel = 5 then to_i16 (ci_env inp ! ch)
      else if sel = 6 then COMBINER_ONE else 0)"

definition alpha_input_abd :: "u8 \<Rightarrow> combiner_inputs \<Rightarrow> i16" where
  "alpha_input_abd sel inp =
     (if sel = 0 then to_i16 (ci_combined inp ! 3) else if sel = 1 then to_i16 (ci_texel0 inp ! 3)
      else if sel = 2 then to_i16 (ci_texel1 inp ! 3) else if sel = 3 then to_i16 (ci_prim inp ! 3)
      else if sel = 4 then to_i16 (ci_shade inp ! 3) else if sel = 5 then to_i16 (ci_env inp ! 3)
      else if sel = 6 then COMBINER_ONE else 0)"

definition alpha_input_c :: "u8 \<Rightarrow> combiner_inputs \<Rightarrow> i16" where
  "alpha_input_c sel inp =
     (if sel = 1 then to_i16 (ci_texel0 inp ! 3) else if sel = 2 then to_i16 (ci_texel1 inp ! 3)
      else if sel = 3 then to_i16 (ci_prim inp ! 3) else if sel = 4 then to_i16 (ci_shade inp ! 3)
      else if sel = 5 then to_i16 (ci_env inp ! 3) else if sel = 0 then ci_lod_frac inp
      else if sel = 6 then ci_prim_lod_frac inp else 0)"

definition combine_cycle :: "combine_cycle_cfg \<Rightarrow> combiner_inputs \<Rightarrow> u8 list" where
  "combine_cycle cfg inp =
     map (\<lambda>ch. clamp_9bit (combine_channel (of_i16 (rgb_input_a (cc_rgb_a cfg) inp ch))
         (of_i16 (rgb_input_b (cc_rgb_b cfg) inp ch)) (of_i16 (rgb_input_c (cc_rgb_c cfg) inp ch))
         (of_i16 (rgb_input_d (cc_rgb_d cfg) inp ch)))) [0..<3]
     @ [clamp_9bit (combine_channel (of_i16 (alpha_input_abd (cc_a_a cfg) inp)) (of_i16 (alpha_input_abd (cc_a_b cfg) inp))
         (of_i16 (alpha_input_c (cc_a_c cfg) inp)) (of_i16 (alpha_input_abd (cc_a_d cfg) inp)))]"

definition combine :: "rdp \<Rightarrow> combiner_inputs \<Rightarrow> bool \<Rightarrow> u8 list" where
  "combine r inp two_cycle =
     (let inp = (if two_cycle
            then inp\<lparr>ci_combined := combine_cycle (combine_cyc0 r) inp, ci_texel0 := ci_texel1 inp, ci_texel1 := ci_texel0 inp\<rparr>
            else inp);
          cyc = combine_cyc1 r
      in if om_key_en (other_modes_of r) then
           let a = (\<lambda>ch. of_i16 (rgb_input_a (cc_rgb_a cyc) inp ch));
               col17 = map (\<lambda>ch. combine_channel_17bit (a ch) (of_i16 (rgb_input_b (cc_rgb_b cyc) inp ch))
                   (of_i16 (rgb_input_c (cc_rgb_c cyc) inp ch)) (of_i16 (rgb_input_d (cc_rgb_d cyc) inp ch))) [0..<3];
               rgb = map (\<lambda>ch. clamp_9bit (a ch)) [0..<3]
           in rgb @ [chroma_key_min col17 (key_width r)]
         else combine_cycle cyc inp)"

section \<open>Level of detail and the combined colour\<close>

definition lod_active :: "rdp \<Rightarrow> bool" where
  "lod_active r =
     (let uses = (\<lambda>c. cc_rgb_c c = 13 \<or> cc_a_c c = LOD_FRAC_ALPHA_MUL_SELECT)
      in om_tex_lod_en (other_modes_of r) \<or> uses (combine_cyc0 r) \<or> uses (combine_cyc1 r))"

definition lod_2cycle :: "rdp \<Rightarrow> tex_setup \<Rightarrow> i32 list \<Rightarrow> bool \<Rightarrow> i32 \<times> i32 \<Rightarrow> lod_signals" where
  "lod_2cycle r tex stw persp init =
     (let step = (\<lambda>d. divide_stw (map2 (+) stw d) persp);
          (nexts, nextt) = step (map (\<lambda>v. v AND NOT 0x1F) (tx_dx tex));
          (nextys, nextyt) = step (map (\<lambda>v. v AND NOT 0x7FFF) (tx_dy tex));
          (s0, t0) = init;
          lodclamp = ((s0 OR t0 OR nexts OR nextt OR nextys OR nextyt) AND 0x60000 \<noteq> 0);
          lod = (if lodclamp then 0 else lod_delta s0 nextys t0 nextyt (lod_delta s0 nexts t0 nextt 0))
      in lod_signals_of lodclamp lod (min_level r) (max_level r) (om_sharpen_tex_en (other_modes_of r))
           (om_detail_tex_en (other_modes_of r)))"

record shade_setup =
  sh_base :: "i32 list"
  sh_dx :: "i32 list"
  sh_de :: "i32 list"

definition combined_color ::
  "rdp \<Rightarrow> shade_setup option \<Rightarrow> tex_setup option \<Rightarrow> nat \<Rightarrow> i64 \<Rightarrow> i32 \<Rightarrow> i32 \<Rightarrow> i32 \<Rightarrow> u8 list \<times> u8" where
  "combined_color r shade tex base_tile major_x ln' y_base x =
     (let m = other_modes_of r; two = (om_cycle_type m = CYCLE_TYPE_2CYCLE); z4 = [0, 0, 0, 0];
          inp = \<lparr>ci_combined = z4, ci_texel0 = z4, ci_texel1 = z4, ci_prim = unpack_rgba (prim_color r), ci_shade = z4,
            ci_env = unpack_rgba (env_color r), ci_prim_lod_frac = to_i16 (rdp_prim_lod_frac r), ci_lod_frac = 0,
            ci_k4 = rdp_k4 r, ci_k5 = rdp_k5 r, ci_key_center = rdp_key_center r, ci_key_scale = rdp_key_scale r\<rparr>;
          inp = (case shade of None \<Rightarrow> inp
            | Some sh \<Rightarrow> inp\<lparr>ci_shade := interpolate_shade (sh_base sh) (sh_dx sh) (sh_de sh) major_x ln' y_base x\<rparr>);
          inp = (case tex of None \<Rightarrow> inp
            | Some tex \<Rightarrow>
                let persp = om_persp_tex_en m;
                    stw = interpolate_stw_raw tex major_x ln' y_base x;
                    (s105, t105) = divide_stw stw persp;
                    active = (two \<and> lod_active r);
                    sig = lod_2cycle r tex stw persp (s105, t105);
                    inp = (if active then inp\<lparr>ci_lod_frac := ls_frac sig\<rparr> else inp);
                    (tile0, tile1) = (if active \<and> om_tex_lod_en m
                      then lod_mip_tiles base_tile sig (max_level r) (om_sharpen_tex_en m) (om_detail_tex_en m)
                      else (base_tile, (base_tile + 1) mod 8));
                    inp = inp\<lparr>ci_texel0 := sample_texel r (tiles r ! tile0) s105 t105\<rparr>
                in if two then inp\<lparr>ci_texel1 := sample_texel r (tiles r ! tile1) s105 t105\<rparr> else inp)
      in (combine r inp two, ci_shade inp ! 3))"

section \<open>Coverage, alpha test, dither\<close>

definition count_ones :: "u8 \<Rightarrow> nat" where
  "count_ones m = length (filter (bit m) [0..<8])"

definition pixel_coverage :: "rdp \<Rightarrow> i32 list \<Rightarrow> i32 list \<Rightarrow> i32 \<Rightarrow> u8 option" where
  "pixel_coverage r xleft xright x =
     (let m = compute_coverage xleft xright x
      in if m = 0 \<or> (\<not> om_aa_enable (other_modes_of r) \<and> m AND 1 = 0) then None
         else Some (if om_cvg_dest (other_modes_of r) = 2 then 7 else (of_nat (count_ones m) - 1) AND 7))"

definition alpha_compare_passes :: "rdp \<Rightarrow> u8 \<Rightarrow> bool" where
  "alpha_compare_passes r alpha =
     (\<not> om_alpha_compare_en (other_modes_of r) \<or> to_u8 (blend_color r AND 0xFF) \<le> alpha)"

definition dither_pixel :: "rdp \<Rightarrow> u8 list \<Rightarrow> u32 \<Rightarrow> u32 \<Rightarrow> u8 list" where
  "dither_pixel r color x y =
     (let m = other_modes_of r
      in if om_cycle_type m \<ge> 2 \<or> om_rgb_dither_mode m = 3 then color
         else apply_rgb_dither color (rgb_dither_value (om_rgb_dither_mode m) x y))"

section \<open>Blender\<close>

record blend_inputs =
  bi_pixel :: "u8 list"
  bi_memory :: "u8 list"
  bi_blend_color :: "u8 list"
  bi_fog :: "u8 list"
  bi_shade_alpha :: u8

definition blend_rgb_input :: "u8 \<Rightarrow> blend_inputs \<Rightarrow> u8 list" where
  "blend_rgb_input sel inp =
     (let k = sel AND 3
      in take 3 (if k = 1 then bi_memory inp else if k = 2 then bi_blend_color inp else if k = 3 then bi_fog inp
           else bi_pixel inp))"

definition blend_a_input :: "u8 \<Rightarrow> blend_inputs \<Rightarrow> u8" where
  "blend_a_input sel inp =
     (let k = sel AND 3
      in if k = 1 then bi_fog inp ! 3 else if k = 2 then bi_shade_alpha inp else if k = 3 then 0 else bi_pixel inp ! 3)"

definition blend_b_input :: "u8 \<Rightarrow> blend_inputs \<Rightarrow> u8 \<Rightarrow> u8" where
  "blend_b_input sel inp a0_full =
     (let k = sel AND 3
      in if k = 1 then bi_memory inp ! 3 else if k = 2 then 0xFF else if k = 3 then 0 else NOT a0_full)"

definition blend_one_cycle :: "blend_cycle \<Rightarrow> blend_inputs \<Rightarrow> u8 list" where
  "blend_one_cycle cycle inp =
     (let p = blend_rgb_input (bc_p cycle) inp; m = blend_rgb_input (bc_m cycle) inp;
          a0_full = blend_a_input (bc_a cycle) inp;
          a0 = to_u32 (shr a0_full 3);
          a1 = to_u32 (shr (blend_b_input (bc_b cycle) inp a0_full) 3)
      in map (\<lambda>ch. to_u8 (shr (to_u32 (p ! ch) * a0 + to_u32 (m ! ch) * (a1 + 1)) 5 AND 0xFF)) [0..<3])"

definition blend :: "rdp \<Rightarrow> blend_inputs \<Rightarrow> u8 list" where
  "blend r inp =
     (let m = other_modes_of r
      in if om_cycle_type m = 1 then
           let rgb0 = blend_one_cycle (om_blend0 m) inp
           in blend_one_cycle (om_blend1 m)
                (inp\<lparr>bi_pixel := (bi_pixel inp)[0 := rgb0 ! 0, 1 := rgb0 ! 1, 2 := rgb0 ! 2]\<rparr>)
         else blend_one_cycle (om_blend0 m) inp)"

section \<open>Depth test\<close>

record depth_inputs =
  di_current_depth :: u16
  di_current_dz :: u8
  di_current_coverage :: i32
  di_z_compare :: bool
  di_z_mode :: u8
  di_force_blend :: bool
  di_aa_enable :: bool

record depth_result =
  dr_depth_pass :: bool
  dr_blend_en :: bool
  dr_coverage_wrap :: bool
  dr_blend_shift0 :: u8
  dr_blend_shift1 :: u8
  dr_coverage_count :: i32

definition depth_test :: "i32 \<Rightarrow> i32 \<Rightarrow> i32 \<Rightarrow> i32 \<Rightarrow> depth_inputs \<Rightarrow> depth_result" where
  "depth_test z dz dz_comp coverage inp =
     (let z = sclamp z 0 0x3FFFF; dz = sclamp dz 0 0x3FFFF; dz_comp = sclamp dz_comp 0 0xF;
          current_depth = di_current_depth inp AND 0x3FFF; current_dz = to_u32 (di_current_dz inp AND 0xF);
          over = (8 \<le>s coverage + di_current_coverage inp)
      in if di_z_compare inp then
           let memory_z = z_decompress current_depth;
               memory_dz = dz_decompress current_dz;
               precision = sar (to_u32 current_depth) 11 AND 0xF;
               coplanar = (precision <s 3 \<and> memory_dz = 0x8000);
               memory_dz = (if precision <s 3 then
                   (if memory_dz = 0x8000 then 0xFFFF else smax (shl memory_dz 1) (sar 16 (unat precision)))
                 else memory_dz);
               inter = combine_dz (dz OR memory_dz);
               combined = shl inter 3;
               farther = (coplanar \<or> memory_z \<le>s z + combined);
               max_z = (memory_z = 0x3FFFF);
               front = (z <s memory_z);
               nearer = (coplanar \<or> z - combined \<le>s memory_z);
               opaque = (max_z \<or> (if over then front else nearer));
               interpen = (di_z_mode inp = 1 \<and> front \<and> farther \<and> over);
               ip = unat (dz_compress (inter AND 0xFFFF));
               coeff = (sar memory_z ip - sar z ip) AND 0xF
           in \<lparr>dr_depth_pass = (if interpen then True
                 else if di_z_mode inp = 0 \<or> di_z_mode inp = 1 then opaque
                 else if di_z_mode inp = 2 then front \<or> max_z
                 else farther \<and> nearer \<and> \<not> max_z),
               dr_blend_en = (di_force_blend inp \<or> (\<not> over \<and> di_aa_enable inp \<and> farther)),
               dr_coverage_wrap = over,
               dr_blend_shift0 = to_u8 (sclamp (dz_comp - current_dz) 0 4),
               dr_blend_shift1 = to_u8 (sclamp (current_dz - dz_comp) 0 4),
               dr_coverage_count = (if interpen then smin (sar (coeff * coverage) 3) 8 else coverage)\<rparr>
         else
           \<lparr>dr_depth_pass = True, dr_blend_en = (di_force_blend inp \<or> (\<not> over \<and> di_aa_enable inp)),
            dr_coverage_wrap = over, dr_blend_shift0 = 0, dr_blend_shift1 = to_u8 (smin (0xF - dz_comp) 4),
            dr_coverage_count = coverage\<rparr>)"

end
