(* ===== verification/Rdp_Draw.thy ===== *)
theory Rdp_Draw
  imports Rdp_Pixel
begin

text \<open>
  The display processor's commands that read and write memory: rectangles, texture loads and triangles of
  \<^verbatim>\<open>rustyn64-rdp/src/lib.rs\<close>. The memory is reached through the methods of the trait \<^verbatim>\<open>VideoBus\<close>, a record
  here. A loop over pixels is a fold over the coordinates in the code's order; a \<^verbatim>\<open>continue\<close> is the branch
  that leaves the memory as it is.
\<close>

record 'b video_ops =
  vo_read :: "'b \<Rightarrow> u32 \<Rightarrow> u8"
  vo_write :: "u32 \<Rightarrow> u8 \<Rightarrow> 'b \<Rightarrow> 'b"
  vo_read_u32 :: "'b \<Rightarrow> u32 \<Rightarrow> u32"
  vo_read_hidden :: "'b \<Rightarrow> u32 \<Rightarrow> u8"
  vo_write_hidden :: "u32 \<Rightarrow> u8 \<Rightarrow> 'b \<Rightarrow> 'b"
  vo_raise_dp :: "'b \<Rightarrow> 'b"

text \<open>The half-open and the inclusive ranges of the code's loops.\<close>

definition range_u32 :: "u32 \<Rightarrow> u32 \<Rightarrow> u32 list" where
  "range_u32 a b = map of_nat [unat a..<unat b]"

definition range_incl :: "u32 \<Rightarrow> u32 \<Rightarrow> u32 list" where
  "range_incl a b = map of_nat [unat a..<unat b + 1]"

definition range_signed :: "i32 \<Rightarrow> i32 \<Rightarrow> i32 list" where
  "range_signed a b = map word_of_int [sint a..sint b]"

section \<open>Pixels in memory\<close>

definition write_bytes :: "'b video_ops \<Rightarrow> u32 \<Rightarrow> u8 list \<Rightarrow> 'b \<Rightarrow> 'b" where
  "write_bytes ops addr bytes b =
     foldl (\<lambda>b i. vo_write ops (addr + of_nat i) (bytes ! i) b) b [0..<length bytes]"

definition fill_pixel :: "'b video_ops \<Rightarrow> rdp \<Rightarrow> u32 \<Rightarrow> u32 \<Rightarrow> u32 \<Rightarrow> 'b \<Rightarrow> 'b" where
  "fill_pixel ops r row_addr x bpp b =
     (let addr = row_addr + x * bpp; color = unpack_rgba (fill_color r)
      in if bpp = 4 then write_bytes ops addr color b
         else if bpp = 2 then
           let half = (if x AND 1 = 0 then 0 else 2)
           in vo_write ops (addr + 1) (color ! (half + 1)) (vo_write ops addr (color ! half) b)
         else if bpp = 1 then vo_write ops addr (color ! unat (x AND 3)) b
         else b)"

definition write_pixel :: "'b video_ops \<Rightarrow> u32 \<Rightarrow> u32 \<Rightarrow> u32 \<Rightarrow> u8 list \<Rightarrow> 'b \<Rightarrow> 'b" where
  "write_pixel ops row_addr x bpp rgba b =
     (let addr = row_addr + x * bpp
      in if bpp = 4 then write_bytes ops addr rgba b
         else if bpp = 2 then
           let p = pack_rgba5551 rgba in vo_write ops (addr + 1) (to_u8 p) (vo_write ops addr (to_u8 (shr p 8)) b)
         else b)"

definition write_coverage :: "'b video_ops \<Rightarrow> u32 \<Rightarrow> u32 \<Rightarrow> u32 \<Rightarrow> u8 \<Rightarrow> 'b \<Rightarrow> 'b" where
  "write_coverage ops row_addr x bpp cov b =
     (if bpp \<noteq> 2 then b else vo_write_hidden ops (row_addr + x * bpp) (cov AND 3) b)"

definition read_pixel :: "'b video_ops \<Rightarrow> u32 \<Rightarrow> u32 \<Rightarrow> u32 \<Rightarrow> 'b \<Rightarrow> u8 list" where
  "read_pixel ops row_addr x bpp b =
     (let addr = row_addr + x * bpp
      in if bpp = 4 then map (\<lambda>i. vo_read ops b (addr + of_nat i)) [0..<4]
         else if bpp = 2 then
           unpack_rgba5551 (shl (to_u16 (vo_read ops b addr)) 8 OR to_u16 (vo_read ops b (addr + 1)))
         else [0, 0, 0, 0])"

section \<open>The depth buffer\<close>

definition zbuffer_addr :: "rdp \<Rightarrow> u32 \<Rightarrow> u32 \<Rightarrow> u32" where
  "zbuffer_addr r x y = z_image r + (y * to_u32 (color_image_width r) + x) * 2"

definition zbuffer_read :: "'b video_ops \<Rightarrow> rdp \<Rightarrow> u32 \<Rightarrow> u32 \<Rightarrow> 'b \<Rightarrow> u16 \<times> u8" where
  "zbuffer_read ops r x y b =
     (let addr = zbuffer_addr r x y;
          word' = shl (to_u16 (vo_read ops b addr)) 8 OR to_u16 (vo_read ops b (addr + 1));
          hidden = vo_read_hidden ops b addr AND 3
      in (shr word' 2, shl (to_u8 (word' AND 3)) 2 OR hidden))"

definition zbuffer_write :: "'b video_ops \<Rightarrow> rdp \<Rightarrow> u32 \<Rightarrow> u32 \<Rightarrow> i32 \<Rightarrow> u8 \<Rightarrow> 'b \<Rightarrow> 'b" where
  "zbuffer_write ops r x y z dz b =
     (let addr = zbuffer_addr r x y; dz = dz AND 0xF;
          word' = shl (z_compress z) 2 OR to_u16 (shr dz 2);
          b = vo_write ops addr (to_u8 (shr word' 8)) b;
          b = vo_write ops (addr + 1) (to_u8 word') b
      in vo_write_hidden ops addr (dz AND 3) b)"

section \<open>Rectangles\<close>

text \<open>The rectangle's pixels within the scissor and the image: \<open>(x0, y0, x1, y1)\<close>, half open.\<close>

definition clip_rectangle :: "rdp \<Rightarrow> u32 \<Rightarrow> u32 \<Rightarrow> (u32 \<times> u32 \<times> u32 \<times> u32) option" where
  "clip_rectangle r hi lo =
     (let rect_xh = shr lo 12 AND 0xFFF;
          rx0 = shr rect_xh 2; ry0 = shr (lo AND 0xFFF) 2;
          rx1 = shr (shr hi 12 AND 0xFFF) 2 + 1;
          ry1 = shr ((hi AND 0xFFF) OR 3) 2 + 1;
          scissor_xl = to_u32 (scissor_lrx r)
      in if rect_xh \<ge> scissor_xl then None
         else
           let sx0 = shr (to_u32 (scissor_ulx r)) 2; sy0 = shr (to_u32 (scissor_uly r)) 2;
               sx1 = shr scissor_xl 2 + 1; sy1 = shr (to_u32 (scissor_lry r) + 3) 2;
               x0 = max rx0 sx0; y0 = max ry0 sy0;
               x1 = min (min rx1 sx1) (to_u32 (color_image_width r)); y1 = min ry1 sy1
           in if x0 \<ge> x1 \<or> y0 \<ge> y1 then None else Some (x0, y0, x1, y1))"

definition draw_rows ::
  "(u32 \<Rightarrow> u32 \<Rightarrow> u32 \<Rightarrow> 'b \<Rightarrow> 'b) \<Rightarrow> rdp \<Rightarrow> u32 \<Rightarrow> u32 list \<Rightarrow> u32 list \<Rightarrow> 'b \<Rightarrow> 'b" where
  "draw_rows draw r stride ys xs b =
     foldl (\<lambda>b y. let row = color_image r + y * stride in foldl (\<lambda>b x. draw row x y b) b xs) b ys"

definition fill_rectangle :: "'b video_ops \<Rightarrow> rdp \<Rightarrow> u32 \<Rightarrow> u32 \<Rightarrow> 'b \<Rightarrow> 'b" where
  "fill_rectangle ops r hi lo b =
     (case color_image_bpp r of
        None \<Rightarrow> b
      | Some bpp \<Rightarrow>
          if color_image_width r = 0 then b
          else case clip_rectangle r hi lo of
              None \<Rightarrow> b
            | Some (x0, y0, x1, y1) \<Rightarrow>
                let stride = to_u32 (color_image_width r) * bpp; ct = om_cycle_type (other_modes_of r)
                in if ct = CYCLE_TYPE_COPY \<or> ct = CYCLE_TYPE_FILL then
                     draw_rows (\<lambda>row x y. fill_pixel ops r row x bpp) r stride (range_u32 y0 y1) (range_u32 x0 x1) b
                   else
                     let base = fst (combined_color r None None 0 0 0 0 0)
                     in if \<not> alpha_compare_passes r (base ! 3) then b
                        else draw_rows (\<lambda>row x y. write_pixel ops row x bpp (dither_pixel r base x y)) r stride
                               (range_u32 y0 y1) (range_u32 x0 x1) b)"

definition saturating_pred :: "u32 \<Rightarrow> u32" where
  "saturating_pred v = (if v = 0 then 0 else v - 1)"

definition copy_texel :: "'b video_ops \<Rightarrow> rdp \<Rightarrow> tile_descriptor \<Rightarrow> i32 \<Rightarrow> i32 \<Rightarrow> u32 \<Rightarrow> u32 \<Rightarrow> u32 \<Rightarrow> u32 \<Rightarrow> u32 \<Rightarrow> 'b \<Rightarrow> 'b" where
  "copy_texel ops r tile s_start dsdx px0 t_row swap row_addr px b =
     (let col = px - px0;
          cycle_start = col AND NOT 3; within = col AND 3;
          base_s105 = s_start + sar (dsdx * cycle_start) 7;
          base_tex = wrap_coord base_s105 (td_shift_s tile) (td_mask_s tile) (td_mirror_s tile) (td_sl tile);
          s_tex = base_tex + within;
          boff = (to_u32 (td_tmem_addr tile) * 8 + t_row + s_tex * 2) XOR swap;
          texel = tmem_u16 r boff;
          addr = row_addr + px * 2
      in vo_write ops (addr + 1) (to_u8 (texel AND 0xFF)) (vo_write ops addr (to_u8 (shr texel 8)) b))"

definition texture_rectangle :: "'b video_ops \<Rightarrow> rdp \<Rightarrow> u32 \<Rightarrow> u32 \<Rightarrow> u32 \<Rightarrow> bool \<Rightarrow> 'b \<Rightarrow> 'b" where
  "texture_rectangle ops r hi lo cmd_base flip b =
     (let xl = shr hi 12 AND 0xFFF; yl = hi AND 0xFFF;
          xh = shr lo 12 AND 0xFFF; yh = lo AND 0xFFF;
          w1_hi = vo_read_u32 ops b (cmd_base + 8); w1_lo = vo_read_u32 ops b (cmd_base + 12);
          s_start = sext16 (shr w1_hi 16); t_start = sext16 w1_hi;
          dsdx = sext16 (shr w1_lo 16); dtdy = sext16 w1_lo;
          tile = tiles r ! tile_index lo
      in if flip \<or> td_size tile \<noteq> 2 \<or> color_image_size r \<noteq> 2 \<or> color_image_width r = 0 then b
         else
           let px0 = shr xh 2; py0 = shr yh 2;
               x_lo = max px0 (shr (to_u32 (scissor_ulx r)) 2); y_lo = max py0 (shr (to_u32 (scissor_uly r)) 2);
               x_hi = min (shr xl 2) (saturating_pred (shr (to_u32 (scissor_lrx r) + 3) 2));
               y_hi = min (shr yl 2) (saturating_pred (shr (to_u32 (scissor_lry r) + 3) 2));
               stride = to_u32 (color_image_width r) * 2
           in foldl (\<lambda>b py.
                let row = py - py0;
                    t105 = t_start + sar (dtdy * row) 5;
                    t_tex = wrap_coord t105 (td_shift_t tile) (td_mask_t tile) (td_mirror_t tile) (td_tl tile);
                    swap = shl (t_tex AND 1) 2;
                    t_row = to_u32 (td_line tile) * 8 * t_tex;
                    row_addr = color_image r + py * stride
                in foldl (\<lambda>b px. copy_texel ops r tile s_start dsdx px0 t_row swap row_addr px b) b (range_incl x_lo x_hi))
              b (range_incl y_lo y_hi))"

section \<open>Texture loads\<close>

definition copy_to_tmem :: "'b video_ops \<Rightarrow> 'b \<Rightarrow> u32 \<Rightarrow> u32 \<Rightarrow> rdp \<Rightarrow> rdp" where
  "copy_to_tmem ops b dst src r = tmem_write dst (vo_read ops b src) r"

definition load_texel_split :: "'b video_ops \<Rightarrow> 'b \<Rightarrow> u32 \<Rightarrow> u32 \<Rightarrow> u32 \<Rightarrow> rdp \<Rightarrow> rdp" where
  "load_texel_split ops b bo swap src r =
     copy_to_tmem ops b ((bo + 0x801) XOR swap) (src + 3)
       (copy_to_tmem ops b ((bo + 0x800) XOR swap) (src + 2)
         (copy_to_tmem ops b ((bo + 1) XOR swap) (src + 1)
           (copy_to_tmem ops b (bo XOR swap) src r)))"

definition load_texel_bytes :: "'b video_ops \<Rightarrow> 'b \<Rightarrow> u32 \<Rightarrow> u32 \<Rightarrow> u32 \<Rightarrow> u32 \<Rightarrow> rdp \<Rightarrow> rdp" where
  "load_texel_bytes ops b base bpt swap src r =
     foldl (\<lambda>r i. copy_to_tmem ops b ((base + i) XOR swap) (src + i) r) r (range_u32 0 bpt)"

definition load_tile :: "'b video_ops \<Rightarrow> 'b \<Rightarrow> u32 \<Rightarrow> u32 \<Rightarrow> rdp \<Rightarrow> rdp" where
  "load_tile ops b hi lo r =
     (let sl' = shr (shr hi 12 AND 0xFFF) 2; tl' = shr (hi AND 0xFFF) 2;
          sh' = shr (shr lo 12 AND 0xFFF) 2; th' = shr (lo AND 0xFFF) 2;
          width = (sh' - sl' + 1) AND 0xFFF; height = th' - tl' + 1;
          tile = tiles r ! tile_index lo
      in if th' < tl' \<or> sh' < sl' \<or> width = 0 then r
         else case (bytes_per_texel (td_size tile), bytes_per_texel (tex_image_size r)) of
             (Some dst_bpt, Some src_bpt) \<Rightarrow>
               let split = (td_size tile = 3);
                   tmem_base = to_u32 (td_tmem_addr tile) * 8; stride = to_u32 (td_line tile) * 8;
                   tex_w = to_u32 (tex_image_width r); addr = tex_image_addr r;
                   r = foldl (\<lambda>r t.
                     let swap = shl (t AND 1) 2
                     in foldl (\<lambda>r s.
                          let src = addr + ((tl' + t) * tex_w + (sl' + s)) * src_bpt
                          in if split then load_texel_split ops b ((tmem_base + stride * t + s * 2) AND 0x7FF) swap src r
                             else load_texel_bytes ops b (tmem_base + stride * t + s * dst_bpt) dst_bpt swap src r)
                        r (range_u32 0 width)) r (range_u32 0 height)
               in set_tile_size hi lo r
           | _ \<Rightarrow> r)"

definition LOAD_BLOCK_MAX_TEXELS :: u32 where "LOAD_BLOCK_MAX_TEXELS = 2048"

definition load_block :: "'b video_ops \<Rightarrow> 'b \<Rightarrow> u32 \<Rightarrow> u32 \<Rightarrow> rdp \<Rightarrow> rdp" where
  "load_block ops b hi lo r =
     (let slo = shr hi 12 AND 0xFFF; tlo = hi AND 0xFFF; shi = shr lo 12 AND 0xFFF; dxt = lo AND 0xFFF;
          count = (shi - slo + 1) AND 0xFFF;
          tile = tiles r ! tile_index lo
      in if shi < slo \<or> count = 0 \<or> count > LOAD_BLOCK_MAX_TEXELS then r
         else case bytes_per_texel (td_size tile) of
             None \<Rightarrow> r
           | Some bpt \<Rightarrow>
               if td_size tile = 3 then r
               else case bytes_per_texel (tex_image_size r) of
                   None \<Rightarrow> r
                 | Some src_bpt \<Rightarrow>
                     let src_base = tex_image_addr r + (to_u32 (tex_image_width r) * tlo + slo) * src_bpt;
                         tmem_base = to_u32 (td_tmem_addr tile) * 8
                     in foldl (\<lambda>r s.
                          let src = src_base + s * src_bpt; byte_off = s * bpt;
                              ln' = shr ((byte_off div 8) * dxt) 11; swap = shl (ln' AND 1) 2
                          in load_texel_bytes ops b (tmem_base + byte_off) bpt swap src r) r (range_u32 0 count))"

definition load_tlut :: "'b video_ops \<Rightarrow> 'b \<Rightarrow> u32 \<Rightarrow> u32 \<Rightarrow> rdp \<Rightarrow> rdp" where
  "load_tlut ops b hi lo r =
     (let sl' = shr (shr hi 12 AND 0xFFF) 2; sh' = shr (shr lo 12 AND 0xFFF) 2
      in if sh' < sl' then r
         else
           let count = sh' - sl' + 1;
               tmem_base = to_u32 (td_tmem_addr (tiles r ! tile_index lo)) * 8;
               src_base = tex_image_addr r + sl' * 2;
               r = foldl (\<lambda>r i.
                 let src = src_base + i * 2; dst = tmem_base + i * 8;
                     hi_b = vo_read ops b src; lo_b = vo_read ops b (src + 1)
                 in foldl (\<lambda>r k. tmem_write (dst + k * 2 + 1) lo_b (tmem_write (dst + k * 2) hi_b r)) r (range_u32 0 4))
                 r (range_u32 0 count)
           in set_tile_size hi lo r)"

end
