(* ===== verification/Rdp_Tri.thy ===== *)
theory Rdp_Tri
  imports Rdp_Draw
begin

text \<open>
  Triangles and the dispatcher of \<^verbatim>\<open>rustyn64-rdp/src/lib.rs\<close>: the coefficient decoders, the depth-tested and
  the plain spans, \<^verbatim>\<open>triangle_fill\<close> cut into its edge walk and its spans, and \<^verbatim>\<open>dispatch\<close>. The clamp to the
  scissor panics when the scissor's left edge is right of its right one; a panic is \<open>None\<close>.
\<close>

section \<open>Coefficients\<close>

record z_tri_setup =
  zt_base :: i32
  zt_dzdx :: i32
  zt_dzde :: i32
  zt_dz :: i32
  zt_dz_compressed :: i32

definition saturating_abs :: "i32 \<Rightarrow> i32" where
  "saturating_abs v = (if v = 0x80000000 then 0x7FFFFFFF else if v <s 0 then - v else v)"

definition decode_triangle_z :: "'b video_ops \<Rightarrow> 'b \<Rightarrow> u32 \<Rightarrow> u32 \<Rightarrow> z_tri_setup option" where
  "decode_triangle_z ops b hi cmd_base =
     (if \<not> bit_set hi 24 then None
      else
        let zoff = (4 + 8 * b2w (bit_set hi 26) + 8 * b2w (bit_set hi 25)) * 8;
            za = cmd_base + zoff;
            dzdx = vo_read_u32 ops b (za + 4); dzde = vo_read_u32 ops b (za + 8);
            dz = sar (smax (saturating_abs dzdx) (saturating_abs dzde)) 16
        in Some \<lparr>zt_base = vo_read_u32 ops b za, zt_dzdx = dzdx, zt_dzde = dzde, zt_dz = dz,
             zt_dz_compressed = smin (dz_compress dz) 0xF\<rparr>)"

definition shade_field :: "(u32 \<Rightarrow> u32) \<Rightarrow> u32 \<Rightarrow> nat \<Rightarrow> u32 \<Rightarrow> u32" where
  "shade_field w base_word ch msk = shr (w (base_word * 2 + of_nat (ch div 2))) (16 * (1 - ch mod 2)) AND msk"

definition decode_shade :: "'b video_ops \<Rightarrow> 'b \<Rightarrow> u32 \<Rightarrow> u32 \<Rightarrow> shade_setup option" where
  "decode_shade ops b hi cmd_base =
     (if \<not> bit_set hi 26 then None
      else
        let sa = cmd_base + 4 * 8;
            field = shade_field (\<lambda>word'. vo_read_u32 ops b (sa + word' * 4));
            assemble = (\<lambda>iw fw ch. shl (field iw ch 0xFFFF) 16 OR field fw ch 0xFFFF)
        in Some \<lparr>sh_base = map (\<lambda>ch. sext (shl (field 0 ch 0x1FF) 16 OR field 2 ch 0xFFFF) 25) [0..<4],
             sh_dx = map (assemble 1 3) [0..<4], sh_de = map (assemble 4 6) [0..<4]\<rparr>)"

definition texture_field :: "(u32 \<Rightarrow> u32) \<Rightarrow> u32 \<Rightarrow> nat \<Rightarrow> u32" where
  "texture_field w base_word c = shr (w (base_word * 2 + b2w (c = 2))) (if c = 1 then 0 else 16) AND 0xFFFF"

definition decode_texture :: "'b video_ops \<Rightarrow> 'b \<Rightarrow> u32 \<Rightarrow> u32 \<Rightarrow> tex_setup option" where
  "decode_texture ops b hi cmd_base =
     (if \<not> bit_set hi 25 then None
      else
        let ta = cmd_base + (4 + 8 * (shr hi 26 AND 1)) * 8;
            field = texture_field (\<lambda>word'. vo_read_u32 ops b (ta + word' * 4));
            assemble = (\<lambda>iw fw c. shl (field iw c) 16 OR field fw c)
        in Some \<lparr>tx_base = map (assemble 0 2) [0..<3], tx_dx = map (assemble 1 3) [0..<3],
             tx_de = map (assemble 4 6) [0..<3], tx_dy = map (assemble 5 7) [0..<3]\<rparr>)"

section \<open>Spans\<close>

text \<open>One pixel of \<^verbatim>\<open>depth_span\<close>. The optional pair is the edge subpixels of the coverage rasteriser.\<close>

definition depth_pixel ::
  "'b video_ops \<Rightarrow> rdp \<Rightarrow> u32 \<Rightarrow> i32 \<Rightarrow> u32 \<Rightarrow> i64 \<Rightarrow> i32 \<Rightarrow> z_tri_setup \<Rightarrow> (i32 list \<times> i32 list) option \<Rightarrow>
     shade_setup option \<Rightarrow> tex_setup option \<Rightarrow> nat \<Rightarrow> i32 \<Rightarrow> 'b \<Rightarrow> 'b" where
  "depth_pixel ops r row_addr ln' bpp major_x y_base z cov shade tex base_tile x b =
     (let pixel_cov = (case cov of None \<Rightarrow> None | Some (xleft, xright) \<Rightarrow> pixel_coverage r xleft xright x)
      in if cov \<noteq> None \<and> pixel_cov = None then b
         else
           let z_px = interpolate_z (zt_base z) (zt_dzdx z) (zt_dzde z) major_x ln' y_base x;
               (mem_z, mem_dz) = zbuffer_read ops r x ln' b;
               m = other_modes_of r;
               dr = depth_test z_px (zt_dz z) (zt_dz_compressed z) 8
                 \<lparr>di_current_depth = mem_z, di_current_dz = mem_dz, di_current_coverage = 0,
                  di_z_compare = om_z_compare_en m, di_z_mode = om_z_mode m, di_force_blend = om_force_blend m,
                  di_aa_enable = False\<rparr>;
               update = (\<lambda>b. if om_z_update_en m then zbuffer_write ops r x ln' z_px (to_u8 (zt_dz_compressed z)) b else b)
           in if \<not> dr_depth_pass dr then b
              else if shade = None \<and> tex = None then update (fill_pixel ops r row_addr x bpp b)
              else
                let (color, shade_alpha) = combined_color r shade tex base_tile major_x ln' y_base x
                in if \<not> alpha_compare_passes r (color ! 3) then b
                   else
                     let color = (if dr_blend_en dr then
                             let rgb = blend r \<lparr>bi_pixel = color, bi_memory = read_pixel ops row_addr x bpp b,
                                   bi_blend_color = unpack_rgba (blend_color r), bi_fog = unpack_rgba (fog_color r),
                                   bi_shade_alpha = shade_alpha\<rparr>
                             in [rgb ! 0, rgb ! 1, rgb ! 2, color ! 3]
                           else color);
                         color = (case pixel_cov of None \<Rightarrow> color | Some c \<Rightarrow> color[3 := shl c 5]);
                         b = write_pixel ops row_addr x bpp (dither_pixel r color x ln') b;
                         b = (case pixel_cov of None \<Rightarrow> b | Some c \<Rightarrow> write_coverage ops row_addr x bpp c b)
                     in update b)"

definition depth_span ::
  "'b video_ops \<Rightarrow> rdp \<Rightarrow> u32 \<Rightarrow> i32 \<Rightarrow> i32 \<Rightarrow> i32 \<Rightarrow> u32 \<Rightarrow> i64 \<Rightarrow> i32 \<Rightarrow> z_tri_setup \<Rightarrow> (i32 list \<times> i32 list) option \<Rightarrow>
     shade_setup option \<Rightarrow> tex_setup option \<Rightarrow> nat \<Rightarrow> 'b \<Rightarrow> 'b" where
  "depth_span ops r row_addr x0 x1 ln' bpp major_x y_base z cov shade tex base_tile b =
     foldl (\<lambda>b x. depth_pixel ops r row_addr ln' bpp major_x y_base z cov shade tex base_tile x b) b
       (range_signed x0 x1)"

text \<open>The span without a depth buffer: the combined colour, or the fill colour.\<close>

definition color_pixel ::
  "'b video_ops \<Rightarrow> rdp \<Rightarrow> u32 \<Rightarrow> i32 \<Rightarrow> u32 \<Rightarrow> i64 \<Rightarrow> i32 \<Rightarrow> i32 list \<Rightarrow> i32 list \<Rightarrow>
     shade_setup option \<Rightarrow> tex_setup option \<Rightarrow> nat \<Rightarrow> i32 \<Rightarrow> 'b \<Rightarrow> 'b" where
  "color_pixel ops r row_addr ln' bpp major_x y_base xleft xright shade tex base_tile x b =
     (let color = fst (combined_color r shade tex base_tile major_x ln' y_base x);
          subpixel = om_cycle_type (other_modes_of r) < 2;
          cov = (if subpixel then pixel_coverage r xleft xright x else None)
      in if \<not> alpha_compare_passes r (color ! 3) \<or> (subpixel \<and> cov = None) then b
         else
           let color = (case cov of None \<Rightarrow> color | Some c \<Rightarrow> color[3 := shl c 5]);
               b = write_pixel ops row_addr x bpp (dither_pixel r color x ln') b
           in case cov of None \<Rightarrow> b | Some c \<Rightarrow> write_coverage ops row_addr x bpp c b)"

section \<open>Triangles\<close>

definition SUB_SCANLINE_SHIFT :: nat where "SUB_SCANLINE_SHIFT = 2"
definition SPAN_X_POISON_LEFT :: i32 where "SPAN_X_POISON_LEFT = 0x7FFFFFFF"
definition SPAN_X_POISON_RIGHT :: i32 where "SPAN_X_POISON_RIGHT = 0x80000000"

text \<open>The edge coefficients of a triangle command.\<close>

record tri_edges =
  te_flip :: bool
  te_yl :: i32
  te_ym :: i32
  te_yh :: i32
  te_xl :: i32
  te_dxldy :: i32
  te_xh :: i32
  te_dxhdy :: i32
  te_xm :: i32
  te_dxmdy :: i32

definition decode_edges :: "'b video_ops \<Rightarrow> 'b \<Rightarrow> u32 \<Rightarrow> u32 \<Rightarrow> u32 \<Rightarrow> tri_edges" where
  "decode_edges ops b hi lo cmd_base =
     (let yl = sext (hi AND 0x3FFF) 14; yh = sext (lo AND 0x3FFF) 14;
          coord = (\<lambda>off. sext (vo_read_u32 ops b (cmd_base + off) AND 0x0FFFFFFF) 28);
          slope = (\<lambda>off. sar (sext (vo_read_u32 ops b (cmd_base + off) AND 0x3FFFFFFF) 30) SUB_SCANLINE_SHIFT)
      in \<lparr>te_flip = bit_set hi 23, te_yl = yl, te_ym = sclamp (sext (shr lo 16 AND 0x3FFF) 14) yh yl, te_yh = yh,
          te_xl = coord 8, te_dxldy = slope 12, te_xh = coord 16, te_dxhdy = slope 20, te_xm = coord 24,
          te_dxmdy = slope 28\<rparr>)"

text \<open>The four sub-scanlines of a line: the extremes of the whole-pixel span, and the quantised edge of each.\<close>

record line_walk =
  lw_l :: i32
  lw_r :: i32
  lw_xleft :: "i32 list"
  lw_xright :: "i32 list"

definition edge_x :: "tri_edges \<Rightarrow> i32 \<Rightarrow> i64 \<times> i64" where
  "edge_x e y =
     (let yh_base = te_yh e AND NOT 3
      in (ext_i64 (te_xh e) + ext_i64 (y - yh_base) * ext_i64 (te_dxhdy e),
          if y <s te_ym e then ext_i64 (te_xm e) + ext_i64 (y - yh_base) * ext_i64 (te_dxmdy e)
          else ext_i64 (te_xl e) + ext_i64 (y - te_ym e) * ext_i64 (te_dxldy e)))"

text \<open>\<^verbatim>\<open>i32::clamp\<close> panics when its bounds are out of order.\<close>

definition checked_clamp :: "i32 \<Rightarrow> i32 \<Rightarrow> i32 \<Rightarrow> i32 option" where
  "checked_clamp v low high = (if high <s low then None else Some (sclamp v low high))"

definition walk_sub :: "rdp \<Rightarrow> tri_edges \<Rightarrow> i32 \<Rightarrow> line_walk \<Rightarrow> nat \<Rightarrow> line_walk option" where
  "walk_sub r e ln' lw i =
     (let y = ln' * 4 + of_nat i
      in if y <s te_yh e \<or> te_yl e \<le>s y then Some lw
         else
           let (major, minor) = edge_x e y;
               (raw_l, raw_r) = (if te_flip e then (major, minor) else (minor, major));
               xl_i = as_i32 (sar raw_l 16); xr_i = as_i32 (sar raw_r 16)
           in if xr_i <s xl_i then Some lw
              else
                let lw = lw\<lparr>lw_l := smin (lw_l lw) xl_i, lw_r := smax (lw_r lw) xr_i\<rparr>;
                    sc_lo = shl (to_u32 (scissor_ulx r)) 1; sc_hi = shl (to_u32 (scissor_lrx r)) 1
                in case (checked_clamp (quantize_x (sext (to_u32 raw_l) 27)) sc_lo sc_hi,
                         checked_clamp (quantize_x (sext (to_u32 raw_r) 27)) sc_lo sc_hi) of
                     (Some el, Some er) \<Rightarrow> Some
                       (if sar el 1 \<le>s sar er 1
                        then lw\<lparr>lw_xleft := (lw_xleft lw)[i := el], lw_xright := (lw_xright lw)[i := er]\<rparr> else lw)
                   | _ \<Rightarrow> None)"

fun foldl_option :: "('s \<Rightarrow> 'a \<Rightarrow> 's option) \<Rightarrow> 's \<Rightarrow> 'a list \<Rightarrow> 's option" where
  "foldl_option f s [] = Some s"
| "foldl_option f s (x # xs) = Option.bind (f s x) (\<lambda>s. foldl_option f s xs)"

definition walk_line :: "rdp \<Rightarrow> tri_edges \<Rightarrow> i32 \<Rightarrow> line_walk option" where
  "walk_line r e ln' =
     foldl_option (walk_sub r e ln')
       \<lparr>lw_l = 0x7FFFFFFF, lw_r = 0x80000000, lw_xleft = replicate 4 SPAN_X_POISON_LEFT,
        lw_xright = replicate 4 SPAN_X_POISON_RIGHT\<rparr> [0..<4]"

definition line_span :: "rdp \<Rightarrow> line_walk \<Rightarrow> i32 \<times> i32" where
  "line_span r lw =
     (let width = to_u32 (color_image_width r)
      in if om_cycle_type (other_modes_of r) < 2 then
           (smax (sar (min4 (lw_xleft lw)) 3) 0, smin (sar (max4 (lw_xright lw)) 3) (width - 1))
         else
           (smax (smax (lw_l lw) (shr (to_u32 (scissor_ulx r)) 2)) 0,
            smin (smin (lw_r lw) (shr (to_u32 (scissor_lrx r)) 2)) (width - 1)))"

definition triangle_line ::
  "'b video_ops \<Rightarrow> rdp \<Rightarrow> tri_edges \<Rightarrow> u32 \<Rightarrow> nat \<Rightarrow> z_tri_setup option \<Rightarrow> shade_setup option \<Rightarrow> tex_setup option \<Rightarrow>
     i32 \<Rightarrow> 'b \<Rightarrow> 'b option" where
  "triangle_line ops r e bpp base_tile z shade tex ln' b =
     map_option (\<lambda>lw.
      let (x0, x1) = line_span r lw
      in if x1 <s x0 then b
         else
           let stride = to_u32 (color_image_width r) * bpp;
               row_addr = color_image r + ln' * stride;
               y_base = sar (te_yh e) 2;
               major_x = ext_i64 (te_xh e) + ext_i64 (ln' * 4 - (te_yh e AND NOT 3)) * ext_i64 (te_dxhdy e);
               ct = om_cycle_type (other_modes_of r);
               has_color = (shade \<noteq> None \<or> tex \<noteq> None \<or> \<not> (ct = CYCLE_TYPE_COPY \<or> ct = CYCLE_TYPE_FILL))
           in case z of
               Some zs \<Rightarrow>
                 depth_span ops r row_addr x0 x1 ln' bpp major_x y_base zs
                   (if ct < 2 then Some (lw_xleft lw, lw_xright lw) else None) shade tex base_tile b
             | None \<Rightarrow>
                 foldl (\<lambda>b x. if has_color
                     then color_pixel ops r row_addr ln' bpp major_x y_base (lw_xleft lw) (lw_xright lw) shade tex base_tile x b
                     else fill_pixel ops r row_addr x bpp b) b (range_signed x0 x1))
      (walk_line r e ln')"

definition triangle_fill :: "'b video_ops \<Rightarrow> u32 \<Rightarrow> u32 \<Rightarrow> u32 \<Rightarrow> rdp \<Rightarrow> 'b \<Rightarrow> (rdp \<times> 'b) option" where
  "triangle_fill ops hi lo cmd_base r b =
     (case color_image_bpp r of
        None \<Rightarrow> Some (r, b)
      | Some bpp \<Rightarrow>
          if color_image_width r = 0 then Some (r, b)
          else
            let r = r\<lparr>max_level := to_u8 (shr hi 19 AND 7)\<rparr>; e = decode_edges ops b hi lo cmd_base
            in if te_yl e \<le>s te_yh e then Some (r, b)
               else
                 let m = other_modes_of r;
                     start_line = smax (sar (te_yh e) 2) (shr (to_u32 (scissor_uly r)) 2);
                     end_line = smin (sar (te_yl e - 1) 2) (shr (to_u32 (scissor_lry r)) 2 - 1);
                     z = (if om_z_compare_en m \<or> om_z_update_en m then decode_triangle_z ops b hi cmd_base else None);
                     shade = decode_shade ops b hi cmd_base; tex = decode_texture ops b hi cmd_base;
                     base_tile = unat (shr hi 16 AND 7)
                 in map_option (Pair r)
                      (foldl_option (\<lambda>b ln'. triangle_line ops r e bpp base_tile z shade tex ln' b) b
                          (range_signed start_line end_line)))"

section \<open>Dispatch\<close>

definition SYNC_LOAD_GCLK :: u32 where "SYNC_LOAD_GCLK = 25"
definition SYNC_PIPE_GCLK :: u32 where "SYNC_PIPE_GCLK = 50"
definition SYNC_TILE_GCLK :: u32 where "SYNC_TILE_GCLK = 33"

text \<open>The commands that only set a register or a texture-memory byte.\<close>

definition set_image_modes :: "u8 \<Rightarrow> u32 \<Rightarrow> u32 \<Rightarrow> rdp \<Rightarrow> rdp" where
  "set_image_modes op hi lo r =
     (if op = 0x3F then r\<lparr>color_image_format := to_u8 (shr hi 21 AND 7), color_image_size := to_u8 (shr hi 19 AND 3),
         color_image_width := to_u16 (hi AND 0x3FF) + 1, color_image := lo AND 0x00FFFFFF\<rparr>
      else if op = 0x3D then r\<lparr>tex_image_format := to_u8 (shr hi 21 AND 7), tex_image_size := to_u8 (shr hi 19 AND 3),
         tex_image_width := to_u16 (hi AND 0x3FF) + 1, tex_image_addr := lo AND 0x00FFFFFF\<rparr>
      else if op = 0x3E then r\<lparr>z_image := lo AND 0x00FFFFFF\<rparr>
      else if op = 0x2D then r\<lparr>scissor_ulx := to_u16 (shr hi 12 AND 0xFFF), scissor_uly := to_u16 (hi AND 0xFFF),
         scissor_lrx := to_u16 (shr lo 12 AND 0xFFF), scissor_lry := to_u16 (lo AND 0xFFF)\<rparr>
      else r)"

definition set_colors :: "u8 \<Rightarrow> u32 \<Rightarrow> u32 \<Rightarrow> rdp \<Rightarrow> rdp" where
  "set_colors op hi lo r =
     (if op = 0x37 then r\<lparr>fill_color := lo\<rparr>
      else if op = 0x3A then r\<lparr>prim_color := lo, rdp_prim_lod_frac := to_u8 (hi AND 0xFF),
         min_level := to_u8 (shr hi 8 AND 0x1F)\<rparr>
      else if op = 0x2C then r\<lparr>rdp_k4 := to_i16 (shr lo 9 AND 0x1FF), rdp_k5 := to_i16 (lo AND 0x1FF)\<rparr>
      else if op = 0x2A then r\<lparr>
         key_width := (key_width r)[1 := to_u16 (shr hi 12 AND 0xFFF), 2 := to_u16 (hi AND 0xFFF)],
         rdp_key_center := (rdp_key_center r)[1 := to_u8 (shr lo 24), 2 := to_u8 (shr lo 8)],
         rdp_key_scale := (rdp_key_scale r)[1 := to_u8 (shr lo 16), 2 := to_u8 lo]\<rparr>
      else if op = 0x2B then r\<lparr>
         key_width := (key_width r)[0 := to_u16 (shr lo 16 AND 0xFFF)],
         rdp_key_center := (rdp_key_center r)[0 := to_u8 (shr lo 8)],
         rdp_key_scale := (rdp_key_scale r)[0 := to_u8 lo]\<rparr>
      else if op = 0x3B then r\<lparr>env_color := lo\<rparr>
      else if op = 0x39 then r\<lparr>blend_color := lo\<rparr>
      else if op = 0x38 then r\<lparr>fog_color := lo\<rparr>
      else if op = 0x2E then r\<lparr>prim_z := to_u16 (shr lo 16), prim_dz := to_u16 lo\<rparr>
      else r)"

text \<open>The command's effect: the stall it starts, the drawing state and the memory, or a panic.\<close>

definition rdp_dispatch ::
  "'b video_ops \<Rightarrow> u8 \<Rightarrow> u32 \<Rightarrow> u32 \<Rightarrow> u32 \<Rightarrow> rdp \<Rightarrow> 'b \<Rightarrow> (u32 option \<times> rdp \<times> 'b) option" where
  "rdp_dispatch ops op hi lo cmd_base r b =
     (if op = 0x26 then Some (Some SYNC_LOAD_GCLK, r, b)
      else if op = 0x27 then Some (Some SYNC_PIPE_GCLK, r, b)
      else if op = 0x28 then Some (Some SYNC_TILE_GCLK, r, b)
      else if op = 0x29 then Some (None, r, vo_raise_dp ops b)
      else if op \<in> {0x3F, 0x3D, 0x3E, 0x2D} then Some (None, set_image_modes op hi lo r, b)
      else if op \<in> {0x37, 0x3A, 0x2C, 0x2A, 0x2B, 0x3B, 0x39, 0x38, 0x2E} then Some (None, set_colors op hi lo r, b)
      else if op = 0x2F then Some (None, set_other_modes hi lo r, b)
      else if op = 0x3C then Some (None, set_combine_mode hi lo r, b)
      else if op = 0x36 then Some (None, r, fill_rectangle ops r hi lo b)
      else if op = 0x35 then Some (None, set_tile hi lo r, b)
      else if op = 0x32 then Some (None, set_tile_size hi lo r, b)
      else if op = 0x34 then Some (None, load_tile ops b hi lo r, b)
      else if op = 0x33 then Some (None, load_block ops b hi lo r, b)
      else if op = 0x30 then Some (None, load_tlut ops b hi lo r, b)
      else if op = 0x24 then Some (None, r, texture_rectangle ops r hi lo cmd_base False b)
      else if op = 0x25 then Some (None, r, texture_rectangle ops r hi lo cmd_base True b)
      else if 8 \<le> op \<and> op \<le> 0xF then map_option (Pair None) (triangle_fill ops hi lo cmd_base r b)
      else Some (None, r, b))"

text \<open>\<^verbatim>\<open>tick_with_bus\<close>: a whole command leaves the FIFO and is carried out.\<close>

definition rdp_tick_with_bus :: "'b video_ops \<Rightarrow> dpc \<Rightarrow> rdp \<Rightarrow> 'b \<Rightarrow> (dpc \<times> rdp \<times> 'b) option" where
  "rdp_tick_with_bus ops d r b =
     (case dpc_fetch (vo_read_u32 ops b) d of
        (None, d) \<Rightarrow> Some (d, r, b)
      | (Some (op, hi, lo, cmd_base), d) \<Rightarrow>
          map_option (\<lambda>(stall, r, b). (case stall of None \<Rightarrow> d | Some n \<Rightarrow> d\<lparr>rdp_stall := n\<rparr>, r, b))
            (rdp_dispatch ops op hi lo cmd_base r b))"

end
