(* ===== verification/Rdp_Memory.thy ===== *)
theory Rdp_Memory
  imports Rdp_Tri
begin

text \<open>
  What a display-processor command may write. The locale states the laws of the memory behind \<^verbatim>\<open>VideoBus\<close>:
  an address has a cell or none, a byte write changes its cell only, and the two hidden bits of a half-word
  are apart from its bytes. Inside it every drawing command of \<open>Rdp_Draw\<close> and \<open>Rdp_Tri\<close> is shown to write
  only pixels of the scissor box; the machine's bus is the instance (theory \<open>System\<close>).
\<close>

section \<open>Signed comparisons\<close>

lemma sint_smax: "sint (smax a b) = max (sint a) (sint b)"
  by (simp add: smax_def word_sless_alt max_def)

lemma sint_smin: "sint (smin a b) = min (sint a) (sint b)"
  by (auto simp: smin_def word_sless_alt min_def)

lemma sint_sclamp: "sint l \<le> sint h \<Longrightarrow> sint l \<le> sint (sclamp v l h) \<and> sint (sclamp v l h) \<le> sint h"
  by (auto simp: sclamp_def word_sless_alt)

lemma sint_small_word:
  assumes "unat (w :: 'a::len word) < 2 ^ (LENGTH('a) - 1)"
  shows "sint w = int (unat w)"
proof -
  have "uint w < 2 ^ (LENGTH('a) - 1)" "- (2 ^ (LENGTH('a) - 1)) \<le> uint w"
  proof -
    have "int (unat w) < int (2 ^ (LENGTH('a) - 1))" using assms by (simp only: of_nat_less_iff)
    then show "uint w < 2 ^ (LENGTH('a) - 1)" by simp
    show "- (2 ^ (LENGTH('a) - 1)) \<le> uint w" by (rule order_trans [OF _ uint_ge_0]) simp
  qed
  then have "sint (word_of_int (uint w) :: 'a word) = uint w"
    by (intro sint_of_int_in_range)
  then show ?thesis by simp
qed

lemma sint_shift_right: "sint (sar (w :: 'a::len word) n) = sint w div 2 ^ n"
  by (simp add: sint_signed_drop_bit_eq drop_bit_eq_div)

lemma set_range_signed: "x \<in> set (range_signed a b) \<Longrightarrow> sint a \<le> sint x \<and> sint x \<le> sint b"
proof -
  assume "x \<in> set (range_signed a b)"
  then obtain k where k: "x = word_of_int k" "sint a \<le> k" "k \<le> sint b"
    by (auto simp: range_signed_def)
  have "- (2 ^ 31) \<le> k" "k < 2 ^ 31"
    using k(2,3) sint_ge [of a] sint_lt [of b] by simp_all
  then have "sint x = k"
    by (simp add: k(1) sint_of_int_in_range)
  with k show ?thesis by simp
qed

lemma set_range_u32: "x \<in> set (range_u32 a b) \<longleftrightarrow> unat a \<le> unat x \<and> unat x < unat b"
proof
  assume "x \<in> set (range_u32 a b)"
  then obtain k where k: "x = of_nat k" "unat a \<le> k" "k < unat b"
    by (auto simp: range_u32_def)
  then have "unat x = k" using unat_u32 [of b] by (simp add: unat_of_nat_lt)
  with k show "unat a \<le> unat x \<and> unat x < unat b" by simp
next
  assume "unat a \<le> unat x \<and> unat x < unat b"
  then have "x \<in> of_nat ` {unat a..<unat b}" by (intro image_eqI [of x of_nat "unat x"]) simp_all
  then show "x \<in> set (range_u32 a b)" by (simp add: range_u32_def)
qed

lemma set_range_incl: "x \<in> set (range_incl a b) \<Longrightarrow> unat a \<le> unat x \<and> unat x \<le> unat b"
proof -
  assume "x \<in> set (range_incl a b)"
  then obtain k where k: "x = of_nat k" "unat a \<le> k" "k \<le> unat b"
    by (auto simp: range_incl_def)
  then have "unat x = k" using unat_u32 [of b] by (simp add: unat_of_nat_lt)
  with k show ?thesis by simp
qed

lemma unat_max: "unat (max a b) = max (unat a) (unat (b :: 'a::len word))"
  by (simp add: max_def word_le_nat_alt)

lemma unat_min: "unat (min a b) = min (unat a) (unat (b :: 'a::len word))"
  by (simp add: min_def word_le_nat_alt)

lemma unat_u16: "unat (w :: u16) < 65536"
  using unsigned_less [where 'a = nat and w = w] by simp

lemma unat_plus_3: "unat (to_u32 (w :: u16) + 3) = unat w + 3"
  using unat_u16 [of w] by (subst unat_add_lem [THEN iffD1]) simp_all

section \<open>Every colour has four channels\<close>

lemma length_combine [simp]: "length (combine r inp two) = 4"
  by (simp add: combine_def combine_cycle_def Let_def)

lemma length_combined_color [simp]: "length (fst (combined_color r sh tex t m l y x)) = 4"
  by (simp add: combined_color_def Let_def)

lemma length_dither_pixel [simp]: "length c = 4 \<Longrightarrow> length (dither_pixel r c x y) = 4"
  by (simp add: dither_pixel_def apply_rgb_dither_def Let_def)

lemma length_combined_pair: "combined_color r sh tex t m l y x = (c, a) \<Longrightarrow> length c = 4"
  using length_combined_color [of r sh tex t m l y x] by simp

section \<open>The footprint of a command\<close>

text \<open>A pixel of the scissor box, and the addresses of the colours and depths of the box's pixels.\<close>

definition in_scissor :: "rdp \<Rightarrow> u32 \<Rightarrow> u32 \<Rightarrow> bool" where
  "in_scissor r x y =
     (unat (scissor_ulx r) div 4 \<le> unat x \<and> unat x \<le> unat (scissor_lrx r) div 4 \<and>
      unat (scissor_uly r) div 4 \<le> unat y \<and> unat y \<le> unat (scissor_lry r) div 4)"

definition color_addr :: "rdp \<Rightarrow> u32 \<Rightarrow> u32 \<Rightarrow> u32 \<Rightarrow> u32" where
  "color_addr r bpp x y = color_image r + y * (to_u32 (color_image_width r) * bpp) + x * bpp"

definition drawable :: "rdp \<Rightarrow> u32 set" where
  "drawable r =
     {color_addr r bpp x y + of_nat i |bpp x y i.
        color_image_bpp r = Some bpp \<and> in_scissor r x y \<and> i < unat bpp} \<union>
     {zbuffer_addr r x y + of_nat i |x y i. in_scissor r x y \<and> i < 2}"

lemma color_drawable:
  "color_image_bpp r = Some bpp \<Longrightarrow> in_scissor r x y \<Longrightarrow> i < unat bpp \<Longrightarrow> color_addr r bpp x y + of_nat i \<in> drawable r"
  unfolding drawable_def by blast

lemma depth_drawable:
  "in_scissor r x y \<Longrightarrow> i < 2 \<Longrightarrow> zbuffer_addr r x y + of_nat i \<in> drawable r"
  unfolding drawable_def by blast

lemma color_image_bpp_max_level [simp]: "color_image_bpp (r\<lparr>max_level := v\<rparr>) = color_image_bpp r"
  by (simp add: color_image_bpp_def)

lemma drawable_max_level [simp]: "drawable (r\<lparr>max_level := v\<rparr>) = drawable r"
  by (simp add: drawable_def in_scissor_def color_addr_def zbuffer_addr_def)

lemma clip_in_scissor:
  assumes "clip_rectangle r hi lo = Some (x0, y0, x1, y1)" "x \<in> set (range_u32 x0 x1)" "y \<in> set (range_u32 y0 y1)"
  shows "in_scissor r x y"
proof -
  have x0: "unat (scissor_ulx r) div 4 \<le> unat x0" and y0: "unat (scissor_uly r) div 4 \<le> unat y0"
    and x1: "unat x1 \<le> unat (shr (to_u32 (scissor_lrx r)) 2 + 1)" and y1: "unat y1 \<le> (unat (scissor_lry r) + 3) div 4"
    using assms(1)
    by (auto simp: clip_rectangle_def Let_def unat_max unat_min unat_plus_3 unat_shr split: if_splits)
  have "unat (shr (to_u32 (scissor_lrx r)) 2 + 1) \<le> unat (scissor_lrx r) div 4 + 1"
    by (simp add: unat_word_ariths unat_shr mod_less_eq_dividend)
  with x0 y0 x1 y1 assms(2,3) show ?thesis
    unfolding in_scissor_def set_range_u32 by linarith
qed

lemma texture_in_scissor:
  assumes "x \<in> set (range_incl (max a (shr (to_u32 (scissor_ulx r)) 2))
                (min b (saturating_pred (shr (to_u32 (scissor_lrx r) + 3) 2))))"
    and "y \<in> set (range_incl (max c (shr (to_u32 (scissor_uly r)) 2))
                (min d (saturating_pred (shr (to_u32 (scissor_lry r) + 3) 2))))"
  shows "in_scissor r x y"
proof -
  have pred: "unat (saturating_pred (shr (to_u32 (w :: u16) + 3) 2)) \<le> unat w div 4" for w
  proof (cases "shr (to_u32 w + 3) 2 = 0")
    case True
    then show ?thesis by (simp add: saturating_pred_def)
  next
    case False
    then have "unat (shr (to_u32 w + 3) 2 - 1) = unat (shr (to_u32 w + 3) 2) - 1"
      by (metis unat_minus_one)
    then show ?thesis using False by (simp add: saturating_pred_def unat_plus_3 unat_shr)
  qed
  show ?thesis
    using set_range_incl [OF assms(1)] set_range_incl [OF assms(2)] pred [of "scissor_lrx r"] pred [of "scissor_lry r"]
    unfolding in_scissor_def unat_max unat_min unat_shr by simp
qed

text \<open>The edges of a triangle's line stay between the scissor's sides, in eighths of a pixel.\<close>

definition edges_in :: "rdp \<Rightarrow> line_walk \<Rightarrow> bool" where
  "edges_in r lw \<longleftrightarrow> length (lw_xleft lw) = 4 \<and> length (lw_xright lw) = 4 \<and>
     (\<forall>i<4. 2 * uint (scissor_ulx r) \<le> sint (lw_xleft lw ! i) \<and>
            sint (lw_xright lw ! i) \<le> 2 * uint (scissor_lrx r))"

lemma uint_u16: "uint (w :: u16) < 65536"
  using unsigned_less [where 'a = int and w = w] by simp

lemma sint_doubled: "sint (shl (to_u32 (w :: u16)) 1) = 2 * uint w"
proof -
  have "unat (shl (to_u32 w) 1) = 2 * unat w"
    using unat_u16 [of w] unat_shl [of "to_u32 w" 1] by simp
  then show ?thesis using unat_u16 [of w] sint_small_word [of "shl (to_u32 w) 1"] by simp
qed

lemma checked_clamp_bounds:
  "checked_clamp v l h = Some e \<Longrightarrow> sint l \<le> sint e \<and> sint e \<le> sint h"
  using sint_sclamp [of l h v] by (auto simp: checked_clamp_def word_sless_alt split: if_splits)

lemma walk_sub_in:
  assumes "walk_sub r e ln' lw i = Some lw'" "edges_in r lw"
  shows "edges_in r lw'"
proof (cases "lw_xleft lw' = lw_xleft lw \<and> lw_xright lw' = lw_xright lw")
  case True
  then show ?thesis using assms(2) by (simp add: edges_in_def)
next
  case False
  then obtain el er v w where e: "lw_xleft lw' = (lw_xleft lw)[i := el]" "lw_xright lw' = (lw_xright lw)[i := er]"
    "checked_clamp v (shl (to_u32 (scissor_ulx r)) 1) (shl (to_u32 (scissor_lrx r)) 1) = Some el"
    "checked_clamp w (shl (to_u32 (scissor_ulx r)) 1) (shl (to_u32 (scissor_lrx r)) 1) = Some er"
    using assms(1) by (auto simp: walk_sub_def Let_def split: if_splits prod.splits option.splits)
  show ?thesis
    using assms(2) checked_clamp_bounds [OF e(3)] checked_clamp_bounds [OF e(4)]
    unfolding sint_doubled
    by (cases "i < 4") (auto simp: edges_in_def e nth_list_update list_update_beyond)
qed

lemma foldl_option_inv:
  assumes "foldl_option f s xs = Some t" "P s" "\<And>x s t. x \<in> set xs \<Longrightarrow> f s x = Some t \<Longrightarrow> P s \<Longrightarrow> P t"
  shows "P t"
  using assms by (induction xs arbitrary: s) (auto simp: bind_eq_Some_conv)

lemma foldl_option_None:
  "foldl_option f s xs = None \<Longrightarrow> \<exists>x\<in>set xs. \<exists>t. f t x = None"
  by (induction xs arbitrary: s) (auto simp: bind_eq_None_conv)

lemma walk_line_in:
  assumes "walk_line r e ln' = Some lw"
  shows "edges_in r lw"
  using assms unfolding walk_line_def
proof (rule foldl_option_inv [where P = "edges_in r"])
  show "edges_in r \<lparr>lw_l = 0x7FFFFFFF, lw_r = 0x80000000, lw_xleft = replicate 4 SPAN_X_POISON_LEFT,
      lw_xright = replicate 4 SPAN_X_POISON_RIGHT\<rparr>"
    using uint_u16 [of "scissor_ulx r"] order_trans [OF _ uint_ge_0 [of "scissor_lrx r"], of "- 1073741824"]
    by (simp add: edges_in_def SPAN_X_POISON_LEFT_def SPAN_X_POISON_RIGHT_def)
qed (blast intro: walk_sub_in)

lemma sint_min4: "sint (min4 v) = min (min (min (sint (v ! 0)) (sint (v ! 1))) (sint (v ! 2))) (sint (v ! 3))"
  by (simp add: min4_def sint_smin)

lemma sint_max4: "sint (max4 v) = max (max (max (sint (v ! 0)) (sint (v ! 1))) (sint (v ! 2))) (sint (v ! 3))"
  by (simp add: max4_def sint_smax)

lemma unat_of_sint: "0 \<le> sint (w :: i32) \<Longrightarrow> int (unat w) = sint w"
proof (cases "unat w < 2 ^ 31")
  case False
  then have "int 2147483648 \<le> int (unat w)" by (simp only: of_nat_le_iff) simp
  then have "2147483648 \<le> uint w" by simp
  moreover have "uint w < 4294967296" using unsigned_less [where 'a = int and w = w] by simp
  ultimately have "sint (word_of_int (uint w - 4294967296) :: i32) = uint w - 4294967296"
    by (intro sint_of_int_in_range) simp_all
  moreover have "(word_of_int (uint w - 4294967296) :: i32) = w" by simp
  ultimately have "sint w = uint w - 4294967296" by (simp only:)
  then have "sint w < 0" using \<open>uint w < 4294967296\<close> by simp
  moreover assume "0 \<le> sint w"
  ultimately show ?thesis by simp
qed (simp add: sint_small_word)

lemma span_in_scissor:
  assumes "edges_in r lw" "line_span r lw = (x0, x1)" "x \<in> set (range_signed x0 x1)"
  shows "unat (scissor_ulx r) div 4 \<le> unat x \<and> unat x \<le> unat (scissor_lrx r) div 4"
proof -
  have x: "sint x0 \<le> sint x" "sint x \<le> sint x1" using set_range_signed [OF assms(3)] by simp_all
  have e: "2 * uint (scissor_ulx r) \<le> sint (lw_xleft lw ! i)" "sint (lw_xright lw ! i) \<le> 2 * uint (scissor_lrx r)"
    if "i < 4" for i using assms(1) that by (simp_all add: edges_in_def)
  have quarter: "sint (shr (to_u32 (w :: u16)) 2) = uint w div 4" for w
    using unat_u16 [of w] sint_small_word [of "shr (to_u32 w) 2"] by (simp add: unat_shr zdiv_int)
  have lo: "uint (scissor_ulx r) div 4 \<le> sint x0 \<and> 0 \<le> sint x0" and hi: "sint x1 \<le> uint (scissor_lrx r) div 4"
    using assms(2) e [of 0] e [of 1] e [of 2] e [of 3]
    by (auto simp: line_span_def Let_def sint_smax sint_smin sint_min4 sint_max4 sint_shift_right quarter split: if_splits)
  have "0 \<le> sint x" using lo x by simp
  then have "int (unat x) = sint x" by (rule unat_of_sint)
  then have "int (unat (scissor_ulx r) div 4) \<le> int (unat x)" "int (unat x) \<le> int (unat (scissor_lrx r) div 4)"
    using lo hi x by (simp_all add: zdiv_int)
  then show ?thesis by (simp_all only: of_nat_le_iff)
qed

lemma line_in_scissor:
  assumes "y \<in> set (range_signed (smax v (shr (to_u32 (scissor_uly r)) 2)) (smin w (shr (to_u32 (scissor_lry r)) 2 - 1)))"
  shows "unat (scissor_uly r) div 4 \<le> unat y \<and> unat y \<le> unat (scissor_lry r) div 4"
proof -
  have quarter: "sint (shr (to_u32 (w :: u16)) 2) = uint w div 4" for w
    using unat_u16 [of w] sint_small_word [of "shr (to_u32 w) 2"] by (simp add: unat_shr zdiv_int)
  have "sint (shr (to_u32 (scissor_lry r)) 2 - 1) = uint (scissor_lry r) div 4 - 1"
    using sint_sub_overflow [of "shr (to_u32 (scissor_lry r)) 2" 1] quarter [of "scissor_lry r"]
      uint_u16 [of "scissor_lry r"] div_int_pos_iff [of "uint (scissor_lry r)" 4]
    by (auto simp: overflowing_sub_def)
  then have lo: "uint (scissor_uly r) div 4 \<le> sint y" and hi: "sint y \<le> uint (scissor_lry r) div 4 - 1"
    using set_range_signed [OF assms] by (simp_all add: sint_smax sint_smin quarter)
  have "0 \<le> sint y" using lo uint_ge_0 [of "scissor_uly r"] by (meson div_int_pos_iff order_trans zero_le_numeral)
  then have "int (unat y) = sint y" by (rule unat_of_sint)
  then have "int (unat (scissor_uly r) div 4) \<le> int (unat y)" "int (unat y) \<le> int (unat (scissor_lry r) div 4)"
    using lo hi by (simp_all add: zdiv_int)
  then show ?thesis by (simp_all only: of_nat_le_iff)
qed

locale video_memory =
  fixes ops :: "'b video_ops"
    and off :: "u32 \<Rightarrow> nat option"
    and cell :: "'b \<Rightarrow> nat \<Rightarrow> u8"
    and hidden :: "'b \<Rightarrow> nat \<Rightarrow> u8"
  assumes read_law: "vo_read ops b a = (case off a of Some k \<Rightarrow> cell b k | None \<Rightarrow> 0)"
    and write_law: "cell (vo_write ops a v b) k = (if off a = Some k then v else cell b k)"
    and hidden_read_law: "vo_read_hidden ops b a = (case off a of Some k \<Rightarrow> hidden b (k div 2) | None \<Rightarrow> 0)"
    and hidden_write_law: "hidden (vo_write_hidden ops a v b) j =
          (if \<exists>k. off a = Some k \<and> k div 2 = j then v AND 3 else hidden b j)"
    and cell_hidden_law: "cell (vo_write_hidden ops a v b) = cell b"
    and hidden_cell_law: "hidden (vo_write ops a v b) = hidden b"
    and raise_cell_law: "cell (vo_raise_dp ops b) = cell b"
    and raise_hidden_law: "hidden (vo_raise_dp ops b) = hidden b"
begin

definition within :: "u32 set \<Rightarrow> 'b \<Rightarrow> 'b \<Rightarrow> bool" where
  "within A b b' =
     ((\<forall>k. (\<forall>a\<in>A. off a \<noteq> Some k) \<longrightarrow> cell b' k = cell b k) \<and>
      (\<forall>j. (\<forall>a\<in>A. \<forall>k. off a = Some k \<longrightarrow> k div 2 \<noteq> j) \<longrightarrow> hidden b' j = hidden b j))"

lemma within_refl [simp, intro]: "within A b b"
  by (simp add: within_def)

lemma within_trans: "within A b c \<Longrightarrow> within A c d \<Longrightarrow> within A b d"
  by (simp add: within_def)

lemma within_write: "a \<in> A \<Longrightarrow> within A b c \<Longrightarrow> within A b (vo_write ops a v c)"
  by (auto simp: within_def write_law hidden_cell_law)

lemma within_write_hidden: "a \<in> A \<Longrightarrow> within A b c \<Longrightarrow> within A b (vo_write_hidden ops a v c)"
  by (auto simp: within_def hidden_write_law cell_hidden_law)

lemma within_foldl: "(\<And>x c. x \<in> set xs \<Longrightarrow> within A c (f c x)) \<Longrightarrow> within A b (foldl f b xs)"
proof (induction xs arbitrary: b)
  case Nil
  then show ?case by simp
next
  case (Cons x xs)
  have "within A b (f b x)" by (rule Cons.prems) simp
  moreover have "within A (f b x) (foldl f (f b x) xs)" by (rule Cons.IH) (simp add: Cons.prems)
  ultimately show ?case by (simp add: within_trans)
qed

lemma within_if: "(P \<Longrightarrow> within A b c) \<Longrightarrow> (\<not> P \<Longrightarrow> within A b d) \<Longrightarrow> within A b (if P then c else d)"
  by simp

lemma within_option:
  "(v = None \<Longrightarrow> within A b c) \<Longrightarrow> (\<And>x. v = Some x \<Longrightarrow> within A b (f x)) \<Longrightarrow>
   within A b (case v of None \<Rightarrow> c | Some x \<Rightarrow> f x)"
  by (cases v) simp_all

lemma within_pair: "(\<And>x y. p = (x, y) \<Longrightarrow> within A b (f x y)) \<Longrightarrow> within A b (case p of (x, y) \<Rightarrow> f x y)"
  by (cases p) simp

lemmas within_cases = within_if within_option within_pair

lemma within_write_bytes:
  "(\<And>i. i < length bytes \<Longrightarrow> a + of_nat i \<in> A) \<Longrightarrow> within A b (write_bytes ops a bytes b)"
  unfolding write_bytes_def by (rule within_foldl) (simp add: within_write)

text \<open>The pixel writers.\<close>

lemma within_fill_pixel:
  assumes "color_image_bpp r = Some bpp" "in_scissor r x y"
  shows "within (drawable r) b
           (fill_pixel ops r (color_image r + y * (to_u32 (color_image_width r) * bpp)) x bpp b)"
proof -
  note in_box = color_drawable [OF assms, unfolded color_addr_def]
  consider "bpp = 1" | "bpp = 2" | "bpp = 4"
    using assms(1) by (auto simp: color_image_bpp_def split: if_splits)
  then show ?thesis
  proof cases
    case 1
    then show ?thesis
      using in_box [of 0] by (simp add: fill_pixel_def within_write)
  next
    case 2
    then show ?thesis
      using in_box [of 0] in_box [of 1] by (simp add: fill_pixel_def within_write Let_def)
  next
    case 3
    then show ?thesis
      using in_box by (auto simp: fill_pixel_def unpack_rgba_def intro!: within_write_bytes)
  qed
qed

lemma within_write_pixel:
  assumes "color_image_bpp r = Some bpp" "in_scissor r x y" "length rgba = 4"
  shows "within (drawable r) b
           (write_pixel ops (color_image r + y * (to_u32 (color_image_width r) * bpp)) x bpp rgba b)"
proof -
  note in_box = color_drawable [OF assms(1,2), unfolded color_addr_def]
  consider "bpp = 1" | "bpp = 2" | "bpp = 4"
    using assms(1) by (auto simp: color_image_bpp_def split: if_splits)
  then show ?thesis
  proof cases
    case 1
    then show ?thesis by (simp add: write_pixel_def)
  next
    case 2
    then show ?thesis
      using in_box [of 0] in_box [of 1] by (simp add: write_pixel_def within_write Let_def)
  next
    case 3
    then show ?thesis
      using in_box assms(3) by (auto simp: write_pixel_def intro!: within_write_bytes)
  qed
qed

lemma within_write_coverage:
  assumes "color_image_bpp r = Some bpp" "in_scissor r x y"
  shows "within (drawable r) b
           (write_coverage ops (color_image r + y * (to_u32 (color_image_width r) * bpp)) x bpp c b)"
  using color_drawable [OF assms, of 0] by (auto simp: write_coverage_def color_addr_def intro: within_write_hidden)

lemma within_zbuffer_write:
  assumes "in_scissor r x y"
  shows "within (drawable r) b (zbuffer_write ops r x y z dz b)"
  using depth_drawable [OF assms, of 0] depth_drawable [OF assms, of 1]
  by (simp add: zbuffer_write_def Let_def within_write within_write_hidden)

text \<open>The spans.\<close>

lemma within_depth_pixel:
  assumes bpp: "color_image_bpp r = Some bpp" and box: "in_scissor r x ln'"
  shows "within (drawable r) b
           (depth_pixel ops r (color_image r + ln' * (to_u32 (color_image_width r) * bpp)) ln' bpp major_x y_base z cov
              shade tex base_tile x b)"
  unfolding depth_pixel_def Let_def
  by (intro within_cases within_refl within_trans [OF _ within_zbuffer_write [OF box]]
        within_trans [OF _ within_write_coverage [OF bpp box]] within_fill_pixel [OF bpp box]
        within_write_pixel [OF bpp box])
     (auto dest!: length_combined_pair split: option.split)

lemma within_color_pixel:
  assumes bpp: "color_image_bpp r = Some bpp" and box: "in_scissor r x ln'"
  shows "within (drawable r) b
           (color_pixel ops r (color_image r + ln' * (to_u32 (color_image_width r) * bpp)) ln' bpp major_x y_base xleft
              xright shade tex base_tile x b)"
  unfolding color_pixel_def Let_def
  by (intro within_cases within_refl within_trans [OF _ within_write_coverage [OF bpp box]]
        within_write_pixel [OF bpp box]) (auto split: option.split)

text \<open>The rectangles.\<close>

lemma within_draw_rows:
  assumes "\<And>x y c. x \<in> set xs \<Longrightarrow> y \<in> set ys \<Longrightarrow> within A c (draw (color_image r + y * stride) x y c)"
  shows "within A b (draw_rows draw r stride ys xs b)"
  unfolding draw_rows_def Let_def using assms by (intro within_foldl) blast

lemma within_fill_rectangle: "within (drawable r) b (fill_rectangle ops r hi lo b)"
  unfolding fill_rectangle_def Let_def
  by (intro within_cases within_refl within_draw_rows within_fill_pixel within_write_pixel)
     (auto intro: clip_in_scissor)

lemma within_texture_rectangle: "within (drawable r) b (texture_rectangle ops r hi lo base flip b)"
proof -
  have copy: "within (drawable r) c
          (copy_texel ops r tile s d p0 t sw (color_image r + y * (to_u32 (color_image_width r) * 2)) x c)"
    if "color_image_size r = 2" "in_scissor r x y" for tile s d p0 t sw x y c
  proof -
    have "color_image_bpp r = Some 2" using that(1) by (simp add: color_image_bpp_def)
    note in_box = color_drawable [OF this that(2), unfolded color_addr_def]
    show ?thesis
      using in_box [of 0] in_box [of 1] by (simp add: copy_texel_def Let_def within_write)
  qed
  show ?thesis
    unfolding texture_rectangle_def Let_def
    by (intro within_cases within_refl within_foldl copy texture_in_scissor) (assumption | simp)+
qed

text \<open>The triangles.\<close>

lemma within_triangle_line:
  assumes bpp: "color_image_bpp r = Some bpp" and run: "triangle_line ops r e bpp t z shade tex ln' b = Some b'"
    and y: "unat (scissor_uly r) div 4 \<le> unat ln'" "unat ln' \<le> unat (scissor_lry r) div 4"
  shows "within (drawable r) b b'"
proof -
  obtain lw where lw: "walk_line r e ln' = Some lw"
    using run by (auto simp: triangle_line_def)
  obtain x0 x1 where span: "line_span r lw = (x0, x1)" by (cases "line_span r lw")
  have box: "in_scissor r x ln'" if "x \<in> set (range_signed x0 x1)" for x
    using span_in_scissor [OF walk_line_in [OF lw] span that] y by (simp add: in_scissor_def)
  have "b' = the (triangle_line ops r e bpp t z shade tex ln' b)" using run by simp
  then show ?thesis
    unfolding triangle_line_def lw depth_span_def Let_def option.map option.sel span prod.case
    by (simp only:)
       (intro within_cases within_refl within_foldl within_depth_pixel within_color_pixel within_fill_pixel bpp box;
         assumption)
qed

lemma within_triangle_fill:
  assumes "triangle_fill ops hi lo base r b = Some (r', b')"
  shows "within (drawable r) b b'"
proof -
  let ?r = "r\<lparr>max_level := to_u8 (shr hi 19 AND 7)\<rparr>"
  let ?top = "shr (to_u32 (scissor_uly r)) 2" and ?bottom = "shr (to_u32 (scissor_lry r)) 2 - 1"
  have frame: "within (drawable r) b c"
    if run: "foldl_option (\<lambda>b ln'. triangle_line ops ?r e bpp t z shade tex ln' b) b
        (range_signed (smax v ?top) (smin w ?bottom)) = Some c" and bpp: "color_image_bpp r = Some bpp"
    for e bpp t z shade tex v w c
    using run
  proof (rule foldl_option_inv [where P = "within (drawable r) b"])
    fix y d d'
    assume y: "y \<in> set (range_signed (smax v ?top) (smin w ?bottom))"
      and step: "triangle_line ops ?r e bpp t z shade tex y d = Some d'" and d: "within (drawable r) b d"
    have "unat (scissor_uly r) div 4 \<le> unat y \<and> unat y \<le> unat (scissor_lry r) div 4"
      by (rule line_in_scissor [OF y])
    then have "within (drawable ?r) d d'"
      using bpp by (intro within_triangle_line [OF _ step]) simp_all
    then show "within (drawable r) b d'" using d by (simp add: within_trans)
  qed simp
  show ?thesis
    using assms by (auto simp: triangle_fill_def Let_def intro: frame split: option.splits if_splits)
qed

text \<open>Every command, from any state: what it may write, and that only a triangle under a reversed scissor panics.\<close>

lemma within_raise: "within A b (vo_raise_dp ops b)"
  by (simp add: within_def raise_cell_law raise_hidden_law)

lemma within_dispatch:
  assumes "rdp_dispatch ops op hi lo base r b = Some (stall, r', b')"
  shows "within (drawable r) b b'"
proof (cases "8 \<le> op \<and> op \<le> 0xF")
  case True
  then have "triangle_fill ops hi lo base r b = Some (r', b')"
    using assms by (auto simp: rdp_dispatch_def split: if_splits)
  then show ?thesis by (rule within_triangle_fill)
next
  case False
  then show ?thesis
    using assms within_raise within_fill_rectangle within_texture_rectangle
    by (auto simp: rdp_dispatch_def split: if_splits)
qed

end

lemma walk_sub_panic: "walk_sub r e ln' lw i = None \<Longrightarrow> scissor_lrx r < scissor_ulx r"
  by (auto simp: walk_sub_def Let_def checked_clamp_def word_sless_alt sint_doubled [simplified] word_less_def
      split: if_splits prod.splits option.splits)

lemma triangle_panic:
  assumes "triangle_fill ops hi lo base r b = None"
  shows "scissor_lrx r < scissor_ulx r"
proof -
  obtain r' e bpp t z shade tex y c where
    r': "r' = r\<lparr>max_level := to_u8 (shr hi 19 AND 7)\<rparr>" and "triangle_line ops r' e bpp t z shade tex y c = None"
    using assms
    by (auto simp: triangle_fill_def Let_def dest!: foldl_option_None split: option.splits if_splits)
  then have "walk_line r' e y = None" by (simp add: triangle_line_def)
  then obtain i lw where "walk_sub r' e y lw i = None"
    by (auto simp: walk_line_def dest: foldl_option_None)
  then show ?thesis using walk_sub_panic r' by force
qed

lemma dispatch_panic:
  assumes "rdp_dispatch ops op hi lo base r b = None"
  shows "8 \<le> op \<and> op \<le> 0xF \<and> scissor_lrx r < scissor_ulx r"
  using assms triangle_panic by (auto simp: rdp_dispatch_def split: if_splits)

end
