(* ===== verification/System.thy ===== *)
theory System
  imports Rdp_Memory Su Bus Fast
begin

text \<open>
  The whole machine and its clock: \<^verbatim>\<open>rustyn64-core/src/scheduler.rs\<close>, the coprocessor ticks of \<^verbatim>\<open>bus.rs\<close> and
  the reports of \<^verbatim>\<open>fastpath.rs\<close>. One master tick counter drives the processor on every second tick and the
  coprocessor on every third, each with a phase drawn from the seed. There are three schedulers: by edges
  (\<^verbatim>\<open>run_until\<close>), by blocks of edges (\<^verbatim>\<open>run_until_fast\<close>) and by instructions (\<^verbatim>\<open>run_until_exec\<close>). The sample
  loop of the audio interface and the instruction engine may not return, and a triangle may panic, which
  aborts the program: a step is an \<open>option\<close>, \<open>None\<close> in each of these cases.
\<close>

definition CPU_HZ :: u64 where "CPU_HZ = 93750000"
definition RCP_HZ :: u64 where "RCP_HZ = 62500000"
definition CPU_DIVIDER :: u64 where "CPU_DIVIDER = 2"
definition RCP_DIVIDER :: u64 where "RCP_DIVIDER = 3"
definition COUNT_DIVIDER :: u64 where "COUNT_DIVIDER = 4"

fun word_gcd :: "nat \<Rightarrow> nat \<Rightarrow> nat" where
  "word_gcd a b = (if b = 0 then a else word_gcd b (a mod b))"

declare word_gcd.simps [simp del]

definition EDGE_PERIOD :: u64 where
  "EDGE_PERIOD = CPU_DIVIDER div of_nat (word_gcd (unat CPU_DIVIDER) (unat RCP_DIVIDER)) * RCP_DIVIDER"

section \<open>Phases\<close>

definition next_u64 :: "u64 \<Rightarrow> u64 \<times> u64" where
  "next_u64 state =
     (let state = state + 0x9E3779B97F4A7C15; z = state;
          z = (z XOR shr z 30) * 0xBF58476D1CE4E5B9;
          z = (z XOR shr z 27) * 0x94D049BB133111EB
      in (z XOR shr z 31, state))"

record phases =
  ph_cpu :: u64
  ph_rcp :: u64

definition from_seed :: "u64 \<Rightarrow> phases" where
  "from_seed seed = (let (a, rng) = next_u64 seed; (b, rng) = next_u64 rng
     in \<lparr>ph_cpu = a mod CPU_DIVIDER, ph_rcp = b mod RCP_DIVIDER\<rparr>)"

section \<open>The machine\<close>

record system =
  sy_cpu :: cpu
  sy_bus :: bus
  sy_draw :: rdp
  sy_ticks :: u64
  sy_phases :: phases
  sy_seed :: u64
  sy_rcp_steps :: u64

definition system_new :: "u64 \<Rightarrow> system" where
  "system_new seed = \<lparr>sy_cpu = cpu_new, sy_bus = bus_new, sy_draw = rdp_new, sy_ticks = 0,
     sy_phases = from_seed seed, sy_seed = seed, sy_rcp_steps = 0\<rparr>"

definition system_reset :: "system \<Rightarrow> system" where
  "system_reset s = s\<lparr>sy_phases := from_seed (sy_seed s), sy_ticks := 0, sy_cpu := cpu_new,
     sy_bus := reset_boot_latches ((sy_bus s)\<lparr>b_vi := reset_scan (b_vi (sy_bus s))\<rparr>)\<rparr>"

definition cpu_cycles :: "system \<Rightarrow> u64" where
  "cpu_cycles s = (sy_ticks s + ph_cpu (sy_phases s)) div CPU_DIVIDER"

definition rcp_cycles :: "system \<Rightarrow> u64" where
  "rcp_cycles s = (sy_ticks s + ph_rcp (sy_phases s)) div RCP_DIVIDER"

definition count_ticks :: "system \<Rightarrow> u64" where
  "count_ticks s = (sy_ticks s + ph_cpu (sy_phases s)) div COUNT_DIVIDER"

section \<open>Coprocessor ticks\<close>

definition bus_rsp_tick :: "bus \<Rightarrow> bus" where
  "bus_rsp_tick b =
     (let (out, r) = rsp_tick_one (b_rsp b);
          b = b\<lparr>b_rsp := r\<rparr>;
          b = (case sr_interrupt out of None \<Rightarrow> b | Some raise \<Rightarrow> set_intr (mi_sp_update (\<lambda>_. raise)) b);
          b = (case sr_dma out of None \<Rightarrow> b | Some d \<Rightarrow> sp_dma d b)
      in case sr_dp_write out of None \<Rightarrow> b | Some (off, val) \<Rightarrow> b\<lparr>b_rdp := dpc_write (to_u32 off) val (b_rdp b)\<rparr>)"

definition video_bus :: "bus video_ops" where
  "video_bus = \<lparr>vo_read = rdram_read, vo_write = rdram_write, vo_read_u32 = rdram_read_u32,
     vo_read_hidden = rdram_read_hidden, vo_write_hidden = rdram_write_hidden,
     vo_raise_dp = set_intr (mi_dp_update (\<lambda>_. True))\<rparr>"

text \<open>The bus keeps the laws of a video memory: RDRAM's bytes, and two hidden bits per half-word.\<close>

definition hidden_bits :: "bus \<Rightarrow> nat \<Rightarrow> u8" where
  "hidden_bits b j = (case rdram_hidden b of None \<Rightarrow> 0 | Some h \<Rightarrow> shr (h (j div 4)) (j mod 4 * 2) AND 3)"

lemma hidden_pair:
  assumes "i < 4" "j < 4"
  shows "shr ((w AND NOT (shl 3 (i * 2))) OR shl (v AND 3) (i * 2)) (j * 2) AND (3 :: u8) =
    (if i = j then v AND 3 else shr w (j * 2) AND 3)"
proof -
  have three: "(3 :: u8) = mask 2" by (simp add: mask_eq_decr_exp)
  show ?thesis
  proof (rule bit_word_eqI)
    fix n assume "n < LENGTH(8)"
    then show "bit (shr ((w AND NOT (shl 3 (i * 2))) OR shl (v AND 3) (i * 2)) (j * 2) AND 3) n =
        bit (if i = j then v AND 3 else shr w (j * 2) AND 3) n"
      using assms unfolding three by (auto simp: bit_simps)
  qed
qed

interpretation vm: video_memory video_bus rdram_offset rdram hidden_bits
proof
  fix b :: bus and a v k j
  show "vo_read video_bus b a = (case rdram_offset a of Some k \<Rightarrow> rdram b k | None \<Rightarrow> 0)"
    by (simp add: video_bus_def rdram_read_def)
  show "rdram (vo_write video_bus a v b) k = (if rdram_offset a = Some k then v else rdram b k)"
    by (auto simp: video_bus_def rdram_write_def split: option.split)
  show "vo_read_hidden video_bus b a = (case rdram_offset a of Some k \<Rightarrow> hidden_bits b (k div 2) | None \<Rightarrow> 0)"
    by (simp add: video_bus_def rdram_read_hidden_def hidden_bits_def Let_def split: option.split)
  have slot: "k div 4 = j div 4 \<and> k mod 4 = j mod 4 \<longleftrightarrow> k = j" for k j :: nat
    by (metis div_mult_mod_eq)
  show "hidden_bits (vo_write_hidden video_bus a v b) j =
      (if \<exists>k. rdram_offset a = Some k \<and> k div 2 = j then v AND 3 else hidden_bits b j)"
  proof (cases "rdram_offset a")
    case None
    then show ?thesis by (simp add: video_bus_def rdram_write_hidden_def)
  next
    case (Some k)
    define hid where "hid = (case rdram_hidden b of Some h \<Rightarrow> h | None \<Rightarrow> (\<lambda>_. 0))"
    define m where "m = k div 2"
    have old: "hidden_bits b j = shr (hid (j div 4)) (j mod 4 * 2) AND 3"
      by (cases "rdram_hidden b") (simp_all add: hidden_bits_def hid_def)
    have new: "hidden_bits (vo_write_hidden video_bus a v b) j =
        shr ((hid(m div 4 := (hid (m div 4) AND NOT (shl 3 (m mod 4 * 2))) OR shl (v AND 3) (m mod 4 * 2))) (j div 4))
          (j mod 4 * 2) AND 3"
      by (simp only: video_bus_def video_ops.simps rdram_write_hidden_def Some option.case Let_def hid_def [symmetric]
          m_def [symmetric] hidden_bits_def) simp
    show ?thesis
    proof (cases "m div 4 = j div 4")
      case True
      then show ?thesis
        unfolding new old using hidden_pair [of "m mod 4" "j mod 4" "hid (j div 4)" v] slot [of m j] Some
        by (simp add: m_def)
    next
      case False
      then show ?thesis unfolding new old using Some by (auto simp: m_def)
    qed
  qed
  show "rdram (vo_write_hidden video_bus a v b) = rdram b"
    by (simp add: video_bus_def rdram_write_hidden_def Let_def split: option.split)
  show "hidden_bits (vo_write video_bus a v b) = hidden_bits b"
    by (rule ext) (simp add: video_bus_def rdram_write_def hidden_bits_def split: option.split)
  show "rdram (vo_raise_dp video_bus b) = rdram b" by (simp add: video_bus_def)
  show "hidden_bits (vo_raise_dp video_bus b) = hidden_bits b" by (rule ext) (simp add: video_bus_def hidden_bits_def)
qed

definition bus_rdp_tick :: "rdp \<times> bus \<Rightarrow> (rdp \<times> bus) option" where
  "bus_rdp_tick = (\<lambda>(r, b).
     case dpc_tick_without_bus (b_rdp b) of
       (False, d) \<Rightarrow> Some (r, b\<lparr>b_rdp := d\<rparr>)
     | (True, d) \<Rightarrow> map_option (\<lambda>(d, r, b). (r, b\<lparr>b_rdp := d\<rparr>)) (rdp_tick_with_bus video_bus d r b))"

definition step_rcp :: "system \<Rightarrow> system option" where
  "step_rcp s =
     Option.bind (bus_rdp_tick (sy_draw s, bus_rsp_tick (sy_bus s))) (\<lambda>(r, b).
       map_option (\<lambda>b.
           let b = pi_tick b; (fired, v) = vi_tick (sy_ticks s) (b_vi b); b = b\<lparr>b_vi := v\<rparr>;
               b = (if fired then set_intr (mi_vi_update (\<lambda>_. True)) b else b)
           in s\<lparr>sy_rcp_steps := sy_rcp_steps s + 1, sy_draw := r, sy_bus := b\<rparr>) (audio_tick (sy_ticks s) b))"

section \<open>Edges\<close>

definition is_edge :: "u64 \<Rightarrow> u64 \<Rightarrow> u64 \<Rightarrow> bool" where
  "is_edge tick phase divider = ((tick + phase) mod divider = 0)"

definition next_edge_after :: "u64 \<Rightarrow> u64 \<Rightarrow> u64 \<Rightarrow> u64" where
  "next_edge_after tick phase divider =
     (let nxt = tick + 1; r = (nxt + phase) mod divider in if r = 0 then nxt else nxt + (divider - r))"

definition next_edge :: "system \<Rightarrow> u64" where
  "next_edge s =
     (let next_cpu = next_edge_after (sy_ticks s) (ph_cpu (sy_phases s)) CPU_DIVIDER;
          next_rcp = next_edge_after (sy_ticks s) (ph_rcp (sy_phases s)) RCP_DIVIDER
      in if next_cpu < next_rcp then next_cpu else next_rcp)"

definition tick_cpu :: "system \<Rightarrow> system" where
  "tick_cpu s =
     (if boot_nmi_halt (sy_bus s) then s
      else case cpu_tick_at system_bus (count_ticks s) (sy_cpu s, sy_bus s) of
          (c, b) \<Rightarrow> s\<lparr>sy_cpu := c, sy_bus := b\<rparr>)"

definition step_domains :: "bool \<Rightarrow> bool \<Rightarrow> system \<Rightarrow> system option" where
  "step_domains on_cpu on_rcp s =
     (let s = (if on_cpu then tick_cpu s else s) in if on_rcp then step_rcp s else Some s)"

definition step_due_here :: "system \<Rightarrow> system option" where
  "step_due_here s =
     step_domains (is_edge (sy_ticks s) (ph_cpu (sy_phases s)) CPU_DIVIDER)
       (is_edge (sy_ticks s) (ph_rcp (sy_phases s)) RCP_DIVIDER) s"

definition step_to_next_edge :: "system \<Rightarrow> (u64 \<times> system) option" where
  "step_to_next_edge s = map_option (\<lambda>s. (sy_ticks s, s)) (step_due_here (s\<lparr>sy_ticks := next_edge s\<rparr>))"

definition reach :: "u64 \<Rightarrow> system \<Rightarrow> system" where
  "reach target s = (if sy_ticks s < target then s\<lparr>sy_ticks := target\<rparr> else s)"

partial_function (option) run_until :: "u64 \<Rightarrow> system \<Rightarrow> system option" where
  "run_until target s =
     (if next_edge s \<le> target
      then Option.bind (step_due_here (s\<lparr>sy_ticks := next_edge s\<rparr>)) (run_until target)
      else Some (reach target s))"

section \<open>Reports\<close>

datatype bail_out = PartialPeriodTail

definition bail_bit :: "bail_out \<Rightarrow> nat" where
  "bail_bit r = (case r of PartialPeriodTail \<Rightarrow> 0)"

definition bail_insert :: "bail_out \<Rightarrow> u32 \<Rightarrow> u32" where
  "bail_insert r s = s OR shl 1 (bail_bit r)"

definition bail_contains :: "u32 \<Rightarrow> bail_out \<Rightarrow> bool" where
  "bail_contains s r = (s AND shl 1 (bail_bit r) \<noteq> 0)"

definition bail_union :: "u32 \<Rightarrow> u32 \<Rightarrow> u32" where
  "bail_union a b = a OR b"

record fast_run_report =
  work_units :: u64
  bailed :: u32

definition report_default :: fast_run_report where
  "report_default = \<lparr>work_units = 0, bailed = 0\<rparr>"

section \<open>The block scheduler\<close>

definition edge_pattern :: "system \<Rightarrow> (bool \<times> bool) list" where
  "edge_pattern s = map (\<lambda>i.
     let t = sat_add (sy_ticks s) (of_nat i + 1)
     in (is_edge t (ph_cpu (sy_phases s)) CPU_DIVIDER, is_edge t (ph_rcp (sy_phases s)) RCP_DIVIDER))
     [0..<unat EDGE_PERIOD]"

fun run_pattern :: "(bool \<times> bool) list \<Rightarrow> u64 \<Rightarrow> system \<Rightarrow> system option" where
  "run_pattern [] t s = Some s"
| "run_pattern ((c, r) # pattern) t s =
     Option.bind (if c \<or> r then step_domains c r (s\<lparr>sy_ticks := t + 1\<rparr>) else Some s) (run_pattern pattern (t + 1))"

partial_function (option) run_blocks ::
  "(bool \<times> bool) list \<Rightarrow> u64 \<Rightarrow> u64 \<Rightarrow> u64 \<Rightarrow> system \<Rightarrow> (u64 \<times> u64 \<times> system) option" where
  "run_blocks pattern target base blocks s =
     (if base \<le> - 1 - EDGE_PERIOD \<and> base + EDGE_PERIOD \<le> target
      then Option.bind (run_pattern pattern base s)
             (run_blocks pattern target (base + EDGE_PERIOD) (blocks + 1))
      else Some (base, blocks, s))"

definition run_until_fast :: "u64 \<Rightarrow> system \<Rightarrow> (fast_run_report \<times> system) option" where
  "run_until_fast target s =
     (if target \<le> sy_ticks s then Some (report_default, s)
      else Option.bind (run_blocks (edge_pattern s) target (sy_ticks s) 0 s)
        (\<lambda>(base, blocks, s).
           map_option (\<lambda>s. (\<lparr>work_units = blocks,
               bailed = (if target > base then bail_insert PartialPeriodTail 0 else 0)\<rparr>, s))
             (run_until target s)))"

section \<open>The instruction scheduler\<close>

text \<open>The coprocessor catches up to the end of the instruction.\<close>

partial_function (option) catch_up :: "u64 \<Rightarrow> u64 \<times> system \<Rightarrow> (u64 \<times> system) option" where
  "catch_up end_tick s =
     (if fst s \<le> end_tick
      then Option.bind (step_rcp ((snd s)\<lparr>sy_ticks := fst s\<rparr>))
             (\<lambda>q. catch_up end_tick (next_edge_after (fst s) (ph_rcp (sy_phases q)) RCP_DIVIDER, q))
      else Some s)"

definition PAIR_TICKS :: u64 where "PAIR_TICKS = 2 * CPU_DIVIDER"

partial_function (option) idle_loop :: "u64 \<Rightarrow> u64 \<Rightarrow> u64 \<times> system \<Rightarrow> (u64 \<times> system) option" where
  "idle_loop pairs completed s =
     (if completed < pairs
      then let end_tick = sy_ticks (snd s) + PAIR_TICKS
        in Option.bind (catch_up end_tick s)
             (\<lambda>q. let q' = (snd q)\<lparr>sy_ticks := end_tick\<rparr>
                 in if bus_poll_irq (sy_bus q') \<or> boot_nmi_halt (sy_bus q') then Some (completed + 1, q')
                    else idle_loop pairs (completed + 1) (fst q, q'))
      else Some (completed, snd s))"

definition saturating_sub :: "u64 \<Rightarrow> u64 \<Rightarrow> u64" where
  "saturating_sub a b = (if a < b then 0 else a - b)"

definition run_idle_batch :: "u64 \<Rightarrow> fast_run_report \<times> system \<Rightarrow> (fast_run_report \<times> system) option" where
  "run_idle_batch target = (\<lambda>(report, s).
     let room = saturating_sub target (sy_ticks s) div PAIR_TICKS;
         pairs = min room (cpu_ticks_until_timer_match (sy_cpu s))
     in if pairs = 0 then Some (report, s)
        else map_option (\<lambda>(completed, s).
            (report\<lparr>work_units := sat_add (work_units report) completed\<rparr>,
             s\<lparr>sy_cpu := retire_idle_pairs completed (sy_cpu s)\<rparr>))
          (idle_loop pairs 0 (next_edge_after (sy_ticks s) (ph_rcp (sy_phases s)) RCP_DIVIDER, s)))"

text \<open>One instruction and what the coprocessor does meanwhile; \<open>Inl\<close> is the loop's \<^verbatim>\<open>break\<close>.\<close>

definition exec_iteration ::
  "u64 \<Rightarrow> fast_run_report \<times> system \<Rightarrow> (fast_run_report \<times> system + fast_run_report \<times> system) option" where
  "exec_iteration target = (\<lambda>(report, s).
     if boot_nmi_halt (sy_bus s) then
       let nxt = next_edge_after (sy_ticks s) (ph_rcp (sy_phases s)) RCP_DIVIDER
       in if nxt > target then Some (Inl (report, s))
          else map_option (\<lambda>s. Inr (report, s)) (step_rcp (s\<lparr>sy_ticks := nxt\<rparr>))
     else
       Option.bind (step_instruction_at system_bus (count_ticks s) (sy_cpu s, sy_bus s)) (\<lambda>(cost, c, b).
         let s = s\<lparr>sy_cpu := c, sy_bus := b\<rparr>;
             report = report\<lparr>work_units := sat_add (work_units report) 1\<rparr>;
             span = to_u64 (max cost 1) * CPU_DIVIDER;
             end_tick = sy_ticks s + span
         in if end_tick < sy_ticks s then Some (Inl (report, s))
            else Option.bind (catch_up end_tick (next_edge_after (sy_ticks s) (ph_rcp (sy_phases s)) RCP_DIVIDER, s))
              (\<lambda>(_, s).
                 let s = s\<lparr>sy_ticks := end_tick\<rparr>
                 in if is_parked_in_idle_loop (sy_cpu s) then map_option Inr (run_idle_batch target (report, s))
                    else Some (Inr (report, s)))))"

partial_function (option) exec_loop :: "u64 \<Rightarrow> fast_run_report \<times> system \<Rightarrow> (fast_run_report \<times> system) option" where
  "exec_loop target x =
     (if sy_ticks (snd x) < target
      then Option.bind (exec_iteration target x) (\<lambda>y. case y of Inl z \<Rightarrow> Some z | Inr z \<Rightarrow> exec_loop target z)
      else Some x)"

definition run_until_exec :: "u64 \<Rightarrow> system \<Rightarrow> (fast_run_report \<times> system) option" where
  "run_until_exec target s = map_option (\<lambda>(report, s). (report, reach target s)) (exec_loop target (report_default, s))"

end
