(* ===== verification/Sched.thy ===== *)
theory Sched
  imports System
begin

text \<open>
  The schedulers against a plain clock. \<open>clock n\<close> advances the master counter tick by tick and steps the
  domains whose edge each tick is; \<^verbatim>\<open>run_until\<close>, which jumps from edge to edge, and \<^verbatim>\<open>run_until_fast\<close>,
  which replays a six-tick pattern, are both that clock. The hypotheses keep the 64-bit counter from
  wrapping: at 187.5 MHz that is three thousand years.
\<close>

section \<open>What a step keeps\<close>

lemma step_rcp_frame:
  assumes "step_rcp s = Some s'"
  shows "sy_ticks s' = sy_ticks s" "sy_phases s' = sy_phases s" "sy_rcp_steps s' = sy_rcp_steps s + 1"
    "sy_cpu s' = sy_cpu s"
proof -
  obtain r b where "s' = s\<lparr>sy_rcp_steps := sy_rcp_steps s + 1, sy_draw := r, sy_bus := b\<rparr>"
    using assms by (auto simp: step_rcp_def Let_def case_prod_beta bind_eq_Some_conv)
  then show "sy_ticks s' = sy_ticks s" "sy_phases s' = sy_phases s" "sy_rcp_steps s' = sy_rcp_steps s + 1"
    "sy_cpu s' = sy_cpu s" by simp_all
qed

lemma tick_cpu_frame [simp]:
  "sy_ticks (tick_cpu s) = sy_ticks s" "sy_phases (tick_cpu s) = sy_phases s"
  "sy_rcp_steps (tick_cpu s) = sy_rcp_steps s"
  by (simp_all add: tick_cpu_def split: prod.split)

lemma step_domains_frame:
  assumes "step_domains c r s = Some s'"
  shows "sy_ticks s' = sy_ticks s" "sy_phases s' = sy_phases s" "sy_rcp_steps s' = sy_rcp_steps s + of_bool r"
  using assms step_rcp_frame[of "if c then tick_cpu s else s" s']
  by (auto simp: step_domains_def Let_def split: if_splits)

lemma step_domains_none [simp]: "step_domains False False s = Some s"
  by (simp add: step_domains_def)

lemma step_due_here_frame:
  assumes "step_due_here s = Some s'"
  shows "sy_ticks s' = sy_ticks s" "sy_phases s' = sy_phases s"
    "sy_rcp_steps s' = sy_rcp_steps s + of_bool (is_edge (sy_ticks s) (ph_rcp (sy_phases s)) RCP_DIVIDER)"
  using step_domains_frame[OF assms[unfolded step_due_here_def]] by simp_all

section \<open>Edges in the integers\<close>

definition phases_ok :: "phases \<Rightarrow> bool" where
  "phases_ok p \<longleftrightarrow> unat (ph_cpu p) < 2 \<and> unat (ph_rcp p) < 3"

lemma from_seed_ok: "phases_ok (from_seed seed)"
  by (simp add: phases_ok_def from_seed_def CPU_DIVIDER_def RCP_DIVIDER_def case_prod_beta unat_mod_distrib)

definition cpu_edge :: "phases \<Rightarrow> nat \<Rightarrow> bool" where
  "cpu_edge p t \<longleftrightarrow> (t + unat (ph_cpu p)) mod 2 = 0"

definition rcp_edge :: "phases \<Rightarrow> nat \<Rightarrow> bool" where
  "rcp_edge p t \<longleftrightarrow> (t + unat (ph_rcp p)) mod 3 = 0"

lemma is_edge_nat:
  assumes "unat t + unat p < 2 ^ 64"
  shows "is_edge t p d \<longleftrightarrow> (unat t + unat p) mod unat d = 0"
proof -
  have "unat (t + p) = unat t + unat p" using assms by (simp add: unat_word_ariths)
  then have "unat ((t + p) mod d) = (unat t + unat p) mod unat d" by (simp add: unat_mod_distrib)
  then show ?thesis unfolding is_edge_def by (metis unat_eq_zero)
qed

lemma edges_nat:
  assumes "phases_ok p" "unat t + 3 < 2 ^ 64"
  shows "is_edge t (ph_cpu p) CPU_DIVIDER \<longleftrightarrow> cpu_edge p (unat t)"
    and "is_edge t (ph_rcp p) RCP_DIVIDER \<longleftrightarrow> rcp_edge p (unat t)"
proof -
  have b: "unat t + unat (ph_cpu p) < 2 ^ 64" "unat t + unat (ph_rcp p) < 2 ^ 64"
    using assms unfolding phases_ok_def by linarith+
  show "is_edge t (ph_cpu p) CPU_DIVIDER \<longleftrightarrow> cpu_edge p (unat t)"
    unfolding is_edge_nat[OF b(1)] by (simp add: cpu_edge_def CPU_DIVIDER_def)
  show "is_edge t (ph_rcp p) RCP_DIVIDER \<longleftrightarrow> rcp_edge p (unat t)"
    unfolding is_edge_nat[OF b(2)] by (simp add: rcp_edge_def RCP_DIVIDER_def)
qed

lemma mod_within:
  assumes "(x :: nat) mod d \<noteq> 0" "j < d - x mod d"
  shows "(x + j) mod d \<noteq> 0"
proof -
  have "(x + j) mod d = (x mod d + j) mod d" by (simp add: mod_add_left_eq)
  also have "\<dots> = x mod d + j" using assms(2) by simp
  finally show ?thesis using assms(1) by linarith
qed

lemma mod_complete: "0 < (d :: nat) \<Longrightarrow> (x + (d - x mod d)) mod d = 0"
proof -
  assume d: "0 < d"
  have "x + (d - x mod d) = x div d * d + d" using mod_less_divisor[OF d, of x] div_mult_mod_eq[of x d] by linarith
  then show ?thesis by simp
qed

text \<open>The next edge is the first tick after this one on which the domain's clock rises.\<close>

lemma next_edge_after_first:
  assumes "unat p < unat d" "unat d \<le> 3" "unat t + 8 < 2 ^ 64"
  shows "unat t < unat (next_edge_after t p d)" "unat (next_edge_after t p d) \<le> unat t + unat d"
    "(unat (next_edge_after t p d) + unat p) mod unat d = 0"
    "\<And>m. unat t < m \<Longrightarrow> m < unat (next_edge_after t p d) \<Longrightarrow> (m + unat p) mod unat d \<noteq> 0"
proof -
  define x where "x = unat t + 1 + unat p"
  have d: "0 < unat d" using assms(1) by linarith
  have n1: "unat (t + 1) = unat t + 1" using assms(3) by (simp add: unat_word_ariths)
  have "unat (t + 1 + p) = x"
    using n1 assms by (simp add: unat_word_ariths(1)[of "t + 1" p] x_def)
  then have r: "unat ((t + 1 + p) mod d) = x mod unat d" by (simp add: unat_mod_distrib)
  have r0: "(t + 1 + p) mod d = 0 \<longleftrightarrow> x mod unat d = 0" using r by (metis unat_eq_zero)
  have le: "x mod unat d < unat d" using d by (rule mod_less_divisor)
  have "unat (d - (t + 1 + p) mod d) = unat d - x mod unat d"
    using le r by (simp add: unat_sub word_le_nat_alt)
  then have n2: "unat (t + 1 + (d - (t + 1 + p) mod d)) = unat t + 1 + (unat d - x mod unat d)"
    using n1 assms le by (simp add: unat_word_ariths(1)[of "t + 1" "d - (t + 1 + p) mod d"])
  have v: "unat (next_edge_after t p d) = (if x mod unat d = 0 then unat t + 1 else unat t + 1 + (unat d - x mod unat d))"
    using n1 n2 r0 by (simp add: next_edge_after_def Let_def)
  show "unat t < unat (next_edge_after t p d)" using v by simp
  show "unat (next_edge_after t p d) \<le> unat t + unat d" using v d by (simp split: if_splits)
  show "(unat (next_edge_after t p d) + unat p) mod unat d = 0"
    using v mod_complete[OF d, of x] by (simp add: x_def algebra_simps split: if_splits)
  fix m assume m: "unat t < m" "m < unat (next_edge_after t p d)"
  then have nz: "x mod unat d \<noteq> 0" "m - (unat t + 1) < unat d - x mod unat d" using v by (auto split: if_splits)
  have "x + (m - (unat t + 1)) = m + unat p" using m(1) by (simp add: x_def)
  then show "(m + unat p) mod unat d \<noteq> 0" using mod_within[OF nz] by simp
qed

lemma next_rcp_edge:
  assumes "phases_ok p" "unat t + 8 < 2 ^ 64"
  shows "unat t < unat (next_edge_after t (ph_rcp p) RCP_DIVIDER)"
    "unat (next_edge_after t (ph_rcp p) RCP_DIVIDER) \<le> unat t + 3"
    "rcp_edge p (unat (next_edge_after t (ph_rcp p) RCP_DIVIDER))"
    "\<And>m. unat t < m \<Longrightarrow> m < unat (next_edge_after t (ph_rcp p) RCP_DIVIDER) \<Longrightarrow> \<not> rcp_edge p m"
  using next_edge_after_first[of "ph_rcp p" RCP_DIVIDER t] assms
  by (simp_all add: phases_ok_def rcp_edge_def RCP_DIVIDER_def)

lemma next_cpu_edge:
  assumes "phases_ok p" "unat t + 8 < 2 ^ 64"
  shows "unat t < unat (next_edge_after t (ph_cpu p) CPU_DIVIDER)"
    "unat (next_edge_after t (ph_cpu p) CPU_DIVIDER) \<le> unat t + 2"
    "\<And>m. unat t < m \<Longrightarrow> m < unat (next_edge_after t (ph_cpu p) CPU_DIVIDER) \<Longrightarrow> \<not> cpu_edge p m"
  using next_edge_after_first[of "ph_cpu p" CPU_DIVIDER t] assms
  by (simp_all add: phases_ok_def cpu_edge_def CPU_DIVIDER_def)

definition quiet :: "phases \<Rightarrow> nat \<Rightarrow> bool" where
  "quiet p t \<longleftrightarrow> \<not> cpu_edge p t \<and> \<not> rcp_edge p t"

lemma next_edge_first:
  assumes "phases_ok (sy_phases s)" "unat (sy_ticks s) + 8 < 2 ^ 64"
  shows "unat (sy_ticks s) < unat (next_edge s)" "unat (next_edge s) \<le> unat (sy_ticks s) + 3"
    "\<And>m. unat (sy_ticks s) < m \<Longrightarrow> m < unat (next_edge s) \<Longrightarrow> quiet (sy_phases s) m"
proof -
  define c r where "c = next_edge_after (sy_ticks s) (ph_cpu (sy_phases s)) CPU_DIVIDER"
    and "r = next_edge_after (sy_ticks s) (ph_rcp (sy_phases s)) RCP_DIVIDER"
  have n: "unat (next_edge s) = min (unat c) (unat r)"
    by (simp add: next_edge_def Let_def c_def r_def word_less_nat_alt)
  note e = next_rcp_edge[OF assms, folded r_def] next_cpu_edge[OF assms, folded c_def]
  show "unat (sy_ticks s) < unat (next_edge s)" "unat (next_edge s) \<le> unat (sy_ticks s) + 3"
    unfolding n using e(1,2,5,6) by linarith+
  fix m assume "unat (sy_ticks s) < m" "m < unat (next_edge s)"
  then show "quiet (sy_phases s) m" unfolding n quiet_def using e(4)[of m] e(7)[of m] by simp
qed

section \<open>The plain clock\<close>

fun clock :: "nat \<Rightarrow> system \<Rightarrow> system option" where
  "clock 0 s = Some s"
| "clock (Suc n) s = Option.bind (step_due_here (s\<lparr>sy_ticks := sy_ticks s + 1\<rparr>)) (clock n)"

lemma clock_add: "clock (m + n) s = Option.bind (clock m s) (clock n)"
proof (induction m arbitrary: s)
  case (Suc m)
  then show ?case by (cases "step_due_here (s\<lparr>sy_ticks := sy_ticks s + 1\<rparr>)") simp_all
qed simp

lemma clock_frame:
  assumes "clock n s = Some s'"
  shows "sy_ticks s' = sy_ticks s + of_nat n" "sy_phases s' = sy_phases s"
  using assms
proof (induction n arbitrary: s)
  case (Suc n)
  {
    case 1
    then obtain y where y: "step_due_here (s\<lparr>sy_ticks := sy_ticks s + 1\<rparr>) = Some y" "clock n y = Some s'"
      by (auto simp: bind_eq_Some_conv)
    then show ?case using Suc.IH(1)[OF y(2)] step_due_here_frame[OF y(1)] by simp
  next
    case 2
    then obtain y where y: "step_due_here (s\<lparr>sy_ticks := sy_ticks s + 1\<rparr>) = Some y" "clock n y = Some s'"
      by (auto simp: bind_eq_Some_conv)
    then show ?case using Suc.IH(2)[OF y(2)] step_due_here_frame[OF y(1)] by simp
  }
qed simp_all

lemma tick_up: "unat t + k < 2 ^ 64 \<Longrightarrow> unat ((t :: u64) + of_nat k) = unat t + k"
  by (simp add: unat_word_ariths unat_of_nat)

lemma clock_quiet:
  assumes "phases_ok (sy_phases s)" "unat (sy_ticks s) + k + 3 < 2 ^ 64"
    "\<And>m. unat (sy_ticks s) < m \<Longrightarrow> m \<le> unat (sy_ticks s) + k \<Longrightarrow> quiet (sy_phases s) m"
  shows "clock k s = Some (s\<lparr>sy_ticks := sy_ticks s + of_nat k\<rparr>)"
  using assms
proof (induction k arbitrary: s)
  case (Suc k)
  define t where "t = sy_ticks s + 1"
  have t: "unat t = unat (sy_ticks s) + 1" using Suc.prems(2) tick_up[of "sy_ticks s" 1] by (simp add: t_def)
  have q: "quiet (sy_phases s) (unat t)" using Suc.prems(3)[of "unat t"] by (simp add: t)
  have "step_due_here (s\<lparr>sy_ticks := t\<rparr>) = Some (s\<lparr>sy_ticks := t\<rparr>)"
    using q edges_nat[OF Suc.prems(1), of t] Suc.prems(2) by (simp add: step_due_here_def quiet_def t)
  moreover have "clock k (s\<lparr>sy_ticks := t\<rparr>) = Some (s\<lparr>sy_ticks := t + of_nat k\<rparr>)"
    using Suc.IH[of "s\<lparr>sy_ticks := t\<rparr>"] Suc.prems t by simp
  ultimately show ?case by (simp add: t_def add.assoc)
qed simp

section \<open>By edges\<close>

lemma reach_simp: "sy_ticks s \<le> target \<Longrightarrow> reach target s = s\<lparr>sy_ticks := target\<rparr>"
  by (auto simp: reach_def not_less)

lemma run_until_is_clock:
  assumes "phases_ok (sy_phases s)" "sy_ticks s \<le> target" "unat target + 8 < 2 ^ 64"
  shows "run_until target s = clock (unat target - unat (sy_ticks s)) s"
  using assms
proof (induction "unat target - unat (sy_ticks s)" arbitrary: s rule: less_induct)
  case less
  have lim: "unat (sy_ticks s) + 8 < 2 ^ 64" using less.prems by (simp add: word_le_nat_alt)
  note e = next_edge_first[OF less.prems(1) lim]
  show ?case
  proof (cases "next_edge s \<le> target")
    case True
    define k where "k = unat (next_edge s) - unat (sy_ticks s) - 1"
    have le: "unat (next_edge s) \<le> unat target" using True by (simp add: word_le_nat_alt)
    have "sy_ticks s + of_nat k + 1 = next_edge s"
      by (rule unsigned_word_eqI) (use e lim le less.prems(3) tick_up[of "sy_ticks s" "k + 1"] in \<open>simp add: k_def algebra_simps\<close>)
    moreover have "clock k s = Some (s\<lparr>sy_ticks := sy_ticks s + of_nat k\<rparr>)"
      using e less.prems le by (intro clock_quiet) (auto simp: k_def)
    ultimately have c: "clock (Suc k) s = step_due_here (s\<lparr>sy_ticks := next_edge s\<rparr>)"
      using clock_add[of k 1 s] by (cases "step_due_here (s\<lparr>sy_ticks := next_edge s\<rparr>)") simp_all
    have n: "unat target - unat (sy_ticks s) = Suc k + (unat target - unat (next_edge s))" using e le by (simp add: k_def)
    have "Option.bind (step_due_here (s\<lparr>sy_ticks := next_edge s\<rparr>)) (run_until target) =
        Option.bind (step_due_here (s\<lparr>sy_ticks := next_edge s\<rparr>)) (clock (unat target - unat (next_edge s)))"
    proof (rule bind_option_cong[OF refl])
      fix s' assume "s' \<in> set_option (step_due_here (s\<lparr>sy_ticks := next_edge s\<rparr>))"
      then have "sy_ticks s' = next_edge s" "sy_phases s' = sy_phases s" by (auto simp: elem_set dest: step_due_here_frame(1,2))
      then show "run_until target s' = clock (unat target - unat (next_edge s)) s'"
        using less.hyps[of s'] less.prems True e le by simp
    qed
    then show ?thesis unfolding n clock_add c using True by (subst run_until.simps) simp
  next
    case False
    then have "clock (unat target - unat (sy_ticks s)) s =
        Some (s\<lparr>sy_ticks := sy_ticks s + of_nat (unat target - unat (sy_ticks s))\<rparr>)"
      using less.prems e by (intro clock_quiet) (auto simp: word_le_nat_alt)
    moreover have "sy_ticks s + of_nat (unat target - unat (sy_ticks s)) = target"
      using less.prems(2) by (simp add: of_nat_diff word_le_nat_alt)
    ultimately show ?thesis using False less.prems(2) by (subst run_until.simps) (simp add: reach_simp)
  qed
qed

section \<open>By blocks\<close>

text \<open>The block scheduler leaves the counter at the last edge it stepped: no edge lies between it and \<open>b\<close>.\<close>

definition lag :: "u64 \<Rightarrow> system \<Rightarrow> bool" where
  "lag b s \<longleftrightarrow> sy_ticks s \<le> b \<and> (\<forall>m. unat (sy_ticks s) < m \<and> m \<le> unat b \<longrightarrow> quiet (sy_phases s) m)"

lemma lag_refl [simp]: "sy_ticks s = b \<Longrightarrow> lag b s" by (auto simp: lag_def)

lemma clock_lag:
  assumes "phases_ok (sy_phases s)" "lag b s" "unat b + 8 < 2 ^ 64"
  shows "clock (unat b - unat (sy_ticks s) + n) s = clock n (s\<lparr>sy_ticks := b\<rparr>)"
proof -
  have le: "unat (sy_ticks s) \<le> unat b" using assms(2) by (simp add: lag_def word_le_nat_alt)
  have "clock (unat b - unat (sy_ticks s)) s = Some (s\<lparr>sy_ticks := sy_ticks s + of_nat (unat b - unat (sy_ticks s))\<rparr>)"
    using assms le by (intro clock_quiet) (auto simp: lag_def)
  then have "clock (unat b - unat (sy_ticks s)) s = Some (s\<lparr>sy_ticks := b\<rparr>)" using le by (simp add: of_nat_diff)
  then show ?thesis unfolding clock_add by simp
qed

lemma run_pattern_clock:
  assumes "phases_ok (sy_phases s)" "lag b s" "unat b + length xs + 8 < 2 ^ 64"
    "\<And>i. i < length xs \<Longrightarrow>
      xs ! i = (cpu_edge (sy_phases s) (unat b + i + 1), rcp_edge (sy_phases s) (unat b + i + 1))"
  shows "case run_pattern xs b s of
      None \<Rightarrow> clock (length xs) (s\<lparr>sy_ticks := b\<rparr>) = None
    | Some s' \<Rightarrow> lag (b + of_nat (length xs)) s' \<and> sy_phases s' = sy_phases s \<and>
        clock (length xs) (s\<lparr>sy_ticks := b\<rparr>) = Some (s'\<lparr>sy_ticks := b + of_nat (length xs)\<rparr>)"
  using assms
proof (induction xs arbitrary: b s)
  case (Cons x xs)
  obtain c r where x: "x = (c, r)" by (cases x)
  have b1: "unat (b + 1) = unat b + 1" using Cons.prems(3) tick_up[of b 1] by simp
  have cr: "c = cpu_edge (sy_phases s) (unat b + 1)" "r = rcp_edge (sy_phases s) (unat b + 1)"
    using Cons.prems(4)[of 0] by (simp_all add: x)
  define y where "y = (if c \<or> r then step_domains c r (s\<lparr>sy_ticks := b + 1\<rparr>) else Some s)"
  have due: "step_due_here (s\<lparr>sy_ticks := b + 1\<rparr>) = step_domains c r (s\<lparr>sy_ticks := b + 1\<rparr>)"
    using edges_nat[OF Cons.prems(1), of "b + 1"] Cons.prems(3) by (simp add: step_due_here_def b1 cr)
  have hd: "run_pattern (x # xs) b s = Option.bind y (run_pattern xs (b + 1))" by (simp add: x y_def)
  show ?case
  proof (cases y)
    case None
    then show ?thesis using hd due by (simp add: y_def split: if_splits)
  next
    case (Some z)
    have z: "sy_phases z = sy_phases s" "lag (b + 1) z" "step_due_here (s\<lparr>sy_ticks := b + 1\<rparr>) = Some (z\<lparr>sy_ticks := b + 1\<rparr>)"
    proof -
      show "sy_phases z = sy_phases s" using Some by (auto simp: y_def dest: step_domains_frame split: if_splits)
      show "lag (b + 1) z"
      proof (cases "c \<or> r")
        case True
        then show ?thesis using Some by (auto simp: y_def dest: step_domains_frame)
      next
        case False
        then have "quiet (sy_phases s) (unat b + 1)" using cr by (simp add: quiet_def)
        then show ?thesis using Some False Cons.prems(2) b1
          by (auto simp: y_def lag_def word_le_nat_alt le_Suc_eq)
      qed
      show "step_due_here (s\<lparr>sy_ticks := b + 1\<rparr>) = Some (z\<lparr>sy_ticks := b + 1\<rparr>)"
        using Some step_domains_frame(1)[of c r "s\<lparr>sy_ticks := b + 1\<rparr>" z] by (auto simp: due y_def split: if_splits)
    qed
    have ih: "case run_pattern xs (b + 1) z of
      None \<Rightarrow> clock (length xs) (z\<lparr>sy_ticks := b + 1\<rparr>) = None
    | Some s' \<Rightarrow> lag (b + 1 + of_nat (length xs)) s' \<and> sy_phases s' = sy_phases z \<and>
        clock (length xs) (z\<lparr>sy_ticks := b + 1\<rparr>) = Some (s'\<lparr>sy_ticks := b + 1 + of_nat (length xs)\<rparr>)"
      using Cons.prems(1,3) Cons.prems(4)[of "Suc i" for i] z(1,2) b1 by (intro Cons.IH) simp_all
    have e: "b + of_nat (length (x # xs)) = b + 1 + of_nat (length xs)" by (simp add: add.assoc)
    show ?thesis
      unfolding hd e using ih by (cases "run_pattern xs (b + 1) z") (simp_all add: Some z)
  qed
qed simp

lemma EDGE_PERIOD_eq: "EDGE_PERIOD = 6"
  by (simp add: EDGE_PERIOD_def CPU_DIVIDER_def RCP_DIVIDER_def word_gcd.simps)

lemma edge_periodic: "cpu_edge p (t + 6) = cpu_edge p t" "rcp_edge p (t + 6) = rcp_edge p t"
proof -
  have "(t + 6 + k) mod 2 = (t + k) mod 2" "(t + 6 + k) mod 3 = (t + k) mod 3" for k by presburger+
  then show "cpu_edge p (t + 6) = cpu_edge p t" "rcp_edge p (t + 6) = rcp_edge p t"
    by (simp_all add: cpu_edge_def rcp_edge_def)
qed

lemma run_blocks_clock:
  assumes "phases_ok (sy_phases s)" "lag base s" "base \<le> target" "unat target + 8 < 2 ^ 64" "length xs = 6"
    "\<And>i. i < 6 \<Longrightarrow> xs ! i = (cpu_edge (sy_phases s) (unat base + i + 1), rcp_edge (sy_phases s) (unat base + i + 1))"
  shows "case run_blocks xs target base blocks s of
      None \<Rightarrow> clock (unat target - unat base) (s\<lparr>sy_ticks := base\<rparr>) = None
    | Some (b, n, s') \<Rightarrow> lag b s' \<and> sy_phases s' = sy_phases s \<and> base \<le> b \<and> b \<le> target \<and>
        clock (unat b - unat base) (s\<lparr>sy_ticks := base\<rparr>) = Some (s'\<lparr>sy_ticks := b\<rparr>)"
  using assms
proof (induction "unat target - unat base" arbitrary: base blocks s rule: less_induct)
  case less
  have le: "unat base \<le> unat target" using less.prems(3) by (simp add: word_le_nat_alt)
  have n: "unat (- 1 - EDGE_PERIOD :: u64) = 2 ^ 64 - 7" by (simp add: EDGE_PERIOD_eq)
  have six: "unat (base + 6) = unat base + 6" if "unat base + 6 < 2 ^ 64" using that tick_up[of base 6] by simp
  have guard: "base \<le> - 1 - EDGE_PERIOD \<and> base + EDGE_PERIOD \<le> target \<longleftrightarrow> unat base + 6 \<le> unat target"
    using le less.prems(4) six unfolding EDGE_PERIOD_eq word_le_nat_alt n[unfolded EDGE_PERIOD_eq] by auto
  show ?case
  proof (cases "unat base + 6 \<le> unat target")
    case False
    then have "run_blocks xs target base blocks s = Some (base, blocks, s)"
      using guard by (subst run_blocks.simps) (metis (no_types, lifting))
    then show ?thesis using less.prems by simp
  next
    case True
    then have b6: "unat (base + 6) = unat base + 6" using six less.prems(4) by simp
    have run: "run_blocks xs target base blocks s =
        Option.bind (run_pattern xs base s) (run_blocks xs target (base + 6) (blocks + 1))"
      using True guard by (subst run_blocks.simps) (simp add: EDGE_PERIOD_eq)
    have pat: "case run_pattern xs base s of
        None \<Rightarrow> clock 6 (s\<lparr>sy_ticks := base\<rparr>) = None
      | Some s' \<Rightarrow> lag (base + 6) s' \<and> sy_phases s' = sy_phases s \<and>
          clock 6 (s\<lparr>sy_ticks := base\<rparr>) = Some (s'\<lparr>sy_ticks := base + 6\<rparr>)"
      using run_pattern_clock[OF less.prems(1,2), of xs, unfolded less.prems(5) of_nat_numeral] less.prems(4,6) True by simp
    define k where "k = unat target - unat (base + 6)"
    have t: "unat target - unat base = 6 + k" using True b6 by (simp add: k_def)
    show ?thesis
    proof (cases "run_pattern xs base s")
      case None
      then show ?thesis using pat run unfolding t clock_add by simp
    next
      case (Some y)
      then have y: "lag (base + 6) y" "sy_phases y = sy_phases s"
        "clock 6 (s\<lparr>sy_ticks := base\<rparr>) = Some (y\<lparr>sy_ticks := base + 6\<rparr>)" using pat by simp_all
      have ih: "case run_blocks xs target (base + 6) (blocks + 1) y of
          None \<Rightarrow> clock k (y\<lparr>sy_ticks := base + 6\<rparr>) = None
        | Some (b, n, s') \<Rightarrow> lag b s' \<and> sy_phases s' = sy_phases y \<and> base + 6 \<le> b \<and> b \<le> target \<and>
            clock (unat b - unat (base + 6)) (y\<lparr>sy_ticks := base + 6\<rparr>) = Some (s'\<lparr>sy_ticks := b\<rparr>)"
        unfolding k_def
      proof (rule less.hyps)
        show "unat target - unat (base + 6) < unat target - unat base" using True b6 by simp
        show "xs ! i = (cpu_edge (sy_phases y) (unat (base + 6) + i + 1), rcp_edge (sy_phases y) (unat (base + 6) + i + 1))"
          if "i < 6" for i
          using less.prems(6)[OF that] edge_periodic[of "sy_phases s" "unat base + i + 1"] by (simp add: y b6 ac_simps)
      qed (use y less.prems True b6 in \<open>simp_all add: word_le_nat_alt\<close>)
      show ?thesis
      proof (cases "run_blocks xs target (base + 6) (blocks + 1) y")
        case None
        then show ?thesis using ih run Some unfolding t clock_add by (simp add: y)
      next
        case (Some z)
        obtain b m s' where z: "z = (b, m, s')" by (cases z)
        then have f: "lag b s'" "sy_phases s' = sy_phases s" "base + 6 \<le> b" "b \<le> target"
          "clock (unat b - unat (base + 6)) (y\<lparr>sy_ticks := base + 6\<rparr>) = Some (s'\<lparr>sy_ticks := b\<rparr>)"
          using ih Some y by simp_all
        have t6: "unat b - unat base = 6 + (unat b - unat (base + 6))" using f(3) b6 by (simp add: word_le_nat_alt)
        have "clock (unat b - unat base) (s\<lparr>sy_ticks := base\<rparr>) = Some (s'\<lparr>sy_ticks := b\<rparr>)"
          unfolding t6 clock_add y(3) using f(5) by simp
        then show ?thesis
          using f run \<open>run_pattern xs base s = Some y\<close> Some z b6 by (simp add: clock_add y word_le_nat_alt)
      qed
    qed
  qed
qed

lemma run_until_fast_is_clock:
  assumes "phases_ok (sy_phases s)" "sy_ticks s \<le> target" "unat target + 8 < 2 ^ 64"
  shows "map_option snd (run_until_fast target s) = clock (unat target - unat (sy_ticks s)) s"
proof (cases "target \<le> sy_ticks s")
  case True
  then show ?thesis using assms(2) by (simp add: run_until_fast_def)
next
  case False
  let ?b = "sy_ticks s"
  have le: "unat ?b < unat target" using False by (simp add: word_le_nat_alt)
  have len: "length (edge_pattern s) = 6" by (simp add: edge_pattern_def EDGE_PERIOD_eq)
  have pat: "edge_pattern s ! i = (cpu_edge (sy_phases s) (unat ?b + i + 1), rcp_edge (sy_phases s) (unat ?b + i + 1))"
    if i: "i < 6" for i
  proof -
    have u: "unat (of_nat i + 1 :: u64) = i + 1" using tick_up[of 1 i] i by (simp add: add.commute)
    have s1: "sat_add ?b (of_nat i + 1) = ?b + (of_nat i + 1)" "unat (?b + (of_nat i + 1)) = unat ?b + (i + 1)"
      using sat_add_exact[of ?b "of_nat i + 1"] u i le assms(3) by simp_all
    have "edge_pattern s ! i = (is_edge (sat_add ?b (of_nat i + 1)) (ph_cpu (sy_phases s)) CPU_DIVIDER,
        is_edge (sat_add ?b (of_nat i + 1)) (ph_rcp (sy_phases s)) RCP_DIVIDER)"
      using i by (simp add: edge_pattern_def EDGE_PERIOD_eq Let_def)
    then show ?thesis
      using edges_nat[OF assms(1), of "?b + (of_nat i + 1)"] s1 i le assms(3) by (simp add: add.assoc)
  qed
  note r = run_blocks_clock[OF assms(1) lag_refl[OF refl] assms(2,3) len pat, of 0]
  show ?thesis
  proof (cases "run_blocks (edge_pattern s) target ?b 0 s")
    case None
    then show ?thesis using r False by (simp add: run_until_fast_def)
  next
    case (Some z)
    obtain b n y where z: "z = (b, n, y)" by (cases z)
    have f: "lag b y" "sy_phases y = sy_phases s" "unat ?b \<le> unat b" "unat b \<le> unat target"
      "clock (unat b - unat ?b) s = Some (y\<lparr>sy_ticks := b\<rparr>)"
      using r Some by (simp_all add: z word_le_nat_alt)
    have yb: "unat (sy_ticks y) \<le> unat b" using f(1) by (simp add: lag_def word_le_nat_alt)
    have "unat target - unat (sy_ticks y) = unat b - unat (sy_ticks y) + (unat target - unat b)" using yb f(4) by simp
    then have "run_until target y = clock (unat target - unat b) (y\<lparr>sy_ticks := b\<rparr>)"
      using run_until_is_clock[of y target] clock_lag[of y b "unat target - unat b"] f assms(1,3) yb
      by (simp add: word_le_nat_alt)
    moreover have "unat target - unat ?b = (unat b - unat ?b) + (unat target - unat b)" using f by simp
    ultimately have "run_until target y = clock (unat target - unat ?b) s" by (simp add: clock_add f(5))
    then show ?thesis using Some False by (simp add: run_until_fast_def z option.map_comp comp_def option.map_ident)
  qed
qed

end
