(* ===== verification/Sched_Run.thy ===== *)
theory Sched_Run
  imports Sched
begin

text \<open>
  What the edge and the block scheduler promise: they agree with the plain clock and so with each other,
  a run may be cut anywhere, every run returns unless a triangle is drawn under a reversed scissor, which
  panics, and the coprocessor is stepped exactly once for every cycle of its clock.
\<close>

section \<open>Every step returns\<close>

lemma period_bounds: "unat (period_ticks a) \<le> 187500000"
proof (cases "ai_sample_rate a = 0")
  case False
  have "unat (AI_MASTER_HZ div to_u64 (ai_sample_rate a)) \<le> 187500000"
    by (simp add: unat_div_distrib AI_MASTER_HZ_def div_le_dividend)
  then show ?thesis by (simp add: period_ticks_def max_def word_le_nat_alt)
qed (simp add: period_ticks_def)

lemma audio_tick_returns:
  assumes "unat t + 2 ^ 28 < 2 ^ 64"
  shows "audio_tick t b \<noteq> None"
proof -
  obtain nb a where t: "tick_without_bus t (b_audio b) = (nb, a)" by (metis surj_pair)
  show ?thesis
  proof (cases nb)
    case None
    then show ?thesis by (simp add: audio_tick_def t)
  next
    case (Some n)
    then have n: "n = \<lparr>nb_period = period_ticks (b_audio b), nb_now = t\<rparr>" "0 < unat (period_ticks (b_audio b))"
      using t by (auto simp: tick_without_bus_def Let_def period_ticks_def unat_gt_0 split: if_splits)
    have "tick_with_bus (rdram_read_u32 b) n (False, a) \<noteq> None"
      using tick_with_bus_closed[OF n(2), of t "rdram_read_u32 b" False a] assms period_bounds[of "b_audio b"]
      unfolding n(1) by fastforce
    then show ?thesis using Some by (simp add: audio_tick_def t)
  qed
qed

text \<open>Only the display processor's clamp to the scissor can stop a step.\<close>

definition reversed_scissor :: "rdp \<Rightarrow> bool" where
  "reversed_scissor r \<longleftrightarrow> scissor_lrx r < scissor_ulx r"

definition draw_panics :: "system \<Rightarrow> bool" where
  "draw_panics s \<longleftrightarrow> bus_rdp_tick (sy_draw s, bus_rsp_tick (sy_bus s)) = None"

lemma draw_panics_reversed: "draw_panics s \<Longrightarrow> reversed_scissor (sy_draw s)"
  by (auto simp: draw_panics_def reversed_scissor_def bus_rdp_tick_def rdp_tick_with_bus_def
      dest: dispatch_panic split: prod.splits bool.splits option.splits)

lemma step_rcp_returns:
  assumes "unat (sy_ticks s) + 2 ^ 28 < 2 ^ 64" "\<not> draw_panics s"
  shows "\<exists>q. step_rcp s = Some q"
  using assms(2) audio_tick_returns[OF assms(1)]
  by (auto simp: step_rcp_def draw_panics_def Let_def)

lemma step_due_here_returns:
  assumes "unat (sy_ticks s) + 2 ^ 28 < 2 ^ 64" "step_due_here s = None"
  shows "reversed_scissor (sy_draw s)"
proof -
  have "sy_draw (tick_cpu s) = sy_draw s" by (simp add: tick_cpu_def split: prod.split)
  then show ?thesis
    using assms step_rcp_returns[of s] step_rcp_returns[of "tick_cpu s"] draw_panics_reversed[of s]
      draw_panics_reversed[of "tick_cpu s"]
    by (auto simp: step_due_here_def step_domains_def Let_def split: if_splits)
qed

lemma clock_returns:
  assumes "unat (sy_ticks s) + n + 2 ^ 28 < 2 ^ 64" "clock n s = None"
  shows "\<exists>m<n. \<exists>q. clock m s = Some q \<and> reversed_scissor (sy_draw q) \<and>
    step_due_here (q\<lparr>sy_ticks := sy_ticks q + 1\<rparr>) = None"
  using assms
proof (induction n arbitrary: s)
  case (Suc n)
  let ?s = "s\<lparr>sy_ticks := sy_ticks s + 1\<rparr>"
  have t: "unat (sy_ticks s + 1) = unat (sy_ticks s) + 1" using Suc.prems tick_up[of "sy_ticks s" 1] by simp
  show ?case
  proof (cases "step_due_here ?s")
    case None
    have "reversed_scissor (sy_draw ?s)" using step_due_here_returns[OF _ None] Suc.prems t by simp
    then show ?thesis using None by (intro exI[of _ 0]) simp
  next
    case (Some y)
    then obtain m q where "m < n" "clock m y = Some q" "reversed_scissor (sy_draw q)"
      "step_due_here (q\<lparr>sy_ticks := sy_ticks q + 1\<rparr>) = None"
      using Suc.IH[of y] step_due_here_frame(1)[OF Some] Suc.prems t by auto
    then show ?thesis using Some by (intro exI[of _ "Suc m"]) simp
  qed
qed simp

section \<open>The coprocessor keeps its clock\<close>

lemma div_step: "(x + 1) div (3 :: nat) = x div 3 + of_bool ((x + 1) mod 3 = 0)"
  by (cases "(x + 1) mod 3 = 0") (simp_all, presburger+)

lemma rcp_cycles_nat:
  assumes "phases_ok (sy_phases s)" "unat (sy_ticks s) + 3 < 2 ^ 64"
  shows "rcp_cycles s = of_nat ((unat (sy_ticks s) + unat (ph_rcp (sy_phases s))) div 3)"
proof -
  have "unat (sy_ticks s + ph_rcp (sy_phases s)) = unat (sy_ticks s) + unat (ph_rcp (sy_phases s))"
    using assms by (simp add: unat_word_ariths phases_ok_def)
  then have "unat (rcp_cycles s) = (unat (sy_ticks s) + unat (ph_rcp (sy_phases s))) div 3"
    by (simp add: rcp_cycles_def RCP_DIVIDER_def unat_div_distrib)
  then show ?thesis by (metis of_nat_unat ucast_id)
qed

definition on_clock :: "system \<Rightarrow> system \<Rightarrow> bool" where
  "on_clock s s' \<longleftrightarrow> sy_rcp_steps s' - sy_rcp_steps s = rcp_cycles s' - rcp_cycles s"

lemma on_clock_trans: "on_clock a b \<Longrightarrow> on_clock b c \<Longrightarrow> on_clock a c"
  unfolding on_clock_def
proof -
  assume "sy_rcp_steps b - sy_rcp_steps a = rcp_cycles b - rcp_cycles a" "sy_rcp_steps c - sy_rcp_steps b = rcp_cycles c - rcp_cycles b"
  then have "(sy_rcp_steps c - sy_rcp_steps b) + (sy_rcp_steps b - sy_rcp_steps a) =
      (rcp_cycles c - rcp_cycles b) + (rcp_cycles b - rcp_cycles a)" by simp
  then show "sy_rcp_steps c - sy_rcp_steps a = rcp_cycles c - rcp_cycles a" by simp
qed

lemma tick_on_clock:
  assumes "phases_ok (sy_phases s)" "unat (sy_ticks s) + 4 < 2 ^ 64"
    "step_due_here (s\<lparr>sy_ticks := sy_ticks s + 1\<rparr>) = Some s'"
  shows "on_clock s s'"
proof -
  let ?t = "unat (sy_ticks s)" and ?p = "unat (ph_rcp (sy_phases s))"
  have t: "unat (sy_ticks s + 1) = ?t + 1" using assms(2) tick_up[of "sy_ticks s" 1] by simp
  note f = step_due_here_frame[OF assms(3)]
  have "rcp_cycles s' = of_nat ((?t + 1 + ?p) div 3)"
    using rcp_cycles_nat[of s'] f assms(1,2) t by simp
  also have "\<dots> = of_nat ((?t + ?p) div 3) + of_bool (rcp_edge (sy_phases s) (?t + 1))"
    using div_step[of "?t + ?p"] by (simp add: rcp_edge_def)
  finally have "rcp_cycles s' - rcp_cycles s = of_bool (rcp_edge (sy_phases s) (?t + 1))"
    using rcp_cycles_nat[of s] assms(1,2) by simp
  moreover have "sy_rcp_steps s' - sy_rcp_steps s = of_bool (rcp_edge (sy_phases s) (?t + 1))"
    using f(3) edges_nat(2)[OF assms(1), of "sy_ticks s + 1"] assms(2) t by simp
  ultimately show ?thesis by (simp add: on_clock_def)
qed

lemma clock_on_clock:
  assumes "phases_ok (sy_phases s)" "unat (sy_ticks s) + n + 4 < 2 ^ 64" "clock n s = Some s'"
  shows "on_clock s s'"
  using assms
proof (induction n arbitrary: s)
  case (Suc n)
  then obtain y where y: "step_due_here (s\<lparr>sy_ticks := sy_ticks s + 1\<rparr>) = Some y" "clock n y = Some s'"
    by (auto simp: bind_eq_Some_conv)
  have t: "unat (sy_ticks s + 1) = unat (sy_ticks s) + 1" using Suc.prems tick_up[of "sy_ticks s" 1] by simp
  have "on_clock y s'" using Suc.IH[OF _ _ y(2)] step_due_here_frame[OF y(1)] Suc.prems t by simp
  moreover have "on_clock s y" using tick_on_clock[OF Suc.prems(1) _ y(1)] Suc.prems(2) by simp
  ultimately show ?case using on_clock_trans by blast
qed (simp add: on_clock_def)

section \<open>Properties\<close>

text \<open>C1. The two schedulers that promise cycle accuracy are one machine: jumping from edge to edge, or
  replaying a six-tick pattern of edges and leaving the tail to the first, they end in exactly the state
  of the plain clock that visits every master tick, and one does not return where the other does not.\<close>

theorem schedulers_are_the_clock:
  assumes "phases_ok (sy_phases s)" "sy_ticks s \<le> target" "unat target + 8 < 2 ^ 64"
  shows "run_until target s = clock (unat target - unat (sy_ticks s)) s \<and>
    map_option snd (run_until_fast target s) = run_until target s"
  using run_until_is_clock[OF assms] run_until_fast_is_clock[OF assms] by simp

lemma schedulers_are_the_clock_witness:
  "map_option snd (run_until_fast 100 (system_new 7)) = run_until 100 (system_new 7)"
  using schedulers_are_the_clock[of "system_new 7" 100] from_seed_ok[of 7]
  by (simp add: system_new_def word_le_nat_alt)

text \<open>A run may be cut anywhere: running to an earlier tick, by either scheduler, and from there to the
  target gives the state of running to the target at once.\<close>

lemma runs_compose:
  assumes "phases_ok (sy_phases s)" "sy_ticks s \<le> mid" "mid \<le> target" "unat target + 8 < 2 ^ 64"
  shows "Option.bind (run_until mid s) (run_until target) = run_until target s \<and>
    Option.bind (run_until_fast mid s) (\<lambda>(_, q). run_until target q) = run_until target s"
proof -
  have le: "unat (sy_ticks s) \<le> unat mid" "unat mid \<le> unat target" using assms by (simp_all add: word_le_nat_alt)
  define m where "m = unat mid - unat (sy_ticks s)"
  have n: "unat target - unat (sy_ticks s) = m + (unat target - unat mid)" using le by (simp add: m_def)
  have cut: "Option.bind (clock m s) (run_until target) = run_until target s"
  proof -
    have "Option.bind (clock m s) (run_until target) = Option.bind (clock m s) (clock (unat target - unat mid))"
    proof (rule bind_option_cong[OF refl])
      fix q assume "q \<in> set_option (clock m s)"
      then have q: "sy_ticks q = sy_ticks s + of_nat m" "sy_phases q = sy_phases s" by (auto simp: elem_set dest: clock_frame)
      then have "sy_ticks q = mid" using le by (simp add: m_def of_nat_diff)
      then show "run_until target q = clock (unat target - unat mid) q"
        using run_until_is_clock[of q target] assms q by simp
    qed
    also have "\<dots> = run_until target s"
      using run_until_is_clock[of s target] assms le unfolding n clock_add by (simp add: word_le_nat_alt)
    finally show ?thesis .
  qed
  have mid: "sy_ticks s \<le> mid" "unat mid + 8 < 2 ^ 64" using assms le by simp_all
  have "Option.bind (run_until_fast mid s) (\<lambda>(_, q). run_until target q) =
      Option.bind (map_option snd (run_until_fast mid s)) (run_until target)"
    by (cases "run_until_fast mid s") (simp_all add: case_prod_beta)
  then show ?thesis
    using cut run_until_is_clock[OF assms(1) mid] run_until_fast_is_clock[OF assms(1) mid] by (simp add: m_def)
qed

lemma runs_compose_witness:
  "Option.bind (run_until 50 (system_new 7)) (run_until 100) = run_until 100 (system_new 7)"
  using runs_compose[of "system_new 7" 50 100] from_seed_ok[of 7] by (simp add: system_new_def word_le_nat_alt)

text \<open>The machine never hangs under these schedulers: from any state of any component, a run returns,
  stands exactly at its target, and has stepped the coprocessor once for every cycle its clock made. The
  one exception is a panic of the display processor on the way, at a tick whose state has the left edge of
  the scissor right of its right edge.\<close>

lemma runs_return_on_time:
  assumes "phases_ok (sy_phases s)" "sy_ticks s \<le> target" "unat target + 2 ^ 28 < 2 ^ 64"
  shows "(\<exists>s'. run_until target s = Some s' \<and> sy_ticks s' = target \<and>
      sy_rcp_steps s' - sy_rcp_steps s = rcp_cycles s' - rcp_cycles s) \<or>
    (\<exists>m q. m < unat target - unat (sy_ticks s) \<and> clock m s = Some q \<and> reversed_scissor (sy_draw q) \<and>
      step_due_here (q\<lparr>sy_ticks := sy_ticks q + 1\<rparr>) = None)"
proof -
  let ?n = "unat target - unat (sy_ticks s)"
  have le: "unat (sy_ticks s) \<le> unat target" using assms(2) by (simp add: word_le_nat_alt)
  have r: "run_until target s = clock ?n s" using assms by (intro run_until_is_clock) simp_all
  show ?thesis
  proof (cases "clock ?n s")
    case None
    then show ?thesis using clock_returns[of s ?n] assms(3) le by auto
  next
    case (Some s')
    have "sy_ticks s' = target" using clock_frame(1)[OF Some] le by (simp add: of_nat_diff)
    moreover have "on_clock s s'" using clock_on_clock[OF assms(1) _ Some] assms(3) le by simp
    ultimately show ?thesis using r Some by (auto simp: on_clock_def)
  qed
qed

lemma runs_return_on_time_witness:
  "(\<exists>s'. run_until 1000 (system_new 7) = Some s' \<and> sy_ticks s' = 1000) \<or>
    (\<exists>m q. clock m (system_new 7) = Some q \<and> reversed_scissor (sy_draw q))"
  using runs_return_on_time[of "system_new 7" 1000] from_seed_ok[of 7] by (auto simp: system_new_def word_le_nat_alt)

end
