(* ===== verification/Sched_Exec.thy ===== *)
theory Sched_Exec
  imports Sched_Run
begin

text \<open>
  The instruction scheduler: the processor runs an instruction ahead and the coprocessor catches up, an idle
  loop is retired in batches, and a halted processor lets the coprocessor run alone. Whatever the path, the
  coprocessor is stepped once per cycle of its clock, and only the instruction engine, or a panic of the
  display processor, can keep it from returning.
\<close>

section \<open>Catching up\<close>




abbreviation next_rcp :: "phases \<Rightarrow> u64 \<Rightarrow> u64" where
  "next_rcp p t \<equiv> next_edge_after t (ph_rcp p) RCP_DIVIDER"



text \<open>The display processor panics in one of the coprocessor's steps while it catches up.\<close>

inductive catch_panics :: "u64 \<Rightarrow> u64 \<times> system \<Rightarrow> bool" for e where
  Now: "n \<le> e \<Longrightarrow> draw_panics (s\<lparr>sy_ticks := n\<rparr>) \<Longrightarrow> catch_panics e (n, s)"
| Later: "n \<le> e \<Longrightarrow> step_rcp (s\<lparr>sy_ticks := n\<rparr>) = Some q \<Longrightarrow> catch_panics e (next_rcp (sy_phases q) n, q) \<Longrightarrow>
    catch_panics e (n, s)"






section \<open>Idle batches\<close>



text \<open>The same of a batch of idle pairs, from the \<open>k\<close>th on.\<close>

inductive idle_panics :: "u64 \<Rightarrow> u64 \<Rightarrow> u64 \<times> system \<Rightarrow> bool" for pairs where
  Catch: "k < pairs \<Longrightarrow> catch_panics (sy_ticks s + PAIR_TICKS) (n, s) \<Longrightarrow> idle_panics pairs k (n, s)"
| Pair: "k < pairs \<Longrightarrow> catch_up (sy_ticks s + PAIR_TICKS) (n, s) = Some (m, q) \<Longrightarrow>
    \<not> bus_poll_irq (sy_bus q) \<Longrightarrow> \<not> boot_nmi_halt (sy_bus q) \<Longrightarrow>
    idle_panics pairs (k + 1) (m, q\<lparr>sy_ticks := sy_ticks s + PAIR_TICKS\<rparr>) \<Longrightarrow> idle_panics pairs k (n, s)"


lemma no_pairs [simp]: "\<not> idle_panics 0 k x"
  by (auto elim: idle_panics.cases)


section \<open>The instruction scheduler\<close>
















end
