(* ===== verification/Scanout.thy ===== *)
theory Scanout
  imports Bus Rdp_Math
begin

text \<open>
  The picture: the video interface's scan-out of \<^verbatim>\<open>rustyn64-core/src/bus.rs\<close>, plain and scaled, with its
  anti-aliasing, divot, dither and gamma filters, and the two-row memo of \<^verbatim>\<open>ViSampler\<close> through which the
  scaled scan-out reads. A sampler operation returns its result and the sampler; \<^verbatim>\<open>i32\<close> arithmetic wraps.
\<close>

definition VI_H_VIDEO :: u32 where "VI_H_VIDEO = 9"
definition VI_V_VIDEO :: u32 where "VI_V_VIDEO = 10"
definition VI_X_SCALE :: u32 where "VI_X_SCALE = 12"
definition VI_Y_SCALE :: u32 where "VI_Y_SCALE = 13"

type_synonym rgb = "u8 list"

section \<open>Colours\<close>

definition expand5 :: "u8 \<Rightarrow> u8" where
  "expand5 v5 = (let v = v5 AND 0x1F in shl v 3 OR shr v 2)"

definition vi_rgb5551 :: "u16 \<Rightarrow> rgb" where
  "vi_rgb5551 px = [to_u8 (shr px 8 AND 0xF8), to_u8 (shr (px AND 0x07C0) 3), to_u8 (shl (px AND 0x003E) 2)]"

definition lerp :: "u8 \<Rightarrow> u8 \<Rightarrow> i32 \<Rightarrow> u8" where
  "lerp a b fr = (let ai = to_u32 a; bi = to_u32 b in to_u8 (ai + sar ((bi - ai) * fr + 16) 5))"

definition vi_lerp3 :: "rgb \<Rightarrow> rgb \<Rightarrow> i32 \<Rightarrow> rgb" where
  "vi_lerp3 a b fr = map (\<lambda>i. lerp (a ! i) (b ! i) fr) [0..<3]"

section \<open>Integer square root and gamma\<close>

function sqrt_start :: "u32 \<Rightarrow> u32 \<Rightarrow> u32" where
  "sqrt_start op one = (if one > op then sqrt_start op (shr one 2) else one)"
  by pat_completeness auto

lemma shr_decreases: "one \<noteq> 0 \<Longrightarrow> 0 < n \<Longrightarrow> unat (shr (one :: u32) n) < unat one"
proof -
  assume "one \<noteq> 0" "0 < n"
  then have "1 < (2 :: nat) ^ n" "0 < unat one" using one_less_power[of "2 :: nat" n] by (simp_all add: unat_gt_0)
  then have "unat one div 2 ^ n < unat one" by (intro div_less_dividend)
  then show ?thesis unfolding unat_drop_bit_eq by (simp only: drop_bit_eq_div)
qed

termination sqrt_start
proof (relation "measure (\<lambda>(op, one). unat one)")
  fix op one :: u32 assume "one > op"
  then have "one \<noteq> 0" by auto
  then show "((op, shr one 2), op, one) \<in> measure (\<lambda>(op, one). unat one)" using shr_decreases[of one 2] by simp
qed simp

declare sqrt_start.simps [simp del]

function sqrt_loop :: "u32 \<Rightarrow> u32 \<Rightarrow> u32 \<Rightarrow> u32" where
  "sqrt_loop op res one =
     (if one = 0 then res
      else if op \<ge> res + one then sqrt_loop (op - (res + one)) (shr (res + shl one 1) 1) (shr one 2)
      else sqrt_loop op (shr res 1) (shr one 2))"
  by pat_completeness auto

termination sqrt_loop
  by (relation "measure (\<lambda>(op, res, one). unat one)") (simp_all add: shr_decreases)

declare sqrt_loop.simps [simp del]

definition vi_integer_sqrt :: "u32 \<Rightarrow> u32" where
  "vi_integer_sqrt a = sqrt_loop a 0 (sqrt_start a (shl 1 30))"

definition vi_gamma :: "u8 \<Rightarrow> u8" where
  "vi_gamma v = to_u8 (shl (vi_integer_sqrt (shl (to_u32 v) 6)) 1)"

definition GAMMA_TABLE :: "u8 list" where
  "GAMMA_TABLE = map (\<lambda>i. vi_gamma (of_nat i)) [0..<256]"

section \<open>The penultimate extremes\<close>

record extremes =
  ex_posmax :: nat
  ex_posmin :: nat
  ex_penmax :: u32
  ex_penmin :: u32

definition extremes_step :: "u32 list \<Rightarrow> extremes \<Rightarrow> nat \<Rightarrow> extremes" where
  "extremes_step px e i =
     (if px ! i > px ! ex_posmax e then e\<lparr>ex_penmax := px ! ex_posmax e, ex_posmax := i\<rparr>
      else if px ! i < px ! ex_posmin e then e\<lparr>ex_penmin := px ! ex_posmin e, ex_posmin := i\<rparr>
      else e)"

definition vi_video_max :: "u32 list \<Rightarrow> u32 \<times> u32" where
  "vi_video_max px =
     (let e = foldl (extremes_step px) \<lparr>ex_posmax = 0, ex_posmin = 0, ex_penmax = px ! 0, ex_penmin = px ! 0\<rparr> [1..<length px];
          penmax = (if ex_penmax e \<noteq> px ! ex_posmax e
            then foldl (\<lambda>m p. if p > m then p else m) (ex_penmax e) (drop (ex_posmax e + 1) px) else ex_penmax e);
          penmin = (if ex_penmin e \<noteq> px ! ex_posmin e
            then foldl (\<lambda>m p. if p < m then p else m) (ex_penmin e) (drop (ex_posmin e + 1) px) else ex_penmin e)
      in (penmin, penmax))"

section \<open>Reading the frame buffer\<close>

record vi_cfg =
  vc_origin :: u32
  vc_stride :: i32
  vc_bpp :: u32
  vc_aa_mode :: u32
  vc_divot :: bool
  vc_dither :: bool

definition vi_byte :: "vi_cfg \<Rightarrow> i32 \<Rightarrow> i32 \<Rightarrow> i32 \<Rightarrow> u32" where
  "vi_byte c size' x y = vc_origin c + (vc_stride c * y + x) * size'"

definition vi_read16 :: "bus \<Rightarrow> vi_cfg \<Rightarrow> i32 \<Rightarrow> i32 \<Rightarrow> u16" where
  "vi_read16 b c x y =
     (let a = vi_byte c 2 x y in shl (to_u16 (rdram_read b a)) 8 OR to_u16 (rdram_read b (a + 1)))"

definition vi_read32 :: "bus \<Rightarrow> vi_cfg \<Rightarrow> i32 \<Rightarrow> i32 \<Rightarrow> u32" where
  "vi_read32 b c x y = rdram_read_u32 b (vi_byte c 4 x y)"

definition vi_fetch16 :: "bus \<Rightarrow> vi_cfg \<Rightarrow> i32 \<Rightarrow> i32 \<Rightarrow> rgb" where
  "vi_fetch16 b c x y = vi_rgb5551 (vi_read16 b c x y)"

definition vi_fetch32 :: "bus \<Rightarrow> vi_cfg \<Rightarrow> i32 \<Rightarrow> i32 \<Rightarrow> rgb" where
  "vi_fetch32 b c x y = (let w = vi_read32 b c x y in [to_u8 (shr w 24), to_u8 (shr w 16), to_u8 (shr w 8)])"

definition vi_read_cov :: "bus \<Rightarrow> vi_cfg \<Rightarrow> i32 \<Rightarrow> i32 \<Rightarrow> rgb \<times> u32" where
  "vi_read_cov b c x y =
     (if vc_bpp c = 2 then
        let px = vi_read16 b c x y;
            cvg = shl (to_u32 px AND 1) 2 OR to_u32 (rdram_read_hidden b (vi_byte c 2 x y))
        in (vi_rgb5551 px, cvg)
      else
        let px = vi_read32 b c x y
        in ([to_u8 (shr px 24), to_u8 (shr px 16), to_u8 (shr px 8)], shr px 5 AND 7))"

section \<open>Filters\<close>

definition FILTER_TAPS :: "(i32 \<times> i32) list" where
  "FILTER_TAPS = [(-1, -1), (1, -1), (-2, 0), (2, 0), (-1, 1), (1, 1)]"

definition vi_video_filter :: "bus \<Rightarrow> vi_cfg \<Rightarrow> i32 \<Rightarrow> i32 \<Rightarrow> rgb \<Rightarrow> u32 \<Rightarrow> rgb" where
  "vi_video_filter b c x y center cvg =
     (let taps = filter (\<lambda>(_, nb_cvg). nb_cvg = 7) (map (\<lambda>(dx, dy). vi_read_cov b c (x + dx) (y + dy)) FILTER_TAPS);
          coeff = 7 - cvg
      in map (\<lambda>ch.
           let (penmin, penmax) = vi_video_max (to_u32 (center ! ch) # map (\<lambda>(nb, _). to_u32 (nb ! ch)) taps);
               ctr = to_u32 (center ! ch);
               col = shr ((penmin + penmax - shl ctr 1) * coeff + 4) 3
           in to_u8 ((col + ctr) AND 0xFF)) [0..<3])"

definition DITHER_TAPS :: "(i32 \<times> i32) list" where
  "DITHER_TAPS = [(-1, -1), (0, -1), (1, -1), (-1, 1), (0, 1), (1, 1), (-1, 0), (1, 0)]"

definition vi_fetch_cov :: "bus \<Rightarrow> vi_cfg \<Rightarrow> i32 \<Rightarrow> i32 \<Rightarrow> rgb \<times> u32" where
  "vi_fetch_cov b c x y =
     (let (center, cvg) = vi_read_cov b c x y
      in if cvg < 7 then (vi_video_filter b c x y center cvg, cvg)
         else if \<not> vc_dither c then (center, cvg)
         else
           let acc = foldl (\<lambda>acc (dx, dy).
                 let nb = fst (vi_read_cov b c (x + dx) (y + dy))
                 in map (\<lambda>ch. let c5 = shr (center ! ch) 3; n5 = shr (nb ! ch) 3
                        in acc ! ch + (if c5 < n5 then 1 else if c5 > n5 then -1 else 0)) [0..<3])
                 (map (\<lambda>ch. to_u32 (center ! ch)) [0..<3]) DITHER_TAPS
           in (map to_u8 acc, cvg))"

definition median :: "u8 \<Rightarrow> u8 \<Rightarrow> u8 \<Rightarrow> u8" where
  "median lv cv rv =
     (if (lv \<ge> cv \<and> rv \<ge> lv) \<or> (lv \<ge> rv \<and> cv \<ge> lv) then lv
      else if (rv \<ge> cv \<and> lv \<ge> rv) \<or> (rv \<ge> lv \<and> cv \<ge> rv) then rv
      else cv)"

definition divot_of :: "rgb \<times> u32 \<Rightarrow> rgb \<times> u32 \<Rightarrow> rgb \<times> u32 \<Rightarrow> rgb" where
  "divot_of = (\<lambda>(left, left_cvg) (cen, cen_cvg) (right, right_cvg).
     if (cen_cvg AND left_cvg AND right_cvg) = 7 then cen
     else map (\<lambda>ch. median (left ! ch) (cen ! ch) (right ! ch)) [0..<3])"

section \<open>The memo\<close>

record vi_sampler =
  vs_cfg :: vi_cfg
  vs_x_lo :: i32
  vs_span :: nat
  vs_row_y :: "i32 option list"
  vs_cells :: "rgb option list"
  vs_cov_cells :: "(rgb \<times> u32) option list"

definition SAMPLER_MAX_SPAN :: int where "SAMPLER_MAX_SPAN = 4096"

definition cov_span :: "vi_sampler \<Rightarrow> nat" where
  "cov_span s = (if vs_span s = 0 then 0 else vs_span s + 2)"

definition sampler_new :: "vi_cfg \<Rightarrow> i32 \<Rightarrow> i32 \<Rightarrow> vi_sampler" where
  "sampler_new c x_lo x_hi =
     (let columns = sint x_hi - sint x_lo + 1;
          span = (if 0 \<le> columns \<and> columns \<le> SAMPLER_MAX_SPAN then nat columns else 0)
      in \<lparr>vs_cfg = c, vs_x_lo = x_lo, vs_span = span, vs_row_y = [None, None],
          vs_cells = replicate (span * 2) None,
          vs_cov_cells = replicate (if span = 0 then 0 else (span + 2) * 2) None\<rparr>)"

definition clear_row :: "nat \<Rightarrow> nat \<Rightarrow> 'a option list \<Rightarrow> 'a option list" where
  "clear_row base n xs = take base xs @ replicate n None @ drop (base + n) xs"

definition row_slot :: "i32 \<Rightarrow> vi_sampler \<Rightarrow> nat \<times> vi_sampler" where
  "row_slot y s =
     (if vs_row_y s ! 0 = Some y then (0, s)
      else if vs_row_y s ! 1 = Some y then (1, s)
      else
        let victim = (case (vs_row_y s ! 0, vs_row_y s ! 1) of
              (None, _) \<Rightarrow> 0
            | (_, None) \<Rightarrow> 1
            | (Some y0, Some y1) \<Rightarrow> if y1 <s y0 then 1 else 0)
        in (victim, s\<lparr>vs_row_y := (vs_row_y s)[victim := Some y],
              vs_cells := clear_row (victim * vs_span s) (vs_span s) (vs_cells s),
              vs_cov_cells := clear_row (victim * cov_span s) (cov_span s) (vs_cov_cells s)\<rparr>))"

text \<open>\<^verbatim>\<open>checked_sub\<close> of the sampler's left edge, then \<^verbatim>\<open>checked_add\<close> of the margin, as an index.\<close>

definition column_of :: "vi_sampler \<Rightarrow> int \<Rightarrow> i32 \<Rightarrow> nat option" where
  "column_of s margin x =
     (let off = sint x - sint (vs_x_lo s)
      in if - (2 ^ 31) \<le> off \<and> off + margin < 2 ^ 31 \<and> 0 \<le> off + margin then Some (nat (off + margin)) else None)"

definition vi_fetch_cov_memo :: "bus \<Rightarrow> i32 \<Rightarrow> i32 \<Rightarrow> vi_sampler \<Rightarrow> (rgb \<times> u32) \<times> vi_sampler" where
  "vi_fetch_cov_memo b x y s =
     (case column_of s 1 x of
        None \<Rightarrow> (vi_fetch_cov b (vs_cfg s) x y, s)
      | Some idx \<Rightarrow>
          if idx \<ge> cov_span s then (vi_fetch_cov b (vs_cfg s) x y, s)
          else
            let (slot, s) = row_slot y s; cell = slot * cov_span s + idx
            in case vs_cov_cells s ! cell of
                 Some hit \<Rightarrow> (hit, s)
               | None \<Rightarrow>
                   let computed = vi_fetch_cov b (vs_cfg s) x y
                   in (computed, s\<lparr>vs_cov_cells := (vs_cov_cells s)[cell := Some computed]\<rparr>))"

definition vi_divot :: "bus \<Rightarrow> i32 \<Rightarrow> i32 \<Rightarrow> vi_sampler \<Rightarrow> rgb \<times> vi_sampler" where
  "vi_divot b x y s =
     (let (cen, s) = vi_fetch_cov_memo b x y s;
          (left, s) = vi_fetch_cov_memo b (x - 1) y s;
          (right, s) = vi_fetch_cov_memo b (x + 1) y s
      in (divot_of left cen right, s))"

definition vi_sample_direct :: "bus \<Rightarrow> i32 \<Rightarrow> i32 \<Rightarrow> vi_sampler \<Rightarrow> rgb \<times> vi_sampler" where
  "vi_sample_direct b x y s =
     (if vc_aa_mode (vs_cfg s) \<le> 1 then
        if vc_divot (vs_cfg s) then vi_divot b x y s
        else case vi_fetch_cov_memo b x y s of (r, s) \<Rightarrow> (fst r, s)
      else if vc_bpp (vs_cfg s) = 2 then (vi_fetch16 b (vs_cfg s) x y, s)
      else (vi_fetch32 b (vs_cfg s) x y, s))"

definition vi_sample :: "bus \<Rightarrow> i32 \<Rightarrow> i32 \<Rightarrow> vi_sampler \<Rightarrow> rgb \<times> vi_sampler" where
  "vi_sample b x y s =
     (if vc_aa_mode (vs_cfg s) > 1 then vi_sample_direct b x y s
      else case column_of s 0 x of
          None \<Rightarrow> vi_sample_direct b x y s
        | Some idx \<Rightarrow>
            if idx \<ge> vs_span s then vi_sample_direct b x y s
            else
              let (slot, s) = row_slot y s; cell = slot * vs_span s + idx
              in case vs_cells s ! cell of
                   Some hit \<Rightarrow> (hit, s)
                 | None \<Rightarrow>
                     let (computed, s) = vi_sample_direct b x y s
                     in (computed, s\<lparr>vs_cells := (vs_cells s)[cell := Some computed]\<rparr>))"

definition vi_column :: "bus \<Rightarrow> i32 \<Rightarrow> i32 \<Rightarrow> i32 \<Rightarrow> vi_sampler \<Rightarrow> rgb \<times> vi_sampler" where
  "vi_column b x sy yfrac s =
     (if yfrac = 0 then vi_sample b x sy s
      else
        let (upper, s) = vi_sample b x sy s; (lower, s) = vi_sample b x (sy + 1) s
        in (vi_lerp3 upper lower yfrac, s))"

section \<open>The plain scan-out\<close>

definition put_pixel :: "nat \<Rightarrow> u8 list \<Rightarrow> u8 list \<Rightarrow> u8 list" where
  "put_pixel dst px out = out[dst := px ! 0, dst + 1 := px ! 1, dst + 2 := px ! 2, dst + 3 := px ! 3]"

definition bytes_of_mode :: "u32 \<Rightarrow> u32 option" where
  "bytes_of_mode ctrl = (if ctrl AND 3 = 2 then Some 2 else if ctrl AND 3 = 3 then Some 4 else None)"

definition plain_pixel :: "bus \<Rightarrow> u32 \<Rightarrow> u32 \<Rightarrow> u8 list" where
  "plain_pixel b bpp src =
     (if bpp = 2 then
        let px = shl (to_u16 (rdram_read b src)) 8 OR to_u16 (rdram_read b (src + 1))
        in [expand5 (to_u8 (shr px 11 AND 0x1F)), expand5 (to_u8 (shr px 6 AND 0x1F)), expand5 (to_u8 (shr px 1 AND 0x1F)),
            if px AND 1 = 1 then 0xFF else 0]
      else let w = rdram_read_u32 b src in [to_u8 (shr w 24), to_u8 (shr w 16), to_u8 (shr w 8), to_u8 w])"

definition scanout :: "bus \<Rightarrow> u8 list \<Rightarrow> (u32 \<times> u32) \<times> u8 list" where
  "scanout b out =
     (case bytes_of_mode (vi_read (b_vi b) 0) of
        None \<Rightarrow> ((0, 0), out)
      | Some bpp \<Rightarrow>
          let origin = vi_read (b_vi b) 1 AND 0x00FFFFFF; width = vi_read (b_vi b) 2 AND 0xFFF;
              v_video = vi_read (b_vi b) VI_V_VIDEO;
              lower = v_video AND 0x3FF; upper = shr v_video 16 AND 0x3FF;
              height = (if lower < upper then 0 else lower - upper) div 2
          in if width = 0 \<or> height = 0 \<or> length out < unat width * unat height * 4 then ((0, 0), out)
             else
               let stride = width * bpp
               in ((width, height),
                 foldl (\<lambda>out y. foldl (\<lambda>out x.
                     put_pixel (unat ((of_nat y * width + of_nat x) * 4)) (plain_pixel b bpp (origin + of_nat y * stride + of_nat x * bpp)) out)
                   out [0..<unat width]) out [0..<unat height]))"

section \<open>The scaled scan-out\<close>

record geometry =
  ge_width :: i32
  ge_height :: i32
  ge_minhpass :: i32
  ge_x_start :: i32
  ge_y_start :: i32
  ge_x_add :: i32
  ge_y_add :: i32

definition PRESCALE_W :: i32 where "PRESCALE_W = 640"
definition PRESCALE_H :: i32 where "PRESCALE_H = 625"

definition geometry_of :: "vi \<Rightarrow> geometry" where
  "geometry_of v =
     (let h_video = vi_read v VI_H_VIDEO; v_video = vi_read v VI_V_VIDEO;
          x_scale = vi_read v VI_X_SCALE; y_scale = vi_read v VI_Y_SCALE; v_sync = vi_read v 6 AND 0x3FF;
          h_start_raw = shr h_video 16 AND 0x3FF; h_end = h_video AND 0x3FF;
          v_start_raw = shr v_video 16 AND 0x3FF; v_end = v_video AND 0x3FF;
          hres = h_end - h_start_raw; vres = sar (v_end - v_start_raw) 1;
          x_add = x_scale AND 0xFFF; x_start = shr x_scale 16 AND 0xFFF;
          y_add = y_scale AND 0xFFF; y_start = shr y_scale 16 AND 0xFFF;
          ispal = (v_sync > VI_PAL_V_TOTAL_THRESHOLD);
          h_start = h_start_raw - (if ispal then 128 else 108);
          h_start_clamped = (h_start <s 0);
          (x_start, hres, h_start) = (if h_start_clamped then (x_start + x_add * (- h_start), hres + h_start, 0)
            else (x_start, hres, h_start));
          v_start = wrapping_div_s (v_start_raw - (if ispal then 44 else 34)) 2;
          (y_start, v_start) = (if v_start <s 0 then (y_start + y_add * (- v_start), 0) else (y_start, v_start));
          hres_clamped = (PRESCALE_W <s hres + h_start);
          hres = (if hres_clamped then PRESCALE_W - h_start else hres);
          vres = (if PRESCALE_H <s vres + v_start then PRESCALE_H - v_start else vres);
          minhpass = (if h_start_clamped then 0 else 8);
          maxhpass = (if hres_clamped then hres else hres - 7)
      in \<lparr>ge_width = smax (maxhpass - minhpass) 0, ge_height = smax vres 0, ge_minhpass = minhpass,
          ge_x_start = x_start, ge_y_start = y_start, ge_x_add = x_add, ge_y_add = y_add\<rparr>)"

definition try_i32 :: "int \<Rightarrow> i32 option" where
  "try_i32 v = (if - (2 ^ 31) \<le> v \<and> v < 2 ^ 31 then Some (word_of_int v) else None)"

definition first_column :: "geometry \<Rightarrow> i32" where
  "first_column g = (case try_i32 ((sint (ge_x_start g) + sint (ge_minhpass g) * sint (ge_x_add g)) div 1024) of
     Some x \<Rightarrow> x | None \<Rightarrow> 0)"

definition last_column :: "geometry \<Rightarrow> i32" where
  "last_column g =
     (case try_i32 ((sint (ge_x_start g) + (sint (ge_minhpass g) + sint (ge_width g) - 1) * sint (ge_x_add g)) div 1024 + 1) of
        Some x \<Rightarrow> x | None \<Rightarrow> first_column g)"

definition scaled_pixel :: "bus \<Rightarrow> geometry \<Rightarrow> nat \<Rightarrow> nat \<Rightarrow> vi_sampler \<Rightarrow> rgb \<times> vi_sampler" where
  "scaled_pixel b g oy ox s =
     (let curry = ge_y_start g + of_nat oy * ge_y_add g; sy = sar curry 10; yfrac = sar curry 5 AND 0x1F;
          x_offs = ge_x_start g + (ge_minhpass g + of_nat ox) * ge_x_add g; sx = sar x_offs 10; xfrac = sar x_offs 5 AND 0x1F
      in if vc_aa_mode (vs_cfg s) \<noteq> 3 \<and> (xfrac \<noteq> 0 \<or> yfrac \<noteq> 0) then
           let (col, s) = vi_column b sx sy yfrac s
           in if xfrac = 0 then (col, s)
              else let (ncol, s) = vi_column b (sx + 1) sy yfrac s in (vi_lerp3 col ncol xfrac, s)
         else vi_sample b sx sy s)"

definition shown :: "bool \<Rightarrow> rgb \<Rightarrow> u8 list" where
  "shown gamma rgb = (if gamma then map (\<lambda>c. GAMMA_TABLE ! unat c) rgb else rgb) @ [0xFF]"

definition cfg_of :: "vi \<Rightarrow> u32 \<Rightarrow> vi_cfg" where
  "cfg_of v bpp =
     (let ctrl = vi_read v 0
      in \<lparr>vc_origin = vi_read v 1 AND 0x00FFFFFF, vc_stride = vi_read v 2 AND 0xFFF, vc_bpp = bpp,
          vc_aa_mode = shr ctrl 8 AND 3, vc_divot = (shr ctrl 4 AND 1 \<noteq> 0), vc_dither = (shr ctrl 16 AND 1 \<noteq> 0)\<rparr>)"

definition scan_pixels :: "bus \<Rightarrow> geometry \<Rightarrow> bool \<Rightarrow> (nat \<times> nat) list \<Rightarrow> u8 list \<times> vi_sampler \<Rightarrow> u8 list \<times> vi_sampler" where
  "scan_pixels b g gamma coords =
     (\<lambda>st. foldl (\<lambda>(out, s) (oy, ox).
        let (rgb, s) = scaled_pixel b g oy ox s
        in (put_pixel (unat ((of_nat oy * ge_width g + of_nat ox) * 4)) (shown gamma rgb) out, s)) st coords)"

definition scan_coords :: "geometry \<Rightarrow> (nat \<times> nat) list" where
  "scan_coords g = concat (map (\<lambda>oy. map (\<lambda>ox. (oy, ox)) [0..<unat (ge_width g)]) [0..<unat (ge_height g)])"

definition scanout_scaled :: "bus \<Rightarrow> u8 list \<Rightarrow> (u32 \<times> u32) \<times> u8 list" where
  "scanout_scaled b out =
     (case bytes_of_mode (vi_read (b_vi b) 0) of
        None \<Rightarrow> ((0, 0), out)
      | Some bpp \<Rightarrow>
          let g = geometry_of (b_vi b); gamma = (vi_read (b_vi b) 0 AND 0x0C = 0x08)
          in if ge_width g = 0 \<or> ge_height g = 0 \<or> length out < unat (ge_width g) * unat (ge_height g) * 4 then ((0, 0), out)
             else ((ge_width g, ge_height g),
               fst (scan_pixels b g gamma (scan_coords g)
                 (out, sampler_new (cfg_of (b_vi b) bpp) (first_column g) (last_column g)))))"

end
