(* ===== verification/Scanout_Memo.thy ===== *)
theory Scanout_Memo
  imports Scanout
begin

text \<open>
  The two-row memo of the scaled scan-out changes nothing but the work: every sample read through it, and so
  the whole picture, is the one read straight from memory. \<open>rows_ok\<close> says of a table of two rows that a
  filled cell holds the value of its function at the row's line; every operation of the sampler keeps it.
\<close>

section \<open>Tables of two rows\<close>

definition rows_ok :: "(nat \<Rightarrow> i32 \<Rightarrow> 'a) \<Rightarrow> i32 option list \<Rightarrow> nat \<Rightarrow> 'a option list \<Rightarrow> bool" where
  "rows_ok f rows n cells \<longleftrightarrow> length cells = n * 2 \<and>
     (\<forall>k < 2. \<forall>i < n. \<forall>v. cells ! (k * n + i) = Some v \<longrightarrow> (\<exists>y. rows ! k = Some y \<and> v = f i y))"

lemma nth_clear_row:
  assumes "base + n \<le> length xs" "j < length xs"
  shows "clear_row base n xs ! j = (if base \<le> j \<and> j < base + n then None else xs ! j)"
  using assms by (auto simp: clear_row_def nth_append)

lemma length_clear_row: "base + n \<le> length xs \<Longrightarrow> length (clear_row base n xs) = length xs"
  by (simp add: clear_row_def)

lemma cell_index: "k < 2 \<Longrightarrow> i < n \<Longrightarrow> k * n + i < n * (2 :: nat)"
  by (cases "k = 0") (auto simp: less_Suc_eq numeral_2_eq_2)

lemma cell_distinct:
  fixes k k' i i' n :: nat
  assumes "i < n" "i' < n" "k * n + i = k' * n + i'"
  shows "k = k' \<and> i = i'"
proof -
  have "(k * n + i) div n = k" "(k' * n + i') div n = k'" "(k * n + i) mod n = i" "(k' * n + i') mod n = i'"
    using assms(1,2) by simp_all
  then show ?thesis using assms(3) by metis
qed

lemma in_row: "k < 2 \<Longrightarrow> v < 2 \<Longrightarrow> i < n \<Longrightarrow> (v * n \<le> k * n + i \<and> k * n + i < v * n + n) \<longleftrightarrow> k = (v :: nat)"
  by (auto simp: less_Suc_eq numeral_2_eq_2)

lemma rows_ok_clear:
  assumes "rows_ok f rows n cells" "v < 2" "length rows = 2"
  shows "rows_ok f (rows[v := Some y]) n (clear_row (v * n) n cells)"
  unfolding rows_ok_def
proof (intro conjI allI impI)
  have len: "length cells = n * 2" "v * n + n \<le> n * 2"
    using assms(1,2) by (auto simp: rows_ok_def less_Suc_eq numeral_2_eq_2)
  then show "length (clear_row (v * n) n cells) = n * 2" by (simp add: length_clear_row)
  fix k i w assume k: "k < 2" "i < n" "clear_row (v * n) n cells ! (k * n + i) = Some w"
  then have "k \<noteq> v" "cells ! (k * n + i) = Some w"
    using nth_clear_row[of "v * n" n cells "k * n + i"] len cell_index[OF k(1,2)] in_row[OF k(1) assms(2) k(2)]
    by (auto split: if_splits)
  then show "\<exists>z. rows[v := Some y] ! k = Some z \<and> w = f i z" using assms(1) k(1,2) by (simp add: rows_ok_def)
qed

lemma rows_ok_put:
  assumes "rows_ok f rows n cells" "rows ! k = Some y" "k < 2" "i < n"
  shows "rows_ok f rows n (cells[k * n + i := Some (f i y)])"
proof -
  have len: "length cells = n * 2" using assms(1) by (simp add: rows_ok_def)
  have "\<exists>z. rows ! k' = Some z \<and> w = f i' z"
    if "k' < 2" "i' < n" "cells[k * n + i := Some (f i y)] ! (k' * n + i') = Some w" for k' i' w
  proof (cases "k' * n + i' = k * n + i")
    case True
    then have "k' = k" "i' = i" using cell_distinct[OF that(2) assms(4)] by blast+
    then show ?thesis using that(3) assms(2) cell_index[OF assms(3,4)] len by simp
  next
    case False
    then have "cells ! (k' * n + i') = Some w" using that(3) nth_list_update_neq[of "k * n + i" "k' * n + i'" cells] by simp
    then show ?thesis using assms(1) that(1,2) by (simp add: rows_ok_def)
  qed
  then show ?thesis using len by (simp add: rows_ok_def)
qed

lemma rows_ok_hit:
  "rows_ok f rows n cells \<Longrightarrow> k < 2 \<Longrightarrow> i < n \<Longrightarrow> cells ! (k * n + i) = Some v \<Longrightarrow> rows ! k = Some y \<Longrightarrow> v = f i y"
  by (force simp: rows_ok_def)

lemma rows_ok_empty: "rows_ok f [None, None] n (replicate (n * 2) None)"
  using cell_index by (auto simp: rows_ok_def)

section \<open>The sampler's invariant\<close>

definition sample_plain :: "bus \<Rightarrow> vi_cfg \<Rightarrow> i32 \<Rightarrow> i32 \<Rightarrow> rgb" where
  "sample_plain b c x y =
     (if vc_aa_mode c \<le> 1 then
        if vc_divot c then divot_of (vi_fetch_cov b c (x - 1) y) (vi_fetch_cov b c x y) (vi_fetch_cov b c (x + 1) y)
        else fst (vi_fetch_cov b c x y)
      else if vc_bpp c = 2 then vi_fetch16 b c x y else vi_fetch32 b c x y)"

definition sampler_ok :: "bus \<Rightarrow> vi_sampler \<Rightarrow> bool" where
  "sampler_ok b s \<longleftrightarrow> length (vs_row_y s) = 2 \<and>
     rows_ok (\<lambda>i y. sample_plain b (vs_cfg s) (vs_x_lo s + of_nat i) y) (vs_row_y s) (vs_span s) (vs_cells s) \<and>
     rows_ok (\<lambda>i y. vi_fetch_cov b (vs_cfg s) (vs_x_lo s + of_nat i - 1) y) (vs_row_y s) (cov_span s) (vs_cov_cells s)"

lemma sampler_new_ok: "sampler_ok b (sampler_new c x_lo x_hi)"
proof -
  define n m where "n = vs_span (sampler_new c x_lo x_hi)" and "m = (if n = 0 then 0 else n + 2)"
  have "sampler_new c x_lo x_hi = \<lparr>vs_cfg = c, vs_x_lo = x_lo, vs_span = n, vs_row_y = [None, None],
      vs_cells = replicate (n * 2) None, vs_cov_cells = replicate (m * 2) None\<rparr>"
    by (simp add: n_def m_def sampler_new_def Let_def)
  then obtain s0 where s0: "sampler_new c x_lo x_hi = s0" "vs_row_y s0 = [None, None]" "vs_cells s0 = replicate (n * 2) None"
    "vs_cov_cells s0 = replicate (m * 2) None" "vs_span s0 = n" "cov_span s0 = m"
    by (simp add: cov_span_def m_def)
  then show ?thesis by (simp add: sampler_ok_def rows_ok_empty)
qed

definition frame :: "vi_sampler \<Rightarrow> vi_sampler \<Rightarrow> bool" where
  "frame s s' \<longleftrightarrow> vs_cfg s' = vs_cfg s \<and> vs_x_lo s' = vs_x_lo s \<and> vs_span s' = vs_span s"

lemma frame_refl [simp]: "frame s s" by (simp add: frame_def)
lemma frame_trans: "frame a b \<Longrightarrow> frame b c \<Longrightarrow> frame a c" by (simp add: frame_def)

lemma frame_same: "frame s s' \<Longrightarrow> cov_span s' = cov_span s \<and> column_of s' = column_of s"
  by (simp add: frame_def cov_span_def column_of_def fun_eq_iff)

definition resident :: "i32 \<Rightarrow> nat \<Rightarrow> vi_sampler \<Rightarrow> bool" where
  "resident y k s \<longleftrightarrow> k < 2 \<and> vs_row_y s ! k = Some y \<and> (k = 1 \<longrightarrow> vs_row_y s ! 0 \<noteq> Some y)"

lemma resident_rows: "resident y k s \<Longrightarrow> vs_row_y s' = vs_row_y s \<Longrightarrow> resident y k s'"
  by (simp add: resident_def)

lemma row_slot_resident: "resident y k s \<Longrightarrow> row_slot y s = (k, s)"
  by (auto simp: resident_def row_slot_def less_Suc_eq numeral_2_eq_2)

lemma row_slot_ok:
  assumes "sampler_ok b s" "row_slot y s = (k, s')"
  shows "sampler_ok b s' \<and> frame s s' \<and> resident y k s'"
proof -
  have len: "length (vs_row_y s) = 2" using assms(1) by (simp add: sampler_ok_def)
  consider "vs_row_y s ! 0 = Some y" | "vs_row_y s ! 0 \<noteq> Some y" "vs_row_y s ! 1 = Some y"
    | "vs_row_y s ! 0 \<noteq> Some y" "vs_row_y s ! 1 \<noteq> Some y" by blast
  then show ?thesis
  proof cases
    case 3
    define t where "t = s\<lparr>vs_row_y := (vs_row_y s)[k := Some y],
        vs_cells := clear_row (k * vs_span s) (vs_span s) (vs_cells s),
        vs_cov_cells := clear_row (k * cov_span s) (cov_span s) (vs_cov_cells s)\<rparr>"
    have k: "k < 2" "s' = t"
      using assms(2) 3 by (auto simp: t_def row_slot_def Let_def split: option.splits if_splits)
    have c: "cov_span t = cov_span s" by (simp add: cov_span_def t_def)
    have ok: "sampler_ok b t"
      using assms(1) unfolding sampler_ok_def c by (simp add: t_def k(1) len rows_ok_clear)
    have "vs_row_y t ! k = Some y" using k(1) len by (simp add: t_def)
    moreover have "k = 1 \<longrightarrow> vs_row_y t ! 0 \<noteq> Some y" using 3(1) by (simp add: t_def)
    ultimately show ?thesis using ok k by (simp add: resident_def frame_def t_def)
  qed (use assms in \<open>auto simp: row_slot_def resident_def\<close>)
qed

lemma column_of_at:
  assumes "column_of s m x = Some i" "0 \<le> m"
  shows "x = vs_x_lo s + of_nat i - word_of_int m"
proof -
  have i: "int i = sint x - sint (vs_x_lo s) + m" using assms(1) by (auto simp: column_of_def Let_def split: if_splits)
  have "of_nat i = (word_of_int (int i) :: i32)" by simp
  also have "\<dots> = x - vs_x_lo s + word_of_int m" by (simp add: i wi_hom_syms)
  finally show ?thesis by simp
qed

section \<open>Samples\<close>

lemma memo_ok:
  assumes "sampler_ok b s" "vi_fetch_cov_memo b x y s = (r, s')"
  shows "r = vi_fetch_cov b (vs_cfg s) x y \<and> sampler_ok b s' \<and> frame s s' \<and>
    (resident y k s \<longrightarrow> resident y k s')"
proof (cases "\<exists>i. column_of s 1 x = Some i \<and> i < cov_span s")
  case False
  then show ?thesis using assms by (auto simp: vi_fetch_cov_memo_def split: option.splits)
next
  case True
  then obtain i where i: "column_of s 1 x = Some i" "i < cov_span s" by blast
  have x: "x = vs_x_lo s + of_nat i - 1" using column_of_at[OF i(1)] by simp
  obtain j t where j: "row_slot y s = (j, t)" by (cases "row_slot y s")
  have t: "sampler_ok b t" "frame s t" "resident y j t" using row_slot_ok[OF assms(1) j] by simp_all
  have same: "vs_cfg t = vs_cfg s" "vs_x_lo t = vs_x_lo s" "cov_span t = cov_span s" using t(2) frame_same[OF t(2)]
    by (simp_all add: frame_def)
  have jr: "j < 2" "vs_row_y t ! j = Some y" using t(3) by (simp_all add: resident_def)
  have rows: "rows_ok (\<lambda>i y. vi_fetch_cov b (vs_cfg s) (vs_x_lo s + of_nat i - 1) y) (vs_row_y t) (cov_span s) (vs_cov_cells t)"
    using t(1) same by (simp add: sampler_ok_def)
  have keep: "resident y k s \<longrightarrow> t = s \<and> k = j" using row_slot_resident j by auto
  have e: "vi_fetch_cov_memo b x y s = (case vs_cov_cells t ! (j * cov_span s + i) of
      Some hit \<Rightarrow> (hit, t)
    | None \<Rightarrow> (vi_fetch_cov b (vs_cfg s) x y,
        t\<lparr>vs_cov_cells := (vs_cov_cells t)[j * cov_span s + i := Some (vi_fetch_cov b (vs_cfg s) x y)]\<rparr>))"
    using i by (simp add: vi_fetch_cov_memo_def j same Let_def split: option.split)
  show ?thesis
  proof (cases "vs_cov_cells t ! (j * cov_span s + i)")
    case (Some v)
    then have "v = vi_fetch_cov b (vs_cfg s) x y" using rows_ok_hit[OF rows jr(1) i(2) Some jr(2)] x by simp
    then show ?thesis using e Some assms(2) t keep by auto
  next
    case None
    define u where "u = t\<lparr>vs_cov_cells := (vs_cov_cells t)[j * cov_span s + i := Some (vi_fetch_cov b (vs_cfg s) x y)]\<rparr>"
    have ru: "r = vi_fetch_cov b (vs_cfg s) x y" "s' = u" using e None assms(2) by (simp_all add: u_def)
    have cu: "cov_span u = cov_span t" by (simp add: cov_span_def u_def)
    have "sampler_ok b u"
      using t(1) rows_ok_put[OF rows jr(2) jr(1) i(2)] x same
      unfolding sampler_ok_def cu by (simp add: u_def)
    moreover have "frame s u" using t(2) by (simp add: frame_def u_def)
    moreover have "resident y k s \<longrightarrow> resident y k u" using keep t(3) resident_rows[of y j t u] by (auto simp: u_def)
    ultimately show ?thesis using ru by simp
  qed
qed

lemma direct_ok:
  assumes "sampler_ok b s" "vi_sample_direct b x y s = (r, s')"
  shows "r = sample_plain b (vs_cfg s) x y \<and> sampler_ok b s' \<and> frame s s' \<and> (resident y k s \<longrightarrow> resident y k s')"
proof (cases "vc_aa_mode (vs_cfg s) \<le> 1")
  case False
  then show ?thesis using assms by (auto simp: vi_sample_direct_def sample_plain_def split: if_splits)
next
  case True
  obtain c1 s1 where m1: "vi_fetch_cov_memo b x y s = (c1, s1)" by (metis surj_pair)
  obtain c2 s2 where m2: "vi_fetch_cov_memo b (x - 1) y s1 = (c2, s2)" by (metis surj_pair)
  obtain c3 s3 where m3: "vi_fetch_cov_memo b (x + 1) y s2 = (c3, s3)" by (metis surj_pair)
  note k1 = memo_ok[OF assms(1) m1, of k]
  then have k2: "c2 = vi_fetch_cov b (vs_cfg s1) (x - 1) y \<and> sampler_ok b s2 \<and> frame s1 s2 \<and>
      (resident y k s1 \<longrightarrow> resident y k s2)" using memo_ok[OF _ m2, of k] by blast
  then have k3: "c3 = vi_fetch_cov b (vs_cfg s2) (x + 1) y \<and> sampler_ok b s3 \<and> frame s2 s3 \<and>
      (resident y k s2 \<longrightarrow> resident y k s3)" using memo_ok[OF _ m3, of k] by blast
  have cfg: "vs_cfg s1 = vs_cfg s" "vs_cfg s2 = vs_cfg s" using k1 k2 by (simp_all add: frame_def)
  have "frame s s3" using k1 k2 k3 frame_trans by blast
  then show ?thesis
    using assms(2) True k1 k2 k3 cfg
    by (auto simp: vi_sample_direct_def sample_plain_def vi_divot_def m1 m2 m3 split: if_splits)
qed

lemma sample_ok:
  assumes "sampler_ok b s" "vi_sample b x y s = (r, s')"
  shows "r = sample_plain b (vs_cfg s) x y \<and> sampler_ok b s' \<and> frame s s'"
proof (cases "vc_aa_mode (vs_cfg s) \<le> 1 \<and> (\<exists>i. column_of s 0 x = Some i \<and> i < vs_span s)")
  case False
  then have "vi_sample b x y s = vi_sample_direct b x y s"
    by (auto simp: vi_sample_def not_le split: option.splits)
  then show ?thesis using direct_ok[OF assms(1), of x y r s'] assms(2) by simp
next
  case True
  then obtain i where i: "vc_aa_mode (vs_cfg s) \<le> 1" "column_of s 0 x = Some i" "i < vs_span s" by blast
  have x: "x = vs_x_lo s + of_nat i" using column_of_at[OF i(2)] by simp
  obtain j t where j: "row_slot y s = (j, t)" by (cases "row_slot y s")
  have t: "sampler_ok b t" "frame s t" "resident y j t" using row_slot_ok[OF assms(1) j] by simp_all
  have same: "vs_cfg t = vs_cfg s" "vs_x_lo t = vs_x_lo s" "vs_span t = vs_span s" using t(2) by (simp_all add: frame_def)
  have jr: "j < 2" "vs_row_y t ! j = Some y" using t(3) by (simp_all add: resident_def)
  obtain v u where d: "vi_sample_direct b x y t = (v, u)" by (metis surj_pair)
  have e: "vi_sample b x y s = (case vs_cells t ! (j * vs_span s + i) of
      Some hit \<Rightarrow> (hit, t) | None \<Rightarrow> (v, u\<lparr>vs_cells := (vs_cells u)[j * vs_span s + i := Some v]\<rparr>))"
    using i leD[OF i(1)] by (simp add: vi_sample_def j same d Let_def split: option.split)
  have rows: "rows_ok (\<lambda>i y. sample_plain b (vs_cfg s) (vs_x_lo s + of_nat i) y) (vs_row_y t) (vs_span s) (vs_cells t)"
    using t(1) same by (simp add: sampler_ok_def)
  show ?thesis
  proof (cases "vs_cells t ! (j * vs_span s + i)")
    case (Some w)
    then have "w = sample_plain b (vs_cfg s) x y" using rows_ok_hit[OF rows jr(1) i(3) Some jr(2)] x by simp
    then show ?thesis using e Some assms(2) t by auto
  next
    case None
    have u: "v = sample_plain b (vs_cfg s) x y" "sampler_ok b u" "frame t u" "resident y j u"
      using direct_ok[OF t(1) d, of j] t(3) same by simp_all
    have us: "vs_cfg u = vs_cfg s" "vs_x_lo u = vs_x_lo s" "vs_span u = vs_span s" using u(3) same by (simp_all add: frame_def)
    have ju: "vs_row_y u ! j = Some y" using u(4) by (simp add: resident_def)
    have rows_u: "rows_ok (\<lambda>i y. sample_plain b (vs_cfg s) (vs_x_lo s + of_nat i) y) (vs_row_y u) (vs_span s) (vs_cells u)"
      using u(2) us by (simp add: sampler_ok_def)
    define z where "z = u\<lparr>vs_cells := (vs_cells u)[j * vs_span s + i := Some v]\<rparr>"
    have cz: "cov_span z = cov_span u" by (simp add: cov_span_def z_def)
    have "sampler_ok b z"
      using u(1,2) rows_ok_put[OF rows_u ju jr(1) i(3)] x us unfolding sampler_ok_def cz by (simp add: z_def)
    moreover have "frame s z" using us by (simp add: frame_def z_def)
    ultimately show ?thesis using e None assms(2) u(1) by (simp add: z_def)
  qed
qed

section \<open>Pixels and the picture\<close>

definition column_plain :: "bus \<Rightarrow> vi_cfg \<Rightarrow> i32 \<Rightarrow> i32 \<Rightarrow> i32 \<Rightarrow> rgb" where
  "column_plain b c x sy yfrac =
     (if yfrac = 0 then sample_plain b c x sy else vi_lerp3 (sample_plain b c x sy) (sample_plain b c x (sy + 1)) yfrac)"

lemma column_ok:
  assumes "sampler_ok b s" "vi_column b x sy yf s = (r, s')"
  shows "r = column_plain b (vs_cfg s) x sy yf \<and> sampler_ok b s' \<and> frame s s'"
proof -
  obtain c1 s1 where m1: "vi_sample b x sy s = (c1, s1)" by (metis surj_pair)
  obtain c2 s2 where m2: "vi_sample b x (sy + 1) s1 = (c2, s2)" by (metis surj_pair)
  note k1 = sample_ok[OF assms(1) m1]
  then have k2: "c2 = sample_plain b (vs_cfg s1) x (sy + 1) \<and> sampler_ok b s2 \<and> frame s1 s2"
    using sample_ok[OF _ m2] by blast
  have "vs_cfg s1 = vs_cfg s" "frame s s2" using k1 k2 frame_trans by (auto simp: frame_def)
  then show ?thesis using assms(2) k1 k2 by (auto simp: vi_column_def column_plain_def m1 m2 split: if_splits)
qed

text \<open>The colour of a pixel straight from memory.\<close>

definition pixel_plain :: "bus \<Rightarrow> vi_cfg \<Rightarrow> geometry \<Rightarrow> nat \<Rightarrow> nat \<Rightarrow> rgb" where
  "pixel_plain b c g oy ox =
     (let curry = ge_y_start g + of_nat oy * ge_y_add g; sy = sar curry 10; yfrac = sar curry 5 AND 0x1F;
          x_offs = ge_x_start g + (ge_minhpass g + of_nat ox) * ge_x_add g; sx = sar x_offs 10; xfrac = sar x_offs 5 AND 0x1F
      in if vc_aa_mode c \<noteq> 3 \<and> (xfrac \<noteq> 0 \<or> yfrac \<noteq> 0) then
           if xfrac = 0 then column_plain b c sx sy yfrac
           else vi_lerp3 (column_plain b c sx sy yfrac) (column_plain b c (sx + 1) sy yfrac) xfrac
         else sample_plain b c sx sy)"

lemma pixel_ok:
  assumes "sampler_ok b s" "scaled_pixel b g oy ox s = (r, s')"
  shows "r = pixel_plain b (vs_cfg s) g oy ox \<and> sampler_ok b s' \<and> frame s s'"
proof -
  define sy yf sx xf where "sy = sar (ge_y_start g + of_nat oy * ge_y_add g) 10"
    and "yf = sar (ge_y_start g + of_nat oy * ge_y_add g) 5 AND 0x1F"
    and "sx = sar (ge_x_start g + (ge_minhpass g + of_nat ox) * ge_x_add g) 10"
    and "xf = sar (ge_x_start g + (ge_minhpass g + of_nat ox) * ge_x_add g) 5 AND 0x1F"
  note d = sy_def yf_def sx_def xf_def
  obtain c1 s1 where m1: "vi_column b sx sy yf s = (c1, s1)" by (metis surj_pair)
  obtain c2 s2 where m2: "vi_column b (sx + 1) sy yf s1 = (c2, s2)" by (metis surj_pair)
  note k1 = column_ok[OF assms(1) m1]
  then have k2: "c2 = column_plain b (vs_cfg s1) (sx + 1) sy yf \<and> sampler_ok b s2 \<and> frame s1 s2"
    using column_ok[OF _ m2] by blast
  have k: "vs_cfg s1 = vs_cfg s" "frame s s2" using k1 k2 frame_trans by (auto simp: frame_def)
  have p: "scaled_pixel b g oy ox s =
      (if vc_aa_mode (vs_cfg s) \<noteq> 3 \<and> (xf \<noteq> 0 \<or> yf \<noteq> 0)
       then if xf = 0 then (c1, s1) else (vi_lerp3 c1 c2 xf, s2) else vi_sample b sx sy s)"
    unfolding scaled_pixel_def Let_def d[symmetric] by (simp add: m1 m2)
  have q: "pixel_plain b (vs_cfg s) g oy ox =
      (if vc_aa_mode (vs_cfg s) \<noteq> 3 \<and> (xf \<noteq> 0 \<or> yf \<noteq> 0)
       then if xf = 0 then column_plain b (vs_cfg s) sx sy yf
         else vi_lerp3 (column_plain b (vs_cfg s) sx sy yf) (column_plain b (vs_cfg s) (sx + 1) sy yf) xf
       else sample_plain b (vs_cfg s) sx sy)"
    unfolding pixel_plain_def Let_def d[symmetric] by simp
  show ?thesis
    using assms(2) sample_ok[OF assms(1), of sx sy r s'] k1 k2 k unfolding p q by (auto split: if_splits)
qed

definition paint :: "(nat \<Rightarrow> nat \<Rightarrow> rgb) \<Rightarrow> geometry \<Rightarrow> bool \<Rightarrow> (nat \<times> nat) list \<Rightarrow> u8 list \<Rightarrow> u8 list" where
  "paint color g gamma coords out =
     foldl (\<lambda>out (oy, ox). put_pixel (unat ((of_nat oy * ge_width g + of_nat ox) * 4)) (shown gamma (color oy ox)) out)
       out coords"

lemma scan_pixels_paint:
  assumes "sampler_ok b s"
  shows "fst (scan_pixels b g gamma coords (out, s)) = paint (pixel_plain b (vs_cfg s) g) g gamma coords out"
  using assms
proof (induction coords arbitrary: out s)
  case (Cons a coords)
  obtain oy ox where a: "a = (oy, ox)" by (cases a)
  obtain r t where m: "scaled_pixel b g oy ox s = (r, t)" by (metis surj_pair)
  have k: "r = pixel_plain b (vs_cfg s) g oy ox" "sampler_ok b t" "vs_cfg t = vs_cfg s"
    using pixel_ok[OF Cons.prems m] by (simp_all add: frame_def)
  show ?case using Cons.IH[OF k(2)] by (simp add: scan_pixels_def paint_def a m k)
qed (simp add: scan_pixels_def paint_def)

text \<open>C8. The memo of the scaled scan-out is transparent: for every content of memory, every video mode,
  scale and position, every filter setting and buffer, the picture is the one painted pixel by pixel from
  samples read straight from memory. No evicted, stale or misindexed cell is ever shown.\<close>

theorem scanout_memo_transparent:
  "scanout_scaled b out =
     (case bytes_of_mode (vi_read (b_vi b) 0) of
        None \<Rightarrow> ((0, 0), out)
      | Some bpp \<Rightarrow>
          (let g = geometry_of (b_vi b)
           in if ge_width g = 0 \<or> ge_height g = 0 \<or> length out < unat (ge_width g) * unat (ge_height g) * 4
              then ((0, 0), out)
              else ((ge_width g, ge_height g),
                paint (pixel_plain b (cfg_of (b_vi b) bpp) g) g (vi_read (b_vi b) 0 AND 0x0C = 0x08) (scan_coords g) out)))"
  using scan_pixels_paint[OF sampler_new_ok]
  by (simp add: scanout_scaled_def Let_def sampler_new_def split: option.split)

end
