(* ===== verification/Scanout_Filters.thy ===== *)
theory Scanout_Filters
  imports Scanout
begin

text \<open>
  What the picture's filters compute: the digit-by-digit square root of the gamma curve is the integer square
  root, the divot is the median of three, and the coverage filter blends towards the penultimate extremes.
\<close>

section \<open>Square root\<close>

lemma unat_shr_div: "unat (shr (w :: u32) n) = unat w div 2 ^ n"
  unfolding unat_drop_bit_eq by (simp only: drop_bit_eq_div)

lemma sqrt_loop_exact:
  assumes "unat one = 4 ^ k" "k \<le> 15" "unat res = r * 2 ^ (k + 1)" "r * r \<le> a" "unat op = a - r * r"
    "a < (r + 2 ^ (k + 1)) * (r + 2 ^ (k + 1))" "a < 2 ^ 32" "k = 15 \<longrightarrow> r = 0"
  shows "\<exists>q. unat (sqrt_loop op res one) = q \<and> q * q \<le> a \<and> a < (q + 1) * (q + 1)"
  using assms
proof (induction k arbitrary: op res one r)
  case 0
  have bounds: "r < 2 ^ 16"
  proof (rule ccontr)
    assume "\<not> r < 2 ^ 16"
    then have "2 ^ 16 * 2 ^ 16 \<le> r * r" by (intro mult_le_mono) simp_all
    then show False using "0.prems"(4,7) by simp
  qed
  have one: "one = 1" using "0.prems"(1) by (simp add: word_unat_eq_iff)
  have res: "unat res = 2 * r" "unat (res + 1) = 2 * r + 1" "unat (res + 2) = 2 * r + 2"
    using "0.prems"(3) bounds by (simp_all add: unat_word_ariths)
  have s: "shr (1 :: u32) 2 = 0" "shl (1 :: u32) 1 = 2" by (simp_all add: drop_bit_eq_div push_bit_eq_mult)
  have h: "unat (shr (res + 2) 1) = r + 1" "unat (shr res 1) = r"
    using res by (simp_all add: unat_shr_div)
  have run: "sqrt_loop op res one = (if op \<ge> res + 1 then shr (res + 2) 1 else shr res 1)"
    using s by (subst sqrt_loop.simps) (simp add: one sqrt_loop.simps)
  have ge: "op \<ge> res + 1 \<longleftrightarrow> (r + 1) * (r + 1) \<le> a"
    using res(2) "0.prems"(4,5) by (simp add: word_le_nat_alt algebra_simps) linarith
  show ?case
  proof (cases "(r + 1) * (r + 1) \<le> a")
    case True
    moreover have "a < (r + 1 + 1) * (r + 1 + 1)" using "0.prems"(6) by (simp add: numeral_2_eq_2)
    ultimately show ?thesis using run ge h by simp
  next
    case False
    then show ?thesis using run ge h "0.prems"(4) by simp
  qed
next
  case (Suc k)
  have bounds: "r < 2 ^ 16"
  proof (rule ccontr)
    assume "\<not> r < 2 ^ 16"
    then have "2 ^ 16 * 2 ^ 16 \<le> r * r" by (intro mult_le_mono) simp_all
    then show False using Suc.prems(4,7) by simp
  qed
  define b where "b = (2 :: nat) ^ (k + 1)"
  have b2: "b * b = 4 ^ Suc k" by (simp add: b_def flip: power_mult_distrib)
  have one: "unat one = b * b" using Suc.prems(1) b2 by simp
  have four: "2 ^ (Suc k + 1) = 2 * b" by (simp add: b_def)
  have res: "unat res = 2 * (r * b)" using Suc.prems(3) four by simp
  have b15: "b \<le> 2 ^ 15" using Suc.prems(2) unfolding b_def by (intro power_increasing) simp_all
  have small: "2 * (r * b) + 2 * (b * b) < 2 ^ 32"
  proof (cases "r = 0")
    case True
    have "b * b \<le> 2 ^ 15 * 2 ^ 15" using b15 by (intro mult_le_mono)
    then show ?thesis using True by simp
  next
    case False
    then have "k + 1 \<le> 14" using Suc.prems(2,8) by (cases "k = 14") auto
    then have b14: "b \<le> 2 ^ 14" unfolding b_def by (intro power_increasing) simp_all
    then have "r * b \<le> 2 ^ 16 * 2 ^ 14" "b * b \<le> 2 ^ 14 * 2 ^ 14" using bounds by (intro mult_le_mono; simp)+
    then show ?thesis by simp
  qed
  have sum: "unat (res + one) = 2 * (r * b) + b * b" using small by (simp add: unat_word_ariths res one)
  have two: "unat (shl one 1) = 2 * (b * b)" using small by (simp add: push_bit_eq_mult unat_word_ariths one)
  have sum2: "unat (res + shl one 1) = 2 * (r * b) + 2 * (b * b)" 
    unfolding unat_word_ariths(1)[of res "shl one 1"] two res using small by simp
  have h: "unat (shr (res + shl one 1) 1) = (r + b) * b" "unat (shr res 1) = r * b"
  proof -
    have "2 * (r * b) + 2 * (b * b) = 2 * ((r + b) * b)" by (simp add: algebra_simps)
    then show "unat (shr (res + shl one 1) 1) = (r + b) * b" unfolding unat_shr_div sum2 by simp
    show "unat (shr res 1) = r * b" unfolding unat_shr_div res by simp
  qed
  have q: "unat (shr one 2) = 4 ^ k"
    using Suc.prems(1) by (simp add: unat_shr_div)
  have nz: "one \<noteq> 0" using Suc.prems(1) by (metis power_not_zero unat_0 zero_neq_numeral)
  have sq: "(r + b) * (r + b) = r * r + (2 * (r * b) + b * b)" by (simp add: algebra_simps)
  have ge: "op \<ge> res + one \<longleftrightarrow> (r + b) * (r + b) \<le> a"
    unfolding sq using sum Suc.prems(4,5) by (simp add: word_le_nat_alt) linarith
  have up: "a < (r + b + b) * (r + b + b)" using Suc.prems(6) unfolding four by (simp add: mult_2 add.assoc)
  have k14: "k \<le> 15" "k \<noteq> 15" using Suc.prems(2) by simp_all
  show ?case
  proof (cases "(r + b) * (r + b) \<le> a")
    case True
    have run: "sqrt_loop op res one = sqrt_loop (op - (res + one)) (shr (res + shl one 1) 1) (shr one 2)"
      using True ge nz by (subst sqrt_loop.simps) simp
    have "unat (op - (res + one)) = a - (r + b) * (r + b)"
      using True ge sum Suc.prems(5) sq by (simp add: unat_sub)
    then show ?thesis
      unfolding run using True up k14 h(1) Suc.prems(7) b_def by (intro Suc.IH[OF q, where r = "r + b"]) simp_all
  next
    case False
    have run: "sqrt_loop op res one = sqrt_loop op (shr res 1) (shr one 2)"
      using False ge nz by (subst sqrt_loop.simps) simp
    show ?thesis
      unfolding run using False Suc.prems(4,5,7) k14 h(2) b_def by (intro Suc.IH[OF q, where r = r]) (simp_all add: not_le)
  qed
qed

lemma sqrt_start_power:
  assumes "unat one = 4 ^ k" "unat op < 4 * 4 ^ k"
  shows "(op = 0 \<and> sqrt_start op one = 0) \<or>
    (\<exists>j \<le> k. unat (sqrt_start op one) = 4 ^ j \<and> unat op < 4 * 4 ^ j)"
  using assms
proof (induction k arbitrary: one)
  case 0
  then have one: "one = 1" by (simp add: word_unat_eq_iff)
  have s: "shr (1 :: u32) 2 = 0" by (simp add: drop_bit_eq_div)
  show ?case
  proof (cases "op = 0")
    case True
    have "sqrt_start 0 1 = 0" using s by (subst sqrt_start.simps) (simp add: sqrt_start.simps)
    then show ?thesis using True one by simp
  next
    case False
    then have "sqrt_start op 1 = 1" by (subst sqrt_start.simps) (simp add: word_less_1)
    then show ?thesis using 0 one by simp
  qed
next
  case (Suc k)
  show ?case
  proof (cases "one > op")
    case True
    have q: "unat (shr one 2) = 4 ^ k" using Suc.prems(1) by (simp add: unat_shr_div)
    have "unat op < 4 * 4 ^ k" using True Suc.prems(1) by (simp add: word_less_nat_alt)
    from Suc.IH[OF q this] show ?thesis
      using True by (subst (1 2) sqrt_start.simps) (auto intro: le_SucI)
  next
    case False
    then show ?thesis using Suc.prems by (subst (1 2) sqrt_start.simps) auto
  qed
qed

lemma integer_sqrt_exact:
  "unat (vi_integer_sqrt a) * unat (vi_integer_sqrt a) \<le> unat a \<and>
   unat a < (unat (vi_integer_sqrt a) + 1) * (unat (vi_integer_sqrt a) + 1)"
proof -
  have a: "unat a < 2 ^ LENGTH(32)" by (rule unsigned_less)
  have one: "unat (shl (1 :: u32) 30) = 4 ^ 15" by (simp add: push_bit_eq_mult)
  from sqrt_start_power[OF one, of a] a
  consider "a = 0" "sqrt_start a (shl 1 30) = 0"
    | j where "j \<le> 15" "unat (sqrt_start a (shl 1 30)) = 4 ^ j" "unat a < 4 * 4 ^ j" by auto
  then show ?thesis
  proof cases
    case 1
    then show ?thesis by (simp add: vi_integer_sqrt_def sqrt_loop.simps)
  next
    case (2 j)
    have "(2 :: nat) ^ (j + 1) * 2 ^ (j + 1) = 4 * 4 ^ j" by (simp flip: power_mult_distrib)
    then show ?thesis
      using sqrt_loop_exact[OF 2(2,1), of 0 0 "unat a" a] 2(3) a by (simp add: vi_integer_sqrt_def)
  qed
qed

text \<open>The gamma curve is exact: the shift-and-subtract loop computes the integer square root of every
  32-bit number, and each entry of the gamma table is twice the root of 64 times the sample, never cut
  off by the byte it is stored in.\<close>

lemma gamma_is_square_root:
  "unat (vi_integer_sqrt a) * unat (vi_integer_sqrt a) \<le> unat a \<and>
   unat a < (unat (vi_integer_sqrt a) + 1) * (unat (vi_integer_sqrt a) + 1) \<and>
   GAMMA_TABLE ! unat v = vi_gamma v \<and>
   unat (vi_gamma v) = 2 * unat (vi_integer_sqrt (64 * to_u32 v)) \<and> unat (vi_gamma v) < 256"
proof -
  have v: "unat v < 2 ^ LENGTH(8)" by (rule unsigned_less)
  have u: "unat (to_u32 v) = unat v" using v by (simp add: unsigned_ucast_eq take_bit_nat_eq_self)
  define w where "w = 64 * to_u32 v"
  have w: "unat w = 64 * unat v" "shl (to_u32 v) 6 = w" using v u by (simp_all add: w_def unat_word_ariths push_bit_eq_mult mult.commute)
  define r where "r = vi_integer_sqrt w"
  have r: "unat r < 128"
  proof (rule ccontr)
    assume "\<not> unat r < 128"
    then have "128 * 128 \<le> unat r * unat r" by (intro mult_le_mono) simp_all
    then show False using integer_sqrt_exact[of w] w(1) v by (simp add: r_def)
  qed
  have r2: "unat (shl r 1) = 2 * unat r" using r by (simp add: push_bit_eq_mult unat_word_ariths)
  then have g: "unat (vi_gamma v) = 2 * unat r"
    using r by (simp add: vi_gamma_def w(2) r_def[symmetric] unsigned_ucast_eq take_bit_nat_eq_self)
  have "GAMMA_TABLE ! unat v = vi_gamma v" using v by (simp add: GAMMA_TABLE_def)
  then show ?thesis using g r integer_sqrt_exact[of a] by (simp add: r_def w_def)
qed

section \<open>Order statistics\<close>

lemma median_is_middle: "median l c r = max (min l c) (min (max l c) r)"
  by (auto simp: median_def max_def min_def)

definition first_max :: "'a::linorder list \<Rightarrow> nat \<Rightarrow> nat \<Rightarrow> bool" where
  "first_max xs i p \<longleftrightarrow> p < i \<and> (\<forall>j < i. xs ! j \<le> xs ! p) \<and> (\<forall>j < p. xs ! j < xs ! p)"

definition first_min :: "'a::linorder list \<Rightarrow> nat \<Rightarrow> nat \<Rightarrow> bool" where
  "first_min xs i p \<longleftrightarrow> p < i \<and> (\<forall>j < i. xs ! p \<le> xs ! j) \<and> (\<forall>j < p. xs ! p < xs ! j)"

definition largest_before :: "'a::linorder list \<Rightarrow> nat \<Rightarrow> 'a \<Rightarrow> bool" where
  "largest_before xs p m \<longleftrightarrow> (if p = 0 then m = xs ! 0 else (\<exists>j < p. m = xs ! j) \<and> (\<forall>j < p. xs ! j \<le> m))"

definition smallest_before :: "'a::linorder list \<Rightarrow> nat \<Rightarrow> 'a \<Rightarrow> bool" where
  "smallest_before xs p m \<longleftrightarrow> (if p = 0 then m = xs ! 0 else (\<exists>j < p. m = xs ! j) \<and> (\<forall>j < p. m \<le> xs ! j))"

definition extremes_ok :: "u32 list \<Rightarrow> nat \<Rightarrow> extremes \<Rightarrow> bool" where
  "extremes_ok px i e \<longleftrightarrow> first_max px i (ex_posmax e) \<and> first_min px i (ex_posmin e) \<and>
     largest_before px (ex_posmax e) (ex_penmax e) \<and> smallest_before px (ex_posmin e) (ex_penmin e)"

lemma extremes_step_ok:
  assumes "extremes_ok px i e"
  shows "extremes_ok px (Suc i) (extremes_step px e i)"
proof -
  have m: "first_max px i (ex_posmax e)" "first_min px i (ex_posmin e)"
    "largest_before px (ex_posmax e) (ex_penmax e)" "smallest_before px (ex_posmin e) (ex_penmin e)"
    using assms by (simp_all add: extremes_ok_def)
  have mm: "px ! ex_posmin e \<le> px ! ex_posmax e" using m(1,2) by (simp add: first_max_def first_min_def)
  consider "px ! i > px ! ex_posmax e" | "\<not> px ! i > px ! ex_posmax e" "px ! i < px ! ex_posmin e"
    | "\<not> px ! i > px ! ex_posmax e" "\<not> px ! i < px ! ex_posmin e" by blast
  then show ?thesis
  proof cases
    case 1
    have a: "first_max px (Suc i) i" using 1 m(1) by (fastforce simp: first_max_def less_Suc_eq)
    have b: "first_min px (Suc i) (ex_posmin e)" using 1 mm m(2) by (fastforce simp: first_min_def less_Suc_eq)
    have c: "largest_before px i (px ! ex_posmax e)" using m(1) by (auto simp: first_max_def largest_before_def)
    show ?thesis using 1 a b c m(4) by (simp add: extremes_step_def extremes_ok_def)
  next
    case 2
    have a: "first_max px (Suc i) (ex_posmax e)" using 2 m(1) by (fastforce simp: first_max_def less_Suc_eq)
    have b: "first_min px (Suc i) i" using 2 m(2) by (fastforce simp: first_min_def less_Suc_eq)
    have c: "smallest_before px i (px ! ex_posmin e)" using m(2) by (auto simp: first_min_def smallest_before_def)
    show ?thesis using 2 a b c m(3) by (simp add: extremes_step_def extremes_ok_def)
  next
    case 3
    have a: "first_max px (Suc i) (ex_posmax e)" using 3 m(1) by (fastforce simp: first_max_def less_Suc_eq)
    have b: "first_min px (Suc i) (ex_posmin e)" using 3 m(2) by (fastforce simp: first_min_def less_Suc_eq)
    show ?thesis using 3 a b m(3,4) by (simp add: extremes_step_def extremes_ok_def)
  qed
qed

lemma foldl_max: "foldl (\<lambda>m p. if p > m then p else m) (m :: 'a::linorder) xs = Max (insert m (set xs))"
proof (induction xs arbitrary: m)
  case (Cons x xs)
  have "Max (insert m (insert x (set xs))) = Max (insert (max m x) (set xs))"
    by (cases "set xs = {}") (simp_all add: max.assoc)
  moreover have "(if x > m then x else m) = max m x" by (auto simp: max_def)
  ultimately show ?case using Cons by simp
qed simp

lemma foldl_min: "foldl (\<lambda>m p. if p < m then p else m) (m :: 'a::linorder) xs = Min (insert m (set xs))"
proof (induction xs arbitrary: m)
  case (Cons x xs)
  have "Min (insert m (insert x (set xs))) = Min (insert (min m x) (set xs))"
    by (cases "set xs = {}") (simp_all add: min.assoc)
  moreover have "(if x < m then x else m) = min m x" by (auto simp: min_def)
  ultimately show ?case using Cons by simp
qed simp

lemma remove_first:
  assumes "p < length xs" "\<forall>j < p. xs ! j \<noteq> xs ! p"
  shows "set (remove1 (xs ! p) xs) = set (take p xs) \<union> set (drop (p + 1) xs)"
proof -
  have "xs = take p xs @ xs ! p # drop (p + 1) xs" using assms(1) by (simp add: id_take_nth_drop)
  moreover have "xs ! p \<notin> set (take p xs)" using assms by (fastforce simp: in_set_conv_nth)
  ultimately have "remove1 (xs ! p) xs = take p xs @ drop (p + 1) xs"
    by (metis remove1.simps(2) remove1_append)
  then show ?thesis by simp
qed

lemma penultimate_max:
  assumes "first_max xs (length xs) p" "largest_before xs p m"
  shows "(if m \<noteq> xs ! p then foldl (\<lambda>m p. if p > m then p else m) m (drop (p + 1) xs) else m) =
    (if xs ! 0 = Max (set xs) then xs ! 0 else Max (set (remove1 (Max (set xs)) xs)))"
proof -
  have p: "p < length xs" "\<forall>j < length xs. xs ! j \<le> xs ! p" "\<forall>j < p. xs ! j < xs ! p"
    using assms(1) by (simp_all add: first_max_def)
  have mx: "Max (set xs) = xs ! p"
    using p by (intro Max_eqI) (auto simp: in_set_conv_nth)
  show ?thesis
  proof (cases "p = 0")
    case True
    then show ?thesis using assms(2) mx by (simp add: largest_before_def)
  next
    case False
    then obtain j where j: "j < p" "m = xs ! j" "\<forall>j < p. xs ! j \<le> m" using assms(2) by (auto simp: largest_before_def)
    then have ne: "m \<noteq> xs ! p" "xs ! 0 \<noteq> xs ! p" using p(3) False by force+
    have "set (take p xs) = insert m (set (take p xs))" using j(1,2) p(1)
      by (metis insert_absorb length_take min.absorb4 nth_mem nth_take)
    then have "set (remove1 (xs ! p) xs) = set (take p xs) \<union> insert m (set (drop (p + 1) xs))"
      using remove_first[OF p(1)] p(3) by (metis Un_insert_left Un_insert_right less_irrefl)
    moreover have "Max (set (take p xs) \<union> insert m (set (drop (p + 1) xs))) = Max (insert m (set (drop (p + 1) xs)))"
    proof (rule Max_eqI)
      show "Max (insert m (set (drop (p + 1) xs))) \<in> set (take p xs) \<union> insert m (set (drop (p + 1) xs))"
        using Max_in[of "insert m (set (drop (p + 1) xs))"] by blast
      fix y assume "y \<in> set (take p xs) \<union> insert m (set (drop (p + 1) xs))"
      then have "y \<le> m \<or> y \<in> insert m (set (drop (p + 1) xs))" using j(3) by (auto simp: in_set_conv_nth)
      moreover have "z \<le> Max (insert m (set (drop (p + 1) xs)))" if "z \<in> insert m (set (drop (p + 1) xs))" for z
        using that by (intro Max_ge) simp_all
      ultimately show "y \<le> Max (insert m (set (drop (p + 1) xs)))" by (meson insertI1 order_trans)
    qed simp
    ultimately show ?thesis using ne mx by (simp add: foldl_max)
  qed
qed

lemma penultimate_min:
  assumes "first_min xs (length xs) p" "smallest_before xs p m"
  shows "(if m \<noteq> xs ! p then foldl (\<lambda>m p. if p < m then p else m) m (drop (p + 1) xs) else m) =
    (if xs ! 0 = Min (set xs) then xs ! 0 else Min (set (remove1 (Min (set xs)) xs)))"
proof -
  have p: "p < length xs" "\<forall>j < length xs. xs ! p \<le> xs ! j" "\<forall>j < p. xs ! p < xs ! j"
    using assms(1) by (simp_all add: first_min_def)
  have mx: "Min (set xs) = xs ! p"
    using p by (intro Min_eqI) (auto simp: in_set_conv_nth)
  show ?thesis
  proof (cases "p = 0")
    case True
    then show ?thesis using assms(2) mx by (simp add: smallest_before_def)
  next
    case False
    then obtain j where j: "j < p" "m = xs ! j" "\<forall>j < p. m \<le> xs ! j" using assms(2) by (auto simp: smallest_before_def)
    then have ne: "m \<noteq> xs ! p" "xs ! 0 \<noteq> xs ! p" using p(3) False by force+
    have "set (take p xs) = insert m (set (take p xs))" using j(1,2) p(1)
      by (metis insert_absorb length_take min.absorb4 nth_mem nth_take)
    then have "set (remove1 (xs ! p) xs) = set (take p xs) \<union> insert m (set (drop (p + 1) xs))"
      using remove_first[OF p(1)] p(3) by (metis Un_insert_left Un_insert_right less_irrefl)
    moreover have "Min (set (take p xs) \<union> insert m (set (drop (p + 1) xs))) = Min (insert m (set (drop (p + 1) xs)))"
    proof (rule Min_eqI)
      show "Min (insert m (set (drop (p + 1) xs))) \<in> set (take p xs) \<union> insert m (set (drop (p + 1) xs))"
        using Min_in[of "insert m (set (drop (p + 1) xs))"] by blast
      fix y assume "y \<in> set (take p xs) \<union> insert m (set (drop (p + 1) xs))"
      then have "m \<le> y \<or> y \<in> insert m (set (drop (p + 1) xs))" using j(3) by (auto simp: in_set_conv_nth)
      moreover have "Min (insert m (set (drop (p + 1) xs))) \<le> z" if "z \<in> insert m (set (drop (p + 1) xs))" for z
        using that by (intro Min_le) simp_all
      ultimately show "Min (insert m (set (drop (p + 1) xs))) \<le> y" by (meson insertI1 order_trans)
    qed simp
    ultimately show ?thesis using ne mx by (simp add: foldl_min)
  qed
qed

text \<open>The filters are order statistics: the divot's three-way choice is the median of its neighbours, and
  the one-pass search for the penultimate extremes finds, of the centre and the covered neighbours in any
  number and order, the largest and the smallest value left when one maximum and one minimum are taken
  out, or the extreme itself when the centre is it.\<close>

lemma filters_are_order_statistics:
  "median l c r = max (min l c) (min (max l c) r) \<and>
   vi_video_max (x # xs) =
     (if x = Min (set (x # xs)) then x else Min (set (remove1 (Min (set (x # xs))) (x # xs))),
      if x = Max (set (x # xs)) then x else Max (set (remove1 (Max (set (x # xs))) (x # xs))))"
proof -
  define px where "px = x # xs"
  have fold: "extremes_ok px (Suc n) (foldl (extremes_step px) \<lparr>ex_posmax = 0, ex_posmin = 0, ex_penmax = px ! 0, ex_penmin = px ! 0\<rparr> [1..<Suc n])" for n
  proof (induction n)
    case 0
    then show ?case by (simp add: extremes_ok_def first_max_def first_min_def largest_before_def smallest_before_def)
  next
    case (Suc n)
    then show ?case using extremes_step_ok[OF Suc] by simp
  qed
  define e where "e = foldl (extremes_step px) \<lparr>ex_posmax = 0, ex_posmin = 0, ex_penmax = px ! 0, ex_penmin = px ! 0\<rparr> [1..<length px]"
  have len: "length px = Suc (length xs)" by (simp add: px_def)
  have ok: "extremes_ok px (length px) e" unfolding e_def len by (rule fold)
  have "vi_video_max px =
      (if px ! 0 = Min (set px) then px ! 0 else Min (set (remove1 (Min (set px)) px)),
       if px ! 0 = Max (set px) then px ! 0 else Max (set (remove1 (Max (set px)) px)))"
    using penultimate_max[of px "ex_posmax e" "ex_penmax e"] penultimate_min[of px "ex_posmin e" "ex_penmin e"] ok
    unfolding vi_video_max_def e_def[symmetric] Let_def extremes_ok_def by simp
  then show ?thesis using median_is_middle by (simp only: px_def nth_Cons_0 simp_thms)
qed

end
