(* ===== verification/Sysad.thy ===== *)
theory Sysad
  imports Prelude
begin

text \<open>
  The processor's system interface: \<^verbatim>\<open>rustyn64-cpu/src/sysad.rs\<close>. A transaction is an address cycle, the
  target's service time and one cycle per 32-bit beat, stepped one cycle at a time.
\<close>

datatype phase = AddressPhase | DataPhase

definition syscmd4 :: "phase \<Rightarrow> bool" where
  "syscmd4 p = (p = DataPhase)"

datatype bus_width = Single32 | Single64 | Block128 | Block256

definition width_bytes :: "bus_width \<Rightarrow> u32" where
  "width_bytes w = (case w of Single32 \<Rightarrow> 4 | Single64 \<Rightarrow> 8 | Block128 \<Rightarrow> 16 | Block256 \<Rightarrow> 32)"

definition beats :: "bus_width \<Rightarrow> u32" where
  "beats w = width_bytes w div 4"

datatype block_ordering = SequentialOrder | SubBlockOrder

definition block_order :: "bus_width \<Rightarrow> u32 \<Rightarrow> block_ordering" where
  "block_order w addr = (if w = Block128 \<and> addr AND 0x10 \<noteq> 0 then SubBlockOrder else SequentialOrder)"

record transaction =
  ta_addr :: u32
  ta_width :: bus_width
  ta_write :: bool
  ta_phase :: phase
  ta_remaining :: u32

definition transaction_begin :: "u32 \<Rightarrow> bus_width \<Rightarrow> bool \<Rightarrow> transaction" where
  "transaction_begin addr w wr = \<lparr>ta_addr = addr, ta_width = w, ta_write = wr, ta_phase = AddressPhase, ta_remaining = 1\<rparr>"

definition sat_add32 :: "u32 \<Rightarrow> u32 \<Rightarrow> u32" where
  "sat_add32 a b = (if a + b < a then - 1 else a + b)"

definition transaction_step :: "u32 \<Rightarrow> transaction \<Rightarrow> bool \<times> transaction" where
  "transaction_step service t =
     (let t = (if ta_remaining t > 0 then t\<lparr>ta_remaining := ta_remaining t - 1\<rparr> else t)
      in if ta_remaining t > 0 then (False, t)
         else case ta_phase t of
             AddressPhase \<Rightarrow> (False, t\<lparr>ta_phase := DataPhase, ta_remaining := sat_add32 service (beats (ta_width t))\<rparr>)
           | DataPhase \<Rightarrow> (True, t))"

definition total_cycles :: "bus_width \<Rightarrow> u32 \<Rightarrow> u32" where
  "total_cycles w service = 1 + service + beats w"

text \<open>The results of the first \<open>n\<close> steps.\<close>

fun cycles :: "nat \<Rightarrow> u32 \<Rightarrow> transaction \<Rightarrow> bool list" where
  "cycles 0 service t = []"
| "cycles (Suc n) service t = (let (finished, t) = transaction_step service t in finished # cycles n service t)"

lemma data_cycles:
  assumes "ta_phase t = DataPhase" "unat (ta_remaining t) = Suc n"
  shows "cycles (Suc n) service t = replicate n False @ [True]"
  using assms
proof (induction n arbitrary: t)
  case 0
  then have r: "ta_remaining t = 1" by (simp add: word_unat_eq_iff)
  show ?case using 0(1) by (simp add: transaction_step_def Let_def r)
next
  case (Suc n)
  have pos: "ta_remaining t > 0" using Suc.prems(2) by (simp add: word_less_nat_alt)
  have dec: "unat (ta_remaining t - 1) = Suc n" using Suc.prems(2) pos by (simp add: unat_minus_one word_gt_0)
  have d0: "ta_remaining t - 1 > 0" using dec by (simp add: word_less_nat_alt)
  have "transaction_step service t = (False, t\<lparr>ta_remaining := ta_remaining t - 1\<rparr>)"
    using pos d0 by (simp add: transaction_step_def Let_def)
  then show ?case
    using Suc.IH[of "t\<lparr>ta_remaining := ta_remaining t - 1\<rparr>"] Suc.prems(1) dec by simp
qed

text \<open>A transaction of every width, over any target, takes exactly the cycles \<^verbatim>\<open>total_cycles\<close> announces: no
  earlier step reports completion and that one does, one cycle for the address, the target's service
  time and one per beat.\<close>

lemma transaction_takes_total_cycles:
  assumes "unat service + unat (beats w) + 1 < 2 ^ 32"
  shows "cycles (unat (total_cycles w service)) service (transaction_begin addr w wr) =
    replicate (unat service + unat (beats w)) False @ [True]"
proof -
  have b: "0 < unat (beats w)" by (cases w) (simp_all add: beats_def width_bytes_def)
  have s: "sat_add32 service (beats w) = service + beats w" "unat (service + beats w) = unat service + unat (beats w)"
    using assms by (simp_all add: sat_add32_def word_less_nat_alt unat_word_ariths)
  have t: "unat (total_cycles w service) = Suc (unat service + unat (beats w))"
    using assms by (simp add: total_cycles_def unat_word_ariths)
  obtain n where n: "unat service + unat (beats w) = Suc n" using b by (cases "unat service + unat (beats w)") simp_all
  let ?t = "(transaction_begin addr w wr)\<lparr>ta_phase := DataPhase, ta_remaining := service + beats w\<rparr>"
  have "transaction_step service (transaction_begin addr w wr) = (False, ?t)"
    by (simp add: transaction_step_def transaction_begin_def s)
  then show ?thesis
    unfolding t n using data_cycles[of ?t n service] s(2) n by (simp add: cycles.simps(2)[of "Suc n"])
qed

lemma transaction_takes_total_cycles_witness:
  "cycles (unat (total_cycles Block128 3)) 3 (transaction_begin 0x1000 Block128 False) = replicate 7 False @ [True]"
  using transaction_takes_total_cycles[of 3 Block128] by (simp add: beats_def width_bytes_def)

end
