(* ===== verification/Boot.thy ===== *)
theory Boot
  imports System
begin

text \<open>
  Booting a cartridge: \<^verbatim>\<open>rustyn64-core/src/boot.rs\<close>. The emulated boot seeds the state the cartridge's own
  boot code expects, copies that code to the coprocessor's data memory and starts it; the other runs
  the console's boot ROM.
\<close>

datatype boot_error = TooSmall | BootCart cart_error

definition cic_seed :: "cic \<Rightarrow> u32" where
  "cic_seed c = (case c of Cic6101 \<Rightarrow> 0x00043F3F | Cic6102 \<Rightarrow> 0x00003F3F | Cic6103 \<Rightarrow> 0x0000783F
     | Cic6105 \<Rightarrow> 0x0000913F | Cic6106 \<Rightarrow> 0x0000853F)"

definition insert_cart :: "cart \<Rightarrow> bus \<Rightarrow> bus" where
  "insert_cart c b = b\<lparr>b_cart := c\<rparr>"

definition apply_cartridge_region :: "bus \<Rightarrow> bus" where
  "apply_cartridge_region b =
     b\<lparr>b_audio := set_region (from_destination_code (h_game_code (c_header (b_cart b)) ! 3)) (b_audio b)\<rparr>"

definition pif_bytes :: "nat \<Rightarrow> u8 list \<Rightarrow> bus \<Rightarrow> bus" where
  "pif_bytes off bytes b =
     b\<lparr>b_cart := (b_cart b)\<lparr>c_pif := foldl (\<lambda>p i. pif_write (off + i) (bytes ! i) p) (c_pif (b_cart b)) [0..<length bytes]\<rparr>\<rparr>"

definition boot_registers :: "u32 \<Rightarrow> regs \<Rightarrow> regs" where
  "boot_registers seed r =
     foldl (\<lambda>r (i, v). reg_write r i v) r
       [(gpr_SP, 0xFFFFFFFFA4001FF0), (gpr_AT, 1), (gpr_A2, 0xFFFFFFFFA4001F0C), (gpr_A3, 0xFFFFFFFFA4001F08),
        (gpr_T0, 0xC0), (gpr_T2, 0x40), (gpr_T3, 0xFFFFFFFFA4000000), (gpr_RA, 0xFFFFFFFFA4001550),
        (gpr_S3, 0), (gpr_S4, 1), (gpr_S5, 0), (gpr_S6, to_u64 (shr seed 8 AND 0xFF)), (gpr_S7, 0)]"

definition boot_pi :: "u32 \<Rightarrow> pi \<Rightarrow> pi" where
  "boot_pi cfg p =
     snd (pi_write (PI_BSD_DOM1_LAT + 12) (shr cfg 20 AND 3)
       (snd (pi_write (PI_BSD_DOM1_LAT + 8) (shr cfg 16 AND 0xF)
         (snd (pi_write (PI_BSD_DOM1_LAT + 4) (shr cfg 8 AND 0xFF)
           (snd (pi_write PI_BSD_DOM1_LAT (cfg AND 0xFF) p)))))))"

definition copy_ipl3 :: "u8 list \<Rightarrow> (nat \<Rightarrow> u8) \<Rightarrow> nat \<Rightarrow> u8" where
  "copy_ipl3 rom m = (\<lambda>a. if 0x40 \<le> a \<and> a < 0x1000 then rom ! a else m a)"

definition boot_cpu :: "u32 \<Rightarrow> cpu \<Rightarrow> cpu" where
  "boot_cpu seed c =
     (let p = cpu_pipeline c;
          c0 = set_hardware 16 0x7006E463 (set_hardware r_STATUS 0x34000000 (pl_cop0 p))
      in set_pc 0xFFFFFFFFA4000040 (c\<lparr>cpu_pipeline := p\<lparr>pl_cop0 := c0\<rparr>, cpu_regs := boot_registers seed (cpu_regs c)\<rparr>))"

definition hle_boot :: "u8 list \<Rightarrow> system \<Rightarrow> boot_error + system" where
  "hle_boot rom s =
     (if length rom < 0x1000 then Inl TooSmall
      else case cart_load rom of
          Inl e \<Rightarrow> Inl (BootCart e)
        | Inr c \<Rightarrow>
            let seed = cic_seed (h_cic (c_header c));
                b = pif_bytes 0x24 (to_be_bytes seed) (apply_cartridge_region (insert_cart c (sy_bus s)));
                cfg = from_be_bytes (take 4 rom);
                b = b\<lparr>b_pi := boot_pi cfg (b_pi b), b_rsp := (b_rsp b)\<lparr>dmem := copy_ipl3 rom (dmem (b_rsp b))\<rparr>\<rparr>
            in Inr (s\<lparr>sy_bus := b, sy_cpu := boot_cpu seed (sy_cpu s)\<rparr>))"

definition real_pif_boot :: "u8 list \<Rightarrow> u8 list \<Rightarrow> system \<Rightarrow> boot_error + system" where
  "real_pif_boot rom pif_rom s =
     (if length rom < 0x1000 \<or> length pif_rom < PIF_ROM_LEN then Inl TooSmall
      else case cart_load rom of
          Inl e \<Rightarrow> Inl (BootCart e)
        | Inr c \<Rightarrow>
            let secrets = boot_secrets (h_cic (c_header c));
                b = apply_cartridge_region (insert_cart c (sy_bus s));
                b = b\<lparr>b_cart := (b_cart b)\<lparr>c_pif := load_boot_rom pif_rom (c_pif (b_cart b))\<rparr>\<rparr>;
                b = pif_bytes 0x24 [0, 0, ipl3_seed secrets, ipl2_seed secrets] b;
                b = b\<lparr>b_cart := (b_cart b)\<lparr>c_pif := set_boot_checksum (ipl2_checksum secrets) (c_pif (b_cart b))\<rparr>\<rparr>
            in Inr (s\<lparr>sy_bus := b\<rparr>))"

section \<open>What the emulated boot hands over\<close>

lemma boot_registers_values:
  assumes "regs_wf r"
  shows "reg_read (boot_registers seed r) gpr_SP = 0xFFFFFFFFA4001FF0"
    "reg_read (boot_registers seed r) gpr_S6 = to_u64 (shr seed 8 AND 0xFF)"
    "reg_read (boot_registers seed r) gpr_RA = 0xFFFFFFFFA4001550"
  using assms
  by (simp_all add: boot_registers_def reg_read_def reg_write_def regs_wf_def gpr_SP_def gpr_AT_def gpr_A2_def gpr_A3_def
      gpr_T0_def gpr_T2_def gpr_T3_def gpr_RA_def gpr_S3_def gpr_S4_def gpr_S5_def gpr_S6_def gpr_S7_def)

text \<open>The emulated boot always succeeds on an image of 4 KiB or more whose first word is known, in any of
  the three byte orders, and starts the processor at the boot code's entry with the stack and the
  lockout seed of the image's own chip. The cartridge it inserts is the restored image, but the boot
  code it copies is the dump's bytes as they are, so the processor starts the cartridge's own boot
  code exactly for a big-endian dump: of a byte-swapped one it runs each pair of bytes exchanged.\<close>

lemma hle_boot_hands_over:
  assumes "detect rom = Some Z64BigEndian" "0x1000 \<le> length rom" "regs_wf (cpu_regs (sy_cpu s))"
  shows "\<exists>s'. hle_boot (dump f rom) s = Inr s' \<and> c_rom (b_cart (sy_bus s')) = rom \<and>
    cpu_pc (sy_cpu s') = 0xFFFFFFFFA4000040 \<and>
    reg_read (cpu_regs (sy_cpu s')) gpr_SP = 0xFFFFFFFFA4001FF0 \<and>
    reg_read (cpu_regs (sy_cpu s')) gpr_S6 = to_u64 (shr (cic_seed (from_ipl3 rom)) 8 AND 0xFF) \<and>
    dmem (b_rsp (sy_bus s')) = copy_ipl3 (dump f rom) (dmem (b_rsp (sy_bus s))) \<and>
    (f = V64ByteSwapped \<longrightarrow> (\<forall>i. 0x20 \<le> i \<and> i < 0x800 \<longrightarrow> dmem (b_rsp (sy_bus s')) (2 * i) = rom ! (2 * i + 1)))"
proof -
  have c: "cart_load (dump f rom) = Inr \<lparr>c_rom = rom,
       c_header = \<lparr>h_title = take 20 (drop 0x20 rom), h_game_code = take 4 (drop 0x3B rom),
                   h_save_type = SaveNone, h_cic = from_ipl3 rom\<rparr>,
       c_save = DevNone, c_pif = set_pak_present 0 False pif_new\<rparr>"
    using detect_dump[OF assms(1), of f] assms(2)
    by (simp add: cart_load_def normalize_dump parse_header_def save_new_def Let_def)
  have sw: "swap_pairs rom ! (2 * i) = rom ! Suc (2 * i)" if "i < 0x800" for i
    using that assms(2) swap_pairs_nth[of "2 * i" rom] by simp
  show ?thesis
    using assms(2) boot_registers_values[OF assms(3)]
    by (simp add: hle_boot_def c Let_def insert_cart_def apply_cartridge_region_def pif_bytes_def boot_cpu_def set_pc_def)
      (simp add: copy_ipl3_def dump_swaps normalize_to_big_endian_def sw)
qed

lemma hle_boot_hands_over_witness:
  "\<exists>s'. hle_boot (dump V64ByteSwapped ([0x80, 0x37, 0x12, 0x40] @ replicate 0x1000 7)) (system_new 0) = Inr s' \<and>
    cpu_pc (sy_cpu s') = 0xFFFFFFFFA4000040"
proof -
  have "regs_wf (cpu_regs (sy_cpu (system_new 0)))" by (simp add: system_new_def cpu_new_def regs_wf_def regs_new_def)
  then show ?thesis
    using hle_boot_hands_over[of "[0x80, 0x37, 0x12, 0x40] @ replicate 0x1000 7" "system_new 0" V64ByteSwapped]
    by (auto simp: detect_def)
qed

end
