(* ===== verification/Rdp_Depth.thy ===== *)
theory Rdp_Depth
  imports System
begin

text \<open>
  The depth buffer: depths are stored as a 3-bit exponent and an 11-bit mantissa, finer towards the far plane,
  with the slope split between the word and the hidden bits. The codec is worked out in the natural numbers
  segment by segment, then the round trip through memory is shown inside the memory's locale.
\<close>

section \<open>The codec in the natural numbers\<close>

definition depth_base :: "nat \<Rightarrow> nat" where
  "depth_base e = 0x40000 - 0x40000 div 2 ^ e"

definition depth_step :: "nat \<Rightarrow> nat" where
  "depth_step e = 2 ^ (6 - e)"

definition in_segment :: "nat \<Rightarrow> nat \<Rightarrow> bool" where
  "in_segment e n \<longleftrightarrow> e \<le> 7 \<and> depth_base e \<le> n \<and> n < depth_base e + 2048 * depth_step e"

lemma eight_cases:
  assumes "e \<le> (7 :: nat)"
  obtains "e = 0" | "e = 1" | "e = 2" | "e = 3" | "e = 4" | "e = 5" | "e = 6" | "e = 7"
  using assms by linarith

lemma segment_exists:
  assumes "n < 0x40000"
  obtains e where "in_segment e n"
proof -
  consider "n < 0x20000" | "0x20000 \<le> n" "n < 0x30000" | "0x30000 \<le> n" "n < 0x38000" | "0x38000 \<le> n" "n < 0x3C000"
    | "0x3C000 \<le> n" "n < 0x3E000" | "0x3E000 \<le> n" "n < 0x3F000" | "0x3F000 \<le> n" "n < 0x3F800" | "0x3F800 \<le> n"
    by linarith
  then have "in_segment 0 n \<or> in_segment 1 n \<or> in_segment 2 n \<or> in_segment 3 n \<or> in_segment 4 n \<or> in_segment 5 n \<or>
      in_segment 6 n \<or> in_segment 7 n"
    using assms by cases (simp_all add: in_segment_def depth_base_def depth_step_def)
  then show thesis using that by blast
qed

lemma find_msb_range:
  assumes "2 ^ k \<le> unat x" "unat x < 2 ^ (k + 1)" "k < 30"
  shows "find_msb x = of_nat k"
proof -
  have len: "bit_len (unat x) = k + 1" using bit_len_ge [OF assms(1)] bit_len_le [OF assms(2)] by simp
  have "unat x < 2 ^ 31"
    using assms(2,3) power_increasing [of "k + 1" 31 "2 :: nat"] by simp
  then have "sint x = int (unat x)" using sint_small_word [of x] by simp
  moreover have "0 < unat x" using assms(1) by (meson less_le_trans zero_less_numeral zero_less_power)
  ultimately have "0 < sint x" by (simp only: of_nat_0_less_iff)
  then have "\<not> x \<le>s 0" by (simp add: word_sle_eq)
  then have "find_msb x = 31 - of_nat (31 - k)" by (simp add: find_msb_def leading_zeros_def len)
  then show ?thesis using assms(3) by (simp add: of_nat_diff)
qed

lemma sar_small: "unat (z :: i32) < 2 ^ 31 \<Longrightarrow> sar z k = shr z k"
proof (rule sint_eq_imp_eq)
  assume z: "unat z < 2 ^ 31"
  have "unat z div 2 ^ k \<le> unat z" by (rule div_le_dividend)
  then have "unat (shr z k) < 2 ^ 31" unfolding unat_shr using z by linarith
  then show "sint (sar z k) = sint (shr z k)"
    using z sint_small_word [of z] sint_small_word [of "shr z k"] by (simp add: sint_shift_right unat_shr zdiv_int)
qed

lemma depth_shift: "e \<le> 7 \<Longrightarrow> unat (smax (6 - of_nat e) 0 :: i32) = 6 - e"
  by (erule eight_cases) (simp_all add: smax_def word_sless_alt)

lemma depth_mantissa:
  assumes "in_segment e n"
  shows "n div depth_step e mod 2048 = (n - depth_base e) div depth_step e" "(n - depth_base e) div depth_step e < 2048"
proof -
  have e: "e \<le> 7" and n: "depth_base e \<le> n" "n < depth_base e + 2048 * depth_step e"
    using assms by (simp_all add: in_segment_def)
  define m where "m = n - depth_base e"
  have m: "n = depth_base e + m" "m < 2048 * depth_step e" using n by (simp_all add: m_def)
  have step: "0 < depth_step e" by (simp add: depth_step_def)
  show lt: "(n - depth_base e) div depth_step e < 2048"
    using m step by (simp add: less_mult_imp_div_less)
  obtain q where "depth_base e = q * 2048 * depth_step e"
  proof (rule eight_cases [OF e])
    show thesis if "e = 0" using that \<open>\<And>q. depth_base e = q * 2048 * depth_step e \<Longrightarrow> thesis\<close> [of 0]
      by (simp add: depth_base_def)
  qed (use that [of 1] that [of 3] that [of 7] that [of 15] that [of 31] that [of 63] that [of 127] in
        \<open>simp_all add: depth_base_def depth_step_def\<close>)
  then have "n div depth_step e = q * 2048 + m div depth_step e"
    using step by (simp add: m(1))
  then show "n div depth_step e mod 2048 = (n - depth_base e) div depth_step e"
    using lt by (simp add: m(1))
qed

lemma z_compress_segment:
  assumes "in_segment e (unat z)"
  shows "unat (z_compress z) = e * 2048 + (unat z - depth_base e) div depth_step e"
proof -
  have e: "e \<le> 7" and lo: "depth_base e \<le> unat z" and hi: "unat z < depth_base e + 2048 * depth_step e"
    using assms by (simp_all add: in_segment_def)
  have z18: "unat z < 0x40000" using hi by (cases rule: eight_cases [OF e]) (simp_all add: depth_base_def depth_step_def)
  then have sz: "sint z = int (unat z)" using sint_small_word [of z] by simp
  have "int (unat z) < int 0x40000" using z18 by (simp only: of_nat_less_iff)
  then have clamp: "sclamp z 0 0x3FFFF = z" by (simp add: sclamp_def word_sless_alt sz)
  have inv: "unat (0x3FFFF - z) = 0x3FFFF - unat z"
    using z18 by (simp add: unat_sub word_le_nat_alt)
  then have sinv: "sint (0x3FFFF - z) = int (0x3FFFF - unat z)"
    using sint_small_word [of "0x3FFFF - z"] by simp
  have expo: "sclamp (17 - find_msb (smax (0x3FFFF - z) 1)) 0 7 = (of_nat e :: i32)"
  proof (cases "e = 7")
    case True
    define v where "v = smax (0x3FFFF - z) 1"
    have "unat v \<noteq> 0" "unat v < 2 ^ 11"
      using inv sinv lo True by (auto simp: v_def smax_def word_sless_alt depth_base_def)
    define k where "k = bit_len (unat v) - 1"
    have len: "bit_len (unat v) = k + 1" using bit_len_pos [OF \<open>unat v \<noteq> 0\<close>] by (simp add: k_def)
    then have k: "k < 11" using bit_len_le [OF \<open>unat v < 2 ^ 11\<close>] by simp
    have msb: "find_msb v = of_nat k"
      using bit_len_bounds [OF \<open>unat v \<noteq> 0\<close>] len k by (intro find_msb_range) simp_all
    have "k = 0 \<or> k = 1 \<or> k = 2 \<or> k = 3 \<or> k = 4 \<or> k = 5 \<or> k = 6 \<or> k = 7 \<or> k = 8 \<or> k = 9 \<or> k = 10"
      using k by (simp add: eval_nat_numeral less_Suc_eq disj_commute) blast
    then show ?thesis
      unfolding v_def [symmetric] msb True by (elim disjE) (simp_all add: sclamp_def word_sless_alt)
  next
    case False
    then have e6: "e \<le> 6" using e by simp
    have r: "2 ^ (17 - e) \<le> 0x3FFFF - unat z" "0x3FFFF - unat z < 2 ^ (17 - e + 1)"
      using lo hi False by (cases rule: eight_cases [OF e]; simp add: depth_base_def depth_step_def)+
    have "smax (0x3FFFF - z) 1 = 0x3FFFF - z"
    proof -
      have "1 \<le> 0x3FFFF - unat z" using r(1) by (meson one_le_numeral one_le_power order_trans)
      then have "int 1 \<le> sint (0x3FFFF - z)" unfolding sinv by (simp only: of_nat_le_iff)
      then have "\<not> 0x3FFFF - z <s 1" unfolding word_sless_alt by simp
      then show ?thesis by (simp add: smax_def)
    qed
    moreover have "find_msb (0x3FFFF - z) = of_nat (17 - e)"
      using r by (intro find_msb_range) (simp_all add: inv)
    ultimately show ?thesis
      by (cases rule: eight_cases [OF e]) (simp_all add: sclamp_def word_sless_alt)
  qed
  define m where "m = (unat z - depth_base e) div depth_step e"
  have m: "unat z div depth_step e mod 2048 = m" "m < 2048" using depth_mantissa [OF assms] by (simp_all add: m_def)
  have "unat (sar z (6 - e) AND 0x7FF) = m"
    using sar_small [of z "6 - e"] z18 m(1) unat_and_mask [of "shr z (6 - e)" 11]
    by (simp add: unat_shr depth_step_def mask_eq_decr_exp)
  moreover have "unat (shl (of_nat e :: i32) 11) = e * 2048"
    using e unat_shl [of "of_nat e :: i32" 11] by (simp add: unat_of_nat_lt)
  ultimately have "unat (shl (of_nat e :: i32) 11 + (sar z (6 - e) AND 0x7FF)) = e * 2048 + m"
    using e m(2) by (simp add: unat_word_ariths)
  then show ?thesis
    unfolding z_compress_def Let_def clamp expo depth_shift [OF e] using e m(2)
    by (simp add: unsigned_ucast_eq take_bit_nat_eq_self m_def)
qed

lemma z_decompress_fields:
  assumes "e \<le> 7" "m < 2048" "unat w = e * 2048 + m"
  shows "unat (z_decompress w) = depth_base e + m * depth_step e"
proof -
  have w: "unat (to_u32 w) = e * 2048 + m" using assms(3) by simp
  have "unat (shr (to_u32 w) 11) = e" using assms(2) w by (simp add: unat_shr)
  then have "shr (to_u32 w) 11 = of_nat e" using assms(1) by (simp add: word_unat_eq_iff unat_of_nat_lt)
  moreover have "unat (to_u32 w) < 2 ^ 31" using w assms by simp
  ultimately have expo: "sar (to_u32 w) 11 = of_nat e" using sar_small [of "to_u32 w" 11] by simp
  have mant: "unat (to_u32 w AND 0x7FF) = m"
    using assms(2) w unat_and_mask [of "to_u32 w" 11] by (simp add: mask_eq_decr_exp)
  have e: "unat (of_nat e :: i32) = e" using assms(1) by (simp add: unat_of_nat_lt)
  have base: "unat (0x40000 - sar (0x40000 :: i32) e) = depth_base e"
    using sar_small [of "0x40000" e] by (cases rule: eight_cases [OF assms(1)]) (simp_all add: depth_base_def)
  have bound: "m * depth_step e < 2 ^ 17" "depth_base e < 2 ^ 18"
    using assms(2) by (cases rule: eight_cases [OF assms(1)]; simp add: depth_step_def depth_base_def)+
  have "unat (shl (to_u32 w AND 0x7FF) (6 - e)) = m * depth_step e"
    using bound(1) unat_shl [of "to_u32 w AND 0x7FF" "6 - e"] mant by (simp add: depth_step_def)
  then show ?thesis
    using bound base unfolding z_decompress_def Let_def expo e depth_shift [OF assms(1)]
    by (subst unat_add_lem [THEN iffD1]) simp_all
qed

section \<open>The codec's round trip\<close>

lemma segment_of_fields: "e \<le> 7 \<Longrightarrow> m < 2048 \<Longrightarrow> in_segment e (depth_base e + m * depth_step e)"
  by (simp add: in_segment_def depth_step_def)

lemma z_codec:
  assumes "unat z < 0x40000"
  shows "unat (z_compress z) < 0x4000"
    and "unat (z_decompress (z_compress z)) \<le> unat z"
    and "unat z < unat (z_decompress (z_compress z)) + depth_step (unat (z_compress z) div 2048)"
    and "z_compress (z_decompress (z_compress z)) = z_compress z"
proof -
  obtain e where e: "in_segment e (unat z)" using segment_exists [OF assms] .
  define m where "m = (unat z - depth_base e) div depth_step e"
  have e7: "e \<le> 7" and lo: "depth_base e \<le> unat z" using e by (simp_all add: in_segment_def)
  have m: "m < 2048" using depth_mantissa [OF e] by (simp add: m_def)
  have c: "unat (z_compress z) = e * 2048 + m" using z_compress_segment [OF e] by (simp add: m_def)
  have d: "unat (z_decompress (z_compress z)) = depth_base e + m * depth_step e"
    by (rule z_decompress_fields [OF e7 m c])
  show "unat (z_compress z) < 0x4000" using c e7 m by simp
  have step: "0 < depth_step e" by (simp add: depth_step_def)
  have "m * depth_step e \<le> unat z - depth_base e" by (simp add: m_def div_times_less_eq_dividend)
  then show "unat (z_decompress (z_compress z)) \<le> unat z" using d lo by simp
  have "unat z - depth_base e < m * depth_step e + depth_step e"
    using dividend_less_div_times [OF step, of "unat z - depth_base e"] by (simp add: m_def add.commute)
  moreover have "unat (z_compress z) div 2048 = e" using c m by simp
  ultimately show "unat z < unat (z_decompress (z_compress z)) + depth_step (unat (z_compress z) div 2048)"
    using d lo by simp
  have "unat (z_compress (z_decompress (z_compress z))) = e * 2048 + m"
    using z_compress_segment [OF segment_of_fields [OF e7 m, folded d]] step by (simp add: d)
  then show "z_compress (z_decompress (z_compress z)) = z_compress z" using c by (simp add: word_unat_eq_iff)
qed

section \<open>Through memory\<close>

lemma depth_word:
  fixes zc :: u16 and dz :: u8
  assumes "unat zc < 0x4000"
  defines "w \<equiv> shl zc 2 OR to_u16 (shr (dz AND 0xF) 2)"
  shows "shl (to_u16 (to_u8 (shr w 8))) 8 OR to_u16 (to_u8 w) = w" "shr w 2 = zc"
    "shl (to_u8 (w AND 3)) 2 OR ((((dz AND 0xF) AND 3) AND 3) AND 3) = dz AND 0xF"
proof -
  have top: "n < 14" if "bit zc n" for n using not_bit_of_lt [of zc 14 n] assms(1) that by (auto simp: not_less [symmetric])
  have masks: "(0xF :: u8) = mask 4" "(3 :: u8) = mask 2" "(3 :: u16) = mask 2" by (simp_all add: mask_eq_decr_exp)
  show "shl (to_u16 (to_u8 (shr w 8))) 8 OR to_u16 (to_u8 w) = w"
    by (rule bit_word_eqI) (auto simp: bit_word_simps)
  show "shr w 2 = zc"
    by (rule bit_word_eqI) (use top in \<open>auto simp: w_def masks bit_word_simps\<close>)
  show "shl (to_u8 (w AND 3)) 2 OR ((((dz AND 0xF) AND 3) AND 3) AND 3) = dz AND 0xF"
  proof (rule bit_word_eqI)
    fix n assume "n < LENGTH(8)"
    have "Suc (Suc (n - 2)) = n" if "2 \<le> n" using that by simp
    then show "bit (shl (to_u8 (w AND 3)) 2 OR ((((dz AND 0xF) AND 3) AND 3) AND 3)) n = bit (dz AND 0xF) n"
      using \<open>n < LENGTH(8)\<close> unfolding w_def masks by (cases "n < 2") (auto simp: bit_word_simps)
  qed
qed

context video_memory begin

lemma zbuffer_round_trip:
  assumes "off (zbuffer_addr r x y) = Some k" "off (zbuffer_addr r x y + 1) = Some k'" "k \<noteq> k'" "unat z < 0x40000"
  shows "zbuffer_read ops r x y (zbuffer_write ops r x y z dz b) = (z_compress z, dz AND 0xF)"
proof -
  define w where "w = shl (z_compress z) 2 OR to_u16 (shr (dz AND 0xF) 2)"
  note word = depth_word [OF z_codec(1) [OF assms(4)], of dz, folded w_def]
  define dzh where "dzh = (dz AND 0xF) AND 3"
  define b' where "b' = vo_write_hidden ops (zbuffer_addr r x y) dzh
      (vo_write ops (zbuffer_addr r x y + 1) (to_u8 w) (vo_write ops (zbuffer_addr r x y) (to_u8 (shr w 8)) b))"
  have "zbuffer_write ops r x y z dz b = b'"
    by (simp only: zbuffer_write_def Let_def w_def dzh_def b'_def)
  moreover have "vo_read ops b' (zbuffer_addr r x y) = to_u8 (shr w 8)" "vo_read ops b' (zbuffer_addr r x y + 1) = to_u8 w"
    "vo_read_hidden ops b' (zbuffer_addr r x y) = dzh AND 3"
    using assms(1-3)
    by (simp_all add: b'_def read_law write_law hidden_read_law hidden_write_law cell_hidden_law hidden_cell_law)
  ultimately show ?thesis
    unfolding zbuffer_read_def Let_def dzh_def by (simp only: word)
qed

end

section \<open>Property\<close>

lemma rdram_offset_small: "unat a < RDRAM_SIZE \<Longrightarrow> rdram_offset a = Some (unat a)"
proof -
  assume a: "unat a < RDRAM_SIZE"
  have "a AND 0x1FFFFFFF = a AND mask 29" by (simp add: mask_eq_decr_exp)
  then have "unat (a AND 0x1FFFFFFF) = unat a" using a by (simp add: unat_and_mask RDRAM_SIZE_def)
  then show ?thesis using a by (simp add: rdram_offset_def)
qed

text \<open>C10. The depth buffer gives back what was written, up to its precision: a depth and a slope written at a
  pixel read back as that slope and as a stored depth whose value is at most the one written and nearer to
  it than one step of its exponent, and writing the value read once more would store the same. This holds
  of every 18-bit depth, over the machine's memory with the hidden bits.\<close>

theorem depth_buffer_round_trip:
  fixes dz :: u8 and b :: bus
  assumes "unat (zbuffer_addr r x y) + 1 < RDRAM_SIZE" "unat z < 0x40000"
  defines "stored \<equiv> zbuffer_read video_bus r x y (zbuffer_write video_bus r x y z dz b)"
  shows "snd stored = dz AND 0xF \<and>
    unat (z_decompress (fst stored)) \<le> unat z \<and>
    unat z < unat (z_decompress (fst stored)) + depth_step (unat (fst stored) div 2048) \<and>
    zbuffer_write video_bus r x y (z_decompress (fst stored)) dz = zbuffer_write video_bus r x y z dz"
proof -
  let ?a = "zbuffer_addr r x y"
  have "unat (?a + 1) = unat ?a + 1"
    using assms(1) by (subst unat_add_lem [THEN iffD1]) (simp_all add: RDRAM_SIZE_def)
  then have "rdram_offset ?a = Some (unat ?a)" "rdram_offset (?a + 1) = Some (unat ?a + 1)"
    using assms(1) rdram_offset_small [of ?a] rdram_offset_small [of "?a + 1"] by simp_all
  then have "stored = (z_compress z, dz AND 0xF)"
    unfolding stored_def using assms(2) by (intro vm.zbuffer_round_trip [where k = "unat ?a" and k' = "unat ?a + 1"]) simp_all
  moreover have "zbuffer_write video_bus r x y (z_decompress (z_compress z)) dz = zbuffer_write video_bus r x y z dz"
    by (rule ext) (simp add: zbuffer_write_def z_codec(4) [OF assms(2)])
  ultimately show ?thesis using z_codec(2,3) [OF assms(2)] by simp
qed

lemma depth_buffer_round_trip_witness:
  "snd (zbuffer_read video_bus rdp_new 3 5 (zbuffer_write video_bus rdp_new 3 5 0x12345 9 bus_new)) = 9"
  using depth_buffer_round_trip [of rdp_new 3 5 "0x12345" 9 bus_new]
  by (simp add: zbuffer_addr_def rdp_new_def RDRAM_SIZE_def Let_def)

end
