(* ===== verification/Rdp_Fill.thy ===== *)
theory Rdp_Fill
  imports Rdp_Depth
begin

text \<open>
  A fill rectangle paints exactly its pixels: the loops over rows and pixels against a closed description of
  the memory, byte by byte. The description is proved inside the memory's locale, for an image that lies in
  memory without wrapping.
\<close>

section \<open>The rectangle\<close>

text \<open>Pixel \<open>(x, y)\<close> lies in the command's rectangle, the scissor box and the image's width.\<close>

definition covered :: "rdp \<Rightarrow> u32 \<Rightarrow> u32 \<Rightarrow> nat \<Rightarrow> nat \<Rightarrow> bool" where
  "covered r hi lo x y \<longleftrightarrow>
     unat (shr lo 12 AND 0xFFF) div 4 \<le> x \<and> x \<le> unat (shr hi 12 AND 0xFFF) div 4 \<and>
     unat (lo AND 0xFFF) div 4 \<le> y \<and> y \<le> unat (hi AND 0xFFF) div 4 \<and>
     unat (scissor_ulx r) div 4 \<le> x \<and> x \<le> unat (scissor_lrx r) div 4 \<and>
     unat (scissor_uly r) div 4 \<le> y \<and> y < (unat (scissor_lry r) + 3) div 4 \<and>
     x < unat (color_image_width r) \<and> unat (shr lo 12 AND 0xFFF) < unat (scissor_lrx r)"

lemma unat_quarter_inc: "unat (shr (v :: u32) 2 + 1) = unat v div 4 + 1"
proof -
  have "unat (shr v 2) < 2 ^ 30" using unat_u32 [of v] by (simp add: unat_shr)
  then show ?thesis by (subst unat_add_lem [THEN iffD1]) (simp_all add: unat_shr)
qed

lemma quarter_or_3: "shr ((v :: u32) OR 3) 2 = shr v 2"
  by (rule bit_word_eqI) (auto simp: bit_word_simps bit_numeral_rec)

lemma unat_not_ge: "\<not> (a :: u32) \<ge> b \<longleftrightarrow> unat a < unat b"
  by (simp add: word_le_nat_alt not_le)

lemma clip_covered:
  "case clip_rectangle r hi lo of
     None \<Rightarrow> \<not> covered r hi lo x y
   | Some (x0, y0, x1, y1) \<Rightarrow>
       (covered r hi lo x y \<longleftrightarrow> unat x0 \<le> x \<and> x < unat x1 \<and> unat y0 \<le> y \<and> y < unat y1) \<and>
       unat x1 \<le> unat (color_image_width r) \<and> unat y1 \<le> (unat (scissor_lry r) + 3) div 4"
proof -
  define xh yh xl yl where "xh = shr lo 12 AND 0xFFF" and "yh = lo AND 0xFFF" and "xl = shr hi 12 AND 0xFFF"
    and "yl = hi AND 0xFFF"
  define x0 y0 x1 y1 where "x0 = max (shr xh 2) (shr (to_u32 (scissor_ulx r)) 2)"
    and "y0 = max (shr yh 2) (shr (to_u32 (scissor_uly r)) 2)"
    and "x1 = min (min (shr xl 2 + 1) (shr (to_u32 (scissor_lrx r)) 2 + 1)) (to_u32 (color_image_width r))"
    and "y1 = min (shr yl 2 + 1) (shr (to_u32 (scissor_lry r) + 3) 2)"
  have clip: "clip_rectangle r hi lo =
      (if \<not> unat xh < unat (scissor_lrx r) \<or> \<not> unat x0 < unat x1 \<or> \<not> unat y0 < unat y1 then None else Some (x0, y0, x1, y1))"
    unfolding clip_rectangle_def Let_def xh_def [symmetric] yh_def [symmetric] xl_def [symmetric] yl_def [symmetric]
      quarter_or_3 x0_def [symmetric] y0_def [symmetric] x1_def [symmetric] y1_def [symmetric]
    by (simp add: word_le_nat_alt not_less)
  have ends: "unat x0 = max (unat xh div 4) (unat (scissor_ulx r) div 4)"
    "unat y0 = max (unat yh div 4) (unat (scissor_uly r) div 4)"
    "unat x1 = min (min (unat xl div 4 + 1) (unat (scissor_lrx r) div 4 + 1)) (unat (color_image_width r))"
    "unat y1 = min (unat yl div 4 + 1) ((unat (scissor_lry r) + 3) div 4)"
    by (simp_all add: x0_def y0_def x1_def y1_def unat_max unat_min unat_quarter_inc unat_shr unat_plus_3)
  have box: "covered r hi lo x y \<longleftrightarrow>
      unat xh < unat (scissor_lrx r) \<and> unat x0 \<le> x \<and> x < unat x1 \<and> unat y0 \<le> y \<and> y < unat y1"
    unfolding covered_def xh_def [symmetric] yh_def [symmetric] xl_def [symmetric] yl_def [symmetric] ends
    by (simp add: less_Suc_eq_le) blast
  show ?thesis
    unfolding clip box by (auto simp: ends)
qed

section \<open>Pixels\<close>

text \<open>The byte of the fill colour at offset \<open>q\<close> of the image: byte \<open>i\<close> of pixel \<open>x\<close> is byte \<open>x * bytes + i\<close> of the
  row, and the colour repeats every four bytes along a row.\<close>

definition paint_byte :: "rdp \<Rightarrow> nat \<Rightarrow> nat \<Rightarrow> u8" where
  "paint_byte r bytes q =
     unpack_rgba (fill_color r) ! ((q div bytes mod unat (color_image_width r) * bytes + q mod bytes) mod 4)"

lemma pixel_index:
  assumes "x < (w :: nat)" "0 < c"
  shows "(y * w + x) * c \<le> q \<and> q < (y * w + x) * c + c \<longleftrightarrow> q div c div w = y \<and> q div c mod w = x"
proof -
  have "(y * w + x) * c \<le> q \<and> q < (y * w + x) * c + c \<longleftrightarrow> q div c = y * w + x"
    using div_eq_range [OF assms(2), of q "y * w + x"] by auto
  also have "\<dots> \<longleftrightarrow> q div c div w = y \<and> q div c mod w = x"
  proof
    assume "q div c = y * w + x"
    then show "q div c div w = y \<and> q div c mod w = x" using assms(1) by simp
  next
    assume "q div c div w = y \<and> q div c mod w = x"
    then show "q div c = y * w + x" using div_mult_mod_eq [of "q div c" w] by simp
  qed
  finally show ?thesis .
qed

lemma and_3_mod: "unat ((x :: u32) AND 3) = unat x mod 4"
  by (rule unat_and_3)

context video_memory begin

text \<open>The pixel at \<open>x\<close>, \<open>A\<close> the offset of its first byte in a memory of \<open>limit\<close> bytes.\<close>

lemma fill_pixel_cell:
  assumes small: "\<And>a. unat a < limit \<Longrightarrow> off a = Some (unat a)"
    and A: "unat (row + x * bpp) = A" "A + unat bpp \<le> limit" "limit < 2 ^ 32"
    and bpp: "bpp = 1 \<or> bpp = 2 \<or> bpp = 4"
  shows "cell (fill_pixel ops r row x bpp b) k =
    (if A \<le> k \<and> k < A + unat bpp then unpack_rgba (fill_color r) ! ((unat x * unat bpp + (k - A)) mod 4) else cell b k)"
proof -
  define a where "a = row + x * bpp"
  have at: "off (a + of_nat i) = Some (A + i)" if "i < unat bpp" for i
  proof -
    have "unat (a + of_nat i) = A + i"
      using A that by (subst unat_add_lem [THEN iffD1]) (simp_all add: a_def unat_of_nat_lt)
    then show ?thesis using small [of "a + of_nat i"] A(2) that by simp
  qed
  from bpp show ?thesis
  proof (elim disjE)
    assume 1: "bpp = 1"
    then show ?thesis
      using at [of 0] by (auto simp: fill_pixel_def a_def write_law Let_def unat_and_3)
  next
    assume 2: "bpp = 2"
    have "(unat x * 2 + i) mod 4 = (if x AND 1 = 0 then i else i + 2)" if "i < 2" for i
    proof (cases "x AND 1 = 0")
      case True
      then have "even (unat x)" using and_1_odd [of x] by simp
      then have "unat x * 2 mod 4 = 0" by presburger
      then show ?thesis using True that by presburger
    next
      case False
      then have "odd (unat x)" using and_1_odd [of x] by simp
      then have "unat x * 2 mod 4 = 2" by presburger
      then show ?thesis using False that by presburger
    qed
    from this [of 0] this [of 1] have half: "unat x * 2 mod 4 = (if x AND 1 = 0 then 0 else 2)"
      "Suc (unat x * 2) mod 4 = (if x AND 1 = 0 then 1 else 3)" by (simp_all split: if_splits)
    have "k = A \<or> k = Suc A" if "A \<le> k" "k < Suc (Suc A)" using that by linarith
    then show ?thesis
      using 2 at [of 0] at [of 1] half by (auto simp: fill_pixel_def a_def write_law Let_def split: if_splits)
  next
    assume 4: "bpp = 4"
    have cell: "cell (write_bytes ops a (unpack_rgba c) b) k =
        (if A \<le> k \<and> k < A + 4 then unpack_rgba c ! (k - A) else cell b k)" for c
    proof -
      have "k = A \<or> k = A + 1 \<or> k = A + 2 \<or> k = A + 3" if "A \<le> k" "k < A + 4" using that by linarith
      then show ?thesis
        using 4 at [of 0] at [of 1] at [of 2] at [of 3]
        by (auto simp: write_bytes_def unpack_rgba_def write_law upt_rec)
    qed
    have "(unat x * 4 + (k - A)) mod 4 = k - A" if "A \<le> k" "k < A + 4"
      using that by (simp only: mod_mult_self3) simp
    then show ?thesis
      using cell [of "fill_color r"] 4 by (auto simp: fill_pixel_def a_def Let_def)
  qed
qed

text \<open>A row, then the rows. The hypotheses put the rows up to \<open>rows\<close> of the image in memory.\<close>

lemma fill_row_cell:
  assumes small: "\<And>a. unat a < limit \<Longrightarrow> off a = Some (unat a)" "limit < 2 ^ 32"
    and image: "unat (color_image r) + rows * unat (color_image_width r) * unat bpp \<le> limit" "unat y < rows"
    and bpp: "bpp = 1 \<or> bpp = 2 \<or> bpp = 4"
    and xs: "\<And>x. x \<in> set xs \<Longrightarrow> unat x < unat (color_image_width r)"
  defines "row \<equiv> color_image r + y * (to_u32 (color_image_width r) * bpp)"
  shows "cell (foldl (\<lambda>b x. fill_pixel ops r row x bpp b) b xs) k =
    (let q = k - unat (color_image r); p = q div unat bpp
     in if unat (color_image r) \<le> k \<and> p div unat (color_image_width r) = unat y \<and>
           p mod unat (color_image_width r) \<in> unat ` set xs
        then paint_byte r (unat bpp) q else cell b k)"
  using xs
proof (induction xs arbitrary: b)
  case Nil
  then show ?case by simp
next
  case (Cons x xs)
  define w c where "w = unat (color_image_width r)" and "c = unat bpp"
  have x: "unat x < w" using Cons.prems [of x] by (simp add: w_def)
  have c: "0 < c" using bpp by (auto simp: c_def)
  define A where "A = unat (color_image r) + (unat y * w + unat x) * c"
  have "unat y * w + unat x + 1 \<le> rows * w"
  proof -
    have "(unat y + 1) * w \<le> rows * w" using image(2) by (intro mult_le_mono) simp_all
    then show ?thesis using x by simp
  qed
  then have "(unat y * w + unat x + 1) * c \<le> rows * w * c" by (rule mult_le_mono1)
  then have A: "A + c \<le> limit" using image(1) by (simp add: A_def w_def c_def)
  have "row + x * bpp = of_nat A"
    by (simp add: row_def A_def w_def c_def algebra_simps)
  then have "unat (row + x * bpp) = A" using A small(2) c by (simp add: unat_of_nat_lt)
  then have pixel: "cell (fill_pixel ops r row x bpp b) k =
      (if A \<le> k \<and> k < A + c then unpack_rgba (fill_color r) ! ((unat x * c + (k - A)) mod 4) else cell b k)"
    using fill_pixel_cell [OF small(1) _ _ small(2) bpp, of row x A r b k] A by (simp add: c_def)
  define q where "q = k - unat (color_image r)"
  have here: "A \<le> k \<and> k < A + c \<longleftrightarrow> unat (color_image r) \<le> k \<and> q div c div w = unat y \<and> q div c mod w = unat x"
    using pixel_index [OF x c, of "unat y" q] by (auto simp: A_def q_def)
  have "cell (fill_pixel ops r row x bpp b) k =
      (if unat (color_image r) \<le> k \<and> q div c div w = unat y \<and> q div c mod w = unat x then paint_byte r c q else cell b k)"
  proof (cases "A \<le> k \<and> k < A + c")
    case True
    then have q: "q div c div w = unat y" "q div c mod w = unat x" "unat (color_image r) \<le> k" using here by blast+
    then have "q div c = unat y * w + unat x" by (metis div_mult_mod_eq)
    then have "q = (unat y * w + unat x) * c + q mod c" by (metis div_mult_mod_eq)
    then have "k - A = q mod c" using q(3) by (simp add: A_def q_def)
    then show ?thesis using pixel True q by (simp add: paint_byte_def w_def)
  next
    case False
    then have n: "\<not> (unat (color_image r) \<le> k \<and> q div c div w = unat y \<and> q div c mod w = unat x)"
      using here by blast
    show ?thesis using pixel unfolding if_not_P [OF False] if_not_P [OF n] .
  qed
  then show ?case
    using Cons.IH [of "fill_pixel ops r row x bpp b"] Cons.prems
    by (auto simp: Let_def q_def [symmetric] w_def [symmetric] c_def [symmetric])
qed

lemma draw_rows_Cons:
  "draw_rows draw r stride (y # ys) xs b =
     draw_rows draw r stride ys xs (let row = color_image r + y * stride in foldl (\<lambda>b x. draw row x y b) b xs)"
  by (simp add: draw_rows_def)

lemma fill_rows_cell:
  assumes small: "\<And>a. unat a < limit \<Longrightarrow> off a = Some (unat a)" "limit < 2 ^ 32"
    and image: "unat (color_image r) + rows * unat (color_image_width r) * unat bpp \<le> limit"
    and bpp: "bpp = 1 \<or> bpp = 2 \<or> bpp = 4"
    and xs: "\<And>x. x \<in> set xs \<Longrightarrow> unat x < unat (color_image_width r)"
    and ys: "\<And>y. y \<in> set ys \<Longrightarrow> unat y < rows"
  shows "cell (draw_rows (\<lambda>row x y. fill_pixel ops r row x bpp) r (to_u32 (color_image_width r) * bpp) ys xs b) k =
    (let q = k - unat (color_image r); p = q div unat bpp
     in if unat (color_image r) \<le> k \<and> p div unat (color_image_width r) \<in> unat ` set ys \<and>
           p mod unat (color_image_width r) \<in> unat ` set xs
        then paint_byte r (unat bpp) q else cell b k)"
  using ys
proof (induction ys arbitrary: b)
  case Nil
  then show ?case by (simp add: draw_rows_def)
next
  case (Cons y ys)
  define q p where "q = k - unat (color_image r)" and "p = q div unat bpp"
  have y: "unat y < rows" using Cons.prems by simp
  note row = fill_row_cell [OF small image y bpp xs, of xs b k, unfolded Let_def, folded q_def, folded p_def]
  show ?case
    unfolding draw_rows_Cons Let_def
    using Cons.IH [unfolded Let_def, folded q_def, folded p_def] Cons.prems row
    by (auto simp: q_def [symmetric] p_def [symmetric])
qed

end

section \<open>Property\<close>

lemma unat_range_u32: "unat ` set (range_u32 a b) = {unat a..<unat b}"
proof -
  have "k \<in> unat ` set (range_u32 a b)" if "unat a \<le> k" "k < unat b" for k
  proof -
    have "unat (of_nat k :: u32) = k" using that unat_u32 [of b] by (simp add: unat_of_nat_lt)
    then show ?thesis using that by (intro image_eqI [of k unat "of_nat k"]) (simp_all add: set_range_u32)
  qed
  then show ?thesis by (auto simp: set_range_u32)
qed

text \<open>C9. A fill rectangle paints exactly its pixels. In fill and copy mode, for an image of one, two or four bytes
  a pixel that lies in RDRAM down to the scissor's bottom, after the command every byte of RDRAM is the
  fill colour's byte if it belongs to a pixel of the rectangle, the scissor box and the image, and is
  unchanged otherwise. The right and the lower edge of the rectangle and the right edge of the scissor are
  inclusive, the lower edge of the scissor is rounded up and exclusive, and a rectangle that does not start
  left of the scissor's right edge paints nothing. The colour is laid along each row with a period of four
  bytes.\<close>

theorem fill_rectangle_paints:
  assumes "color_image_bpp r = Some bpp"
    and "om_cycle_type (other_modes_of r) = CYCLE_TYPE_COPY \<or> om_cycle_type (other_modes_of r) = CYCLE_TYPE_FILL"
    and "unat (color_image r) + (unat (scissor_lry r) + 3) div 4 * unat (color_image_width r) * unat bpp \<le> RDRAM_SIZE"
  shows "rdram (fill_rectangle video_bus r hi lo b) k =
    (let q = k - unat (color_image r); p = q div unat bpp; w = unat (color_image_width r)
     in if unat (color_image r) \<le> k \<and> covered r hi lo (p mod w) (p div w)
        then unpack_rgba (fill_color r) ! ((p mod w * unat bpp + q mod unat bpp) mod 4)
        else rdram b k)"
proof -
  define q p w where "q = k - unat (color_image r)" and "p = q div unat bpp" and "w = unat (color_image_width r)"
  have bpp: "bpp = 1 \<or> bpp = 2 \<or> bpp = 4"
    using assms(1) by (auto simp: color_image_bpp_def split: if_splits)
  note clip = clip_covered [of r hi lo "p mod w" "p div w"]
  show ?thesis
  proof (cases "clip_rectangle r hi lo")
    case None
    then have "\<not> covered r hi lo (p mod w) (p div w)" using clip by simp
    then show ?thesis
      using None assms(1)
      by (simp add: fill_rectangle_def q_def [symmetric] p_def [symmetric] w_def [symmetric] Let_def)
  next
    case (Some z)
    obtain x0 y0 x1 y1 where z: "z = (x0, y0, x1, y1)" by (cases z)
    then have box: "covered r hi lo (p mod w) (p div w) \<longleftrightarrow>
        unat x0 \<le> p mod w \<and> p mod w < unat x1 \<and> unat y0 \<le> p div w \<and> p div w < unat y1"
      and ends: "unat x1 \<le> w" "unat y1 \<le> (unat (scissor_lry r) + 3) div 4"
      using clip Some by (simp_all add: w_def)
    have "rdram (draw_rows (\<lambda>row x y. fill_pixel video_bus r row x bpp) r (to_u32 (color_image_width r) * bpp)
          (range_u32 y0 y1) (range_u32 x0 x1) b) k =
        (if unat (color_image r) \<le> k \<and> p div w \<in> {unat y0..<unat y1} \<and> p mod w \<in> {unat x0..<unat x1}
         then paint_byte r (unat bpp) q else rdram b k)"
      using vm.fill_rows_cell [where limit = RDRAM_SIZE and rows = "(unat (scissor_lry r) + 3) div 4"
          and xs = "range_u32 x0 x1" and ys = "range_u32 y0 y1" and bpp = bpp and r = r and b = b and k = k]
        rdram_offset_small assms(3) bpp ends
      by (simp add: unat_range_u32 set_range_u32 Let_def RDRAM_SIZE_def q_def p_def w_def)
    moreover have "fill_rectangle video_bus r hi lo b =
        (if color_image_width r = 0 then b else
         draw_rows (\<lambda>row x y. fill_pixel video_bus r row x bpp) r (to_u32 (color_image_width r) * bpp)
          (range_u32 y0 y1) (range_u32 x0 x1) b)"
      using Some z assms(1,2) by (auto simp: fill_rectangle_def Let_def)
    moreover have "\<not> covered r hi lo (p mod w) (p div w)" if "color_image_width r = 0"
      using that by (simp add: covered_def w_def)
    ultimately show ?thesis
      unfolding Let_def q_def [symmetric] w_def [symmetric] p_def [symmetric] paint_byte_def
      using box by (auto simp: paint_byte_def w_def p_def)
  qed
qed

definition fill_example :: rdp where
  "fill_example = rdp_new\<lparr>color_image_size := 2, color_image_width := 320, color_image := 0x100000,
     fill_color := 0xF801F801, scissor_lrx := 1280, scissor_lry := 960,
     other_modes_of := (other_modes_of rdp_new)\<lparr>om_cycle_type := 3\<rparr>\<rparr>"

lemma fill_rectangle_paints_witness:
  "rdram (fill_rectangle video_bus fill_example 0x364FC3BC 0 bus_new) 0x100000 = 0xF8 \<and>
   rdram (fill_rectangle video_bus fill_example 0x364FC3BC 0 bus_new) 0xFFFFF = 0"
  using fill_rectangle_paints [of fill_example 2 "0x364FC3BC" 0 bus_new "0x100000"]
    fill_rectangle_paints [of fill_example 2 "0x364FC3BC" 0 bus_new "0xFFFFF"]
  by (simp add: fill_example_def rdp_new_def color_image_bpp_def CYCLE_TYPE_FILL_def RDRAM_SIZE_def covered_def
      Let_def unpack_rgba_def bus_new_def)

end
