(* ===== verification/Spec2Isabelle.thy ===== *)
theory Spec2Isabelle
  imports Regs Exec Cop0 Tlb Addr Except Softfloat_Ops Fpr Fpu Bus_Memory Fast_Steps Machine_Inv Pipeline_Refines Vu_Fixed Sched_Exec Scanout_Memo Scanout_Filters Sysad Boot Rdp_Safety Rdp_Fill
begin

text \<open>
  A verification library for RustyN64, a Nintendo 64 emulator written in Rust. It models the emulation
  core: the crates \<^verbatim>\<open>rustyn64-cpu\<close>, \<^verbatim>\<open>rustyn64-rsp\<close>, \<^verbatim>\<open>rustyn64-rdp\<close>, \<^verbatim>\<open>rustyn64-audio\<close>, \<^verbatim>\<open>rustyn64-cart\<close> and
  \<^verbatim>\<open>rustyn64-core\<close> under \<^verbatim>\<open>src/crates\<close>.

  \<^bold>\<open>The machine.\<close> \<^verbatim>\<open>System\<close> (\<^verbatim>\<open>core/scheduler.rs\<close>, theory \<open>System\<close>, record \<open>system\<close>) owns the processor, the bus with
  every other chip, one master tick counter and the phases drawn from the seed. The processor runs on every
  second tick, the coprocessor on every third: one coprocessor cycle (\<open>step_rcp\<close>) steps the signal
  processor, the display processor, the peripheral interface, the audio and the video interface. The
  processor sees the rest as the trait \<^verbatim>\<open>Bus\<close> (record \<open>bus_ops\<close>, instance \<open>system_bus\<close>), the display
  processor sees memory as the trait \<^verbatim>\<open>VideoBus\<close> (record \<open>video_ops\<close>, instance \<open>video_bus\<close>); a definition of
  the processor or of the drawing commands takes that record as an argument and holds of every bus. State is
  passed explicitly: a method of \<^verbatim>\<open>&mut self\<close> takes and returns the record.

  \<^bold>\<open>The processor\<close> (\<^verbatim>\<open>rustyn64-cpu\<close>).
  \<open>Regs\<close>, \<open>Alu\<close>, \<open>Mem\<close>, \<open>Decode\<close>, \<open>Exec\<close>: \<^verbatim>\<open>regs.rs\<close>, \<^verbatim>\<open>alu.rs\<close>, \<^verbatim>\<open>mem.rs\<close>, \<^verbatim>\<open>decode.rs\<close>, \<^verbatim>\<open>exec.rs\<close>, the
  pure core, one definition per function.
  \<open>Cop0\<close>, \<open>Tlb\<close>, \<open>Addr\<close>, \<open>Except\<close>: \<^verbatim>\<open>cop0.rs\<close>, \<^verbatim>\<open>tlb.rs\<close>, \<^verbatim>\<open>addr.rs\<close>, \<^verbatim>\<open>exception.rs\<close>, the system coprocessor.
  \<open>Softfloat\<close>, \<open>Fpu\<close>, \<open>Fpr\<close>: \<^verbatim>\<open>softfloat.rs\<close>, \<^verbatim>\<open>fpu.rs\<close>, \<^verbatim>\<open>fpr.rs\<close> and \<^verbatim>\<open>cop1.rs\<close>; a floating-point number is its
  bit pattern.
  \<open>BusTrait\<close>, \<open>Cache\<close>: the trait of \<^verbatim>\<open>lib.rs\<close>, \<^verbatim>\<open>cache.rs\<close> and the cache traffic of \<^verbatim>\<open>pipeline.rs\<close>.
  \<open>Stages\<close>, \<open>Pipe\<close>, \<open>Pipe_Mem\<close>, \<open>Pipe_Fp\<close>, \<open>Pipeline\<close>: \<^verbatim>\<open>pipeline.rs\<close>, the latches and their shared operations, the
  memory and the floating-point side, the five stages and the cycle \<open>advance_at\<close>.
  \<open>Fast\<close>: \<^verbatim>\<open>pipeline/fastexec.rs\<close> and the \<^verbatim>\<open>Cpu\<close> of \<^verbatim>\<open>lib.rs\<close>, an instruction with its delay slots per step.
  \<open>Sysad\<close>: \<^verbatim>\<open>sysad.rs\<close>.

  \<^bold>\<open>The signal processor\<close> (\<^verbatim>\<open>rustyn64-rsp\<close>). \<open>Sp\<close>, \<open>Rsp\<close>: \<^verbatim>\<open>sp.rs\<close> and \<^verbatim>\<open>lib.rs\<close>, the interface registers and the
  memories. \<open>Vu\<close>, \<open>Vu_Mem\<close>, \<open>Vu_Single\<close>: \<^verbatim>\<open>vu.rs\<close>, arithmetic, loads and stores, reciprocals. \<open>Su\<close>: \<^verbatim>\<open>su.rs\<close>,
  one step of the scalar unit.

  \<^bold>\<open>The display processor\<close> (\<^verbatim>\<open>rustyn64-rdp\<close>). \<open>Dpc\<close>: the command interface of \<^verbatim>\<open>lib.rs\<close> and \<^verbatim>\<open>command.rs\<close>.
  \<open>Rdp_Math\<close>, \<open>Rdp_State\<close>, \<open>Rdp_Pixel\<close>: its arithmetic, its state and texture memory, the colour of one pixel.
  \<open>Rdp_Draw\<close>, \<open>Rdp_Tri\<close>: rectangles and texture loads, triangles and the dispatcher.

  \<^bold>\<open>The rest of the console.\<close> \<open>Audio\<close>: \<^verbatim>\<open>rustyn64-audio/lib.rs\<close>. \<open>Cart\<close>, \<open>Pi_Dma\<close>, \<open>Save\<close>, \<open>Pif\<close>: \<^verbatim>\<open>rustyn64-cart\<close>,
  \<^verbatim>\<open>lib.rs\<close>, \<^verbatim>\<open>pi.rs\<close>, \<^verbatim>\<open>save.rs\<close>, \<^verbatim>\<open>pif.rs\<close>. \<open>Vi\<close>, \<open>Bus\<close>, \<open>Scanout\<close>, \<open>System\<close>, \<open>Boot\<close>: \<^verbatim>\<open>rustyn64-core\<close>, \<^verbatim>\<open>vi.rs\<close>, \<^verbatim>\<open>bus.rs\<close>
  (decode and DMA; the picture), \<^verbatim>\<open>scheduler.rs\<close> with \<^verbatim>\<open>fastpath.rs\<close>, \<^verbatim>\<open>boot.rs\<close>.

  \<^bold>\<open>Interfaces.\<close> \<open>zero_regfile\<close> (\<open>Prelude\<close>): a register file with a hardwired zero; \<open>Regs\<close> provides it.
  \<open>translator\<close> (\<open>Addr\<close>): what translation needs of a lookup; the TLB provides it. \<open>word_memory\<close> (\<open>BusTrait\<close>):
  what the caches need of a bus that leads to memory; \<open>Cache_Coherence\<close> proves the refinement inside it and
  \<open>Bus_Memory\<close> provides it for the RDRAM of \<open>system_bus\<close>. \<open>video_memory\<close> (\<open>Rdp_Memory\<close>): an address has a cell or
  none, a write changes its cell only, the hidden bits lie apart; \<open>System\<close> provides it for \<open>video_bus\<close>.

  \<^bold>\<open>What the lemmas show.\<close>
  Arithmetic: the ALU against exact integers with its errata (\<open>Alu\<close>); every operation's effect and exceptions
  (\<open>Exec\<close>); unaligned accesses byte by byte (\<open>Mem\<close>, \<open>Vu_Unaligned\<close>); floating point correctly rounded, and the
  rounding best among all the numbers of the format (\<open>Softfloat_Correct\<close>, \<open>Softfloat_Ops\<close>); vector fixed-point
  products exact (\<open>Vu_Fixed\<close>); the tables of the reciprocal unit (\<open>Vu_Single\<close>).
  State: masks and batched counters of coprocessor 0, the TLB's unique match and round trip, exception entry
  and return; the shape of the reachable processor (\<open>Machine_Shape\<close>, \<open>Machine_Inv\<close>) and of the signal processor
  (\<open>Rsp_Inv\<close>), which keep array lengths and field masks and say nothing of the indices the code computes.
  Memory: the data cache refines a flat memory over the console's bus (\<open>Cache_Coherence\<close>, \<open>Bus_Memory\<close>).
  Engines: a pipeline cycle executes one instruction and agrees with the instruction engine
  (\<open>Pipeline_Refines\<close>); when a step of that engine returns, and that it may not (\<open>Fast_Steps\<close>); its idle
  shortcuts are executions (\<open>Fast_Idle\<close>).
  Drawing: no command writes outside the scissor box (\<open>Rdp_Memory\<close>, \<open>Rdp_Safety\<close>); a fill rectangle paints exactly
  its pixels (\<open>Rdp_Fill\<close>); the depth buffer's round trip (\<open>Rdp_Depth\<close>); the memo of the scan-out is transparent
  (\<open>Scanout_Memo\<close>) and its filters are an integer root, a median and a blend (\<open>Scanout_Filters\<close>).
  Time: the edge and the block scheduler are the plain clock (\<open>Sched\<close>, \<open>Sched_Run\<close>); the instruction scheduler
  keeps the coprocessor's beat and fails to return exactly when an instruction does not or a drawing panics
  (\<open>Sched_Exec\<close>); the counters of the video and the audio interface are divisions of elapsed time.

  \<^bold>\<open>Loops, panics and bounds.\<close> A loop whose end is not evident is a \<open>partial_function (option)\<close>: the audio
  catch-up, the step of the instruction engine and the schedulers. \<open>None\<close> is then a loop that never
  returns, and the theorems say when the result is \<open>Some\<close>. The other loops terminate by a measure (\<open>joy_loop\<close> by its
  growing index, \<open>vi_scan\<close> by the ticks left, the bisection and the square root by their range). No fuel is
  used. A panic is \<open>None\<close> too where the code can reach one: every array index of the PIF interpreter, and the
  clamp of a triangle's edges to a scissor whose left edge is right of its right one. The hypotheses on the
  64-bit master counter (8, \<open>2 ^ 28\<close> or \<open>2 ^ 35\<close> ticks below \<open>2 ^ 64\<close>) keep it from wrapping within one period, one sample
  or one instruction: it wraps after three thousand years of emulated time. Machine integers are words
  that wrap, as the release build does; the exponents of \<open>Softfloat\<close> and the accumulator sums of \<open>Vu\<close> are \<open>int\<close> where the
  code has \<^verbatim>\<open>i32\<close> and \<^verbatim>\<open>i64\<close>, and stay far within those.

  \<^bold>\<open>Not modelled.\<close> The frontend (\<^verbatim>\<open>rustyn64-frontend\<close>: windows, sound, input, files and threads around the
  core), the GPU backend and the test harness, which call external libraries; \<^verbatim>\<open>rustyn64-snapshot\<close>, serialisation glue;
  \<^verbatim>\<open>rustyn64-netplay\<close> and \<^verbatim>\<open>rustyn64-cheevos\<close>, which hold no code yet. Within the core: the serialised form of the
  state, the work counters, the censuses, the dirty-page map and the command taps, optional instrumentation
  that nothing reads back, and \<^verbatim>\<open>debug_assert\<close>, which a release build drops.
\<close>

end
